(* ===== verification/Prelude.thy ===== *)
theory Prelude
  imports
    Complex_Main
    "HOL-Library.AList"
    "HOL-Library.Char_ord"
    "HOL-Library.List_Lexorder"
    "HOL-Library.Product_Lexorder"
    "HOL-Library.Multiset"
    "HOL-Library.Sublist"
begin

text \<open>
  Shared vocabulary of the development: the exceptions and the result type of
  fallible Python code, Python strings (a \<^typ>\<open>string\<close> is the list of the
  string's code points, ordered as Python orders strings), dictionaries as
  association lists in insertion order, the stable \<open>sorted(..., key=...)\<close>,
  \<open>max(..., key=...)\<close>, and the generic lemmas on lists that several components use.
\<close>

section \<open>Collections of lemmas\<close>

named_theorems valid_defs \<open>definitions of the validators of the domain models\<close>
named_theorems op_defs \<open>definitions of the operations of a component\<close>
named_theorems frame_simps \<open>what an operation leaves unchanged\<close>

section \<open>Exceptions and results\<close>

datatype py_error =
    ValueError string
  | KeyError string
  | OverflowError string
  | RuntimeError string
  | ValidationError
  | ControlGraphError string
  | SchedulerConflictError string
  | OrToolsOptimizerError string
  | IntegrityError string
  | MissingStateError string
  | ConcurrentStateChangeError string
  | PersistenceError string
  | IdempotencyConflictError string
  | UnknownCommandError string

type_synonym 'a result = "py_error + 'a"

definition res_bind :: "'a result \<Rightarrow> ('a \<Rightarrow> 'b result) \<Rightarrow> 'b result" where
  "res_bind m f = (case m of Inl e \<Rightarrow> Inl e | Inr x \<Rightarrow> f x)"

lemma res_bind_simps [simp]:
  "res_bind (Inl e) f = Inl e"
  "res_bind (Inr x) f = f x"
  by (simp_all add: res_bind_def)

lemma res_bind_eq_Inr [simp]: "res_bind m f = Inr y \<longleftrightarrow> (\<exists>x. m = Inr x \<and> f x = Inr y)"
  by (cases m) auto

primrec fold_res :: "('b \<Rightarrow> 'a \<Rightarrow> 'b result) \<Rightarrow> 'b \<Rightarrow> 'a list \<Rightarrow> 'b result" where
  "fold_res f s [] = Inr s"
| "fold_res f s (x # xs) = res_bind (f s x) (\<lambda>s'. fold_res f s' xs)"

lemma fold_res_append:
  "fold_res f s (xs @ ys) = res_bind (fold_res f s xs) (\<lambda>s'. fold_res f s' ys)"
  by (induction xs arbitrary: s) (simp_all add: res_bind_def split: sum.splits)

lemma fold_res_invariant:
  assumes "fold_res f s xs = Inr t" and "I s"
    and "\<And>s x s'. I s \<Longrightarrow> x \<in> set xs \<Longrightarrow> f s x = Inr s' \<Longrightarrow> I s'"
  shows "I t"
  using assms
proof (induction xs arbitrary: s)
  case Nil
  then show ?case by simp
next
  case (Cons x xs)
  from Cons.prems(1) obtain s' where s': "f s x = Inr s'" "fold_res f s' xs = Inr t"
    by auto
  have "I s'" using Cons.prems(2,3) s'(1) by (meson list.set_intros(1))
  then show ?case
    using Cons.IH [OF s'(2)] Cons.prems(3) by (meson list.set_intros(2))
qed

primrec map_res :: "('a \<Rightarrow> 'b result) \<Rightarrow> 'a list \<Rightarrow> 'b list result" where
  "map_res f [] = Inr []"
| "map_res f (x # xs) = res_bind (f x) (\<lambda>y. res_bind (map_res f xs) (\<lambda>ys. Inr (y # ys)))"

lemma map_res_total: "(\<And>x. x \<in> set xs \<Longrightarrow> f x = Inr (g x)) \<Longrightarrow> map_res f xs = Inr (map g xs)"
  by (induction xs) auto

lemma map_res_set: "map_res f xs = Inr ys \<Longrightarrow> y \<in> set ys \<Longrightarrow> \<exists>x \<in> set xs. f x = Inr y"
  by (induction xs arbitrary: ys) auto

lemma map_res_element: "x \<in> set xs \<Longrightarrow> f x = Inl e \<Longrightarrow> \<exists>e'. map_res f xs = Inl e'"
  by (induction xs) (auto simp: res_bind_def split: sum.splits)

section \<open>Strings\<close>

text \<open>Python's white space among the code points below 256.\<close>

definition is_space :: "char \<Rightarrow> bool" where
  "is_space c \<longleftrightarrow> of_char c \<in> ({9, 10, 11, 12, 13, 28, 29, 30, 31, 32, 133, 160} :: nat set)"

definition strip_by :: "(char \<Rightarrow> bool) \<Rightarrow> string \<Rightarrow> string" where
  "strip_by P s = rev (dropWhile P (rev (dropWhile P s)))"

definition py_strip :: "string \<Rightarrow> string" where
  "py_strip s = strip_by is_space s"

definition rstrip_char :: "char \<Rightarrow> string \<Rightarrow> string" where
  "rstrip_char c s = rev (dropWhile (\<lambda>d. d = c) (rev s))"

definition replace_char :: "char \<Rightarrow> char \<Rightarrow> string \<Rightarrow> string" where
  "replace_char a b s = map (\<lambda>c. if c = a then b else c) s"

definition startswith :: "string \<Rightarrow> string \<Rightarrow> bool" where
  "startswith s p \<longleftrightarrow> prefix p s"

fun split_on :: "char \<Rightarrow> string \<Rightarrow> string list" where
  "split_on c [] = [[]]"
| "split_on c (x # xs) =
     (if x = c then [] # split_on c xs
      else (case split_on c xs of [] \<Rightarrow> [[x]] | p # ps \<Rightarrow> (x # p) # ps))"

fun join_str :: "string \<Rightarrow> string list \<Rightarrow> string" where
  "join_str sep [] = []"
| "join_str sep [s] = s"
| "join_str sep (s # t # ss) = s @ sep @ join_str sep (t # ss)"

lemma split_on_not_Nil [simp]: "split_on c s \<noteq> []"
  by (induction s) (auto split: list.splits)

lemma split_on_append: "split_on c (s @ c # t) = split_on c s @ split_on c t"
proof (induction s)
  case (Cons x s)
  then show ?case by (cases "split_on c s") (auto simp: split_on_not_Nil)
qed simp

lemma join_split_on [simp]: "join_str [c] (split_on c s) = s"
proof (induction s)
  case (Cons x s)
  then show ?case
    by (cases "split_on c s" rule: list.exhaust; cases "tl (split_on c s)") auto
qed simp

lemma split_on_inject [simp]: "split_on c s = split_on c t \<longleftrightarrow> s = t"
  by (metis join_split_on)

lemma join_str_append:
  "xs \<noteq> [] \<Longrightarrow> ys \<noteq> [] \<Longrightarrow> join_str sep (xs @ ys) = join_str sep xs @ sep @ join_str sep ys"
proof (induction xs)
  case (Cons x xs)
  then show ?case by (cases xs; cases ys) auto
qed simp

text \<open>A path is below another one exactly if its segments extend the other's.\<close>

lemma prefix_split_on: "prefix (split_on c r) (split_on c l) \<longleftrightarrow> l = r \<or> prefix (r @ [c]) l"
proof
  assume "prefix (split_on c r) (split_on c l)"
  then obtain zs where zs: "split_on c l = split_on c r @ zs" by (auto simp: prefix_def)
  show "l = r \<or> prefix (r @ [c]) l"
  proof (cases "zs = []")
    case False
    then have "l = r @ [c] @ join_str [c] zs"
      using join_str_append [of "split_on c r" zs "[c]"] zs join_split_on [of c l] by simp
    then show ?thesis by (auto simp: prefix_def)
  qed (use zs in auto)
next
  assume "l = r \<or> prefix (r @ [c]) l"
  then show "prefix (split_on c r) (split_on c l)"
    by (auto simp: prefix_def split_on_append)
qed

definition digit_char :: "nat \<Rightarrow> char" where
  "digit_char d = char_of (48 + d)"

fun digits :: "nat \<Rightarrow> string" where
  "digits n = (if n < 10 then [digit_char n] else digits (n div 10) @ [digit_char (n mod 10)])"

declare digits.simps [simp del]

definition str_int :: "int \<Rightarrow> string" where
  "str_int i = (if i < 0 then ''-'' @ digits (nat (- i)) else digits (nat i))"

definition is_upper_char :: "char \<Rightarrow> bool" where
  "is_upper_char c \<longleftrightarrow> CHR ''A'' \<le> c \<and> c \<le> CHR ''Z''"

definition is_lower_char :: "char \<Rightarrow> bool" where
  "is_lower_char c \<longleftrightarrow> CHR ''a'' \<le> c \<and> c \<le> CHR ''z''"

definition is_digit_char :: "char \<Rightarrow> bool" where
  "is_digit_char c \<longleftrightarrow> CHR ''0'' \<le> c \<and> c \<le> CHR ''9''"

definition is_hex_upper :: "char \<Rightarrow> bool" where
  "is_hex_upper c \<longleftrightarrow> is_digit_char c \<or> (CHR ''A'' \<le> c \<and> c \<le> CHR ''F'')"

definition is_hex_lower :: "char \<Rightarrow> bool" where
  "is_hex_lower c \<longleftrightarrow> is_digit_char c \<or> (CHR ''a'' \<le> c \<and> c \<le> CHR ''f'')"

definition upper_char :: "char \<Rightarrow> char" where
  "upper_char c = (if is_lower_char c then char_of (of_char c - 32 :: nat) else c)"

definition lower_char :: "char \<Rightarrow> char" where
  "lower_char c = (if is_upper_char c then char_of (of_char c + 32 :: nat) else c)"

lemma startswith_Nil [simp]: "startswith s []"
  by (simp add: startswith_def)

lemma startswith_iff: "startswith s p \<longleftrightarrow> (\<exists>t. s = p @ t)"
  by (auto simp: startswith_def prefix_def)

lemma strip_by_Nil: "strip_by P s = [] \<longleftrightarrow> list_all P s"
proof
  assume "strip_by P s = []"
  then have all: "\<forall>c \<in> set (dropWhile P s). P c" by (simp add: strip_by_def)
  then have "dropWhile P s = []" using hd_dropWhile [of P s] by (metis list.set_sel(1))
  then show "list_all P s" by (simp add: list_all_iff)
next
  assume "list_all P s"
  then have "dropWhile P s = []" by (simp add: list_all_iff)
  then show "strip_by P s = []" by (simp only: strip_by_def rev.simps dropWhile.simps)
qed

lemma digit_not_space: "d < 10 \<Longrightarrow> \<not> is_space (digit_char d)"
proof -
  assume "d < 10"
  then have "d \<in> set [0..<10]" by simp
  moreover have "\<forall>d \<in> set [0..<10]. \<not> is_space (digit_char d)" by code_simp
  ultimately show ?thesis by blast
qed

lemma digits_not_blank: "py_strip (digits n) \<noteq> []"
proof -
  have "\<exists>c \<in> set (digits n). \<not> is_space c"
    by (subst digits.simps) (auto simp: digit_not_space)
  then show ?thesis by (auto simp: py_strip_def strip_by_Nil list_all_iff)
qed

lemma str_int_not_blank [simp]: "py_strip (str_int i) \<noteq> []"
proof (cases "i < 0")
  case True
  have "\<not> is_space CHR ''-''" by code_simp
  with True show ?thesis by (simp add: str_int_def py_strip_def strip_by_Nil)
qed (simp add: str_int_def digits_not_blank)

section \<open>Optional values and time\<close>

text \<open>
  \<open>falsy\<close> is Python's \<open>not value\<close> for an optional string.  A \<open>datetime\<close> is naive or
  aware; an aware one is the instant it denotes, in microseconds since the start of year 1, and
  \<open>astimezone(UTC)\<close> keeps the instant.
\<close>

definition falsy :: "string option \<Rightarrow> bool" where
  "falsy v \<longleftrightarrow> v = None \<or> v = Some []"

definition max_length :: "nat \<Rightarrow> string option \<Rightarrow> bool" where
  "max_length n v = (case v of None \<Rightarrow> True | Some s \<Rightarrow> length s \<le> n)"

datatype py_datetime = Naive int | Aware (instant: int)

fun is_aware :: "py_datetime \<Rightarrow> bool" where
  "is_aware (Naive t) = False"
| "is_aware (Aware t) = True"

definition microseconds :: int where
  "microseconds = 1000000"

section \<open>Sequences\<close>

text \<open>
  \<open>tuple(sorted(set(xs)))\<close>, and \<open>itertools.combinations(xs, 2)\<close>, which is also the order of
  the nested loops over an index and the elements after it.
\<close>

definition sorted_set :: "'a :: linorder list \<Rightarrow> 'a list" where
  "sorted_set xs = sort (remdups xs)"

fun pairs :: "'a list \<Rightarrow> ('a \<times> 'a) list" where
  "pairs [] = []"
| "pairs (x # xs) = map (Pair x) xs @ pairs xs"

lemma set_sorted_set [simp]: "set (sorted_set xs) = set xs"
  by (simp add: sorted_set_def)

lemma sorted_set_Nil [simp]: "sorted_set xs = [] \<longleftrightarrow> xs = []"
  by (metis set_empty set_sorted_set)

lemma set_pairs: "(a, b) \<in> set (pairs xs) \<Longrightarrow> a \<in> set xs \<and> b \<in> set xs"
  by (induction xs) auto

lemma pairs_cover:
  "a \<in> set xs \<Longrightarrow> b \<in> set xs \<Longrightarrow> a \<noteq> b \<Longrightarrow> (a, b) \<in> set (pairs xs) \<or> (b, a) \<in> set (pairs xs)"
  by (induction xs) auto

lemma pairs_distinct: "distinct xs \<Longrightarrow> (a, b) \<in> set (pairs xs) \<Longrightarrow> a \<noteq> b"
  by (induction xs) auto

lemma pairs_sorted: "sorted (map f xs) \<Longrightarrow> (a, b) \<in> set (pairs xs) \<Longrightarrow> f a \<le> f b"
  by (induction xs) auto

lemma pairs_map: "pairs (map f xs) = map (map_prod f f) (pairs xs)"
  by (induction xs) auto

text \<open>Sorting by a key and numbering.\<close>

lemma insort_key_map: "insort_key k (g x) (map g xs) = map g (insort_key (\<lambda>x. k (g x)) x xs)"
  by (induction xs) simp_all

lemma sort_key_map: "sort_key k (map g xs) = map g (sort_key (\<lambda>x. k (g x)) xs)"
  by (induction xs) (simp_all add: insort_key_map)

lemma insort_key_cong: "(\<And>y. y \<in> set (x # xs) \<Longrightarrow> k y = l y) \<Longrightarrow> insort_key k x xs = insort_key l x xs"
  by (induction xs) auto

lemma sort_key_cong: "(\<And>x. x \<in> set xs \<Longrightarrow> k x = l x) \<Longrightarrow> sort_key k xs = sort_key l xs"
proof (induction xs)
  case (Cons x xs)
  then have "sort_key k xs = sort_key l xs" by simp
  then show ?case using Cons.prems by (auto intro: insort_key_cong)
qed simp

lemma distinct_map_sort_key: "distinct (map f (sort_key k xs)) \<longleftrightarrow> distinct (map f xs)"
  by (simp add: distinct_map)

lemma map_res_map: "map_res f (map g xs) = map_res (\<lambda>x. f (g x)) xs"
  by (induction xs) simp_all

lemma enumerate_map: "enumerate n (map g xs) = map (\<lambda>(i, x). (i, g x)) (enumerate n xs)"
  by (induction xs arbitrary: n) simp_all

lemma map_enumerate_snd: "map (\<lambda>p. f (snd p)) (enumerate n xs) = map f xs"
  by (induction xs arbitrary: n) simp_all

lemma sorted_wrt_enumerate: "sorted_wrt (\<lambda>p q. R (snd p) (snd q)) (enumerate n xs) \<longleftrightarrow> sorted_wrt R xs"
proof (induction xs arbitrary: n)
  case (Cons x xs)
  have "set xs = snd ` set (enumerate (Suc n) xs)" by (metis list.set_map map_snd_enumerate)
  then show ?case using Cons.IH [of "Suc n"] by simp
qed simp

lemma sort_key_strict:
  "inj_on k (set xs) \<Longrightarrow> distinct xs \<Longrightarrow> sorted_wrt (\<lambda>x y. k x < k y) (sort_key k xs)"
  using strict_sorted_iff [of "map k (sort_key k xs)"] sorted_sort_key [of k xs]
  by (simp add: distinct_map sorted_wrt_map)

lemma map_enumerate_fst: "map (\<lambda>p. f (fst p)) (enumerate n xs) = map f [n..<n + length xs]"
  unfolding map_fst_enumerate [symmetric] by (simp add: comp_def del: map_fst_enumerate)

lemma sort_key_perm: "mset xs = mset ys \<Longrightarrow> distinct (map k xs) \<Longrightarrow> sort_key k xs = sort_key k ys"
  by (rule sort_key_inj_key_eq) (simp_all add: distinct_map)

lemma enumerateD: "(i, x) \<in> set (enumerate n xs) \<Longrightarrow> n \<le> i \<and> x \<in> set xs"
  by (auto simp: in_set_enumerate_eq)

lemma sorted_wrt_subseq: "subseq xs ys \<Longrightarrow> sorted_wrt R ys \<Longrightarrow> sorted_wrt R xs"
proof (induction rule: list_emb.induct)
  case (list_emb_Cons2 x y xs ys)
  then show ?case using list_emb_set [of "(=)" xs ys] by fastforce
qed auto

lemma sorted_wrt_perm:
  assumes sym: "\<And>x y. R x y \<Longrightarrow> R y x"
  shows "mset xs = mset ys \<Longrightarrow> sorted_wrt R xs \<Longrightarrow> sorted_wrt R ys"
proof (induction ys arbitrary: xs)
  case (Cons y ys)
  then have "y \<in> set xs" by (metis list.set_intros(1) mset_eq_setD)
  then obtain as bs where xs: "xs = as @ y # bs" by (meson split_list)
  then have m: "mset (as @ bs) = mset ys" using Cons.prems(1) by simp
  have "sorted_wrt R (as @ bs)" using Cons.prems(2) by (auto simp: xs sorted_wrt_append)
  then have "sorted_wrt R ys" using Cons.IH [OF m] by simp
  moreover have "R y z" if "z \<in> set as \<or> z \<in> set bs" for z
    using that Cons.prems(2) sym by (auto simp: xs sorted_wrt_append)
  then have "\<forall>z \<in> set ys. R y z" using mset_eq_setD [OF m] by auto
  ultimately show ?case by simp
qed simp

lemma insort_key_snoc: "k x \<le> k y \<Longrightarrow> insort_key k x (zs @ [y]) = insort_key k x zs @ [y]"
  by (induction zs) auto

lemma sort_key_snoc: "\<forall>x \<in> set xs. k x \<le> k y \<Longrightarrow> sort_key k (xs @ [y]) = sort_key k xs @ [y]"
  by (induction xs) (auto simp: insort_key_snoc)

text \<open>\<open>max(xs, key=key)\<close> of a non-empty sequence: the first element with the largest key.\<close>

fun max_by :: "('a \<Rightarrow> 'b :: linorder) \<Rightarrow> 'a \<Rightarrow> 'a list \<Rightarrow> 'a" where
  "max_by key best [] = best"
| "max_by key best (x # xs) = max_by key (if key best < key x then x else best) xs"

lemma max_by_key: "key (max_by key best xs) = Max (key ` set (best # xs))"
proof (induction xs arbitrary: best)
  case (Cons x xs)
  show ?case using Cons.IH [of "if key best < key x then x else best"]
    by (cases "set xs = {}") (auto simp: max_def)
qed simp

lemma max_by_in: "max_by key best xs \<in> set (best # xs)"
  by (induction xs arbitrary: best) (auto split: if_splits)

section \<open>Dictionaries\<close>

text \<open>
  A dictionary is an association list in insertion order.  Assignment
  (\<open>AList.update\<close>) replaces the value of an existing key in place and appends a
  new key, as Python does.
\<close>

type_synonym ('k, 'v) dict = "('k \<times> 'v) list"

definition dict_of :: "('k \<times> 'v) list \<Rightarrow> ('k, 'v) dict" where
  "dict_of ps = fold (\<lambda>(k, v). AList.update k v) ps []"

definition dict_get :: "('k \<Rightarrow> string) \<Rightarrow> ('k, 'v) dict \<Rightarrow> 'k \<Rightarrow> 'v result" where
  "dict_get sh d k = (case map_of d k of None \<Rightarrow> Inl (KeyError (sh k)) | Some v \<Rightarrow> Inr v)"

definition get_default :: "('k, 'v) dict \<Rightarrow> 'k \<Rightarrow> 'v \<Rightarrow> 'v" where
  "get_default d k v = (case map_of d k of None \<Rightarrow> v | Some w \<Rightarrow> w)"

lemma get_default_update [simp]:
  "get_default (AList.update k v d) j z = (if j = k then v else get_default d j z)"
  by (simp add: get_default_def update_conv')

lemma get_default_Nil [simp]: "get_default [] k v = v"
  by (simp add: get_default_def)

lemma fold_update_map_of:
  "map_of (fold (\<lambda>(k, v). AList.update k v) ps d) = map_of d ++ map_of (rev ps)"
proof (induction ps arbitrary: d)
  case Nil
  then show ?case by simp
next
  case (Cons p ps)
  obtain k v where p: "p = (k, v)" by (cases p)
  show ?case
    by (rule ext) (simp add: p Cons.IH update_conv' map_add_def split: option.split)
qed

lemma dict_of_map_of: "map_of (dict_of ps) = map_of (rev ps)"
  by (simp add: dict_of_def fold_update_map_of)

lemma update_append_new: "k \<notin> fst ` set d \<Longrightarrow> AList.update k v d = d @ [(k, v)]"
  by (induction d) auto

lemma fold_update_append:
  assumes "distinct (map fst (d @ ps))"
  shows "fold (\<lambda>(k, v). AList.update k v) ps d = d @ ps"
  using assms
proof (induction ps arbitrary: d)
  case Nil
  then show ?case by simp
next
  case (Cons p ps)
  obtain k v where p: "p = (k, v)" by (cases p)
  have "k \<notin> fst ` set d" using Cons.prems p by auto
  then have upd: "AList.update k v d = d @ [(k, v)]"
    by (rule update_append_new)
  have "distinct (map fst ((d @ [(k, v)]) @ ps))" using Cons.prems p by simp
  from Cons.IH [OF this] show ?case by (simp add: p upd)
qed

lemma fold_update_keys:
  "set (map fst (fold (\<lambda>(k, v). AList.update k v) ps d)) = set (map fst d) \<union> set (map fst ps)"
  by (induction ps arbitrary: d) (auto simp: dom_update split_beta)

lemma fold_update_distinct:
  "distinct (map fst d) \<Longrightarrow> distinct (map fst (fold (\<lambda>(k, v). AList.update k v) ps d))"
  by (induction ps arbitrary: d) (auto simp: distinct_update split_beta)

lemma dict_of_distinct: "distinct (map fst ps) \<Longrightarrow> dict_of ps = ps"
  using fold_update_append [of "[]" ps] by (simp add: dict_of_def)

text \<open>The duplicate test of the code: a dictionary built from pairs is as long as they are.\<close>

lemma length_dict_of: "length (dict_of ps) = length ps \<longleftrightarrow> distinct (map fst ps)"
proof
  assume len: "length (dict_of ps) = length ps"
  have "distinct (map fst (dict_of ps))" unfolding dict_of_def by (rule fold_update_distinct) simp
  then have "card (set (map fst ps)) = length (map fst ps)"
    using fold_update_keys [of ps "[]"] len distinct_card [of "map fst (dict_of ps)"] by (simp add: dict_of_def)
  then show "distinct (map fst ps)" by (rule card_distinct)
qed (simp add: dict_of_distinct)

lemma map_of_sort:
  assumes "distinct (map fst d)"
  shows "map_of (sort d) = map_of (d :: ('k :: linorder, 'v :: linorder) dict)"
proof (rule map_of_inject_set [THEN iffD2])
  show "distinct (map fst (sort d))"
    using assms by (metis mset_eq_imp_distinct_iff mset_map mset_sort)
qed (use assms in simp_all)

end
