(* ===== verification/Regex.thy ===== *)
theory Regex
  imports Prelude
begin

text \<open>
  The part of Python's \<open>re\<close> module the identifier patterns use: character classes,
  literals, repetition and alternatives, with \<open>fullmatch\<close> computed by derivatives.
  \<open>fullmatch_iff\<close> shows that the matcher decides membership in the language of the
  pattern; the lemmas on literals and repetitions read patterns such as
  \<open>^TRACE-[A-F0-9]{20}$\<close> as conditions on the string.
\<close>

section \<open>Patterns and the matcher\<close>

datatype rx =
    RNone
  | REps
  | RChr "char \<Rightarrow> bool"
  | RAlt rx rx
  | RSeq rx rx
  | RStar rx

fun nullable :: "rx \<Rightarrow> bool" where
  "nullable RNone = False"
| "nullable REps = True"
| "nullable (RChr P) = False"
| "nullable (RAlt r s) = (nullable r \<or> nullable s)"
| "nullable (RSeq r s) = (nullable r \<and> nullable s)"
| "nullable (RStar r) = True"

fun deriv :: "char \<Rightarrow> rx \<Rightarrow> rx" where
  "deriv c RNone = RNone"
| "deriv c REps = RNone"
| "deriv c (RChr P) = (if P c then REps else RNone)"
| "deriv c (RAlt r s) = RAlt (deriv c r) (deriv c s)"
| "deriv c (RSeq r s) =
     (if nullable r then RAlt (RSeq (deriv c r) s) (deriv c s) else RSeq (deriv c r) s)"
| "deriv c (RStar r) = RSeq (deriv c r) (RStar r)"

definition fullmatch :: "rx \<Rightarrow> string \<Rightarrow> bool" where
  "fullmatch r s = nullable (fold deriv s r)"

primrec rlit :: "string \<Rightarrow> rx" where
  "rlit [] = REps"
| "rlit (c # cs) = RSeq (RChr (\<lambda>d. d = c)) (rlit cs)"

primrec rtimes :: "nat \<Rightarrow> (char \<Rightarrow> bool) \<Rightarrow> rx" where
  "rtimes 0 P = REps"
| "rtimes (Suc n) P = RSeq (RChr P) (rtimes n P)"

definition rplus :: "rx \<Rightarrow> rx" where
  "rplus r = RSeq r (RStar r)"

primrec ralts :: "rx list \<Rightarrow> rx" where
  "ralts [] = RNone"
| "ralts (r # rs) = RAlt r (ralts rs)"

section \<open>The language of a pattern\<close>

inductive_set star :: "string set \<Rightarrow> string set" for A where
  star_Nil: "[] \<in> star A"
| star_app: "u \<in> A \<Longrightarrow> v \<in> star A \<Longrightarrow> u @ v \<in> star A"

fun lang :: "rx \<Rightarrow> string set" where
  "lang RNone = {}"
| "lang REps = {[]}"
| "lang (RChr P) = {[c] | c. P c}"
| "lang (RAlt r s) = lang r \<union> lang s"
| "lang (RSeq r s) = {u @ v | u v. u \<in> lang r \<and> v \<in> lang s}"
| "lang (RStar r) = star (lang r)"

lemma nullable_iff: "nullable r \<longleftrightarrow> [] \<in> lang r"
  by (induction r) (auto intro: star_Nil)

lemma star_Cons:
  "c # s \<in> star A \<longleftrightarrow> (\<exists>u v. s = u @ v \<and> c # u \<in> A \<and> v \<in> star A)"
proof
  assume "c # s \<in> star A"
  then show "\<exists>u v. s = u @ v \<and> c # u \<in> A \<and> v \<in> star A"
  proof (induction "c # s" rule: star.induct)
    case (star_app u v)
    then show ?case by (cases u) auto
  qed
next
  assume "\<exists>u v. s = u @ v \<and> c # u \<in> A \<and> v \<in> star A"
  then obtain u v where "s = u @ v" "c # u \<in> A" "v \<in> star A" by blast
  then show "c # s \<in> star A" using star_app [of "c # u" A v] by simp
qed

lemma lang_deriv: "s \<in> lang (deriv c r) \<longleftrightarrow> c # s \<in> lang r"
proof (induction r arbitrary: s)
  case (RSeq r1 r2)
  show ?case
    by (auto simp: RSeq Cons_eq_append_conv nullable_iff)
next
  case (RStar r)
  show ?case by (auto simp: RStar star_Cons)
qed auto

theorem fullmatch_iff: "fullmatch r s \<longleftrightarrow> s \<in> lang r"
  unfolding fullmatch_def
  by (induction s arbitrary: r) (simp_all add: nullable_iff lang_deriv)

lemma lang_rlit [simp]: "lang (rlit p) = {p}"
  by (induction p) auto

lemma lang_chr_seq:
  "c # t \<in> lang (RSeq (RChr P) r) \<longleftrightarrow> P c \<and> t \<in> lang r"
  "[] \<notin> lang (RSeq (RChr P) r)"
  using lang_deriv [of t c "RSeq (RChr P) r"] by auto

lemma lang_rtimes: "lang (rtimes n P) = {s. length s = n \<and> list_all P s}"
proof (induction n)
  case 0
  then show ?case by auto
next
  case (Suc n)
  have "u \<in> lang (rtimes (Suc n) P) \<longleftrightarrow> length u = Suc n \<and> list_all P u" for u
    by (cases u) (auto simp: Suc lang_chr_seq simp del: lang.simps)
  then show ?case by blast
qed

lemma lang_ralts: "lang (ralts rs) = (\<Union>r \<in> set rs. lang r)"
  by (induction rs) auto

lemma star_chr: "star {[c] | c. P c} = {s. list_all P s}"
proof (intro set_eqI iffI)
  fix s assume "s \<in> star {[c] | c. P c}"
  then show "s \<in> {s. list_all P s}" by (induction rule: star.induct) auto
next
  fix s assume "s \<in> {s. list_all P s}"
  then show "s \<in> star {[c] | c. P c}"
  proof (induction s)
    case Nil
    then show ?case by (simp add: star_Nil)
  next
    case (Cons c s)
    then show ?case using star_app [of "[c]" "{[c] | c. P c}" s] by auto
  qed
qed

lemma lang_rplus_chr: "lang (rplus (RChr P)) = {s. s \<noteq> [] \<and> list_all P s}"
proof (intro set_eqI)
  fix s show "s \<in> lang (rplus (RChr P)) \<longleftrightarrow> s \<in> {s. s \<noteq> [] \<and> list_all P s}"
    by (cases s) (simp_all add: rplus_def lang_chr_seq star_chr del: lang.simps(5))
qed

lemma lang_lit_seq: "lang (RSeq (rlit p) r) = {p @ s | s. s \<in> lang r}"
  by auto

end
