(* ===== verification/Sha256.thy ===== *)
theory Sha256
  imports Prelude "HOL-Library.Word"
begin

unbundle bit_operations_syntax

text \<open>
  The part of \<open>hashlib\<close> the program uses: \<open>hashlib.sha256(text.encode("utf-8")).hexdigest()\<close>
  as the executable function \<open>sha256_hex\<close>, on 32 bit words whose addition wraps.
  The components use two facts of it: it is a function of the text, and its value is
  64 lower case hexadecimal digits.
\<close>

section \<open>UTF-8 and padding\<close>

definition utf8_char :: "char \<Rightarrow> int list" where
  "utf8_char c =
     (let n = of_char c
      in if n < 128 then [n] else [192 + n div 64, 128 + n mod 64])"

definition encode_utf8 :: "string \<Rightarrow> int list" where
  "encode_utf8 s = concat (map utf8_char s)"

definition be_bytes :: "nat \<Rightarrow> int \<Rightarrow> int list" where
  "be_bytes k n = map (\<lambda>i. (n div 256 ^ (k - 1 - i)) mod 256) [0..<k]"

definition sha_pad :: "int list \<Rightarrow> int list" where
  "sha_pad m =
     (let l = length m; z = (119 - l mod 64) mod 64
      in m @ [128] @ replicate z 0 @ be_bytes 8 (8 * int l))"

fun words_of :: "int list \<Rightarrow> 32 word list" where
  "words_of (a # b # c # d # xs) =
     of_int (((a * 256 + b) * 256 + c) * 256 + d) # words_of xs"
| "words_of _ = []"

section \<open>The compression function\<close>

text \<open>
  The round constants and the initial state are the first 32 bits of the fractional parts of
  the cube roots of the first 64 primes and of the square roots of the first 8;
  \<open>root_floor\<close> is the integer part of a root below \<open>2 ^ 36\<close>, found bit by bit.
\<close>

definition root_floor :: "nat \<Rightarrow> int \<Rightarrow> int" where
  "root_floor k n = fold (\<lambda>i r. if (r + 2 ^ i) ^ k \<le> n then r + 2 ^ i else r) (rev [0..<36]) 0"

definition primes_to :: "int \<Rightarrow> int list" where
  "primes_to m = filter (\<lambda>p. list_all (\<lambda>d. p mod d \<noteq> 0) [2..p - 1]) [2..m]"

definition root_fraction :: "nat \<Rightarrow> int \<Rightarrow> 32 word" where
  "root_fraction k p = of_int (root_floor k (p * 2 ^ (32 * k)))"

definition sha_k :: "32 word list" where
  "sha_k = map (root_fraction 3) (primes_to 311)"

datatype sha_state =
  ShaState "32 word" "32 word" "32 word" "32 word" "32 word" "32 word" "32 word" "32 word"

definition sha_init :: sha_state where
  "sha_init = ShaState (root_fraction 2 2) (root_fraction 2 3) (root_fraction 2 5) (root_fraction 2 7)
     (root_fraction 2 11) (root_fraction 2 13) (root_fraction 2 17) (root_fraction 2 19)"

definition rotr :: "nat \<Rightarrow> 32 word \<Rightarrow> 32 word" where
  "rotr n x = drop_bit n x OR push_bit (32 - n) x"

text \<open>The message schedule: the window of the last sixteen words, extended by one word per round.\<close>

definition sha_next_word :: "32 word list \<Rightarrow> 32 word" where
  "sha_next_word w =
     (let x = w ! 1; y = w ! 14
      in (w ! 0) + (rotr 7 x XOR rotr 18 x XOR drop_bit 3 x)
         + (w ! 9) + (rotr 17 y XOR rotr 19 y XOR drop_bit 10 y))"

fun sha_rounds :: "32 word list \<Rightarrow> 32 word list \<Rightarrow> sha_state \<Rightarrow> sha_state" where
  "sha_rounds [] w s = s"
| "sha_rounds (k # ks) w (ShaState a b c d e f g h) =
     (let s1 = rotr 6 e XOR rotr 11 e XOR rotr 25 e;
          ch = (e AND f) XOR (NOT e AND g);
          t1 = h + s1 + ch + k + (w ! 0);
          s0 = rotr 2 a XOR rotr 13 a XOR rotr 22 a;
          mj = (a AND b) XOR (a AND c) XOR (b AND c);
          t2 = s0 + mj
      in sha_rounds ks (tl w @ [sha_next_word w]) (ShaState (t1 + t2) a b c (d + t1) e f g))"

fun sha_add :: "sha_state \<Rightarrow> sha_state \<Rightarrow> sha_state" where
  "sha_add (ShaState a b c d e f g h) (ShaState a' b' c' d' e' f' g' h') =
     ShaState (a + a') (b + b') (c + c') (d + d') (e + e') (f + f') (g + g') (h + h')"

function sha_blocks :: "32 word list \<Rightarrow> sha_state \<Rightarrow> sha_state" where
  "sha_blocks ws s =
     (if length ws < 16 then s
      else sha_blocks (drop 16 ws) (sha_add s (sha_rounds sha_k (take 16 ws) s)))"
  by pat_completeness auto
termination
  by (relation "measure (\<lambda>(ws, s). length ws)") auto

declare sha_blocks.simps [simp del]

section \<open>The hexadecimal digest\<close>

definition hex_digit :: "int \<Rightarrow> char" where
  "hex_digit d = (if d < 10 then char_of (48 + d) else char_of (87 + d))"

definition hex_word :: "32 word \<Rightarrow> string" where
  "hex_word x = map (\<lambda>i. hex_digit (uint x div 16 ^ (7 - i) mod 16)) [0..<8]"

fun hex_state :: "sha_state \<Rightarrow> string" where
  "hex_state (ShaState a b c d e f g h) = concat (map hex_word [a, b, c, d, e, f, g, h])"

definition sha256_hex :: "string \<Rightarrow> string" where
  "sha256_hex s = hex_state (sha_blocks (words_of (sha_pad (encode_utf8 s))) sha_init)"

lemma hex_digit_lower: "0 \<le> d \<Longrightarrow> d < 16 \<Longrightarrow> is_hex_lower (hex_digit d)"
proof -
  assume "0 \<le> d" "d < 16"
  then have "d \<in> set [0..15]" by simp
  moreover have "\<forall>d \<in> set [0..15]. is_hex_lower (hex_digit d)"
    by code_simp
  ultimately show ?thesis by blast
qed

lemma length_sha256_hex [simp]: "length (sha256_hex s) = 64"
  by (cases "sha_blocks (words_of (sha_pad (encode_utf8 s))) sha_init")
     (simp add: sha256_hex_def hex_word_def)

lemma sha256_hex_lower: "c \<in> set (sha256_hex s) \<Longrightarrow> is_hex_lower c"
  by (cases "sha_blocks (words_of (sha_pad (encode_utf8 s))) sha_init")
     (auto simp: sha256_hex_def hex_word_def intro: hex_digit_lower)

end
