(* ===== verification/Identifiers.thy ===== *)
theory Identifiers
  imports Regex Sha256
begin

text \<open>
  \<open>src/project_pipeline/ids.py\<close>, \<open>domain/identifiers.py\<close> and the digest identifiers
  of \<open>domain/control.py\<close> and \<open>domain/scheduler.py\<close>: the identifier patterns, their
  validation, the derivation of project identifiers from names and of digest
  identifiers from their parts.  Unicode normalisation (\<open>unicodedata.normalize\<close>) is the
  parameter \<open>nfkd\<close>; a \<^typ>\<open>char\<close> is a code point below 256, so the substitution of
  the Unicode dashes of \<open>normalize_identifier_component\<close> is the identity here.
\<close>

section \<open>The patterns\<close>

datatype IdentifierKind =
    PROJECT | REQUIREMENT | ISSUE | PLAN | PLAN_SECTION | ACCEPTANCE | EVIDENCE | DECISION
  | MIGRATION | TRACE_LINK | TRANSITION | CATALOG_IMPORT | MUTATION | COMPILATION | BOOTSTRAP | GAP

definition all_kinds :: "IdentifierKind list" where
  "all_kinds =
     [PROJECT, REQUIREMENT, ISSUE, PLAN, PLAN_SECTION, ACCEPTANCE, EVIDENCE, DECISION,
      MIGRATION, TRACE_LINK, TRANSITION, CATALOG_IMPORT, MUTATION, COMPILATION, BOOTSTRAP, GAP]"

fun kind_value :: "IdentifierKind \<Rightarrow> string" where
  "kind_value PROJECT = ''PROJECT''"
| "kind_value REQUIREMENT = ''REQUIREMENT''"
| "kind_value ISSUE = ''ISSUE''"
| "kind_value PLAN = ''PLAN''"
| "kind_value PLAN_SECTION = ''PLAN_SECTION''"
| "kind_value ACCEPTANCE = ''ACCEPTANCE''"
| "kind_value EVIDENCE = ''EVIDENCE''"
| "kind_value DECISION = ''DECISION''"
| "kind_value MIGRATION = ''MIGRATION''"
| "kind_value TRACE_LINK = ''TRACE_LINK''"
| "kind_value TRANSITION = ''TRANSITION''"
| "kind_value CATALOG_IMPORT = ''CATALOG_IMPORT''"
| "kind_value MUTATION = ''MUTATION''"
| "kind_value COMPILATION = ''COMPILATION''"
| "kind_value BOOTSTRAP = ''BOOTSTRAP''"
| "kind_value GAP = ''GAP''"

definition is_upper_digit :: "char \<Rightarrow> bool" where
  "is_upper_digit c \<longleftrightarrow> is_upper_char c \<or> is_digit_char c"

definition project_component_rx :: rx where
  "project_component_rx =
     RSeq (rplus (RChr is_upper_digit)) (RStar (RSeq (rlit ''-'') (rplus (RChr is_upper_digit))))"

definition digest_rx :: "string \<Rightarrow> rx" where
  "digest_rx p = RSeq (rlit (p @ ''-'')) (rtimes 20 is_hex_upper)"

definition plan_rx :: rx where
  "plan_rx =
     RSeq (rlit ''PLAN-'') (RSeq (rplus (RChr is_upper_char)) (RSeq (rlit ''-'') (rtimes 3 is_digit_char)))"

fun pattern :: "IdentifierKind \<Rightarrow> rx" where
  "pattern PROJECT = RSeq (rlit ''PROJECT-'') project_component_rx"
| "pattern REQUIREMENT =
     RSeq (rlit ''REQ-'') (RSeq (rplus (RChr is_upper_char)) (RSeq (rlit ''-'') (rtimes 4 is_digit_char)))"
| "pattern ISSUE =
     RSeq (rlit ''PP-'')
       (RSeq (ralts (map rlit [''EPIC'', ''STORY'', ''TASK'', ''SUBTASK'', ''BUG'', ''SPIKE'']))
         (RSeq (rlit ''-'') (rtimes 6 is_digit_char)))"
| "pattern PLAN = plan_rx"
| "pattern PLAN_SECTION = RSeq plan_rx (RSeq (rlit '':SEC-'') (rtimes 2 is_digit_char))"
| "pattern ACCEPTANCE =
     RSeq (rlit ''AC-PP-'') (RSeq (rtimes 6 is_digit_char) (RSeq (rlit ''-'') (rtimes 2 is_digit_char)))"
| "pattern EVIDENCE = RSeq (rlit ''EVID-'') (rtimes 6 is_digit_char)"
| "pattern DECISION = RSeq (rlit ''ADR-'') (rtimes 4 is_digit_char)"
| "pattern MIGRATION = RSeq (rlit ''PPDB-'') (rtimes 4 is_digit_char)"
| "pattern TRACE_LINK = digest_rx ''TRACE''"
| "pattern TRANSITION = digest_rx ''TRANS''"
| "pattern CATALOG_IMPORT = digest_rx ''IMPORT''"
| "pattern MUTATION = digest_rx ''MUT''"
| "pattern COMPILATION = digest_rx ''COMP''"
| "pattern BOOTSTRAP = digest_rx ''BOOT''"
| "pattern GAP = digest_rx ''GAP''"

declare pattern.simps [simp del]

section \<open>Domain identifiers\<close>

record DomainIdentifier =
  id_kind :: IdentifierKind
  id_value :: string

definition make_DomainIdentifier :: "IdentifierKind \<Rightarrow> string \<Rightarrow> DomainIdentifier result" where
  "make_DomainIdentifier k v =
     (if fullmatch (pattern k) v then Inr \<lparr>id_kind = k, id_value = v\<rparr>
      else Inl (ValueError (''Invalid '' @ map lower_char (kind_value k) @ '' identifier: '' @ v)))"

definition parse_identifier :: "IdentifierKind option \<Rightarrow> string \<Rightarrow> DomainIdentifier result" where
  "parse_identifier expected v =
     (case expected of
        Some k \<Rightarrow> make_DomainIdentifier k v
      | None \<Rightarrow>
          (case filter (\<lambda>k. fullmatch (pattern k) v) all_kinds of
             [k] \<Rightarrow> make_DomainIdentifier k v
           | _ \<Rightarrow> Inl (ValueError (''Identifier is unknown or ambiguous: '' @ v))))"

definition validate_identifier :: "string \<Rightarrow> IdentifierKind \<Rightarrow> string result" where
  "validate_identifier v k = res_bind (make_DomainIdentifier k v) (\<lambda>i. Inr (id_value i))"

abbreviation is_issue_id :: "string \<Rightarrow> bool" where
  "is_issue_id v \<equiv> fullmatch (pattern ISSUE) v"

abbreviation is_project_id :: "string \<Rightarrow> bool" where
  "is_project_id v \<equiv> fullmatch (pattern PROJECT) v"

abbreviation is_requirement_id :: "string \<Rightarrow> bool" where
  "is_requirement_id v \<equiv> fullmatch (pattern REQUIREMENT) v"

section \<open>Project identifiers from names\<close>

definition is_alnum_ascii :: "char \<Rightarrow> bool" where
  "is_alnum_ascii c \<longleftrightarrow> is_upper_char c \<or> is_lower_char c \<or> is_digit_char c"

text \<open>\<open>re.sub(r"[^A-Za-z0-9]+", "-", text)\<close>\<close>

function collapse_non_alnum :: "string \<Rightarrow> string" where
  "collapse_non_alnum [] = []"
| "collapse_non_alnum (c # cs) =
     (if is_alnum_ascii c then c # collapse_non_alnum cs
      else CHR ''-'' # collapse_non_alnum (dropWhile (\<lambda>d. \<not> is_alnum_ascii d) cs))"
  by pat_completeness auto
termination
  by (relation "measure length") (auto simp: le_imp_less_Suc length_dropWhile_le)

definition ascii_only :: "string \<Rightarrow> string" where
  "ascii_only s = filter (\<lambda>c. of_char c < (128 :: nat)) s"

definition normalize_identifier_component :: "(string \<Rightarrow> string) \<Rightarrow> string \<Rightarrow> string result" where
  "normalize_identifier_component nfkd v =
     (let ascii_text = ascii_only (nfkd v);
          component = map upper_char (strip_by (\<lambda>c. c = CHR ''-'') (collapse_non_alnum ascii_text))
      in if component = []
         then Inl (ValueError ''identifier component cannot be empty after normalization'')
         else Inr component)"

definition removeprefix :: "string \<Rightarrow> string \<Rightarrow> string" where
  "removeprefix s p = (if startswith s p then drop (length p) s else s)"

definition project_identifier :: "(string \<Rightarrow> string) \<Rightarrow> string \<Rightarrow> DomainIdentifier result" where
  "project_identifier nfkd name =
     res_bind (normalize_identifier_component nfkd name) (\<lambda>component.
       let component =
         (if startswith component ''PROJECT-'' then removeprefix component ''PROJECT-'' else component)
       in make_DomainIdentifier PROJECT (''PROJECT-'' @ component))"

section \<open>Digest identifiers\<close>

definition digest20 :: "string list \<Rightarrow> string" where
  "digest20 parts =
     map upper_char (take 20 (sha256_hex (join_str [CHR 0x1F] (map py_strip parts))))"

fun digest_prefix :: "IdentifierKind \<Rightarrow> string option" where
  "digest_prefix TRACE_LINK = Some ''TRACE''"
| "digest_prefix TRANSITION = Some ''TRANS''"
| "digest_prefix CATALOG_IMPORT = Some ''IMPORT''"
| "digest_prefix MUTATION = Some ''MUT''"
| "digest_prefix COMPILATION = Some ''COMP''"
| "digest_prefix BOOTSTRAP = Some ''BOOT''"
| "digest_prefix GAP = Some ''GAP''"
| "digest_prefix _ = None"

definition deterministic_identifier :: "IdentifierKind \<Rightarrow> string list \<Rightarrow> DomainIdentifier result" where
  "deterministic_identifier k parts =
     (case digest_prefix k of
        None \<Rightarrow> Inl (ValueError (''Deterministic digest identifiers are unsupported for '' @ kind_value k))
      | Some p \<Rightarrow>
          if join_str [CHR 0x1F] (map py_strip parts) = [] \<or> list_ex (\<lambda>s. py_strip s = []) parts
          then Inl (ValueError ''deterministic identifier parts must be non-empty'')
          else make_DomainIdentifier k (p @ ''-'' @ digest20 parts))"

definition control_identifier :: "string \<Rightarrow> string list \<Rightarrow> string result" where
  "control_identifier pre parts =
     (if parts = [] \<or> list_ex (\<lambda>s. py_strip s = []) parts
      then Inl (ValueError ''control identifier parts must be non-empty'')
      else Inr (pre @ ''-'' @ digest20 parts))"

definition scheduler_identifier :: "string \<Rightarrow> string list \<Rightarrow> string result" where
  "scheduler_identifier pre parts =
     (if parts = [] \<or> list_ex (\<lambda>s. py_strip s = []) parts
      then Inl (ValueError ''scheduler identifier parts must be non-empty'')
      else Inr (pre @ ''-'' @ digest20 parts))"

definition control_id_rx :: rx where
  "control_id_rx =
     RSeq (ralts (map rlit [''CTRL'', ''SEQ'', ''SCOPE'', ''COMPLETE'']))
       (RSeq (rlit ''-'') (rtimes 20 is_hex_upper))"

definition scheduler_id_rx :: rx where
  "scheduler_id_rx =
     RSeq (ralts (map rlit [''SCHED'', ''LANE'', ''LEASE'', ''SIM'']))
       (RSeq (rlit ''-'') (rtimes 20 is_hex_upper))"


section \<open>The digest identifiers match their patterns\<close>

lemma upper_hex: "is_hex_lower c \<Longrightarrow> is_hex_upper (upper_char c)"
proof -
  assume c: "is_hex_lower c"
  define n :: nat where "n = of_char c"
  have "48 \<le> n \<and> n < 58 \<or> 97 \<le> n \<and> n < 103"
    using c by (auto simp: n_def is_hex_lower_def is_digit_char_def less_eq_char_def)
  then have "of_char c \<in> set [48..<58] \<union> set [97..<103]"
    by (simp only: n_def set_upt atLeastLessThan_iff Un_iff)
  then have "c \<in> char_of ` (set [48..<58] \<union> set [97..<103 :: nat])"
    by (metis char_of_char image_eqI)
  moreover have "\<forall>n \<in> set [48..<58] \<union> set [97..<103 :: nat]. is_hex_upper (upper_char (char_of n))"
    by code_simp
  ultimately show ?thesis by blast
qed

lemma digest20_shape: "length (digest20 parts) = 20" "list_all is_hex_upper (digest20 parts)"
  by (auto simp: digest20_def list_all_iff intro!: upper_hex sha256_hex_lower dest: in_set_takeD)

lemma fullmatch_digest_rx [simp]: "fullmatch (digest_rx p) (p @ ''-'' @ digest20 parts)"
  using digest20_shape [of parts]
  by (auto simp: fullmatch_iff digest_rx_def lang_rtimes simp del: append.simps append_assoc)
     (metis append_assoc)

lemma digest_prefix_pattern: "digest_prefix k = Some p \<Longrightarrow> pattern k = digest_rx p"
  by (cases k) (auto simp: pattern.simps)

lemma fullmatch_alts_digest:
  assumes "pre \<in> set ps"
  shows "fullmatch (RSeq (ralts (map rlit ps)) (RSeq (rlit ''-'') (rtimes 20 is_hex_upper)))
           (pre @ ''-'' @ digest20 parts)"
  using assms digest20_shape [of parts]
  by (auto simp: fullmatch_iff lang_ralts lang_rtimes)

text \<open>
  A digest identifier derived from non-blank parts satisfies the pattern of its kind, so
  the validation in \<open>DomainIdentifier.__post_init__\<close> never rejects it.
\<close>

lemma deterministic_identifier_valid:
  assumes "digest_prefix k = Some p" "parts \<noteq> []" "list_all (\<lambda>s. py_strip s \<noteq> []) parts"
  shows "deterministic_identifier k parts = Inr \<lparr>id_kind = k, id_value = p @ ''-'' @ digest20 parts\<rparr>"
proof -
  have "join_str [CHR 0x1F] (map py_strip parts) \<noteq> []"
    using assms(2,3) by (cases parts rule: remdups_adj.cases) auto
  moreover have "\<not> list_ex (\<lambda>s. py_strip s = []) parts"
    using assms(3) by (auto simp: list_ex_iff list_all_iff)
  ultimately show ?thesis
    using assms(1)
    by (simp add: deterministic_identifier_def make_DomainIdentifier_def digest_prefix_pattern
        del: append.simps)
qed

lemma control_identifier_valid:
  assumes "pre \<in> {''CTRL'', ''SEQ'', ''SCOPE'', ''COMPLETE''}" "parts \<noteq> []"
    "list_all (\<lambda>s. py_strip s \<noteq> []) parts"
  shows "\<exists>v. control_identifier pre parts = Inr v \<and> fullmatch control_id_rx v \<and> startswith v (pre @ ''-'')"
proof -
  have "\<not> list_ex (\<lambda>s. py_strip s = []) parts"
    using assms(3) by (auto simp: list_ex_iff list_all_iff)
  then show ?thesis
    using assms(1,2) fullmatch_alts_digest [of pre "[''CTRL'', ''SEQ'', ''SCOPE'', ''COMPLETE'']" parts]
    by (auto simp: control_identifier_def control_id_rx_def startswith_iff)
qed

lemma scheduler_identifier_valid:
  assumes "pre \<in> {''SCHED'', ''LANE'', ''LEASE'', ''SIM''}" "parts \<noteq> []"
    "list_all (\<lambda>s. py_strip s \<noteq> []) parts"
  shows "\<exists>v. scheduler_identifier pre parts = Inr v \<and> fullmatch scheduler_id_rx v \<and> startswith v (pre @ ''-'')"
proof -
  have "\<not> list_ex (\<lambda>s. py_strip s = []) parts"
    using assms(3) by (auto simp: list_ex_iff list_all_iff)
  then show ?thesis
    using assms(1,2) fullmatch_alts_digest [of pre "[''SCHED'', ''LANE'', ''LEASE'', ''SIM'']" parts]
    by (auto simp: scheduler_identifier_def scheduler_id_rx_def startswith_iff)
qed


section \<open>Identifiers of different kinds are disjoint\<close>

text \<open>
  The part of an identifier before its first dash, with the presence of a colon,
  determines its kind.
\<close>

definition id_head :: "string \<Rightarrow> string \<times> bool" where
  "id_head v = (takeWhile (\<lambda>c. c \<noteq> CHR ''-'') v, CHR '':'' \<in> set v)"

fun kind_head :: "IdentifierKind \<Rightarrow> string \<times> bool" where
  "kind_head PROJECT = (''PROJECT'', False)"
| "kind_head REQUIREMENT = (''REQ'', False)"
| "kind_head ISSUE = (''PP'', False)"
| "kind_head PLAN = (''PLAN'', False)"
| "kind_head PLAN_SECTION = (''PLAN'', True)"
| "kind_head ACCEPTANCE = (''AC'', False)"
| "kind_head EVIDENCE = (''EVID'', False)"
| "kind_head DECISION = (''ADR'', False)"
| "kind_head MIGRATION = (''PPDB'', False)"
| "kind_head TRACE_LINK = (''TRACE'', False)"
| "kind_head TRANSITION = (''TRANS'', False)"
| "kind_head CATALOG_IMPORT = (''IMPORT'', False)"
| "kind_head MUTATION = (''MUT'', False)"
| "kind_head COMPILATION = (''COMP'', False)"
| "kind_head BOOTSTRAP = (''BOOT'', False)"
| "kind_head GAP = (''GAP'', False)"

lemma kind_head_inj: "kind_head k = kind_head k' \<Longrightarrow> k = k'"
  by (cases k; cases k') auto

lemma no_colon [simp]:
  "\<not> is_upper_char CHR '':''" "\<not> is_digit_char CHR '':''" "\<not> is_hex_upper CHR '':''"
  "\<not> is_upper_digit CHR '':''"
  by code_simp+

lemma class_no_colon:
  "list_all is_upper_char s \<Longrightarrow> CHR '':'' \<notin> set s" "list_all is_digit_char s \<Longrightarrow> CHR '':'' \<notin> set s"
  "list_all is_hex_upper s \<Longrightarrow> CHR '':'' \<notin> set s" "list_all is_upper_digit s \<Longrightarrow> CHR '':'' \<notin> set s"
  using no_colon by (auto simp: list_all_iff)

lemma star_no_colon:
  "v \<in> star A \<Longrightarrow> (\<And>u. u \<in> A \<Longrightarrow> CHR '':'' \<notin> set u) \<Longrightarrow> CHR '':'' \<notin> set v"
  by (induction rule: star.induct) auto

lemma project_component_no_colon: "v \<in> lang project_component_rx \<Longrightarrow> CHR '':'' \<notin> set v"
proof -
  assume "v \<in> lang project_component_rx"
  then obtain a b where v: "v = a @ b" and a: "a \<in> lang (rplus (RChr is_upper_digit))"
    and b: "b \<in> star (lang (RSeq (rlit ''-'') (rplus (RChr is_upper_digit))))"
    by (auto simp: project_component_rx_def)
  have "CHR '':'' \<notin> set a" using a by (auto simp: lang_rplus_chr dest: class_no_colon)
  moreover have "CHR '':'' \<notin> set b"
    by (rule star_no_colon [OF b]) (auto simp: lang_rplus_chr dest: class_no_colon)
  ultimately show ?thesis by (simp add: v)
qed

lemma pattern_head: "v \<in> lang (pattern k) \<Longrightarrow> id_head v = kind_head k"
  by (cases k)
     (auto simp: pattern.simps id_head_def digest_rx_def plan_rx_def lang_rtimes lang_rplus_chr lang_ralts
       dest: project_component_no_colon class_no_colon)

lemma pattern_not_blank: "fullmatch (pattern k) v \<Longrightarrow> py_strip v \<noteq> []"
proof -
  assume "fullmatch (pattern k) v"
  then have "id_head v = kind_head k" using pattern_head by (simp add: fullmatch_iff)
  moreover have "\<exists>c \<in> set (fst (kind_head k)). \<not> is_space c" by (cases k; hypsubst; code_simp)
  moreover have "set (fst (id_head v)) \<subseteq> set v" by (auto simp: id_head_def dest: set_takeWhileD)
  ultimately have "\<exists>c \<in> set v. \<not> is_space c" by (metis subsetD)
  then show ?thesis by (auto simp: py_strip_def strip_by_Nil list_all_iff)
qed

lemma filter_eq_single: "distinct xs \<Longrightarrow> x \<in> set xs \<Longrightarrow> filter (\<lambda>y. y = x) xs = [x]"
  by (induction xs) (auto simp: filter_empty_conv)

lemma filter_unique:
  assumes "distinct xs" "x \<in> set xs" and "\<And>y. P y \<longleftrightarrow> y = x"
  shows "filter P xs = [x]"
proof -
  have "P = (\<lambda>y. y = x)" using assms(3) by (rule ext)
  then show ?thesis using filter_eq_single [OF assms(1,2)] by simp
qed

lemma kinds_disjoint: "fullmatch (pattern k) v \<Longrightarrow> fullmatch (pattern k') v \<Longrightarrow> k = k'"
  using pattern_head kind_head_inj by (metis fullmatch_iff)

lemma all_kinds_complete: "k \<in> set all_kinds" "distinct all_kinds"
  by (cases k) (auto simp: all_kinds_def)

lemma matching_kinds: "fullmatch (pattern k) v \<Longrightarrow> filter (\<lambda>k. fullmatch (pattern k) v) all_kinds = [k]"
  by (rule filter_unique) (use all_kinds_complete kinds_disjoint in blast)+

lemma parse_identifier_inverse:
  "make_DomainIdentifier k v = Inr i \<Longrightarrow> parse_identifier None v = Inr i"
  by (auto simp: make_DomainIdentifier_def parse_identifier_def matching_kinds split: if_splits)


section \<open>Project identifiers derived from names\<close>

text \<open>\<open>dashed\<close>: letters and digits, separated by single dashes.\<close>

inductive dashed :: "(char \<Rightarrow> bool) \<Rightarrow> string \<Rightarrow> bool" for P where
  dashed_one: "P c \<Longrightarrow> dashed P [c]"
| dashed_chr: "P c \<Longrightarrow> dashed P s \<Longrightarrow> dashed P (c # s)"
| dashed_sep: "P c \<Longrightarrow> dashed P s \<Longrightarrow> dashed P (c # CHR ''-'' # s)"

inductive_cases dashed_NilE: "dashed P []"

definition dash_groups :: "string set" where
  "dash_groups = star {CHR ''-'' # v | v. v \<noteq> [] \<and> list_all is_upper_digit v}"

lemma component_lang:
  "s \<in> lang project_component_rx \<longleftrightarrow>
     (\<exists>a b. s = a @ b \<and> a \<noteq> [] \<and> list_all is_upper_digit a \<and> b \<in> dash_groups)"
proof -
  have "lang (RSeq (rlit ''-'') (rplus (RChr is_upper_digit)))
      = {CHR ''-'' # v | v. v \<noteq> [] \<and> list_all is_upper_digit v}"
    by (auto simp: lang_rplus_chr)
  then show ?thesis
    unfolding project_component_rx_def lang.simps(5)[of "rplus _"] lang.simps(6) lang_rplus_chr
      dash_groups_def by auto
qed

lemma dash_groups_Cons:
  "CHR ''-'' # s \<in> dash_groups \<longleftrightarrow>
     (\<exists>a b. s = a @ b \<and> a \<noteq> [] \<and> list_all is_upper_digit a \<and> b \<in> dash_groups)"
  by (auto simp: dash_groups_def star_Cons)

lemma dashed_component: "dashed is_upper_digit s \<Longrightarrow> s \<in> lang project_component_rx"
proof (induction rule: dashed.induct)
  case (dashed_one c)
  then show ?case
    unfolding component_lang by (intro exI [of _ "[c]"] exI [of _ "[]"]) (simp add: dash_groups_def star_Nil)
next
  case (dashed_chr c s)
  then obtain a b where "s = a @ b" "a \<noteq> []" "list_all is_upper_digit a" "b \<in> dash_groups"
    unfolding component_lang by blast
  with dashed_chr(1) show ?case
    unfolding component_lang by (intro exI [of _ "c # a"] exI [of _ b]) simp
next
  case (dashed_sep c s)
  then have "CHR ''-'' # s \<in> dash_groups"
    unfolding component_lang dash_groups_Cons by blast
  with dashed_sep(1) show ?case
    unfolding component_lang by (intro exI [of _ "[c]"] exI [of _ "CHR ''-'' # s"]) simp
qed

lemma dashed_append:
  assumes "a \<noteq> []" "list_all P a" "t = [] \<or> (\<exists>u. t = CHR ''-'' # u \<and> dashed P u)"
  shows "dashed P (a @ t)"
  using assms by (induction a rule: list_nonempty_induct) (auto intro: dashed.intros)

lemma dash_groups_dashed:
  "b \<in> dash_groups \<Longrightarrow> b = [] \<or> (\<exists>u. b = CHR ''-'' # u \<and> dashed is_upper_digit u)"
  unfolding dash_groups_def
proof (induction rule: star.induct)
  case (star_app u v)
  then obtain w where "u = CHR ''-'' # w" "w \<noteq> []" "list_all is_upper_digit w" by blast
  with dashed_append [of w is_upper_digit v] star_app.IH show ?case by auto
qed simp

lemma component_dashed: "s \<in> lang project_component_rx \<Longrightarrow> dashed is_upper_digit s"
  unfolding component_lang using dash_groups_dashed dashed_append by blast

text \<open>The normalised component is dashed: runs of other characters become one dash, which is stripped at the ends.\<close>

abbreviation nodash :: "string \<Rightarrow> string" where
  "nodash s \<equiv> dropWhile (\<lambda>c. c = CHR ''-'') s"

lemma dash_not_alnum [simp]: "\<not> is_alnum_ascii CHR ''-''" "\<not> is_upper_digit CHR ''-''"
  by code_simp+

inductive sep_ok :: "string \<Rightarrow> bool" where
  sep_Nil: "sep_ok []"
| sep_chr: "is_alnum_ascii c \<Longrightarrow> sep_ok s \<Longrightarrow> sep_ok (c # s)"
| sep_dash: "sep_ok s \<Longrightarrow> s = [] \<or> is_alnum_ascii (hd s) \<Longrightarrow> sep_ok (CHR ''-'' # s)"

inductive_cases sep_ConsE: "sep_ok (c # s)"

lemma collapse_hd:
  "s = [] \<or> is_alnum_ascii (hd s) \<Longrightarrow> collapse_non_alnum s = [] \<or> is_alnum_ascii (hd (collapse_non_alnum s))"
  by (cases s) auto

lemma collapse_sep_ok: "sep_ok (collapse_non_alnum s)"
proof (induction s rule: collapse_non_alnum.induct)
  case 1
  then show ?case by (simp add: sep_Nil)
next
  case (2 c cs)
  let ?d = "dropWhile (\<lambda>d. \<not> is_alnum_ascii d) cs"
  have d: "?d = [] \<or> is_alnum_ascii (hd ?d)"
    using hd_dropWhile [of "\<lambda>d. \<not> is_alnum_ascii d" cs] by blast
  show ?case
  proof (cases "is_alnum_ascii c")
    case True
    then show ?thesis using "2.IH"(1) by (simp add: sep_chr)
  next
    case False
    then show ?thesis using "2.IH"(2) collapse_hd [OF d] by (simp add: sep_dash)
  qed
qed

lemma sep_ok_nodash: "sep_ok s \<Longrightarrow> sep_ok (nodash s)"
  by (induction rule: sep_ok.induct) (auto intro: sep_ok.intros)

lemma sep_ok_dashed:
  assumes "sep_ok s" "last s \<noteq> CHR ''-''"
  shows "(s = [] \<or> is_alnum_ascii (hd s) \<and> dashed is_alnum_ascii s
     \<or> (\<exists>u. s = CHR ''-'' # u \<and> dashed is_alnum_ascii u))"
  using assms
proof (induction rule: sep_ok.induct)
  case sep_Nil
  then show ?case by simp
next
  case (sep_chr c s)
  show ?case
  proof (cases "s = []")
    case True
    then show ?thesis using sep_chr.hyps(1) by (auto intro: dashed_one)
  next
    case False
    then have "dashed is_alnum_ascii s \<or> (\<exists>u. s = CHR ''-'' # u \<and> dashed is_alnum_ascii u)"
      using sep_chr.IH sep_chr.prems by auto
    then show ?thesis using sep_chr.hyps(1) by (auto intro: dashed_chr dashed_sep)
  qed
next
  case (sep_dash s)
  then show ?case by (cases s) auto
qed

lemma sep_ok_prefix: "sep_ok (a @ b) \<Longrightarrow> sep_ok a"
proof (induction a)
  case Nil
  then show ?case by (simp add: sep_Nil)
next
  case (Cons c a)
  from Cons.prems have "sep_ok (c # (a @ b))" by simp
  then have "sep_ok (a @ b)" "is_alnum_ascii c \<or> c = CHR ''-'' \<and> (a @ b = [] \<or> is_alnum_ascii (hd (a @ b)))"
    by (auto elim: sep_ConsE)
  with Cons.IH show ?case by (cases a) (auto intro: sep_ok.intros)
qed

lemma strip_dash_shape:
  assumes "sep_ok s"
  shows "sep_ok (strip_by (\<lambda>c. c = CHR ''-'') s)"
    and "strip_by (\<lambda>c. c = CHR ''-'') s \<noteq> [] \<Longrightarrow> hd (strip_by (\<lambda>c. c = CHR ''-'') s) \<noteq> CHR ''-''"
    and "strip_by (\<lambda>c. c = CHR ''-'') s \<noteq> [] \<Longrightarrow> last (strip_by (\<lambda>c. c = CHR ''-'') s) \<noteq> CHR ''-''"
proof -
  let ?t = "nodash s" and ?u = "strip_by (\<lambda>c. c = CHR ''-'') s"
  have "?u @ rev (takeWhile (\<lambda>c. c = CHR ''-'') (rev ?t)) = ?t"
    unfolding strip_by_def by (metis rev_append rev_rev_ident takeWhile_dropWhile_id)
  then have t: "?t = ?u @ rev (takeWhile (\<lambda>c. c = CHR ''-'') (rev ?t))" by simp
  show "sep_ok ?u" using sep_ok_prefix t sep_ok_nodash [OF assms] by metis
  show "hd ?u \<noteq> CHR ''-''" if "?u \<noteq> []"
    using hd_dropWhile [of "\<lambda>c. c = CHR ''-''" s] t that
    by (metis append_is_Nil_conv hd_append2)
  show "last ?u \<noteq> CHR ''-''" if "?u \<noteq> []"
    using hd_dropWhile [of "\<lambda>c. c = CHR ''-''" "rev ?t"] that
    by (simp add: strip_by_def last_rev)
qed

lemma upper_alnum: "is_alnum_ascii c \<Longrightarrow> is_upper_digit (upper_char c)"
proof -
  assume "is_alnum_ascii c"
  have "is_upper_char (char_of (of_char d - 32 :: nat))" if "is_lower_char d" for d
  proof -
    define n :: nat where "n = of_char d"
    have "97 \<le> n \<and> n < 123"
      using that by (auto simp: n_def is_lower_char_def less_eq_char_def)
    then have "n \<in> set [97..<123]" by (simp only: set_upt atLeastLessThan_iff)
    moreover have "\<forall>n \<in> set [97..<123]. is_upper_char (char_of (n - 32 :: nat))" by code_simp
    ultimately show ?thesis unfolding n_def by blast
  qed
  with \<open>is_alnum_ascii c\<close> show ?thesis
    by (auto simp: is_alnum_ascii_def is_upper_digit_def upper_char_def)
qed

lemma upper_digit_props:
  assumes "is_upper_digit c"
  shows "upper_char c = c" "is_alnum_ascii c" "of_char c < (128 :: nat)"
  using assms
  by (auto simp: is_upper_digit_def is_alnum_ascii_def upper_char_def is_upper_char_def is_lower_char_def
      is_digit_char_def less_eq_char_def)

lemma dashed_upper: "dashed is_alnum_ascii s \<Longrightarrow> dashed is_upper_digit (map upper_char s)"
proof (induction rule: dashed.induct)
  case (dashed_sep c s)
  have "upper_char CHR ''-'' = CHR ''-''" by code_simp
  with dashed_sep show ?case by (simp add: dashed.dashed_sep upper_alnum)
qed (auto intro: dashed.intros upper_alnum)

lemma normalized_dashed:
  assumes "normalize_identifier_component nfkd v = Inr c"
  shows "dashed is_upper_digit c"
proof -
  let ?u = "strip_by (\<lambda>c. c = CHR ''-'') (collapse_non_alnum (ascii_only (nfkd v)))"
  have c: "c = map upper_char ?u" "?u \<noteq> []"
    using assms by (auto simp: normalize_identifier_component_def Let_def split: if_splits)
  note sh = strip_dash_shape [OF collapse_sep_ok, of "ascii_only (nfkd v)"]
  have "dashed is_alnum_ascii ?u"
    using sep_ok_dashed [OF sh(1) sh(3) [OF c(2)]] c(2) sh(2) [OF c(2)] by auto
  then show ?thesis using c dashed_upper by simp
qed

lemma dashed_not_dash: "dashed is_upper_digit s \<Longrightarrow> s \<noteq> [] \<and> is_upper_digit (hd s) \<and> is_upper_digit (last s)"
  by (induction rule: dashed.induct) auto

lemma dashed_tail:
  assumes "dashed is_upper_digit (c # s)" "s \<noteq> []" "is_upper_digit (hd s)"
  shows "dashed is_upper_digit s"
  using assms(1) by (cases rule: dashed.cases) (use assms(2,3) in auto)

lemma dashed_skip:
  assumes "dashed is_upper_digit (c # CHR ''-'' # s)"
  shows "dashed is_upper_digit s"
  using assms by (cases rule: dashed.cases) (auto dest: dashed_not_dash)

lemma dashed_drop_word:
  "w \<noteq> [] \<Longrightarrow> list_all is_upper_digit w \<Longrightarrow> dashed is_upper_digit (w @ CHR ''-'' # t) \<Longrightarrow> dashed is_upper_digit t"
proof (induction w rule: list_nonempty_induct)
  case (single c)
  then show ?case by (auto intro: dashed_skip)
next
  case (cons c w)
  have "is_upper_digit (hd (w @ CHR ''-'' # t))"
    using cons.hyps cons.prems(1) by (cases w) auto
  then have "dashed is_upper_digit (w @ CHR ''-'' # t)"
    using cons.prems(2) dashed_tail [of c "w @ CHR ''-'' # t"] by simp
  moreover have "list_all is_upper_digit w" using cons.prems(1) by simp
  ultimately show ?case using cons.IH by blast
qed

lemma dashed_removeprefix:
  assumes "dashed is_upper_digit s" "startswith s ''PROJECT-''"
  shows "dashed is_upper_digit (removeprefix s ''PROJECT-'')"
proof -
  obtain t where s: "s = ''PROJECT'' @ CHR ''-'' # t" using assms(2) by (auto simp: startswith_iff)
  have "list_all is_upper_digit ''PROJECT''" by code_simp
  then have "dashed is_upper_digit t" using assms(1) s dashed_drop_word [of "''PROJECT''" t] by simp
  then show ?thesis by (simp add: s removeprefix_def startswith_def)
qed

lemma project_identifier_form:
  assumes "project_identifier nfkd name = Inr i"
  obtains t where "i = \<lparr>id_kind = PROJECT, id_value = ''PROJECT-'' @ t\<rparr>" "dashed is_upper_digit t"
proof -
  obtain c where c: "normalize_identifier_component nfkd name = Inr c"
    using assms by (auto simp: project_identifier_def)
  let ?t = "if startswith c ''PROJECT-'' then removeprefix c ''PROJECT-'' else c"
  have "dashed is_upper_digit ?t" using normalized_dashed [OF c] dashed_removeprefix by simp
  moreover have "i = \<lparr>id_kind = PROJECT, id_value = ''PROJECT-'' @ ?t\<rparr>"
    using assms c by (auto simp: project_identifier_def make_DomainIdentifier_def Let_def split: if_splits)
  ultimately show thesis using that by blast
qed

lemma fullmatch_project: "dashed is_upper_digit t \<Longrightarrow> fullmatch (pattern PROJECT) (''PROJECT-'' @ t)"
  unfolding fullmatch_iff pattern.simps lang_lit_seq using dashed_component by blast

lemma project_identifier_total:
  assumes "normalize_identifier_component nfkd name = Inr c"
  shows "\<exists>t. project_identifier nfkd name = Inr \<lparr>id_kind = PROJECT, id_value = ''PROJECT-'' @ t\<rparr>"
proof -
  let ?t = "if startswith c ''PROJECT-'' then removeprefix c ''PROJECT-'' else c"
  have "dashed is_upper_digit ?t" using normalized_dashed [OF assms] dashed_removeprefix by simp
  from fullmatch_project [OF this] show ?thesis
    using assms by (simp add: project_identifier_def make_DomainIdentifier_def Let_def del: append.simps)
qed

lemma collapse_dashed: "dashed is_upper_digit s \<Longrightarrow> collapse_non_alnum s = s"
proof (induction rule: dashed.induct)
  case (dashed_sep c s)
  then have "dropWhile (\<lambda>d. \<not> is_alnum_ascii d) s = s"
    using dashed_not_dash upper_digit_props(2) by (cases s) fastforce+
  with dashed_sep show ?case by (simp add: upper_digit_props)
qed (auto simp: upper_digit_props)

lemma dashed_chars: "dashed is_upper_digit s \<Longrightarrow> c \<in> set s \<Longrightarrow> is_upper_digit c \<or> c = CHR ''-''"
  by (induction rule: dashed.induct) auto

lemma dashed_fixed:
  assumes "dashed is_upper_digit s"
  shows "ascii_only s = s" "map upper_char s = s" "strip_by (\<lambda>c. c = CHR ''-'') s = s"
proof -
  have dash: "of_char CHR ''-'' < (128 :: nat)" "upper_char CHR ''-'' = CHR ''-''" by code_simp+
  show "ascii_only s = s"
    unfolding ascii_only_def filter_id_conv
    using dashed_chars [OF assms] upper_digit_props(3) dash by blast
  show "map upper_char s = s"
    using dashed_chars [OF assms] upper_digit_props(1) dash by (intro map_idI) metis
  have nd: "hd s \<noteq> CHR ''-''" "last s \<noteq> CHR ''-''" "s \<noteq> []" using dashed_not_dash [OF assms] by auto
  then have "nodash s = s" by (cases s) auto
  moreover have "nodash (rev s) = rev s" using nd by (cases s rule: rev_cases) auto
  ultimately show "strip_by (\<lambda>c. c = CHR ''-'') s = s" by (simp add: strip_by_def)
qed

lemma dashed_project: "dashed is_upper_digit t \<Longrightarrow> dashed is_upper_digit (''PROJECT-'' @ t)"
proof -
  assume "dashed is_upper_digit t"
  then have "dashed is_upper_digit (''PROJECT'' @ (CHR ''-'' # t))"
    by (intro dashed_append) (simp_all, code_simp)
  then show ?thesis by simp
qed

lemma project_identifier_idempotent:
  assumes nfkd: "\<And>s. list_all (\<lambda>c. of_char c < (128 :: nat)) s \<Longrightarrow> nfkd s = s"
    and ok: "project_identifier nfkd name = Inr i"
  shows "project_identifier nfkd (id_value i) = Inr i"
proof -
  from ok obtain t where i: "i = \<lparr>id_kind = PROJECT, id_value = ''PROJECT-'' @ t\<rparr>" and t: "dashed is_upper_digit t"
    by (rule project_identifier_form)
  define v where "v = ''PROJECT-'' @ t"
  have v: "dashed is_upper_digit v" unfolding v_def by (rule dashed_project [OF t])
  have "list_all (\<lambda>c. of_char c < (128 :: nat)) v"
    using dashed_fixed(1) [OF v] unfolding ascii_only_def filter_id_conv by (simp add: list_all_iff)
  then have "nfkd v = v" by (rule nfkd)
  then have "normalize_identifier_component nfkd v = Inr v"
    using dashed_fixed [OF v] collapse_dashed [OF v] dashed_not_dash [OF v]
    by (simp add: normalize_identifier_component_def Let_def)
  moreover have "startswith v ''PROJECT-''" "removeprefix v ''PROJECT-'' = t"
    by (simp_all add: v_def removeprefix_def startswith_def)
  moreover have "i = \<lparr>id_kind = PROJECT, id_value = v\<rparr>" by (simp only: i v_def)
  ultimately show ?thesis
    using fullmatch_project [OF t, folded v_def]
    by (simp add: project_identifier_def make_DomainIdentifier_def v_def [symmetric] Let_def
        del: append.simps)
qed

end
