(* ===== verification/TaskState.thy ===== *)
theory TaskState
  imports Identifiers
begin

text \<open>
  \<open>src/project_pipeline/domain/state.py\<close>: the lifecycle states of projects and tasks, their
  transition tables, the state records with their validators, and the audited state
  transition.  A pydantic model is a record; constructing it is \<open>make_<Model>\<close>, which
  fails with \<open>ValidationError\<close> unless the field constraints and validators hold
  (\<open>valid_<Model>\<close>).  The lemmas at the end read the tables as state machines.
\<close>

section \<open>Lifecycle states\<close>

datatype ProjectLifecycleState =
    P_REGISTERED | P_COMPILING | P_READY | P_ACTIVE | P_BLOCKED | P_VERIFYING
  | P_COMPLETED | P_FAILED | P_ARCHIVED

datatype TaskLifecycleState =
    T_BACKLOG | T_READY | T_CLAIMED | T_IN_PROGRESS | T_BLOCKED | T_IN_REVIEW
  | T_VALIDATING | T_DONE | T_FAILED | T_CANCELLED

fun project_state_value :: "ProjectLifecycleState \<Rightarrow> string" where
  "project_state_value P_REGISTERED = ''REGISTERED''"
| "project_state_value P_COMPILING = ''COMPILING''"
| "project_state_value P_READY = ''READY''"
| "project_state_value P_ACTIVE = ''ACTIVE''"
| "project_state_value P_BLOCKED = ''BLOCKED''"
| "project_state_value P_VERIFYING = ''VERIFYING''"
| "project_state_value P_COMPLETED = ''COMPLETED''"
| "project_state_value P_FAILED = ''FAILED''"
| "project_state_value P_ARCHIVED = ''ARCHIVED''"

fun task_state_value :: "TaskLifecycleState \<Rightarrow> string" where
  "task_state_value T_BACKLOG = ''BACKLOG''"
| "task_state_value T_READY = ''READY''"
| "task_state_value T_CLAIMED = ''CLAIMED''"
| "task_state_value T_IN_PROGRESS = ''IN_PROGRESS''"
| "task_state_value T_BLOCKED = ''BLOCKED''"
| "task_state_value T_IN_REVIEW = ''IN_REVIEW''"
| "task_state_value T_VALIDATING = ''VALIDATING''"
| "task_state_value T_DONE = ''DONE''"
| "task_state_value T_FAILED = ''FAILED''"
| "task_state_value T_CANCELLED = ''CANCELLED''"

fun PROJECT_TRANSITIONS :: "ProjectLifecycleState \<Rightarrow> ProjectLifecycleState list" where
  "PROJECT_TRANSITIONS P_REGISTERED = [P_COMPILING, P_BLOCKED]"
| "PROJECT_TRANSITIONS P_COMPILING = [P_READY, P_BLOCKED, P_FAILED]"
| "PROJECT_TRANSITIONS P_READY = [P_ACTIVE, P_BLOCKED, P_ARCHIVED]"
| "PROJECT_TRANSITIONS P_ACTIVE = [P_BLOCKED, P_VERIFYING, P_FAILED]"
| "PROJECT_TRANSITIONS P_BLOCKED = [P_COMPILING, P_READY, P_ACTIVE, P_FAILED]"
| "PROJECT_TRANSITIONS P_VERIFYING = [P_ACTIVE, P_BLOCKED, P_COMPLETED, P_FAILED]"
| "PROJECT_TRANSITIONS P_COMPLETED = [P_ACTIVE, P_ARCHIVED]"
| "PROJECT_TRANSITIONS P_FAILED = [P_COMPILING, P_BLOCKED, P_ARCHIVED]"
| "PROJECT_TRANSITIONS P_ARCHIVED = []"

fun TASK_TRANSITIONS :: "TaskLifecycleState \<Rightarrow> TaskLifecycleState list" where
  "TASK_TRANSITIONS T_BACKLOG = [T_READY, T_BLOCKED, T_CANCELLED]"
| "TASK_TRANSITIONS T_READY = [T_CLAIMED, T_BLOCKED, T_CANCELLED]"
| "TASK_TRANSITIONS T_CLAIMED = [T_READY, T_IN_PROGRESS, T_BLOCKED]"
| "TASK_TRANSITIONS T_IN_PROGRESS = [T_BLOCKED, T_IN_REVIEW, T_FAILED]"
| "TASK_TRANSITIONS T_BLOCKED = [T_BACKLOG, T_READY, T_IN_PROGRESS, T_CANCELLED]"
| "TASK_TRANSITIONS T_IN_REVIEW = [T_IN_PROGRESS, T_VALIDATING, T_BLOCKED]"
| "TASK_TRANSITIONS T_VALIDATING = [T_IN_PROGRESS, T_BLOCKED, T_DONE, T_FAILED]"
| "TASK_TRANSITIONS T_DONE = [T_IN_PROGRESS]"
| "TASK_TRANSITIONS T_FAILED = [T_READY, T_IN_PROGRESS, T_CANCELLED]"
| "TASK_TRANSITIONS T_CANCELLED = [T_BACKLOG]"

section \<open>State records\<close>

record ProjectStateRecord =
  ps_project_id :: string
  ps_state :: ProjectLifecycleState
  ps_version :: int
  ps_manifest_revision :: int
  ps_blocked_reason :: "string option"
  ps_task_counts :: "(string, int) dict"
  ps_last_transition_id :: "string option"
  ps_updated_at_utc :: py_datetime

definition valid_ProjectStateRecord :: "ProjectStateRecord \<Rightarrow> bool" where
  "valid_ProjectStateRecord r \<longleftrightarrow>
     1 \<le> ps_version r \<and> 1 \<le> ps_manifest_revision r \<and> max_length 2000 (ps_blocked_reason r)
     \<and> is_project_id (ps_project_id r) \<and> is_aware (ps_updated_at_utc r)
     \<and> \<not> (ps_state r = P_BLOCKED \<and> falsy (ps_blocked_reason r))
     \<and> \<not> (ps_state r \<noteq> P_BLOCKED \<and> \<not> falsy (ps_blocked_reason r))
     \<and> list_all (\<lambda>(k, n). 0 \<le> n) (ps_task_counts r)"

definition make_ProjectStateRecord :: "ProjectStateRecord \<Rightarrow> ProjectStateRecord result" where
  "make_ProjectStateRecord r = (if valid_ProjectStateRecord r then Inr r else Inl ValidationError)"

definition is_priority :: "string \<Rightarrow> bool" where
  "is_priority p \<longleftrightarrow> p \<in> {''P0'', ''P1'', ''P2'', ''P3''}"

record TaskStateRecord =
  ts_task_id :: string
  ts_project_id :: string
  ts_state :: TaskLifecycleState
  ts_version :: int
  ts_priority :: string
  ts_dependency_ids :: "string list"
  ts_blocker_ids :: "string list"
  ts_owner_id :: "string option"
  ts_blocked_reason :: "string option"
  ts_last_transition_id :: "string option"
  ts_updated_at_utc :: py_datetime

definition validate_related_tasks :: "string list \<Rightarrow> bool" where
  "validate_related_tasks values \<longleftrightarrow> distinct values \<and> list_all is_issue_id values"

definition valid_TaskStateRecord :: "TaskStateRecord \<Rightarrow> bool" where
  "valid_TaskStateRecord r \<longleftrightarrow>
     1 \<le> ts_version r \<and> is_priority (ts_priority r)
     \<and> max_length 191 (ts_owner_id r) \<and> max_length 2000 (ts_blocked_reason r)
     \<and> is_issue_id (ts_task_id r) \<and> is_project_id (ts_project_id r)
     \<and> validate_related_tasks (ts_dependency_ids r) \<and> validate_related_tasks (ts_blocker_ids r)
     \<and> is_aware (ts_updated_at_utc r)
     \<and> ts_task_id r \<notin> set (ts_dependency_ids r) \<and> ts_task_id r \<notin> set (ts_blocker_ids r)
     \<and> \<not> (ts_state r = T_BLOCKED \<and> falsy (ts_blocked_reason r))
     \<and> \<not> (ts_state r \<noteq> T_BLOCKED \<and> \<not> falsy (ts_blocked_reason r))"

definition make_TaskStateRecord :: "TaskStateRecord \<Rightarrow> TaskStateRecord result" where
  "make_TaskStateRecord r = (if valid_TaskStateRecord r then Inr r else Inl ValidationError)"

section \<open>State transitions\<close>

record DomainStateTransition =
  tr_transition_id :: string
  tr_entity_type :: string
  tr_entity_id :: string
  tr_previous_state :: string
  tr_next_state :: string
  tr_expected_version :: int
  tr_resulting_version :: int
  tr_reason :: string
  tr_actor_id :: string
  tr_correlation_id :: string
  tr_occurred_at_utc :: py_datetime

definition valid_DomainStateTransition :: "DomainStateTransition \<Rightarrow> bool" where
  "valid_DomainStateTransition t \<longleftrightarrow>
     tr_entity_type t \<in> {''project'', ''task''}
     \<and> 1 \<le> tr_expected_version t \<and> 2 \<le> tr_resulting_version t
     \<and> 1 \<le> length (tr_reason t) \<and> length (tr_reason t) \<le> 2000
     \<and> 3 \<le> length (tr_actor_id t) \<and> length (tr_actor_id t) \<le> 191
     \<and> 3 \<le> length (tr_correlation_id t) \<and> length (tr_correlation_id t) \<le> 191
     \<and> fullmatch (pattern TRANSITION) (tr_transition_id t)
     \<and> is_aware (tr_occurred_at_utc t)
     \<and> tr_previous_state t \<noteq> tr_next_state t
     \<and> tr_resulting_version t = tr_expected_version t + 1"

definition make_DomainStateTransition :: "DomainStateTransition \<Rightarrow> DomainStateTransition result" where
  "make_DomainStateTransition t =
     (if valid_DomainStateTransition t then Inr t else Inl ValidationError)"

definition create_transition ::
  "int \<Rightarrow> string \<Rightarrow> string \<Rightarrow> string \<Rightarrow> string \<Rightarrow> int \<Rightarrow> string \<Rightarrow> string \<Rightarrow> string
     \<Rightarrow> DomainStateTransition result" where
  "create_transition utc_now entity_type entity_id previous_state next_state expected_version
       reason actor_id correlation_id =
     res_bind
       (deterministic_identifier TRANSITION
          [entity_type, entity_id, previous_state, next_state, str_int expected_version,
           reason, actor_id, correlation_id])
       (\<lambda>identifier.
          make_DomainStateTransition
            \<lparr>tr_transition_id = id_value identifier, tr_entity_type = entity_type,
             tr_entity_id = entity_id, tr_previous_state = previous_state,
             tr_next_state = next_state, tr_expected_version = expected_version,
             tr_resulting_version = expected_version + 1, tr_reason = reason,
             tr_actor_id = actor_id, tr_correlation_id = correlation_id,
             tr_occurred_at_utc = Aware utc_now\<rparr>)"

definition ensure_project_transition ::
  "ProjectLifecycleState \<Rightarrow> ProjectLifecycleState \<Rightarrow> unit result" where
  "ensure_project_transition previous next_state =
     (if next_state \<notin> set (PROJECT_TRANSITIONS previous)
      then Inl (ValueError (''invalid project transition: '' @ project_state_value previous
                            @ '' -> '' @ project_state_value next_state))
      else Inr ())"

definition ensure_task_transition :: "TaskLifecycleState \<Rightarrow> TaskLifecycleState \<Rightarrow> unit result" where
  "ensure_task_transition previous next_state =
     (if next_state \<notin> set (TASK_TRANSITIONS previous)
      then Inl (ValueError (''invalid task transition: '' @ task_state_value previous
                            @ '' -> '' @ task_state_value next_state))
      else Inr ())"

definition jira_state_mapping :: "(string \<times> TaskLifecycleState) list" where
  "jira_state_mapping =
     [(''BACKLOG'', T_BACKLOG), (''READY'', T_READY), (''IN_PROGRESS'', T_IN_PROGRESS),
      (''REVIEW'', T_IN_REVIEW), (''IN_REVIEW'', T_IN_REVIEW), (''VALIDATION'', T_VALIDATING),
      (''VALIDATING'', T_VALIDATING), (''MERGE_READY'', T_VALIDATING), (''BLOCKED'', T_BLOCKED),
      (''DONE'', T_DONE), (''FAILED'', T_FAILED), (''CANCELLED'', T_CANCELLED)]"

definition task_state_from_jira :: "string \<Rightarrow> TaskLifecycleState result" where
  "task_state_from_jira value =
     (case map_of jira_state_mapping value of
        None \<Rightarrow> Inl (ValueError (''unsupported Jira lifecycle state: '' @ value))
      | Some s \<Rightarrow> Inr s)"

section \<open>The tables as state machines\<close>

lemma task_state_value_inj [simp]: "task_state_value a = task_state_value b \<longleftrightarrow> a = b"
  by (cases a; cases b) auto

lemma project_state_value_inj [simp]: "project_state_value a = project_state_value b \<longleftrightarrow> a = b"
  by (cases a; cases b) auto

lemma TASK_TRANSITIONS_irrefl: "s \<notin> set (TASK_TRANSITIONS s)"
  by (cases s) auto

lemma PROJECT_TRANSITIONS_irrefl: "s \<notin> set (PROJECT_TRANSITIONS s)"
  by (cases s) auto

text \<open>What leads to the review, validation and done states.\<close>

lemma into_DONE: "T_DONE \<in> set (TASK_TRANSITIONS s) \<longleftrightarrow> s = T_VALIDATING"
  by (cases s) auto

lemma into_VALIDATING: "T_VALIDATING \<in> set (TASK_TRANSITIONS s) \<longleftrightarrow> s = T_IN_REVIEW"
  by (cases s) auto

lemma into_IN_REVIEW: "T_IN_REVIEW \<in> set (TASK_TRANSITIONS s) \<longleftrightarrow> s = T_IN_PROGRESS"
  by (cases s) auto

lemmas into_gates = into_DONE into_VALIDATING into_IN_REVIEW

text \<open>A task path is a list of states, each allowed after the one before.\<close>

fun task_path :: "TaskLifecycleState list \<Rightarrow> bool" where
  "task_path (a # b # ss) = (b \<in> set (TASK_TRANSITIONS a) \<and> task_path (b # ss))"
| "task_path _ = True"

lemma task_path_append:
  "task_path (xs @ a # b # ys) \<Longrightarrow> b \<in> set (TASK_TRANSITIONS a) \<and> task_path (xs @ [a])"
proof (induction xs)
  case (Cons x xs)
  then show ?case by (cases xs) auto
qed simp

lemma task_path_before:
  assumes "task_path (xs @ [b])" "xs \<noteq> []"
  obtains ys a where "xs = ys @ [a]" "b \<in> set (TASK_TRANSITIONS a)" "task_path (ys @ [a])"
proof -
  obtain ys a where xs: "xs = ys @ [a]" using assms(2) by (cases xs rule: rev_cases) auto
  then show thesis using that task_path_append [of ys a b "[]"] assms(1) by simp
qed

lemma task_path_done_gate:
  assumes path: "task_path (p @ [T_DONE])" and start: "p \<noteq> []" "hd p \<notin> {T_IN_REVIEW, T_VALIDATING}"
  shows "\<exists>q. p = q @ [T_IN_PROGRESS, T_IN_REVIEW, T_VALIDATING]"
proof -
  from path start(1) obtain q1 where q1: "p = q1 @ [T_VALIDATING]" "task_path (q1 @ [T_VALIDATING])"
    by (rule task_path_before) (auto simp: into_gates)
  have "q1 \<noteq> []" using q1 start by auto
  with q1(2) obtain q2 where q2: "q1 = q2 @ [T_IN_REVIEW]" "task_path (q2 @ [T_IN_REVIEW])"
    by (rule task_path_before) (auto simp: into_gates)
  have "q2 \<noteq> []" using q1 q2 start by auto
  with q2(2) obtain q3 where "q2 = q3 @ [T_IN_PROGRESS]"
    by (rule task_path_before) (auto simp: into_gates)
  then show ?thesis using q1 q2 by simp
qed

lemma create_transition_fields:
  assumes "create_transition now et eid ps ns v reason actor corr = Inr t"
  shows "tr_entity_type t = et" "tr_entity_id t = eid" "tr_previous_state t = ps" "tr_next_state t = ns"
    "tr_expected_version t = v" "tr_resulting_version t = v + 1" "valid_DomainStateTransition t"
    "tr_occurred_at_utc t = Aware now" "tr_reason t = reason"
  using assms
  by (auto simp: create_transition_def make_DomainStateTransition_def split: if_splits)


lemma create_transition_ok:
  assumes "et \<in> {''project'', ''task''}" "py_strip eid \<noteq> []" "py_strip ps \<noteq> []" "py_strip ns \<noteq> []" "ps \<noteq> ns"
    "1 \<le> v" "py_strip reason \<noteq> []" "1 \<le> length reason" "length reason \<le> 2000"
    "py_strip actor \<noteq> []" "3 \<le> length actor" "length actor \<le> 191"
    "py_strip corr \<noteq> []" "3 \<le> length corr" "length corr \<le> 191"
  shows "create_transition now et eid ps ns v reason actor corr =
     Inr \<lparr>tr_transition_id = ''TRANS-'' @ digest20 [et, eid, ps, ns, str_int v, reason, actor, corr],
          tr_entity_type = et, tr_entity_id = eid, tr_previous_state = ps, tr_next_state = ns,
          tr_expected_version = v, tr_resulting_version = v + 1, tr_reason = reason,
          tr_actor_id = actor, tr_correlation_id = corr, tr_occurred_at_utc = Aware now\<rparr>"
proof -
  let ?parts = "[et, eid, ps, ns, str_int v, reason, actor, corr]"
  have "py_strip ''project'' \<noteq> []" "py_strip ''task'' \<noteq> []" by code_simp+
  then have "list_all (\<lambda>s. py_strip s \<noteq> []) ?parts" using assms by auto
  then have "deterministic_identifier TRANSITION ?parts =
      Inr \<lparr>id_kind = TRANSITION, id_value = ''TRANS'' @ ''-'' @ digest20 ?parts\<rparr>"
    by (intro deterministic_identifier_valid) simp_all
  moreover have "fullmatch (pattern TRANSITION) (''TRANS'' @ ''-'' @ digest20 ?parts)"
    unfolding digest_prefix_pattern [OF digest_prefix.simps(2)] by (rule fullmatch_digest_rx)
  ultimately show ?thesis
    using assms by (simp add: create_transition_def make_DomainStateTransition_def valid_DomainStateTransition_def)
qed

end
