(* ===== verification/StateStore.thy ===== *)
theory StateStore
  imports TaskState
begin

text \<open>
  The lifecycle part of \<open>src/project_pipeline/persistence/sqlite.py\<close>: project manifests,
  project and task state rows, optimistic transitions and the transition log.  A table is a
  dictionary by primary key (the log a list in insertion order); a transaction runs its
  body on a copy of the store and keeps the result only if the body raises nothing, and
  what happens after the transaction (reading the row back) happens on the committed
  store.  Columns that hold JSON hold the decoded value, and the SQL constraints
  (primary key, foreign key to \<open>projects\<close>, \<open>version >= 1\<close>) raise \<open>IntegrityError\<close>.
  The clock \<open>utc_now()\<close> is an argument.
\<close>

section \<open>The store\<close>

record ManifestRow =
  mf_project_id :: string
  mf_project_name :: string
  mf_revision :: int
  mf_fingerprint :: string
  mf_document :: string
  mf_created_at_utc :: py_datetime
  mf_updated_at_utc :: py_datetime

record StateStore =
  st_projects :: "(string, ManifestRow) dict"
  st_project_states :: "(string, ProjectStateRecord) dict"
  st_task_states :: "(string, TaskStateRecord) dict"
  st_transitions :: "(string \<times> DomainStateTransition) list"

definition empty_store :: StateStore where
  "empty_store = \<lparr>st_projects = [], st_project_states = [], st_task_states = [], st_transitions = []\<rparr>"

definition transaction ::
  "(StateStore \<Rightarrow> (StateStore \<times> 'a) result) \<Rightarrow> StateStore \<Rightarrow> StateStore \<times> 'a result" where
  "transaction body s =
     (case body s of Inl e \<Rightarrow> (s, Inl e) | Inr (s', x) \<Rightarrow> (s', Inr x))"

section \<open>Projects\<close>

definition put_manifest_body :: "ManifestRow \<Rightarrow> StateStore \<Rightarrow> (StateStore \<times> unit) result" where
  "put_manifest_body m s =
     (if mf_revision m < 1 then Inl (IntegrityError ''CHECK manifest_revision'')
      else
        let project_row =
              (case map_of (st_projects s) (mf_project_id m) of
                 None \<Rightarrow> m
               | Some old \<Rightarrow> m\<lparr>mf_created_at_utc := mf_created_at_utc old\<rparr>);
            state_row =
              (case map_of (st_project_states s) (mf_project_id m) of
                 None \<Rightarrow>
                   \<lparr>ps_project_id = mf_project_id m, ps_state = P_REGISTERED, ps_version = 1,
                    ps_manifest_revision = mf_revision m, ps_blocked_reason = None,
                    ps_task_counts = [], ps_last_transition_id = None,
                    ps_updated_at_utc = mf_updated_at_utc m\<rparr>
               | Some r \<Rightarrow>
                   r\<lparr>ps_manifest_revision := mf_revision m, ps_updated_at_utc := mf_updated_at_utc m\<rparr>)
        in Inr (s\<lparr>st_projects := AList.update (mf_project_id m) project_row (st_projects s),
                  st_project_states := AList.update (mf_project_id m) state_row (st_project_states s)\<rparr>,
                ()))"

definition put_project_manifest :: "ManifestRow \<Rightarrow> StateStore \<Rightarrow> StateStore \<times> unit result" where
  "put_project_manifest m s = transaction (put_manifest_body m) s"

definition get_project_manifest :: "StateStore \<Rightarrow> string \<Rightarrow> ManifestRow option" where
  "get_project_manifest s project_id = map_of (st_projects s) project_id"

definition get_project_state :: "StateStore \<Rightarrow> string \<Rightarrow> ProjectStateRecord option result" where
  "get_project_state s project_id =
     (case map_of (st_project_states s) project_id of
        None \<Rightarrow> Inr None
      | Some row \<Rightarrow> res_bind (make_ProjectStateRecord row) (\<lambda>r. Inr (Some r)))"

definition insert_transition ::
  "string \<Rightarrow> DomainStateTransition \<Rightarrow> StateStore \<Rightarrow> StateStore result" where
  "insert_transition project_id t s =
     (if tr_transition_id t \<in> (\<lambda>(p, u). tr_transition_id u) ` set (st_transitions s)
      then Inl (IntegrityError ''UNIQUE state_transitions.transition_id'')
      else if map_of (st_projects s) project_id = None
      then Inl (IntegrityError ''FOREIGN KEY state_transitions.project_id'')
      else Inr (s\<lparr>st_transitions := st_transitions s @ [(project_id, t)]\<rparr>))"

text \<open>\<open>UPDATE ... WHERE <key> = ? AND version = ?\<close>, with the number of rows it changed.\<close>

definition update_where ::
  "('r \<Rightarrow> int) \<Rightarrow> string \<Rightarrow> int \<Rightarrow> ('r \<Rightarrow> 'r) \<Rightarrow> (string, 'r) dict \<Rightarrow> (string, 'r) dict \<times> nat" where
  "update_where version key ver f rows =
     (map (\<lambda>(k, r). if k = key \<and> version r = ver then (k, f r) else (k, r)) rows,
      length (filter (\<lambda>(k, r). k = key \<and> version r = ver) rows))"

definition transition_project_body ::
  "int \<Rightarrow> string \<Rightarrow> ProjectLifecycleState \<Rightarrow> int \<Rightarrow> string \<Rightarrow> string \<Rightarrow> string \<Rightarrow> string option
     \<Rightarrow> StateStore \<Rightarrow> (StateStore \<times> unit) result" where
  "transition_project_body now project_id next_state expected_version reason actor_id
       correlation_id blocked_reason s =
     (case map_of (st_project_states s) project_id of
        None \<Rightarrow> Inl (MissingStateError (''project state does not exist: '' @ project_id))
      | Some row \<Rightarrow>
          if ps_version row \<noteq> expected_version
          then Inl (ConcurrentStateChangeError
                 (''project version mismatch: expected '' @ str_int expected_version
                  @ '', observed '' @ str_int (ps_version row)))
          else res_bind (ensure_project_transition (ps_state row) next_state) (\<lambda>_.
            if next_state = P_BLOCKED \<and> falsy blocked_reason
            then Inl (ValueError ''blocked project transition requires blocked_reason'')
            else if next_state \<noteq> P_BLOCKED \<and> \<not> falsy blocked_reason
            then Inl (ValueError ''blocked_reason is only valid for a BLOCKED project'')
            else res_bind
              (create_transition now ''project'' project_id (project_state_value (ps_state row))
                 (project_state_value next_state) expected_version reason actor_id correlation_id)
              (\<lambda>t.
                let (rows, n) =
                  update_where ps_version project_id expected_version
                    (\<lambda>r. r\<lparr>ps_state := next_state, ps_version := tr_resulting_version t,
                          ps_blocked_reason := blocked_reason,
                          ps_last_transition_id := Some (tr_transition_id t),
                          ps_updated_at_utc := tr_occurred_at_utc t\<rparr>)
                    (st_project_states s)
                in if n \<noteq> 1
                   then Inl (ConcurrentStateChangeError ''project state changed during transition'')
                   else res_bind (insert_transition project_id t (s\<lparr>st_project_states := rows\<rparr>))
                          (\<lambda>s'. Inr (s', ())))))"

definition transition_project ::
  "int \<Rightarrow> string \<Rightarrow> ProjectLifecycleState \<Rightarrow> int \<Rightarrow> string \<Rightarrow> string \<Rightarrow> string \<Rightarrow> string option
     \<Rightarrow> StateStore \<Rightarrow> StateStore \<times> ProjectStateRecord result" where
  "transition_project now project_id next_state expected_version reason actor_id
       correlation_id blocked_reason s =
     (case transaction
             (transition_project_body now project_id next_state expected_version reason actor_id
                correlation_id blocked_reason) s of
        (s', Inl e) \<Rightarrow> (s', Inl e)
      | (s', Inr _) \<Rightarrow>
          (s', res_bind (get_project_state s' project_id) (\<lambda>r.
             case r of
               None \<Rightarrow> Inl (PersistenceError ''project state disappeared after transition'')
             | Some x \<Rightarrow> Inr x)))"

section \<open>Tasks\<close>

definition insert_task :: "StateStore \<Rightarrow> TaskStateRecord \<Rightarrow> StateStore result" where
  "insert_task s task =
     (if map_of (st_task_states s) (ts_task_id task) \<noteq> None then Inr s
      else if ts_version task < 1 then Inl (IntegrityError ''CHECK version'')
      else if map_of (st_projects s) (ts_project_id task) = None
      then Inl (IntegrityError ''FOREIGN KEY task_states.project_id'')
      else Inr (s\<lparr>st_task_states := AList.update (ts_task_id task) task (st_task_states s)\<rparr>))"

definition put_task_states :: "TaskStateRecord list \<Rightarrow> StateStore \<Rightarrow> StateStore \<times> nat result" where
  "put_task_states tasks s =
     transaction (\<lambda>s. res_bind (fold_res insert_task s tasks) (\<lambda>s'. Inr (s', length tasks))) s"

definition get_task_state :: "StateStore \<Rightarrow> string \<Rightarrow> TaskStateRecord option result" where
  "get_task_state s task_id =
     (case map_of (st_task_states s) task_id of
        None \<Rightarrow> Inr None
      | Some row \<Rightarrow> res_bind (make_TaskStateRecord row) (\<lambda>r. Inr (Some r)))"

definition list_task_states :: "StateStore \<Rightarrow> string \<Rightarrow> TaskStateRecord list result" where
  "list_task_states s project_id =
     res_bind
       (map_res (get_task_state s)
          (sort (map fst (filter (\<lambda>(k, r). ts_project_id r = project_id) (st_task_states s)))))
       (\<lambda>rs. Inr (List.map_filter id rs))"

definition transition_task_body ::
  "int \<Rightarrow> string \<Rightarrow> TaskLifecycleState \<Rightarrow> int \<Rightarrow> string \<Rightarrow> string \<Rightarrow> string \<Rightarrow> string option
     \<Rightarrow> string option \<Rightarrow> StateStore \<Rightarrow> (StateStore \<times> unit) result" where
  "transition_task_body now task_id next_state expected_version reason actor_id
       correlation_id blocked_reason owner_id s =
     (case map_of (st_task_states s) task_id of
        None \<Rightarrow> Inl (MissingStateError (''task state does not exist: '' @ task_id))
      | Some row \<Rightarrow>
          if ts_version row \<noteq> expected_version
          then Inl (ConcurrentStateChangeError
                 (''task version mismatch: expected '' @ str_int expected_version
                  @ '', observed '' @ str_int (ts_version row)))
          else res_bind (ensure_task_transition (ts_state row) next_state) (\<lambda>_.
            if next_state = T_BLOCKED \<and> falsy blocked_reason
            then Inl (ValueError ''blocked task transition requires blocked_reason'')
            else if next_state \<noteq> T_BLOCKED \<and> \<not> falsy blocked_reason
            then Inl (ValueError ''blocked_reason is only valid for a BLOCKED task'')
            else res_bind
              (create_transition now ''task'' task_id (task_state_value (ts_state row))
                 (task_state_value next_state) expected_version reason actor_id correlation_id)
              (\<lambda>t.
                let (rows, n) =
                  update_where ts_version task_id expected_version
                    (\<lambda>r. r\<lparr>ts_state := next_state, ts_version := tr_resulting_version t,
                          ts_owner_id := (if owner_id \<noteq> None then owner_id else ts_owner_id row),
                          ts_blocked_reason := blocked_reason,
                          ts_last_transition_id := Some (tr_transition_id t),
                          ts_updated_at_utc := tr_occurred_at_utc t\<rparr>)
                    (st_task_states s)
                in if n \<noteq> 1
                   then Inl (ConcurrentStateChangeError ''task state changed during transition'')
                   else res_bind (insert_transition (ts_project_id row) t (s\<lparr>st_task_states := rows\<rparr>))
                          (\<lambda>s'. Inr (s', ())))))"

definition transition_task ::
  "int \<Rightarrow> string \<Rightarrow> TaskLifecycleState \<Rightarrow> int \<Rightarrow> string \<Rightarrow> string \<Rightarrow> string \<Rightarrow> string option
     \<Rightarrow> string option \<Rightarrow> StateStore \<Rightarrow> StateStore \<times> TaskStateRecord result" where
  "transition_task now task_id next_state expected_version reason actor_id
       correlation_id blocked_reason owner_id s =
     (case transaction
             (transition_task_body now task_id next_state expected_version reason actor_id
                correlation_id blocked_reason owner_id) s of
        (s', Inl e) \<Rightarrow> (s', Inl e)
      | (s', Inr _) \<Rightarrow>
          (s', res_bind (get_task_state s' task_id) (\<lambda>r.
             case r of
               None \<Rightarrow> Inl (PersistenceError ''task state disappeared after transition'')
             | Some x \<Rightarrow> Inr x)))"

definition list_transitions :: "StateStore \<Rightarrow> string \<Rightarrow> string \<Rightarrow> DomainStateTransition list" where
  "list_transitions s entity_type entity_id =
     sort_key tr_resulting_version
       (filter (\<lambda>t. tr_entity_type t = entity_type \<and> tr_entity_id t = entity_id)
          (map snd (st_transitions s)))"


section \<open>Audited chains of transitions\<close>

text \<open>
  \<open>chain\<close> says that a list of log entries leads from one state and version to another:
  every entry starts where the one before ended, is allowed by the table and increments
  the version by one.
\<close>

fun chain ::
  "('s \<Rightarrow> string) \<Rightarrow> ('s \<Rightarrow> 's list) \<Rightarrow> 's \<Rightarrow> int \<Rightarrow> DomainStateTransition list \<Rightarrow> 's \<Rightarrow> int \<Rightarrow> bool" where
  "chain val allowed a v [] b w = (a = b \<and> v = w)"
| "chain val allowed a v (t # ts) b w =
     (\<exists>c \<in> set (allowed a). tr_previous_state t = val a \<and> tr_next_state t = val c
        \<and> tr_expected_version t = v \<and> tr_resulting_version t = v + 1
        \<and> chain val allowed c (v + 1) ts b w)"

locale lifecycle_table =
  fixes val :: "'s \<Rightarrow> string" and allowed :: "'s \<Rightarrow> 's list"
  assumes val_inj: "val a = val b \<longleftrightarrow> a = b"
    and allowed_irrefl: "a \<notin> set (allowed a)"
begin

lemma chain_snoc:
  assumes "chain val allowed a v ts b w" "c \<in> set (allowed b)"
    "tr_previous_state t = val b" "tr_next_state t = val c"
    "tr_expected_version t = w" "tr_resulting_version t = w + 1"
  shows "chain val allowed a v (ts @ [t]) c (w + 1)"
  using assms by (induction ts arbitrary: a v) auto

lemma chain_versions:
  "chain val allowed a v ts b w \<Longrightarrow> map tr_resulting_version ts = map (\<lambda>i. v + 1 + int i) [0..<length ts]"
proof (induction ts arbitrary: a v)
  case (Cons t ts)
  then obtain c where t: "tr_resulting_version t = v + 1" and c: "chain val allowed c (v + 1) ts b w"
    by auto
  have "map tr_resulting_version ts = map (\<lambda>i. v + 1 + int (Suc i)) [0..<length ts]"
    using Cons.IH [OF c] by (simp add: algebra_simps)
  also have "\<dots> = map (\<lambda>i. v + 1 + int i) [1..<Suc (length ts)]"
    by (simp add: map_Suc_upt [symmetric] del: upt_Suc map_map) (simp add: comp_def)
  finally show ?case using t by (simp add: upt_conv_Cons del: upt_Suc)
qed simp

lemma chain_version_count: "chain val allowed a v ts b w \<Longrightarrow> w = v + int (length ts)"
  by (induction ts arbitrary: a v) fastforce+

lemma chain_sorted: "chain val allowed a v ts b w \<Longrightarrow> sort_key tr_resulting_version ts = ts"
  by (rule sort_key_id_if_sorted) (simp add: chain_versions sorted_iff_nth_mono)

lemma chain_no_self_loop:
  "chain val allowed a v ts b w \<Longrightarrow> t \<in> set ts \<Longrightarrow> tr_previous_state t \<noteq> tr_next_state t"
  using allowed_irrefl val_inj by (induction ts arbitrary: a v) auto

end

interpretation task_table: lifecycle_table task_state_value TASK_TRANSITIONS
  by unfold_locales (simp_all add: TASK_TRANSITIONS_irrefl)

interpretation project_table: lifecycle_table project_state_value PROJECT_TRANSITIONS
  by unfold_locales (simp_all add: PROJECT_TRANSITIONS_irrefl)

section \<open>Rows and the log\<close>

lemma update_where_keys [simp]: "map fst (fst (update_where ver k v f rows)) = map fst rows"
  by (auto simp: update_where_def)

lemma update_where_None:
  "k \<notin> fst ` set rows \<Longrightarrow> fst (update_where ver k v f rows) = rows"
  by (induction rows) (auto simp: update_where_def)

lemma update_where_map_of:
  assumes "distinct (map fst rows)" "map_of rows k = Some r" "ver r = v"
  shows "map_of (fst (update_where ver k v f rows)) = (map_of rows)(k \<mapsto> f r)"
    and "snd (update_where ver k v f rows) = 1"
  using assms
proof (induction rows)
  case (Cons p rows)
  obtain k' r' where p: "p = (k', r')" by (cases p)
  case 1
  show ?case
  proof (cases "k' = k")
    case True
    then have "k \<notin> fst ` set rows" "r' = r" using 1 p by auto
    then show ?thesis using update_where_None [of k rows ver v f] True 1 p
      by (auto simp: update_where_def fun_eq_iff)
  next
    case False
    then show ?thesis using Cons(1) 1 p by (auto simp: update_where_def fun_eq_iff)
  qed
  case 2
  show ?case
  proof (cases "k' = k")
    case True
    then have "k \<notin> fst ` set rows" "r' = r" using 2 p by auto
    then show ?thesis using True 2 p by (force simp: update_where_def filter_empty_conv)
  next
    case False
    then show ?thesis using Cons(2) 2 p by (auto simp: update_where_def)
  qed
qed simp_all

definition entity_log :: "StateStore \<Rightarrow> string \<Rightarrow> string \<Rightarrow> DomainStateTransition list" where
  "entity_log s et eid =
     filter (\<lambda>t. tr_entity_type t = et \<and> tr_entity_id t = eid) (map snd (st_transitions s))"

lemma list_transitions_sorted: "list_transitions s et eid = sort_key tr_resulting_version (entity_log s et eid)"
  by (simp add: list_transitions_def entity_log_def)

lemma insert_transition_Inr:
  "insert_transition pid t s = Inr s' \<Longrightarrow>
     s' = s\<lparr>st_transitions := st_transitions s @ [(pid, t)]\<rparr>
     \<and> tr_transition_id t \<notin> (\<lambda>(p, u). tr_transition_id u) ` set (st_transitions s)"
  by (auto simp: insert_transition_def split: if_splits)


section \<open>What the transitions do\<close>

lemma transition_task_body_Inr:
  assumes "transition_task_body now k ns ev reason actor corr br own s = Inr (s', u)"
  obtains row t where
    "map_of (st_task_states s) k = Some row" "ts_version row = ev" "ns \<in> set (TASK_TRANSITIONS (ts_state row))"
    "ns = T_BLOCKED \<longleftrightarrow> \<not> falsy br"
    "create_transition now ''task'' k (task_state_value (ts_state row)) (task_state_value ns) ev reason actor corr = Inr t"
    "tr_transition_id t \<notin> (\<lambda>(p, u). tr_transition_id u) ` set (st_transitions s)"
    "s' = s\<lparr>st_task_states := fst (update_where ts_version k ev
             (\<lambda>r. r\<lparr>ts_state := ns, ts_version := ev + 1,
                   ts_owner_id := (if own \<noteq> None then own else ts_owner_id row),
                   ts_blocked_reason := br, ts_last_transition_id := Some (tr_transition_id t),
                   ts_updated_at_utc := Aware now\<rparr>) (st_task_states s)),
           st_transitions := st_transitions s @ [(ts_project_id row, t)]\<rparr>"
proof -
  obtain row where row: "map_of (st_task_states s) k = Some row"
    using assms by (auto simp: transition_task_body_def split: option.splits)
  have c1: "ts_version row = ev" "ns \<in> set (TASK_TRANSITIONS (ts_state row))" "ns = T_BLOCKED \<longleftrightarrow> \<not> falsy br"
    using assms row
    by (auto simp: transition_task_body_def ensure_task_transition_def split: if_splits)
  then obtain t where t: "create_transition now ''task'' k (task_state_value (ts_state row))
      (task_state_value ns) ev reason actor corr = Inr t"
    using assms row
    by (auto simp: transition_task_body_def ensure_task_transition_def split: if_splits)
  note f = create_transition_fields [OF t]
  have "insert_transition (ts_project_id row) t
      (s\<lparr>st_task_states := fst (update_where ts_version k ev
             (\<lambda>r. r\<lparr>ts_state := ns, ts_version := ev + 1,
                   ts_owner_id := (if own \<noteq> None then own else ts_owner_id row),
                   ts_blocked_reason := br, ts_last_transition_id := Some (tr_transition_id t),
                   ts_updated_at_utc := Aware now\<rparr>) (st_task_states s))\<rparr>) = Inr s'"
    using assms row c1 t f
    by (auto simp: transition_task_body_def ensure_task_transition_def Let_def split_beta split: if_splits)
  from insert_transition_Inr [OF this] show thesis
    using that [OF row c1 t] by simp
qed

lemma transition_project_body_Inr:
  assumes "transition_project_body now k ns ev reason actor corr br s = Inr (s', u)"
  obtains row t where
    "map_of (st_project_states s) k = Some row" "ps_version row = ev"
    "ns \<in> set (PROJECT_TRANSITIONS (ps_state row))"
    "create_transition now ''project'' k (project_state_value (ps_state row)) (project_state_value ns) ev reason actor corr = Inr t"
    "tr_transition_id t \<notin> (\<lambda>(p, u). tr_transition_id u) ` set (st_transitions s)"
    "s' = s\<lparr>st_project_states := fst (update_where ps_version k ev
             (\<lambda>r. r\<lparr>ps_state := ns, ps_version := ev + 1, ps_blocked_reason := br,
                   ps_last_transition_id := Some (tr_transition_id t), ps_updated_at_utc := Aware now\<rparr>)
             (st_project_states s)),
           st_transitions := st_transitions s @ [(k, t)]\<rparr>"
proof -
  obtain row where row: "map_of (st_project_states s) k = Some row"
    using assms by (auto simp: transition_project_body_def split: option.splits)
  have c1: "ps_version row = ev" "ns \<in> set (PROJECT_TRANSITIONS (ps_state row))"
    using assms row
    by (auto simp: transition_project_body_def ensure_project_transition_def split: if_splits)
  then obtain t where t: "create_transition now ''project'' k (project_state_value (ps_state row))
      (project_state_value ns) ev reason actor corr = Inr t"
    using assms row
    by (auto simp: transition_project_body_def ensure_project_transition_def split: if_splits)
  note f = create_transition_fields [OF t]
  have "insert_transition k t
      (s\<lparr>st_project_states := fst (update_where ps_version k ev
             (\<lambda>r. r\<lparr>ps_state := ns, ps_version := ev + 1, ps_blocked_reason := br,
                   ps_last_transition_id := Some (tr_transition_id t), ps_updated_at_utc := Aware now\<rparr>)
             (st_project_states s))\<rparr>) = Inr s'"
    using assms row c1 t f
    by (auto simp: transition_project_body_def ensure_project_transition_def Let_def split_beta split: if_splits)
  from insert_transition_Inr [OF this] show thesis
    using that [OF row c1 t] by simp
qed

lemma transition_task_cases:
  obtains (failed) e where "transition_task_body now k ns ev reason actor corr br own s = Inl e"
      "transition_task now k ns ev reason actor corr br own s = (s, Inl e)"
  | (committed) s' where "transition_task_body now k ns ev reason actor corr br own s = Inr (s', ())"
      "fst (transition_task now k ns ev reason actor corr br own s) = s'"
      "snd (transition_task now k ns ev reason actor corr br own s) =
         res_bind (get_task_state s' k) (\<lambda>r. case r of
            None \<Rightarrow> Inl (PersistenceError ''task state disappeared after transition'') | Some x \<Rightarrow> Inr x)"
  by (cases "transition_task_body now k ns ev reason actor corr br own s")
     (auto simp: transition_task_def transaction_def)

lemma transition_project_cases:
  obtains (failed) e where "transition_project_body now k ns ev reason actor corr br s = Inl e"
      "fst (transition_project now k ns ev reason actor corr br s) = s"
  | (committed) s' where "transition_project_body now k ns ev reason actor corr br s = Inr (s', ())"
      "fst (transition_project now k ns ev reason actor corr br s) = s'"
  by (cases "transition_project_body now k ns ev reason actor corr br s")
     (auto simp: transition_project_def transaction_def)


section \<open>The store as a state machine\<close>

text \<open>Every operation of the store that changes it, with any arguments and at any time.\<close>

inductive store_step :: "StateStore \<Rightarrow> StateStore \<Rightarrow> bool" where
  step_manifest: "store_step s (fst (put_project_manifest m s))"
| step_tasks: "store_step s (fst (put_task_states tasks s))"
| step_project: "store_step s (fst (transition_project now k pn ev reason actor corr br s))"
| step_task: "store_step s (fst (transition_task now k tn ev reason actor corr br own s))"

inductive store_reachable :: "StateStore \<Rightarrow> bool" where
  reach_empty: "store_reachable empty_store"
| reach_step: "store_reachable s \<Longrightarrow> store_step s s' \<Longrightarrow> store_reachable s'"

definition audited_tasks :: "StateStore \<Rightarrow> bool" where
  "audited_tasks s \<longleftrightarrow>
     distinct (map fst (st_task_states s))
     \<and> (\<forall>k r. map_of (st_task_states s) k = Some r \<longrightarrow>
          (\<exists>a v. chain task_state_value TASK_TRANSITIONS a v (entity_log s ''task'' k) (ts_state r) (ts_version r)))
     \<and> (\<forall>k. map_of (st_task_states s) k = None \<longrightarrow> entity_log s ''task'' k = [])"

definition audited_projects :: "StateStore \<Rightarrow> bool" where
  "audited_projects s \<longleftrightarrow>
     distinct (map fst (st_project_states s))
     \<and> (\<forall>k r. map_of (st_project_states s) k = Some r \<longrightarrow>
          (\<exists>a v. chain project_state_value PROJECT_TRANSITIONS a v (entity_log s ''project'' k) (ps_state r) (ps_version r)))
     \<and> (\<forall>k. map_of (st_project_states s) k = None \<longrightarrow> entity_log s ''project'' k = [])"

definition store_inv :: "StateStore \<Rightarrow> bool" where
  "store_inv s \<longleftrightarrow> audited_tasks s \<and> audited_projects s
     \<and> distinct (map (\<lambda>(p, t). tr_transition_id t) (st_transitions s))"

lemma entity_log_append:
  "entity_log (s\<lparr>st_transitions := ts @ [(p, t)]\<rparr>) et eid =
     entity_log (s\<lparr>st_transitions := ts\<rparr>) et eid @ (if tr_entity_type t = et \<and> tr_entity_id t = eid then [t] else [])"
  by (simp add: entity_log_def)

lemma entity_log_frame [simp]:
  "entity_log (s\<lparr>st_task_states := x\<rparr>) et eid = entity_log s et eid"
  "entity_log (s\<lparr>st_project_states := y\<rparr>) et eid = entity_log s et eid"
  "entity_log (s\<lparr>st_projects := z\<rparr>) et eid = entity_log s et eid"
  by (simp_all add: entity_log_def)

lemma entity_log_of:
  "st_transitions s' = st_transitions s @ [(p, t)] \<Longrightarrow>
   entity_log s' et eid =
     entity_log s et eid @ (if tr_entity_type t = et \<and> tr_entity_id t = eid then [t] else [])"
  by (simp add: entity_log_def)

lemma audited_tasksI:
  assumes "audited_tasks s"
    and rows: "distinct (map fst (st_task_states s'))"
    and keep: "\<And>j r. map_of (st_task_states s') j = Some r \<Longrightarrow> j \<noteq> k \<Longrightarrow>
       map_of (st_task_states s) j = Some r \<and> entity_log s' ''task'' j = entity_log s ''task'' j"
    and new: "\<And>r. map_of (st_task_states s') k = Some r \<Longrightarrow>
       \<exists>a v. chain task_state_value TASK_TRANSITIONS a v (entity_log s' ''task'' k) (ts_state r) (ts_version r)"
    and none: "\<And>j. map_of (st_task_states s') j = None \<Longrightarrow> entity_log s' ''task'' j = []"
  shows "audited_tasks s'"
  unfolding audited_tasks_def
proof (intro conjI allI impI)
  fix j r assume "map_of (st_task_states s') j = Some r"
  then show "\<exists>a v. chain task_state_value TASK_TRANSITIONS a v (entity_log s' ''task'' j) (ts_state r) (ts_version r)"
    using keep [of j r] new [of r] assms(1) unfolding audited_tasks_def by (cases "j = k") auto
qed (use rows none in auto)

lemma audited_projectsI:
  assumes "audited_projects s"
    and rows: "distinct (map fst (st_project_states s'))"
    and keep: "\<And>j r. map_of (st_project_states s') j = Some r \<Longrightarrow> j \<noteq> k \<Longrightarrow>
       map_of (st_project_states s) j = Some r \<and> entity_log s' ''project'' j = entity_log s ''project'' j"
    and new: "\<And>r. map_of (st_project_states s') k = Some r \<Longrightarrow>
       \<exists>a v. chain project_state_value PROJECT_TRANSITIONS a v (entity_log s' ''project'' k) (ps_state r) (ps_version r)"
    and none: "\<And>j. map_of (st_project_states s') j = None \<Longrightarrow> entity_log s' ''project'' j = []"
  shows "audited_projects s'"
  unfolding audited_projects_def
proof (intro conjI allI impI)
  fix j r assume "map_of (st_project_states s') j = Some r"
  then show "\<exists>a v. chain project_state_value PROJECT_TRANSITIONS a v (entity_log s' ''project'' j) (ps_state r) (ps_version r)"
    using keep [of j r] new [of r] assms(1) unfolding audited_projects_def by (cases "j = k") auto
qed (use rows none in auto)

lemma audited_tasks_frame:
  "audited_tasks s \<Longrightarrow> st_task_states s' = st_task_states s \<Longrightarrow>
   (\<And>k. entity_log s' ''task'' k = entity_log s ''task'' k) \<Longrightarrow> audited_tasks s'"
  by (simp add: audited_tasks_def)

lemma audited_projects_frame:
  "audited_projects s \<Longrightarrow> st_project_states s' = st_project_states s \<Longrightarrow>
   (\<And>k. entity_log s' ''project'' k = entity_log s ''project'' k) \<Longrightarrow> audited_projects s'"
  by (simp add: audited_projects_def)

lemma insert_task_inv:
  assumes "store_inv s" "insert_task s task = Inr s'"
  shows "store_inv s'"
proof (cases "map_of (st_task_states s) (ts_task_id task)")
  case (Some r)
  then show ?thesis using assms by (simp add: insert_task_def)
next
  case None
  then have s': "s' = s\<lparr>st_task_states := AList.update (ts_task_id task) task (st_task_states s)\<rparr>"
    using assms(2) by (auto simp: insert_task_def split: if_splits)
  have "audited_tasks s'"
  proof (rule audited_tasksI [where k = "ts_task_id task"])
    show "audited_tasks s" using assms(1) by (simp add: store_inv_def)
    show "distinct (map fst (st_task_states s'))"
      using assms(1) by (simp add: s' store_inv_def audited_tasks_def distinct_update)
    show "\<exists>a v. chain task_state_value TASK_TRANSITIONS a v (entity_log s' ''task'' (ts_task_id task)) (ts_state r) (ts_version r)"
      for r
      using None assms(1) by (simp add: s' store_inv_def audited_tasks_def)
  qed (use assms(1) in \<open>auto simp: s' update_conv' store_inv_def audited_tasks_def split: if_splits\<close>)
  moreover have "audited_projects s'"
    by (rule audited_projects_frame [of s]) (use assms(1) in \<open>simp_all add: s' store_inv_def\<close>)
  ultimately show ?thesis using assms(1) by (simp add: store_inv_def s')
qed

lemma put_task_states_inv: "store_inv s \<Longrightarrow> store_inv (fst (put_task_states tasks s))"
proof -
  assume inv: "store_inv s"
  show ?thesis
  proof (cases "fold_res insert_task s tasks")
    case (Inl e)
    then show ?thesis using inv by (simp add: put_task_states_def transaction_def)
  next
    case (Inr s')
    then have "store_inv s'"
      by (rule fold_res_invariant) (use inv in \<open>auto intro: insert_task_inv\<close>)
    then show ?thesis using Inr by (simp add: put_task_states_def transaction_def)
  qed
qed

lemma put_manifest_inv:
  assumes "store_inv s"
  shows "store_inv (fst (put_project_manifest m s))"
proof (cases "mf_revision m < 1")
  case True
  then show ?thesis using assms by (simp add: put_project_manifest_def transaction_def put_manifest_body_def)
next
  case False
  let ?k = "mf_project_id m"
  obtain prow srow where s': "fst (put_project_manifest m s) =
      s\<lparr>st_projects := AList.update ?k prow (st_projects s),
        st_project_states := AList.update ?k srow (st_project_states s)\<rparr>"
    and srow: "map_of (st_project_states s) ?k = Some r \<Longrightarrow> ps_state srow = ps_state r \<and> ps_version srow = ps_version r"
    for r
    using False
    by (auto simp: put_project_manifest_def transaction_def put_manifest_body_def Let_def split: option.splits)
  let ?s' = "fst (put_project_manifest m s)"
  have "audited_projects ?s'"
  proof (rule audited_projectsI [where k = ?k])
    show "audited_projects s" using assms by (simp add: store_inv_def)
    show "distinct (map fst (st_project_states ?s'))"
      using assms by (simp add: s' store_inv_def audited_projects_def distinct_update)
    fix r assume "map_of (st_project_states ?s') ?k = Some r"
    then have r: "r = srow" by (simp add: s' update_conv')
    show "\<exists>a v. chain project_state_value PROJECT_TRANSITIONS a v (entity_log ?s' ''project'' ?k) (ps_state r) (ps_version r)"
      using assms srow by (cases "map_of (st_project_states s) ?k") (auto simp: s' r store_inv_def audited_projects_def)
  qed (use assms in \<open>auto simp: s' update_conv' store_inv_def audited_projects_def split: if_splits\<close>)
  moreover have "audited_tasks ?s'"
    by (rule audited_tasks_frame [of s]) (use assms in \<open>simp_all add: s' store_inv_def\<close>)
  ultimately show ?thesis using assms by (simp add: store_inv_def s')
qed


lemma transition_task_inv:
  assumes inv: "store_inv s"
  shows "store_inv (fst (transition_task now k ns ev reason actor corr br own s))"
proof (cases rule: transition_task_cases [of now k ns ev reason actor corr br own s])
  case failed
  then show ?thesis using inv by simp
next
  case (committed s')
  from committed(1) obtain row t where row: "map_of (st_task_states s) k = Some row" "ts_version row = ev"
      "ns \<in> set (TASK_TRANSITIONS (ts_state row))"
    and t: "create_transition now ''task'' k (task_state_value (ts_state row)) (task_state_value ns) ev reason actor corr = Inr t"
    and fresh: "tr_transition_id t \<notin> (\<lambda>(p, u). tr_transition_id u) ` set (st_transitions s)"
    and s': "s' = s\<lparr>st_task_states := fst (update_where ts_version k ev
             (\<lambda>r. r\<lparr>ts_state := ns, ts_version := ev + 1,
                   ts_owner_id := (if own \<noteq> None then own else ts_owner_id row),
                   ts_blocked_reason := br, ts_last_transition_id := Some (tr_transition_id t),
                   ts_updated_at_utc := Aware now\<rparr>) (st_task_states s)),
           st_transitions := st_transitions s @ [(ts_project_id row, t)]\<rparr>"
    by (rule transition_task_body_Inr)
  note f = create_transition_fields [OF t]
  have dist: "distinct (map fst (st_task_states s))" using inv by (simp add: store_inv_def audited_tasks_def)
  have log: "entity_log s' et eid = entity_log s et eid @ (if ''task'' = et \<and> k = eid then [t] else [])" for et eid
    using entity_log_of [of s' s _ t et eid] f by (simp add: s')
  obtain new where rows: "map_of (st_task_states s') = (map_of (st_task_states s))(k \<mapsto> new)"
    and new: "ts_state new = ns" "ts_version new = ev + 1"
    using update_where_map_of(1) [where ver = ts_version, OF dist row(1,2)] by (auto simp: s')
  have "audited_tasks s'"
  proof (rule audited_tasksI [where k = k])
    show "audited_tasks s" using inv by (simp add: store_inv_def)
    show "distinct (map fst (st_task_states s'))" using dist by (simp add: s')
    show "map_of (st_task_states s) j = Some r \<and> entity_log s' ''task'' j = entity_log s ''task'' j"
      if "map_of (st_task_states s') j = Some r" "j \<noteq> k" for j r
      using that rows log by simp
    show "entity_log s' ''task'' j = []" if "map_of (st_task_states s') j = None" for j
      using that rows inv log by (auto simp: store_inv_def audited_tasks_def split: if_splits)
    fix r assume "map_of (st_task_states s') k = Some r"
    then have r: "ts_state r = ns" "ts_version r = ev + 1" using rows new by auto
    obtain a v where "chain task_state_value TASK_TRANSITIONS a v (entity_log s ''task'' k) (ts_state row) ev"
      using inv row unfolding store_inv_def audited_tasks_def by blast
    then have "chain task_state_value TASK_TRANSITIONS a v (entity_log s ''task'' k @ [t]) ns (ev + 1)"
      using row f by (intro task_table.chain_snoc) auto
    then show "\<exists>a v. chain task_state_value TASK_TRANSITIONS a v (entity_log s' ''task'' k) (ts_state r) (ts_version r)"
      using r log by auto
  qed
  moreover have "audited_projects s'"
    by (rule audited_projects_frame [of s]) (use inv log in \<open>simp_all add: store_inv_def, simp add: s'\<close>)
  moreover have "distinct (map (\<lambda>(p, t). tr_transition_id t) (st_transitions s'))"
    using inv fresh by (auto simp: s' store_inv_def split_beta)
  ultimately show ?thesis using committed(2) by (simp add: store_inv_def)
qed

lemma transition_project_inv:
  assumes inv: "store_inv s"
  shows "store_inv (fst (transition_project now k ns ev reason actor corr br s))"
proof (cases rule: transition_project_cases [of now k ns ev reason actor corr br s])
  case failed
  then show ?thesis using inv by simp
next
  case (committed s')
  from committed(1) obtain row t where row: "map_of (st_project_states s) k = Some row" "ps_version row = ev"
      "ns \<in> set (PROJECT_TRANSITIONS (ps_state row))"
    and t: "create_transition now ''project'' k (project_state_value (ps_state row)) (project_state_value ns) ev reason actor corr = Inr t"
    and fresh: "tr_transition_id t \<notin> (\<lambda>(p, u). tr_transition_id u) ` set (st_transitions s)"
    and s': "s' = s\<lparr>st_project_states := fst (update_where ps_version k ev
             (\<lambda>r. r\<lparr>ps_state := ns, ps_version := ev + 1, ps_blocked_reason := br,
                   ps_last_transition_id := Some (tr_transition_id t), ps_updated_at_utc := Aware now\<rparr>)
             (st_project_states s)),
           st_transitions := st_transitions s @ [(k, t)]\<rparr>"
    by (rule transition_project_body_Inr)
  note f = create_transition_fields [OF t]
  have dist: "distinct (map fst (st_project_states s))" using inv by (simp add: store_inv_def audited_projects_def)
  have log: "entity_log s' et eid = entity_log s et eid @ (if ''project'' = et \<and> k = eid then [t] else [])" for et eid
    using entity_log_of [of s' s _ t et eid] f by (simp add: s')
  obtain new where rows: "map_of (st_project_states s') = (map_of (st_project_states s))(k \<mapsto> new)"
    and new: "ps_state new = ns" "ps_version new = ev + 1"
    using update_where_map_of(1) [where ver = ps_version, OF dist row(1,2)] by (auto simp: s')
  have "audited_projects s'"
  proof (rule audited_projectsI [where k = k])
    show "audited_projects s" using inv by (simp add: store_inv_def)
    show "distinct (map fst (st_project_states s'))" using dist by (simp add: s')
    show "map_of (st_project_states s) j = Some r \<and> entity_log s' ''project'' j = entity_log s ''project'' j"
      if "map_of (st_project_states s') j = Some r" "j \<noteq> k" for j r
      using that rows log by simp
    show "entity_log s' ''project'' j = []" if "map_of (st_project_states s') j = None" for j
      using that rows inv log by (auto simp: store_inv_def audited_projects_def split: if_splits)
    fix r assume "map_of (st_project_states s') k = Some r"
    then have r: "ps_state r = ns" "ps_version r = ev + 1" using rows new by auto
    obtain a v where "chain project_state_value PROJECT_TRANSITIONS a v (entity_log s ''project'' k) (ps_state row) ev"
      using inv row unfolding store_inv_def audited_projects_def by blast
    then have "chain project_state_value PROJECT_TRANSITIONS a v (entity_log s ''project'' k @ [t]) ns (ev + 1)"
      using row f by (intro project_table.chain_snoc) auto
    then show "\<exists>a v. chain project_state_value PROJECT_TRANSITIONS a v (entity_log s' ''project'' k) (ps_state r) (ps_version r)"
      using r log by auto
  qed
  moreover have "audited_tasks s'"
    by (rule audited_tasks_frame [of s]) (use inv log in \<open>simp_all add: store_inv_def, simp add: s'\<close>)
  moreover have "distinct (map (\<lambda>(p, t). tr_transition_id t) (st_transitions s'))"
    using inv fresh by (auto simp: s' store_inv_def split_beta)
  ultimately show ?thesis using committed(2) by (simp add: store_inv_def)
qed

lemma store_step_inv: "store_step s s' \<Longrightarrow> store_inv s \<Longrightarrow> store_inv s'"
  by (induction rule: store_step.induct)
     (simp_all add: put_manifest_inv put_task_states_inv transition_project_inv transition_task_inv)

lemma store_reachable_inv: "store_reachable s \<Longrightarrow> store_inv s"
proof (induction rule: store_reachable.induct)
  case reach_empty
  then show ?case
    by (simp add: store_inv_def audited_tasks_def audited_projects_def empty_store_def entity_log_def)
next
  case (reach_step s s')
  then show ?case by (blast intro: store_step_inv)
qed


section \<open>Properties of the store\<close>

lemma list_transitions_chain:
  assumes "store_inv s" "map_of (st_task_states s) k = Some r"
  shows "list_transitions s ''task'' k = entity_log s ''task'' k"
    and "\<exists>a v. chain task_state_value TASK_TRANSITIONS a v (list_transitions s ''task'' k) (ts_state r) (ts_version r)"
proof -
  obtain a v where c: "chain task_state_value TASK_TRANSITIONS a v (entity_log s ''task'' k) (ts_state r) (ts_version r)"
    using assms unfolding store_inv_def audited_tasks_def by blast
  show l: "list_transitions s ''task'' k = entity_log s ''task'' k"
    using task_table.chain_sorted [OF c] by (simp add: list_transitions_sorted)
  show "\<exists>a v. chain task_state_value TASK_TRANSITIONS a v (list_transitions s ''task'' k) (ts_state r) (ts_version r)"
    using c l by auto
qed

text \<open>A small store for the examples: one project and one task.\<close>

definition example_manifest :: ManifestRow where
  "example_manifest =
     \<lparr>mf_project_id = ''PROJECT-X'', mf_project_name = ''X'', mf_revision = 1, mf_fingerprint = ''f'',
      mf_document = ''{}'', mf_created_at_utc = Aware 0, mf_updated_at_utc = Aware 0\<rparr>"

definition example_task :: "TaskLifecycleState \<Rightarrow> TaskStateRecord" where
  "example_task st =
     \<lparr>ts_task_id = ''PP-TASK-000001'', ts_project_id = ''PROJECT-X'', ts_state = st, ts_version = 1,
      ts_priority = ''P1'', ts_dependency_ids = [], ts_blocker_ids = [], ts_owner_id = None,
      ts_blocked_reason = None, ts_last_transition_id = None, ts_updated_at_utc = Aware 0\<rparr>"

definition example_store :: "TaskLifecycleState \<Rightarrow> StateStore" where
  "example_store st = fst (put_task_states [example_task st] (fst (put_project_manifest example_manifest empty_store)))"

lemma example_store_reachable: "store_reachable (example_store st)"
  unfolding example_store_def by (intro reach_step [OF _ step_tasks] reach_step [OF _ step_manifest] reach_empty)

lemma example_store_eq:
  "st_task_states (example_store st) = [(''PP-TASK-000001'', example_task st)]"
  "map_of (st_projects (example_store st)) ''PROJECT-X'' = Some example_manifest"
  "st_transitions (example_store st) = []"
  by (simp_all add: example_store_def put_project_manifest_def put_manifest_body_def transaction_def
      put_task_states_def insert_task_def empty_store_def example_manifest_def example_task_def)

lemma example_task_valid: "st \<noteq> T_BLOCKED \<Longrightarrow> valid_TaskStateRecord (example_task st)"
proof -
  assume "st \<noteq> T_BLOCKED"
  moreover have "is_issue_id ''PP-TASK-000001''" "is_project_id ''PROJECT-X''" by code_simp+
  ultimately show ?thesis
    by (simp add: valid_TaskStateRecord_def example_task_def is_priority_def max_length_def
        validate_related_tasks_def falsy_def)
qed

lemma example_first_transition:
  assumes "ns \<in> set (TASK_TRANSITIONS st)" "ns = T_BLOCKED \<longleftrightarrow> \<not> falsy br"
  shows "\<exists>t. transition_task 5 ''PP-TASK-000001'' ns 1 ''start'' ''actor'' ''corr'' br own (example_store st) =
     (let row = (example_task st)\<lparr>ts_state := ns, ts_version := 2, ts_owner_id := own, ts_blocked_reason := br,
          ts_last_transition_id := Some (tr_transition_id t), ts_updated_at_utc := Aware 5\<rparr>
      in (example_store st)\<lparr>st_task_states := [(''PP-TASK-000001'', row)], st_transitions := [(''PROJECT-X'', t)]\<rparr>,
      make_TaskStateRecord ((example_task st)\<lparr>ts_state := ns, ts_version := 2, ts_owner_id := own,
          ts_blocked_reason := br, ts_last_transition_id := Some (tr_transition_id t), ts_updated_at_utc := Aware 5\<rparr>))
     \<and> tr_entity_type t = ''task'' \<and> tr_entity_id t = ''PP-TASK-000001'' \<and> tr_resulting_version t = 2"
proof -
  have strips: "py_strip ''start'' \<noteq> []" "py_strip ''actor'' \<noteq> []" "py_strip ''corr'' \<noteq> []"
    "py_strip ''PP-TASK-000001'' \<noteq> []" by code_simp+
  have states: "py_strip (task_state_value x) \<noteq> []" for x by (cases x; hypsubst; code_simp)
  have neq: "st \<noteq> ns" using assms(1) TASK_TRANSITIONS_irrefl by metis
  let ?t = "\<lparr>tr_transition_id = ''TRANS-'' @ digest20 [''task'', ''PP-TASK-000001'', task_state_value st,
       task_state_value ns, str_int 1, ''start'', ''actor'', ''corr''], tr_entity_type = ''task'',
     tr_entity_id = ''PP-TASK-000001'', tr_previous_state = task_state_value st,
     tr_next_state = task_state_value ns, tr_expected_version = 1, tr_resulting_version = 1 + 1,
     tr_reason = ''start'', tr_actor_id = ''actor'', tr_correlation_id = ''corr'', tr_occurred_at_utc = Aware 5\<rparr>"
  have t: "create_transition 5 ''task'' ''PP-TASK-000001'' (task_state_value st) (task_state_value ns) 1
      ''start'' ''actor'' ''corr'' = Inr ?t"
    by (rule create_transition_ok) (use strips states neq in simp_all)
  have row: "ts_state (example_task st) = st" "ts_version (example_task st) = 1"
    "ts_project_id (example_task st) = ''PROJECT-X''" "ts_owner_id (example_task st) = None"
    by (simp_all add: example_task_def)
  have "transition_task_body 5 ''PP-TASK-000001'' ns 1 ''start'' ''actor'' ''corr'' br own (example_store st) =
     Inr ((example_store st)\<lparr>st_task_states := [(''PP-TASK-000001'',
          (example_task st)\<lparr>ts_state := ns, ts_version := 2, ts_owner_id := own, ts_blocked_reason := br,
          ts_last_transition_id := Some (tr_transition_id ?t), ts_updated_at_utc := Aware 5\<rparr>)],
       st_transitions := [(''PROJECT-X'', ?t)]\<rparr>, ())"
    unfolding transition_task_body_def using assms row
    by (auto simp: example_store_eq ensure_task_transition_def t update_where_def insert_transition_def
        simp del: append.simps str_int_def)
  then show ?thesis
    by (intro exI [of _ ?t]) (simp add: transition_task_def transaction_def get_task_state_def Let_def make_TaskStateRecord_def)
qed

lemma example_transition_ok:
  "\<exists>s' r. transition_task 5 ''PP-TASK-000001'' T_READY 1 ''start'' ''actor'' ''corr'' None None (example_store T_BACKLOG)
     = (s', Inr r)"
proof -
  have "valid_TaskStateRecord ((example_task T_BACKLOG)\<lparr>ts_state := T_READY, ts_version := 2, ts_owner_id := None,
          ts_blocked_reason := None, ts_last_transition_id := Some i, ts_updated_at_utc := Aware 5\<rparr>)" for i
    using example_task_valid [of T_BACKLOG] by (simp add: valid_TaskStateRecord_def example_task_def)
  then show ?thesis
    using example_first_transition [of T_READY T_BACKLOG None None]
    by (auto simp: Let_def falsy_def make_TaskStateRecord_def)
qed

lemma transition_task_success:
  assumes inv: "store_inv s" and call: "transition_task now k ns ev reason actor corr br own s = (s', Inr r)"
  obtains row t where
    "map_of (st_task_states s) k = Some row" "ts_version row = ev" "ns \<in> set (TASK_TRANSITIONS (ts_state row))"
    "map_of (st_task_states s') = (map_of (st_task_states s))(k \<mapsto> r)" "valid_TaskStateRecord r"
    "r = row\<lparr>ts_state := ns, ts_version := ev + 1, ts_owner_id := (if own \<noteq> None then own else ts_owner_id row),
             ts_blocked_reason := br, ts_last_transition_id := Some (tr_transition_id t),
             ts_updated_at_utc := Aware now\<rparr>"
    "st_transitions s' = st_transitions s @ [(ts_project_id row, t)]"
    "create_transition now ''task'' k (task_state_value (ts_state row)) (task_state_value ns) ev reason actor corr = Inr t"
    "st_projects s' = st_projects s" "st_project_states s' = st_project_states s"
proof (cases rule: transition_task_cases [of now k ns ev reason actor corr br own s])
  case failed
  then show thesis using call by simp
next
  case (committed s'')
  then have s'': "s'' = s'" using call by simp
  from committed(1) obtain row t where row: "map_of (st_task_states s) k = Some row" "ts_version row = ev"
      "ns \<in> set (TASK_TRANSITIONS (ts_state row))"
    and t: "create_transition now ''task'' k (task_state_value (ts_state row)) (task_state_value ns) ev reason actor corr = Inr t"
    and s': "s' = s\<lparr>st_task_states := fst (update_where ts_version k ev
             (\<lambda>r. r\<lparr>ts_state := ns, ts_version := ev + 1,
                   ts_owner_id := (if own \<noteq> None then own else ts_owner_id row),
                   ts_blocked_reason := br, ts_last_transition_id := Some (tr_transition_id t),
                   ts_updated_at_utc := Aware now\<rparr>) (st_task_states s)),
           st_transitions := st_transitions s @ [(ts_project_id row, t)]\<rparr>"
    unfolding s'' by (rule transition_task_body_Inr)
  have "distinct (map fst (st_task_states s))" using inv by (simp add: store_inv_def audited_tasks_def)
  note rows = update_where_map_of(1) [where ver = ts_version, OF this row(1,2)]
  let ?r = "row\<lparr>ts_state := ns, ts_version := ev + 1, ts_owner_id := (if own \<noteq> None then own else ts_owner_id row),
             ts_blocked_reason := br, ts_last_transition_id := Some (tr_transition_id t),
             ts_updated_at_utc := Aware now\<rparr>"
  have m: "map_of (st_task_states s') = (map_of (st_task_states s))(k \<mapsto> ?r)"
    unfolding s' using rows by simp
  have "snd (transition_task now k ns ev reason actor corr br own s) = make_TaskStateRecord ?r"
    unfolding committed(3) s'' by (simp add: get_task_state_def m make_TaskStateRecord_def)
  then have r: "r = ?r" "valid_TaskStateRecord r"
    using call by (auto simp: make_TaskStateRecord_def split: if_splits)
  show thesis
    by (rule that [OF row _ r(2,1) _ t]) (use m r(1) in simp_all, simp_all add: s')
qed



text \<open>
  C6. The log of a task is its complete history: in every reachable store, the transitions
  listed for a task, by version, lead from some initial state and version to the state and
  version of its row, each one allowed by \<open>TASK_TRANSITIONS\<close> and incrementing the version
  by one.
\<close>
theorem task_audit_trail:
  assumes "store_reachable s" "map_of (st_task_states s) k = Some r"
  shows "\<exists>a v. chain task_state_value TASK_TRANSITIONS a v (list_transitions s ''task'' k) (ts_state r) (ts_version r)"
  using list_transitions_chain(2) [OF store_reachable_inv [OF assms(1)] assms(2)] .

theorem task_audit_trail_witness:
  "store_reachable (example_store T_BACKLOG)
   \<and> map_of (st_task_states (example_store T_BACKLOG)) ''PP-TASK-000001'' = Some (example_task T_BACKLOG)
   \<and> (\<exists>a v. chain task_state_value TASK_TRANSITIONS a v
        (list_transitions (example_store T_BACKLOG) ''task'' ''PP-TASK-000001'')
        (ts_state (example_task T_BACKLOG)) (ts_version (example_task T_BACKLOG)))"
proof -
  have m: "map_of (st_task_states (example_store T_BACKLOG)) ''PP-TASK-000001'' = Some (example_task T_BACKLOG)"
    by (simp add: example_store_eq)
  show ?thesis
    using m example_store_reachable task_audit_trail [OF example_store_reachable m] by blast
qed



text \<open>
  Optimistic locking: once a transition from version \<open>ev\<close> has succeeded, every later
  transition of the same task that still expects \<open>ev\<close> is refused, whatever it asks for, and
  changes nothing.  Of two writers that read the same version, only the first one wins.
\<close>
theorem transition_task_stale:
  assumes "store_reachable s" "transition_task now k ns ev reason actor corr br own s = (s', Inr r)"
  shows "transition_task now2 k ns2 ev reason2 actor2 corr2 br2 own2 s' =
     (s', Inl (ConcurrentStateChangeError (''task version mismatch: expected '' @ str_int ev
                 @ '', observed '' @ str_int (ev + 1))))"
proof (rule transition_task_success [OF store_reachable_inv [OF assms(1)] assms(2)])
  fix row t
  assume rows: "map_of (st_task_states s') = (map_of (st_task_states s))(k \<mapsto> r)"
    and r: "r = row\<lparr>ts_state := ns, ts_version := ev + 1, ts_owner_id := (if own \<noteq> None then own else ts_owner_id row),
             ts_blocked_reason := br, ts_last_transition_id := Some (tr_transition_id t),
             ts_updated_at_utc := Aware now\<rparr>"
  have "ts_version r = ev + 1" by (simp add: r)
  then show ?thesis using rows
    by (simp add: transition_task_def transition_task_body_def transaction_def)
qed

theorem transition_task_stale_witness:
  "\<exists>s' r. transition_task 5 ''PP-TASK-000001'' T_READY 1 ''start'' ''actor'' ''corr'' None None (example_store T_BACKLOG)
       = (s', Inr r)
     \<and> transition_task 6 ''PP-TASK-000001'' T_CANCELLED 1 ''stop'' ''other'' ''corr'' None None s' =
        (s', Inl (ConcurrentStateChangeError ''task version mismatch: expected 1, observed 2''))"
proof -
  obtain s' r where c: "transition_task 5 ''PP-TASK-000001'' T_READY 1 ''start'' ''actor'' ''corr'' None None
      (example_store T_BACKLOG) = (s', Inr r)" using example_transition_ok by blast
  have "str_int 1 = ''1''" "str_int (1 + 1) = ''2''" by code_simp+
  with c transition_task_stale [OF example_store_reachable c, of 6 T_CANCELLED "''stop''" "''other''" "''corr''" None None]
  show ?thesis by simp
qed

text \<open>
  C29. Atomicity: when the row is well formed and the new blocked reason and owner respect the
  record's length limits, a transition that reports an error leaves the store as it was.
\<close>
theorem transition_task_atomic:
  assumes "store_reachable s"
    and "\<And>row. map_of (st_task_states s) k = Some row \<Longrightarrow> valid_TaskStateRecord row"
    and "max_length 2000 br" "max_length 191 own"
    and "transition_task now k ns ev reason actor corr br own s = (s', Inl e)"
  shows "s' = s"
proof (cases rule: transition_task_cases [of now k ns ev reason actor corr br own s])
  case failed
  then show ?thesis using assms(5) by simp
next
  case (committed s'')
  then have s'': "s'' = s'" using assms(5) by simp
  from committed(1) obtain row t where row: "map_of (st_task_states s) k = Some row" "ts_version row = ev"
    and br: "ns = T_BLOCKED \<longleftrightarrow> \<not> falsy br"
    and t: "create_transition now ''task'' k (task_state_value (ts_state row)) (task_state_value ns) ev reason actor corr = Inr t"
    and s': "s' = s\<lparr>st_task_states := fst (update_where ts_version k ev
             (\<lambda>r. r\<lparr>ts_state := ns, ts_version := ev + 1,
                   ts_owner_id := (if own \<noteq> None then own else ts_owner_id row),
                   ts_blocked_reason := br, ts_last_transition_id := Some (tr_transition_id t),
                   ts_updated_at_utc := Aware now\<rparr>) (st_task_states s)),
           st_transitions := st_transitions s @ [(ts_project_id row, t)]\<rparr>"
    unfolding s'' by (rule transition_task_body_Inr)
  have "distinct (map fst (st_task_states s))"
    using store_reachable_inv [OF assms(1)] by (simp add: store_inv_def audited_tasks_def)
  note rows = update_where_map_of(1) [where ver = ts_version, OF this row]
  have "valid_TaskStateRecord (row\<lparr>ts_state := ns, ts_version := ev + 1,
          ts_owner_id := (if own \<noteq> None then own else ts_owner_id row), ts_blocked_reason := br,
          ts_last_transition_id := Some (tr_transition_id t), ts_updated_at_utc := Aware now\<rparr>)"
    using assms(2) [OF row(1)] assms(3,4) br row(2) by (auto simp: valid_TaskStateRecord_def)
  then have "snd (transition_task now k ns ev reason actor corr br own s) \<noteq> Inl e"
    unfolding committed(3) s'' s' by (simp add: get_task_state_def rows make_TaskStateRecord_def)
  then show ?thesis using assms(5) by simp
qed

theorem transition_task_atomic_witness:
  "\<exists>s' e. transition_task 5 ''PP-TASK-000001'' T_DONE 1 ''start'' ''actor'' ''corr'' None None (example_store T_BACKLOG)
       = (s', Inl e) \<and> s' = example_store T_BACKLOG"
proof -
  have c: "\<exists>s' e. transition_task 5 ''PP-TASK-000001'' T_DONE 1 ''start'' ''actor'' ''corr'' None None (example_store T_BACKLOG) = (s', Inl e)"
    by (auto simp: transition_task_def transition_task_body_def transaction_def example_store_eq example_task_def
        ensure_task_transition_def)
  have v: "\<And>row. map_of (st_task_states (example_store T_BACKLOG)) ''PP-TASK-000001'' = Some row \<Longrightarrow> valid_TaskStateRecord row"
    using example_task_valid by (auto simp: example_store_eq)
  have m: "max_length n None" for n by (simp add: max_length_def)
  from c obtain s' e where "transition_task 5 ''PP-TASK-000001'' T_DONE 1 ''start'' ''actor'' ''corr'' None None
      (example_store T_BACKLOG) = (s', Inl e)" by blast
  from this transition_task_atomic [OF example_store_reachable v m m this] show ?thesis by (intro exI conjI)
qed

text \<open>
  C38. The record's length limits are checked only after the commit: from a well-formed task, a
  transition to BLOCKED whose reason is longer than 2000 characters reports a validation error
  and yet changes the store, and from then on reading the task fails.
\<close>
theorem transition_task_poisons_row:
  assumes "2000 < length reason"
  shows "\<exists>s'. transition_task 5 ''PP-TASK-000001'' T_BLOCKED 1 ''start'' ''actor'' ''corr'' (Some reason) None
       (example_store T_BACKLOG) = (s', Inl ValidationError)
     \<and> s' \<noteq> example_store T_BACKLOG
     \<and> get_task_state s' ''PP-TASK-000001'' = Inl ValidationError
     \<and> list_task_states s' ''PROJECT-X'' = Inl ValidationError"
proof -
  have bad: "\<not> valid_TaskStateRecord ((example_task T_BACKLOG)\<lparr>ts_state := T_BLOCKED, ts_version := 2, ts_owner_id := None,
          ts_blocked_reason := Some reason, ts_last_transition_id := Some i, ts_updated_at_utc := Aware 5\<rparr>)" for i
    using assms by (simp add: valid_TaskStateRecord_def max_length_def)
  have pid: "ts_project_id (example_task T_BACKLOG) = ''PROJECT-X''" by (simp add: example_task_def)
  have "\<not> falsy (Some reason)" using assms by (auto simp: falsy_def)
  then obtain t where c: "transition_task 5 ''PP-TASK-000001'' T_BLOCKED 1 ''start'' ''actor'' ''corr'' (Some reason) None
      (example_store T_BACKLOG) =
     (let row = (example_task T_BACKLOG)\<lparr>ts_state := T_BLOCKED, ts_version := 2, ts_owner_id := None, ts_blocked_reason := Some reason,
          ts_last_transition_id := Some (tr_transition_id t), ts_updated_at_utc := Aware 5\<rparr>
      in (example_store T_BACKLOG)\<lparr>st_task_states := [(''PP-TASK-000001'', row)], st_transitions := [(''PROJECT-X'', t)]\<rparr>,
      make_TaskStateRecord ((example_task T_BACKLOG)\<lparr>ts_state := T_BLOCKED, ts_version := 2, ts_owner_id := None,
          ts_blocked_reason := Some reason, ts_last_transition_id := Some (tr_transition_id t), ts_updated_at_utc := Aware 5\<rparr>))"
    using example_first_transition [of T_BLOCKED T_BACKLOG "Some reason" None] by auto
  obtain s' where s': "s' = fst (transition_task 5 ''PP-TASK-000001'' T_BLOCKED 1 ''start'' ''actor'' ''corr'' (Some reason) None
      (example_store T_BACKLOG))" by simp
  have "st_transitions s' \<noteq> st_transitions (example_store T_BACKLOG)" using c by (simp add: s' Let_def example_store_eq)
  moreover have "get_task_state s' ''PP-TASK-000001'' = Inl ValidationError"
    using c bad by (simp add: s' Let_def get_task_state_def make_TaskStateRecord_def)
  moreover have "list_task_states s' ''PROJECT-X'' = Inl ValidationError"
    using c bad pid by (simp add: s' Let_def list_task_states_def get_task_state_def make_TaskStateRecord_def)
  moreover have "snd (transition_task 5 ''PP-TASK-000001'' T_BLOCKED 1 ''start'' ''actor'' ''corr'' (Some reason) None
      (example_store T_BACKLOG)) = Inl ValidationError"
    using c bad by (simp add: Let_def make_TaskStateRecord_def)
  ultimately show ?thesis unfolding s' by (metis prod.collapse)
qed

theorem transition_task_poisons_row_witness:
  "\<exists>s'. transition_task 5 ''PP-TASK-000001'' T_BLOCKED 1 ''start'' ''actor'' ''corr'' (Some (replicate 2001 CHR ''x'')) None
       (example_store T_BACKLOG) = (s', Inl ValidationError)
     \<and> get_task_state s' ''PP-TASK-000001'' = Inl ValidationError"
proof -
  have "2000 < length (replicate 2001 CHR ''x'')" by (simp only: length_replicate)
  from transition_task_poisons_row [OF this] show ?thesis by blast
qed





end
