(* ===== verification/Json.thy ===== *)
theory Json
  imports Sha256
begin

text \<open>
  The part of Python's \<open>json\<close> module the fingerprints use:
  \<open>json.dumps(value, sort_keys=True, separators=(",", ":"), ensure_ascii=...)\<close> for values
  built from null, booleans, integers, strings, lists and objects with string keys, and the
  fingerprint of a value, \<open>semantic_fingerprint\<close> of \<open>domain/scheduler.py\<close> and \<open>_fingerprint\<close> of
  \<open>domain/control.py\<close>.
\<close>

datatype json =
  JNull | JBool bool | JInt int | JStr string | JList "json list" | JObj "(string \<times> json) list"

definition json_escape :: "bool \<Rightarrow> char \<Rightarrow> string" where
  "json_escape ascii c =
     (if c = CHR 0x22 then [CHR 0x5C, CHR 0x22]
      else if c = CHR 0x5C then [CHR 0x5C, CHR 0x5C]
      else if c = CHR 0x0A then [CHR 0x5C, CHR ''n'']
      else if c = CHR 0x0D then [CHR 0x5C, CHR ''r'']
      else if c = CHR 0x09 then [CHR 0x5C, CHR ''t'']
      else if c = CHR 0x0C then [CHR 0x5C, CHR ''f'']
      else if c = CHR 0x08 then [CHR 0x5C, CHR ''b'']
      else if of_char c < (32 :: int) \<or> ascii \<and> 126 < (of_char c :: int)
      then [CHR 0x5C, CHR ''u'', CHR ''0'', CHR ''0'', hex_digit (of_char c div 16), hex_digit (of_char c mod 16)]
      else [c])"

definition json_quote :: "bool \<Rightarrow> string \<Rightarrow> string" where
  "json_quote ascii s = [CHR 0x22] @ concat (map (json_escape ascii) s) @ [CHR 0x22]"

fun dumps :: "bool \<Rightarrow> json \<Rightarrow> string" where
  "dumps ascii JNull = ''null''"
| "dumps ascii (JBool b) = (if b then ''true'' else ''false'')"
| "dumps ascii (JInt n) = str_int n"
| "dumps ascii (JStr s) = json_quote ascii s"
| "dumps ascii (JList vs) = ''['' @ join_str '','' (map (dumps ascii) vs) @ '']''"
| "dumps ascii (JObj kvs) =
     ''{'' @ join_str '','' (map (\<lambda>(k, p). json_quote ascii k @ '':'' @ p)
                          (sort_key fst (map (\<lambda>(k, v). (k, dumps ascii v)) kvs))) @ ''}''"

definition semantic_fingerprint :: "json \<Rightarrow> string" where
  "semantic_fingerprint value = sha256_hex (dumps False value)"

definition JOpt :: "string option \<Rightarrow> json" where
  "JOpt v = (case v of None \<Rightarrow> JNull | Some s \<Rightarrow> JStr s)"

text \<open>\<open>^[a-f0-9]{64}$\<close>, the format of a stored fingerprint.\<close>

definition is_sha256_hex :: "string \<Rightarrow> bool" where
  "is_sha256_hex s \<longleftrightarrow> length s = 64 \<and> list_all is_hex_lower s"

lemma semantic_fingerprint_format [simp]: "is_sha256_hex (semantic_fingerprint v)"
  using sha256_hex_lower by (auto simp: is_sha256_hex_def semantic_fingerprint_def list_all_iff)

lemma hex_lower_not_space: "is_hex_lower c \<Longrightarrow> \<not> is_space c"
  by (auto simp: is_hex_lower_def is_digit_char_def is_space_def less_eq_char_def)

lemma sha256_hex_not_blank [simp]: "py_strip (sha256_hex s) \<noteq> []"
proof -
  have "sha256_hex s \<noteq> []" by (metis length_0_conv length_sha256_hex zero_neq_numeral)
  then have "\<not> is_space (hd (sha256_hex s))" "hd (sha256_hex s) \<in> set (sha256_hex s)"
    using sha256_hex_lower hex_lower_not_space list.set_sel(1) by metis+
  then show ?thesis by (auto simp: py_strip_def strip_by_Nil list_all_iff)
qed

text \<open>The order of an object's entries does not matter: keys are sorted.\<close>

lemma dumps_JObj_perm:
  assumes "mset kvs = mset kvs'" "distinct (map fst kvs)"
  shows "dumps ascii (JObj kvs) = dumps ascii (JObj kvs')"
proof -
  let ?d = "map (\<lambda>(k, v). (k, dumps ascii v))"
  have fst: "map fst (?d kvs) = map fst kvs" for kvs by auto
  have "sort_key fst (?d kvs) = sort_key fst (?d kvs')"
  proof (rule sort_key_inj_key_eq)
    show "mset (?d kvs) = mset (sort_key fst (?d kvs'))" using assms(1) by simp
    show "sorted (map fst (sort_key fst (?d kvs')))" by (rule sorted_sort_key)
    show "inj_on fst (set (?d kvs))" using assms(2) fst [of kvs] by (metis distinct_map)
  qed
  then show ?thesis by simp
qed

end
