(* ===== verification/ControlDomain.thy ===== *)
theory ControlDomain
  imports Json TaskState
begin

text \<open>
  \<open>src/project_pipeline/domain/control.py\<close>: the facts a control decision is made of
  (\<open>TaskControlFact\<close>), eligibility and readiness, the critical path, scored sequence items and
  build sequences, scope findings, cohort counts, completion projections and snapshots, with the
  validators of each record.
\<close>

section \<open>Enumerations\<close>

datatype EligibilityState =
    E_ELIGIBLE | E_ALREADY_ACTIVE | E_TERMINAL | E_BLOCKED | E_BLOCKED_EXTERNAL
  | E_RECONCILIATION_REQUIRED | E_PRODUCT_SCOPE_PAUSED | E_POLICY_DENIED

fun eligibility_value :: "EligibilityState \<Rightarrow> string" where
  "eligibility_value E_ELIGIBLE = ''ELIGIBLE''"
| "eligibility_value E_ALREADY_ACTIVE = ''ALREADY_ACTIVE''"
| "eligibility_value E_TERMINAL = ''TERMINAL''"
| "eligibility_value E_BLOCKED = ''BLOCKED''"
| "eligibility_value E_BLOCKED_EXTERNAL = ''BLOCKED_EXTERNAL''"
| "eligibility_value E_RECONCILIATION_REQUIRED = ''RECONCILIATION_REQUIRED''"
| "eligibility_value E_PRODUCT_SCOPE_PAUSED = ''PRODUCT_SCOPE_PAUSED''"
| "eligibility_value E_POLICY_DENIED = ''POLICY_DENIED''"

datatype ReadinessState =
    R_READY | R_WAITING_DEPENDENCIES | R_BLOCKED | R_WAITING_APPROVAL | R_WAITING_CONTEXT
  | R_WAITING_RESOURCES | R_WAITING_ENVIRONMENT | R_NOT_ELIGIBLE | R_ACTIVE | R_TERMINAL

fun readiness_value :: "ReadinessState \<Rightarrow> string" where
  "readiness_value R_READY = ''READY''"
| "readiness_value R_WAITING_DEPENDENCIES = ''WAITING_DEPENDENCIES''"
| "readiness_value R_BLOCKED = ''BLOCKED''"
| "readiness_value R_WAITING_APPROVAL = ''WAITING_APPROVAL''"
| "readiness_value R_WAITING_CONTEXT = ''WAITING_CONTEXT''"
| "readiness_value R_WAITING_RESOURCES = ''WAITING_RESOURCES''"
| "readiness_value R_WAITING_ENVIRONMENT = ''WAITING_ENVIRONMENT''"
| "readiness_value R_NOT_ELIGIBLE = ''NOT_ELIGIBLE''"
| "readiness_value R_ACTIVE = ''ACTIVE''"
| "readiness_value R_TERMINAL = ''TERMINAL''"

datatype ScopeFindingKind =
    REQUIREMENT_WITHOUT_WORK | WORK_WITHOUT_REQUIREMENT | UNKNOWN_REQUIREMENT | UNKNOWN_DEPENDENCY
  | DONE_WITHOUT_EVIDENCE | DONE_WITHOUT_IMPLEMENTATION | IMPLEMENTED_REQUIREMENT_WITHOUT_ARTIFACT

fun scope_kind_value :: "ScopeFindingKind \<Rightarrow> string" where
  "scope_kind_value REQUIREMENT_WITHOUT_WORK = ''REQUIREMENT_WITHOUT_WORK''"
| "scope_kind_value WORK_WITHOUT_REQUIREMENT = ''WORK_WITHOUT_REQUIREMENT''"
| "scope_kind_value UNKNOWN_REQUIREMENT = ''UNKNOWN_REQUIREMENT''"
| "scope_kind_value UNKNOWN_DEPENDENCY = ''UNKNOWN_DEPENDENCY''"
| "scope_kind_value DONE_WITHOUT_EVIDENCE = ''DONE_WITHOUT_EVIDENCE''"
| "scope_kind_value DONE_WITHOUT_IMPLEMENTATION = ''DONE_WITHOUT_IMPLEMENTATION''"
| "scope_kind_value IMPLEMENTED_REQUIREMENT_WITHOUT_ARTIFACT = ''IMPLEMENTED_REQUIREMENT_WITHOUT_ARTIFACT''"

datatype CompletionProjectionState =
    CP_INCOMPLETE | CP_BLOCKED | CP_FAILED | CP_READY_FOR_COMPLETION_GATE

fun completion_value :: "CompletionProjectionState \<Rightarrow> string" where
  "completion_value CP_INCOMPLETE = ''INCOMPLETE''"
| "completion_value CP_BLOCKED = ''BLOCKED''"
| "completion_value CP_FAILED = ''FAILED''"
| "completion_value CP_READY_FOR_COMPLETION_GATE = ''READY_FOR_COMPLETION_GATE''"

section \<open>Facts, eligibility and readiness\<close>

record ControlCohortCounts =
  cc_total_work_items :: int
  cc_reconciliation_facts :: int
  cc_structural_container_facts :: int
  cc_leaf_reconciliation_facts :: int
  cc_eligibility_reconciliation :: int
  cc_eligibility_eligible :: int
  cc_eligibility_policy_denied :: int
  cc_eligibility_product_scope_paused :: int
  cc_eligibility_terminal :: int
  cc_eligibility_already_active :: int
  cc_eligibility_blocked :: int
  cc_eligibility_blocked_external :: int
  cc_dependency_ready :: int

definition valid_ControlCohortCounts :: "ControlCohortCounts \<Rightarrow> bool" where
  "valid_ControlCohortCounts c \<longleftrightarrow>
     list_all (\<lambda>n. 0 \<le> n)
       [cc_total_work_items c, cc_reconciliation_facts c, cc_structural_container_facts c,
        cc_leaf_reconciliation_facts c, cc_eligibility_reconciliation c, cc_eligibility_eligible c,
        cc_eligibility_policy_denied c, cc_eligibility_product_scope_paused c, cc_eligibility_terminal c,
        cc_eligibility_already_active c, cc_eligibility_blocked c, cc_eligibility_blocked_external c,
        cc_dependency_ready c]"

definition make_ControlCohortCounts :: "ControlCohortCounts \<Rightarrow> ControlCohortCounts result" where
  "make_ControlCohortCounts c = (if valid_ControlCohortCounts c then Inr c else Inl ValidationError)"

record TaskControlFact =
  tf_task_id :: string
  tf_project_id :: string
  tf_state :: TaskLifecycleState
  tf_issue_type :: string
  tf_priority :: string
  tf_risk :: string
  tf_dependency_ids :: "string list"
  tf_blocker_ids :: "string list"
  tf_requirement_ids :: "string list"
  tf_accepted :: bool
  tf_policy_eligible :: bool
  tf_approval_required :: bool
  tf_approval_satisfied :: bool
  tf_context_required :: bool
  tf_context_satisfied :: bool
  tf_resources_available :: bool
  tf_environment_available :: bool
  tf_external_blocked :: bool
  tf_reconciliation_required :: bool
  tf_remote_readback_required :: bool
  tf_product_scope_allowed :: bool
  tf_expected_duration_minutes :: "int option"
  tf_deadline_utc :: "py_datetime option"

definition ISSUE_TYPES :: "string list" where
  "ISSUE_TYPES = [''EPIC'', ''STORY'', ''TASK'', ''SUBTASK'', ''BUG'', ''SPIKE'']"

definition RISKS :: "string list" where
  "RISKS = [''LOW'', ''MEDIUM'', ''HIGH'', ''CRITICAL'']"

definition validate_task_relations :: "string list \<Rightarrow> bool" where
  "validate_task_relations values \<longleftrightarrow> distinct values \<and> list_all is_issue_id values"

definition validate_requirement_ids :: "string list \<Rightarrow> bool" where
  "validate_requirement_ids values \<longleftrightarrow> distinct values \<and> list_all is_requirement_id values"

definition valid_TaskControlFact :: "TaskControlFact \<Rightarrow> bool" where
  "valid_TaskControlFact f \<longleftrightarrow>
     tf_issue_type f \<in> set ISSUE_TYPES \<and> is_priority (tf_priority f) \<and> tf_risk f \<in> set RISKS
     \<and> (case tf_expected_duration_minutes f of None \<Rightarrow> True | Some m \<Rightarrow> 1 \<le> m \<and> m \<le> 525600)
     \<and> is_issue_id (tf_task_id f) \<and> is_project_id (tf_project_id f)
     \<and> validate_task_relations (tf_dependency_ids f) \<and> validate_task_relations (tf_blocker_ids f)
     \<and> validate_requirement_ids (tf_requirement_ids f)
     \<and> (case tf_deadline_utc f of None \<Rightarrow> True | Some t \<Rightarrow> is_aware t)
     \<and> \<not> (tf_task_id f \<in> set (tf_dependency_ids f) \<or> tf_task_id f \<in> set (tf_blocker_ids f))"

definition make_TaskControlFact :: "TaskControlFact \<Rightarrow> TaskControlFact result" where
  "make_TaskControlFact f = (if valid_TaskControlFact f then Inr f else Inl ValidationError)"

record TaskEligibility =
  te_task_id :: string
  te_state :: EligibilityState
  te_eligible :: bool
  te_reasons :: "string list"

definition valid_TaskEligibility :: "TaskEligibility \<Rightarrow> bool" where
  "valid_TaskEligibility e \<longleftrightarrow>
     is_issue_id (te_task_id e) \<and> (te_eligible e \<longleftrightarrow> te_state e = E_ELIGIBLE)
     \<and> \<not> (\<not> te_eligible e \<and> te_reasons e = [])"

definition make_TaskEligibility :: "TaskEligibility \<Rightarrow> TaskEligibility result" where
  "make_TaskEligibility e = (if valid_TaskEligibility e then Inr e else Inl ValidationError)"

record TaskReadiness =
  td_task_id :: string
  td_state :: ReadinessState
  td_ready :: bool
  td_unresolved_dependencies :: "string list"
  td_unresolved_blockers :: "string list"
  td_reasons :: "string list"

definition valid_TaskReadiness :: "TaskReadiness \<Rightarrow> bool" where
  "valid_TaskReadiness r \<longleftrightarrow>
     is_issue_id (td_task_id r) \<and> (td_ready r \<longleftrightarrow> td_state r = R_READY)
     \<and> \<not> (\<not> td_ready r \<and> td_reasons r = [])"

definition make_TaskReadiness :: "TaskReadiness \<Rightarrow> TaskReadiness result" where
  "make_TaskReadiness r = (if valid_TaskReadiness r then Inr r else Inl ValidationError)"

section \<open>Critical paths and sequences\<close>

record CriticalPathAnalysis =
  ca_path :: "string list"
  ca_total_duration_minutes :: int
  ca_duration_source :: string
  ca_earliest_finish_minutes :: "(string, int) dict"
  ca_slack_minutes :: "(string, int) dict"

definition make_CriticalPathAnalysis :: "CriticalPathAnalysis \<Rightarrow> CriticalPathAnalysis result" where
  "make_CriticalPathAnalysis a =
     (if 0 \<le> ca_total_duration_minutes a
         \<and> ca_duration_source a \<in> {''DECLARED'', ''MIXED'', ''DEFAULT_HEURISTIC'', ''EMPTY''}
         \<and> list_all is_issue_id (ca_path a)
      then Inr a else Inl ValidationError)"

record SequenceScore =
  sc_task_id :: string
  sc_priority_score :: int
  sc_critical_path_score :: int
  sc_deadline_score :: int
  sc_risk_score :: int
  sc_unblock_score :: int
  sc_duration_score :: int
  sc_total_score :: int

definition make_SequenceScore :: "SequenceScore \<Rightarrow> SequenceScore result" where
  "make_SequenceScore s =
     (if is_issue_id (sc_task_id s)
         \<and> sc_total_score s = sc_priority_score s + sc_critical_path_score s + sc_deadline_score s
             + sc_risk_score s + sc_unblock_score s + sc_duration_score s
      then Inr s else Inl ValidationError)"

record SequenceItem =
  si_rank :: int
  si_task_id :: string
  si_readiness :: ReadinessState
  si_score :: SequenceScore
  si_dependency_depth :: int
  si_downstream_count :: int
  si_on_critical_path :: bool

definition make_SequenceItem :: "SequenceItem \<Rightarrow> SequenceItem result" where
  "make_SequenceItem i =
     (if 1 \<le> si_rank i \<and> 0 \<le> si_dependency_depth i \<and> 0 \<le> si_downstream_count i \<and> is_issue_id (si_task_id i)
      then Inr i else Inl ValidationError)"

record BuildSequence =
  bq_sequence_id :: string
  bq_project_id :: string
  bq_graph_fingerprint :: string
  bq_task_count :: int
  bq_edge_count :: int
  bq_ready_count :: int
  bq_active_count :: int
  bq_blocked_count :: int
  bq_critical_path :: CriticalPathAnalysis
  bq_ordered_ready_work :: "SequenceItem list"
  bq_generated_at_utc :: py_datetime

definition make_BuildSequence :: "BuildSequence \<Rightarrow> BuildSequence result" where
  "make_BuildSequence b =
     (if is_sha256_hex (bq_graph_fingerprint b)
         \<and> 0 \<le> bq_task_count b \<and> 0 \<le> bq_edge_count b \<and> 0 \<le> bq_ready_count b
         \<and> 0 \<le> bq_active_count b \<and> 0 \<le> bq_blocked_count b
         \<and> fullmatch control_id_rx (bq_sequence_id b) \<and> startswith (bq_sequence_id b) ''SEQ-''
         \<and> is_project_id (bq_project_id b) \<and> is_aware (bq_generated_at_utc b)
      then Inr b else Inl ValidationError)"

section \<open>Scope, completion and snapshots\<close>

record ScopeFinding =
  sf_kind :: ScopeFindingKind
  sf_subject_id :: string
  sf_related_id :: "string option"
  sf_detail :: string

definition make_ScopeFinding :: "ScopeFinding \<Rightarrow> ScopeFinding result" where
  "make_ScopeFinding f =
     (if 1 \<le> length (sf_detail f) \<and> length (sf_detail f) \<le> 2000 then Inr f else Inl ValidationError)"

record ScopeReconciliationReport =
  sx_report_id :: string
  sx_project_id :: string
  sx_requirement_count :: int
  sx_work_item_count :: int
  sx_findings :: "ScopeFinding list"
  sx_fingerprint :: string

definition make_ScopeReconciliationReport :: "ScopeReconciliationReport \<Rightarrow> ScopeReconciliationReport result" where
  "make_ScopeReconciliationReport r =
     (if 0 \<le> sx_requirement_count r \<and> 0 \<le> sx_work_item_count r \<and> is_sha256_hex (sx_fingerprint r)
         \<and> fullmatch control_id_rx (sx_report_id r) \<and> startswith (sx_report_id r) ''SCOPE-''
         \<and> is_project_id (sx_project_id r)
      then Inr r else Inl ValidationError)"

record CompletionProjection =
  cp_projection_id :: string
  cp_project_id :: string
  cp_state :: CompletionProjectionState
  cp_total_work_items :: int
  cp_completed_work_items :: int
  cp_active_work_items :: int
  cp_blocked_work_items :: int
  cp_failed_work_items :: int
  cp_accepted_requirements :: int
  cp_implemented_or_external_blocked_requirements :: int
  cp_ready_work_items :: int
  cp_verification_eligible :: bool
  cp_final_completion_gate_satisfied :: bool
  cp_reasons :: "string list"
  cp_cohorts :: ControlCohortCounts

definition make_CompletionProjection :: "CompletionProjection \<Rightarrow> CompletionProjection result" where
  "make_CompletionProjection p =
     (if list_all (\<lambda>n. 0 \<le> n)
           [cp_total_work_items p, cp_completed_work_items p, cp_active_work_items p,
            cp_blocked_work_items p, cp_failed_work_items p, cp_accepted_requirements p,
            cp_implemented_or_external_blocked_requirements p, cp_ready_work_items p]
         \<and> fullmatch control_id_rx (cp_projection_id p) \<and> startswith (cp_projection_id p) ''COMPLETE-''
         \<and> is_project_id (cp_project_id p) \<and> \<not> cp_final_completion_gate_satisfied p
         \<and> (cp_verification_eligible p \<longleftrightarrow> cp_state p = CP_READY_FOR_COMPLETION_GATE)
      then Inr p else Inl ValidationError)"

record ControlSnapshot =
  cs_snapshot_id :: string
  cs_project_id :: string
  cs_sequence :: BuildSequence
  cs_scope :: ScopeReconciliationReport
  cs_completion :: CompletionProjection
  cs_eligibility :: "TaskEligibility list"
  cs_readiness :: "TaskReadiness list"
  cs_snapshot_fingerprint :: string

definition make_ControlSnapshot :: "ControlSnapshot \<Rightarrow> ControlSnapshot result" where
  "make_ControlSnapshot s =
     (if is_sha256_hex (cs_snapshot_fingerprint s)
         \<and> fullmatch control_id_rx (cs_snapshot_id s) \<and> startswith (cs_snapshot_id s) ''CTRL-''
         \<and> is_project_id (cs_project_id s)
      then Inr s else Inl ValidationError)"

end
