(* ===== verification/DiGraph.thy ===== *)
theory DiGraph
  imports Prelude
begin

text \<open>
  The operations of \<open>networkx.DiGraph\<close> that the build sequencer calls, as the argument
  \<open>'g digraph_ops\<close> of the definitions that use them, with the documented behaviour the code
  relies on as the locale \<open>nx_digraph\<close>.  \<open>list_digraph\<close> implements the interface by lists: a
  lexicographical topological sort by Kahn's algorithm and reachability by the transitive closure.
  The last sections treat longest paths in a finite acyclic graph.
\<close>

record 'g digraph_ops =
  dg_DiGraph :: 'g
  dg_add_node :: "string \<Rightarrow> 'g \<Rightarrow> 'g"
  dg_add_edge :: "string \<Rightarrow> string \<Rightarrow> 'g \<Rightarrow> 'g"
  dg_nodes :: "'g \<Rightarrow> string list"
  dg_edges :: "'g \<Rightarrow> (string \<times> string) list"
  dg_predecessors :: "'g \<Rightarrow> string \<Rightarrow> string list"
  dg_successors :: "'g \<Rightarrow> string \<Rightarrow> string list"
  dg_is_dag :: "'g \<Rightarrow> bool"
  dg_simple_cycles :: "'g \<Rightarrow> string list list"
  dg_topological_sort :: "'g \<Rightarrow> string list"
  dg_descendants :: "'g \<Rightarrow> string \<Rightarrow> string list"

text \<open>No later element of the list has an edge to an earlier one.\<close>

abbreviation topological :: "('a \<times> 'a) set \<Rightarrow> 'a list \<Rightarrow> bool" where
  "topological E xs \<equiv> sorted_wrt (\<lambda>x y. (y, x) \<notin> E) xs"

locale nx_digraph =
  fixes dg :: "'g digraph_ops"
  assumes nodes_empty: "set (dg_nodes dg (dg_DiGraph dg)) = {}"
    and edges_empty: "set (dg_edges dg (dg_DiGraph dg)) = {}"
    and nodes_add_node: "set (dg_nodes dg (dg_add_node dg n g)) = insert n (set (dg_nodes dg g))"
    and edges_add_node: "set (dg_edges dg (dg_add_node dg n g)) = set (dg_edges dg g)"
    and nodes_add_edge: "set (dg_nodes dg (dg_add_edge dg a b g)) = {a, b} \<union> set (dg_nodes dg g)"
    and edges_add_edge: "set (dg_edges dg (dg_add_edge dg a b g)) = insert (a, b) (set (dg_edges dg g))"
    and predecessors: "set (dg_predecessors dg g n) = {m. (m, n) \<in> set (dg_edges dg g)}"
    and successors: "set (dg_successors dg g n) = {m. (n, m) \<in> set (dg_edges dg g)}"
    and is_dag: "dg_is_dag dg g \<longleftrightarrow> acyclic (set (dg_edges dg g))"
    and topological_sort:
      "dg_is_dag dg g \<Longrightarrow> set (dg_edges dg g) \<subseteq> set (dg_nodes dg g) \<times> set (dg_nodes dg g) \<Longrightarrow>
         distinct (dg_topological_sort dg g) \<and> set (dg_topological_sort dg g) = set (dg_nodes dg g)
         \<and> topological (set (dg_edges dg g)) (dg_topological_sort dg g)"
    and descendants:
      "dg_is_dag dg g \<Longrightarrow> distinct (dg_descendants dg g n)
         \<and> set (dg_descendants dg g n) = {m. (n, m) \<in> (set (dg_edges dg g))\<^sup>+}"

section \<open>An implementation by lists\<close>

definition sources :: "(string \<times> string) list \<Rightarrow> string list \<Rightarrow> string list" where
  "sources es ns = filter (\<lambda>n. list_all (\<lambda>m. (m, n) \<notin> set es) ns) ns"

function kahn :: "(string \<times> string) list \<Rightarrow> string list \<Rightarrow> string list" where
  "kahn es ns =
     (case sort (sources es ns) of [] \<Rightarrow> [] | n # _ \<Rightarrow> n # kahn es (remove1 n ns))"
  by pat_completeness auto
termination
proof (relation "measure (\<lambda>(es, ns). length ns)")
  fix es ns n ms assume "sort (sources es ns) = n # ms"
  then have "n \<in> set (sources es ns)" by (metis list.set_intros(1) set_sort)
  then have "n \<in> set ns" by (simp add: sources_def)
  then show "((es, remove1 n ns), es, ns) \<in> measure (\<lambda>(es, ns). length ns)"
    by (simp add: length_remove1) (metis Suc_pred length_pos_if_in_set lessI)
qed simp

declare kahn.simps [simp del]

definition list_digraph :: "(string list \<times> (string \<times> string) list) digraph_ops" where
  "list_digraph =
     \<lparr>dg_DiGraph = ([], []),
      dg_add_node = (\<lambda>n (ns, es). (if n \<in> set ns then ns else ns @ [n], es)),
      dg_add_edge = (\<lambda>a b (ns, es). (remdups (ns @ [a, b]), if (a, b) \<in> set es then es else es @ [(a, b)])),
      dg_nodes = fst, dg_edges = snd,
      dg_predecessors = (\<lambda>(ns, es) n. map fst (filter (\<lambda>(a, b). b = n) es)),
      dg_successors = (\<lambda>(ns, es) n. map snd (filter (\<lambda>(a, b). a = n) es)),
      dg_is_dag = (\<lambda>(ns, es). acyclic (set es)),
      dg_simple_cycles = (\<lambda>_. []),
      dg_topological_sort = (\<lambda>(ns, es). kahn es (remdups ns)),
      dg_descendants = (\<lambda>(ns, es) n. filter (\<lambda>m. (n, m) \<in> (set es)\<^sup>+) (remdups (map snd es)))\<rparr>"

lemma acyclic_source:
  assumes "acyclic E" "finite N" "N \<noteq> {}"
  shows "\<exists>n \<in> N. \<forall>m \<in> N. (m, n) \<notin> E"
proof -
  have "acyclic (E \<inter> N \<times> N)" using assms(1) by (rule acyclic_subset) blast
  then have "wf (E \<inter> N \<times> N)" using assms(2) by (intro finite_acyclic_wf) simp_all
  from wfE_min [OF this] obtain n where "n \<in> N" "\<And>m. (m, n) \<in> E \<inter> N \<times> N \<Longrightarrow> m \<notin> N"
    using assms(3) by blast
  then show ?thesis by blast
qed

lemma kahn_correct:
  assumes "acyclic (set es)" "distinct ns"
  shows "distinct (kahn es ns) \<and> set (kahn es ns) = set ns \<and> topological (set es) (kahn es ns)"
  using assms
proof (induction es ns rule: kahn.induct)
  case (1 es ns)
  show ?case
  proof (cases "sort (sources es ns)")
    case Nil
    then have "sources es ns = []" by (metis set_empty set_sort)
    then have "ns = []"
      using acyclic_source [OF 1(2), of "set ns"] by (auto simp: sources_def list_all_iff filter_empty_conv)
    then show ?thesis by (simp add: kahn.simps sources_def)
  next
    case (Cons n ms)
    then have "n \<in> set (sources es ns)" by (metis list.set_intros(1) set_sort)
    then have n: "n \<in> set ns" "\<forall>m \<in> set ns. (m, n) \<notin> set es" by (auto simp: sources_def list_all_iff)
    have "distinct (kahn es (remove1 n ns)) \<and> set (kahn es (remove1 n ns)) = set (remove1 n ns)
        \<and> topological (set es) (kahn es (remove1 n ns))"
      using 1(1) [OF Cons 1(2)] 1(3) by simp
    moreover have "kahn es ns = n # kahn es (remove1 n ns)" using Cons by (simp add: kahn.simps)
    ultimately show ?thesis using n 1(3) by (auto simp: set_remove1_eq)
  qed
qed

lemma list_digraph_topological:
  assumes "acyclic (set es)"
  shows "distinct (kahn es (remdups ns)) \<and> set (kahn es (remdups ns)) = set ns
    \<and> topological (set es) (kahn es (remdups ns))"
  using kahn_correct [OF assms distinct_remdups, of ns] by simp

lemma trancl_target: "(n, m) \<in> E\<^sup>+ \<Longrightarrow> m \<in> snd ` E"
  by (induction rule: trancl_induct) force+

interpretation lists: nx_digraph list_digraph
  by unfold_locales
     (auto simp: list_digraph_def list_digraph_topological image_iff split: prod.splits
       dest: trancl_target)

section \<open>Paths and their weights\<close>

fun dep_path :: "('a \<times> 'a) set \<Rightarrow> 'a list \<Rightarrow> bool" where
  "dep_path E [] = False"
| "dep_path E [a] = True"
| "dep_path E (a # b # xs) = ((a, b) \<in> E \<and> dep_path E (b # xs))"

abbreviation weight :: "('a \<Rightarrow> int) \<Rightarrow> 'a list \<Rightarrow> int" where
  "weight dur xs \<equiv> sum_list (map dur xs)"

lemma dep_path_append:
  "xs \<noteq> [] \<Longrightarrow> ys \<noteq> [] \<Longrightarrow>
   dep_path E (xs @ ys) \<longleftrightarrow> dep_path E xs \<and> dep_path E ys \<and> (last xs, hd ys) \<in> E"
proof (induction xs)
  case (Cons x xs)
  then show ?case by (cases xs; cases ys) auto
qed simp

lemma dep_path_not_Nil: "dep_path E xs \<Longrightarrow> xs \<noteq> []"
  by auto

text \<open>Earliest and latest finish as equations: the loops of the code compute their solution.\<close>

definition earliest_eqs :: "('a \<times> 'a) set \<Rightarrow> ('a \<Rightarrow> int) \<Rightarrow> 'a set \<Rightarrow> ('a \<Rightarrow> int) \<Rightarrow> bool" where
  "earliest_eqs E dur N ef \<longleftrightarrow>
     (\<forall>n \<in> N. ef n = (if {m. (m, n) \<in> E} = {} then 0 else Max (ef ` {m. (m, n) \<in> E})) + dur n)"

definition latest_eqs :: "('a \<times> 'a) set \<Rightarrow> ('a \<Rightarrow> int) \<Rightarrow> 'a set \<Rightarrow> int \<Rightarrow> ('a \<Rightarrow> int) \<Rightarrow> bool" where
  "latest_eqs E dur N tot lf \<longleftrightarrow>
     (\<forall>n \<in> N. lf n = (if {m. (n, m) \<in> E} = {} then tot
        else Min ((\<lambda>m. lf m - dur m) ` {m. (n, m) \<in> E})))"

lemma finite_rel_images:
  assumes "finite N" "E \<subseteq> N \<times> N"
  shows "finite {m. (m, n) \<in> E}" "finite {m. (n, m) \<in> E}" "finite E"
  using assms by (auto intro: finite_subset [of _ N] finite_subset [of E "N \<times> N"])

lemma earliest_upper:
  assumes "finite N" "E \<subseteq> N \<times> N" "earliest_eqs E dur N ef" "dep_path E xs" "set xs \<subseteq> N" "\<forall>n \<in> N. 0 \<le> ef n - dur n"
  shows "weight dur xs \<le> ef (last xs)"
  using assms(4,5)
proof (induction xs rule: rev_induct)
  case (snoc n xs)
  show ?case
  proof (cases "xs = []")
    case True
    then show ?thesis using assms(6) snoc by auto
  next
    case False
    then have e: "(last xs, n) \<in> E" "dep_path E xs" using snoc.prems dep_path_append [of xs "[n]" E] by auto
    have "weight dur xs \<le> ef (last xs)" using snoc.IH e(2) snoc.prems(2) by simp
    also have "\<dots> \<le> Max (ef ` {m. (m, n) \<in> E})"
      using finite_rel_images [OF assms(1,2)] e(1) by (intro Max_ge) auto
    also have "\<dots> = ef n - dur n"
      using assms(3) snoc.prems(2) e(1) by (auto simp: earliest_eqs_def)
    finally show ?thesis by simp
  qed
qed simp

lemma earliest_attained:
  assumes "finite N" "E \<subseteq> N \<times> N" "acyclic E" "earliest_eqs E dur N ef" "n \<in> N"
  shows "\<exists>xs. dep_path E xs \<and> set xs \<subseteq> N \<and> last xs = n \<and> weight dur xs = ef n"
proof -
  have "wf E" using finite_rel_images(3) [OF assms(1,2)] assms(3) by (rule finite_acyclic_wf)
  then show ?thesis using assms(5)
  proof (induction n rule: wf_induct_rule)
    case (less n)
    show ?case
    proof (cases "{m. (m, n) \<in> E} = {}")
      case True
      then show ?thesis using assms(4) less.prems by (intro exI [of _ "[n]"]) (auto simp: earliest_eqs_def)
    next
      case False
      have fin: "finite (ef ` {m. (m, n) \<in> E})" using finite_rel_images(1) [OF assms(1,2)] by simp
      have "Max (ef ` {m. (m, n) \<in> E}) \<in> ef ` {m. (m, n) \<in> E}" using Max_in [OF fin] False by simp
      then obtain m where m: "(m, n) \<in> E" "ef m = Max (ef ` {m. (m, n) \<in> E})" by auto
      then obtain xs where xs: "dep_path E xs" "set xs \<subseteq> N" "last xs = m" "weight dur xs = ef m"
        using less.IH assms(2) by blast
      have "dep_path E (xs @ [n])" using xs m dep_path_append [of xs "[n]" E] dep_path_not_Nil by auto
      moreover have "ef n = ef m + dur n" using assms(4) less.prems m(2) False by (auto simp: earliest_eqs_def)
      ultimately show ?thesis using xs less.prems by (intro exI [of _ "xs @ [n]"]) simp
    qed
  qed
qed

lemma latest_upper:
  assumes "finite N" "E \<subseteq> N \<times> N" "latest_eqs E dur N tot lf" "dep_path E (n # xs)" "set (n # xs) \<subseteq> N"
    and "\<forall>n \<in> N. lf n \<le> tot"
  shows "lf n \<le> tot - weight dur xs"
  using assms(4,5)
proof (induction xs arbitrary: n)
  case (Cons m xs)
  then have e: "(n, m) \<in> E" "dep_path E (m # xs)" by auto
  have "lf n = Min ((\<lambda>m. lf m - dur m) ` {m. (n, m) \<in> E})"
    using assms(3) Cons.prems(2) e(1) by (auto simp: latest_eqs_def)
  also have "\<dots> \<le> lf m - dur m"
    using finite_rel_images [OF assms(1,2)] e(1) by (intro Min_le) auto
  also have "\<dots> \<le> tot - weight dur (m # xs)" using Cons.IH [OF e(2)] Cons.prems(2) by simp
  finally show ?case .
qed (use assms(6) in simp)

lemma latest_attained:
  assumes "finite N" "E \<subseteq> N \<times> N" "acyclic E" "latest_eqs E dur N tot lf" "n \<in> N"
  shows "\<exists>xs. dep_path E (n # xs) \<and> set xs \<subseteq> N \<and> weight dur xs = tot - lf n"
proof -
  have "wf (E\<inverse>)"
    using finite_rel_images(3) [OF assms(1,2)] assms(3) by (simp add: finite_acyclic_wf_converse)
  then show ?thesis using assms(5)
  proof (induction n rule: wf_induct_rule)
    case (less n)
    show ?case
    proof (cases "{m. (n, m) \<in> E} = {}")
      case True
      then show ?thesis using assms(4) less.prems by (intro exI [of _ "[]"]) (auto simp: latest_eqs_def)
    next
      case False
      let ?S = "(\<lambda>m. lf m - dur m) ` {m. (n, m) \<in> E}"
      have fin: "finite ?S" using finite_rel_images(2) [OF assms(1,2)] by simp
      have "Min ?S \<in> ?S" using Min_in [OF fin] False by simp
      then obtain m where m: "(n, m) \<in> E" "lf m - dur m = Min ?S" by auto
      then obtain xs where xs: "dep_path E (m # xs)" "set xs \<subseteq> N" "weight dur xs = tot - lf m"
        using less.IH assms(2) by blast
      have "lf n = lf m - dur m" using assms(4) less.prems m(2) False by (auto simp: latest_eqs_def)
      then show ?thesis using xs m assms(2) by (intro exI [of _ "m # xs"]) auto
    qed
  qed
qed

end
