(* ===== verification/PyFloat.thy ===== *)
theory PyFloat
  imports Prelude "HOL-Library.Log_Nat"
begin

text \<open>
  Python floats.  A finite float is the rational number it denotes; \<open>fl\<close> rounds
  a rational to the nearest number with a 53 bit significand, ties to even, which is
  what IEEE binary64 does in its normal range (the program's values stay far from the
  limits of the exponent, so overflow and subnormal numbers do not arise).  A true
  division \<open>a / b\<close> of Python is \<open>fl (a / b)\<close>, a product \<open>fl (a * b)\<close>.
  The lemmas bound the rounding error and show that integers up to \<open>2 ^ 53\<close> are exact.
\<close>

section \<open>Rounding to an integer\<close>

definition round_half_even :: "rat \<Rightarrow> int" where
  "round_half_even y =
     (let f = \<lfloor>y\<rfloor>; r = y - of_int f
      in if r < 1 / 2 then f else if r > 1 / 2 then f + 1 else if even f then f else f + 1)"

definition trunc_int :: "rat \<Rightarrow> int" where
  "trunc_int y = (if 0 \<le> y then \<lfloor>y\<rfloor> else \<lceil>y\<rceil>)"

lemma round_half_even_of_int [simp]: "round_half_even (of_int n) = n"
  by (simp add: round_half_even_def)

lemma round_half_even_error: "\<bar>of_int (round_half_even y) - y\<bar> \<le> 1 / 2"
proof -
  define r where "r = y - of_int \<lfloor>y\<rfloor>"
  have r: "0 \<le> r" "r < 1" "y = of_int \<lfloor>y\<rfloor> + r" unfolding r_def by linarith+
  have "round_half_even y = \<lfloor>y\<rfloor> \<and> r \<le> 1 / 2 \<or> round_half_even y = \<lfloor>y\<rfloor> + 1 \<and> 1 / 2 \<le> r"
    by (auto simp: round_half_even_def Let_def r_def)
  then show ?thesis
    using r by (auto simp: abs_le_iff)
qed

lemma round_half_even_nonneg: "0 \<le> y \<Longrightarrow> 0 \<le> round_half_even y"
proof -
  assume "0 \<le> y"
  then have "0 \<le> \<lfloor>y\<rfloor>" by simp
  then show ?thesis by (simp add: round_half_even_def Let_def)
qed

section \<open>The binary exponent\<close>

definition flog2 :: "rat \<Rightarrow> int" where
  "flog2 x =
     (let (n, d) = quotient_of x; k = bitlen n - bitlen d
      in if 2 powi k \<le> x then k else k - 1)"

lemma bitlen_powi_bounds:
  assumes "0 < (n :: int)"
  shows "2 powi (bitlen n - 1) \<le> (of_int n :: rat)" and "(of_int n :: rat) < 2 powi bitlen n"
proof -
  have b: "2 ^ nat (bitlen n - 1) \<le> n \<and> n < 2 ^ nat (bitlen n)"
    using bitlen_bounds [OF assms] .
  have pos: "1 \<le> bitlen n"
    using assms bitlen_nonneg [of n] bitlen_eq_zero_iff [of n] by linarith
  have "(of_int (2 ^ nat (bitlen n - 1)) :: rat) \<le> of_int n"
    using b by (simp only: of_int_le_iff)
  then show "2 powi (bitlen n - 1) \<le> (of_int n :: rat)"
    using pos by (simp add: power_int_def)
  have "(of_int n :: rat) < of_int (2 ^ nat (bitlen n))"
    using b by (simp only: of_int_less_iff)
  then show "(of_int n :: rat) < 2 powi bitlen n"
    using pos by (simp add: power_int_def)
qed

lemma flog2_bounds:
  assumes "0 < x"
  shows "2 powi flog2 x \<le> x" and "x < 2 powi (flog2 x + 1)"
proof -
  obtain n d where q: "quotient_of x = (n, d)" by (cases "quotient_of x")
  have x: "x = of_int n / of_int d" using quotient_of_div [OF q] .
  have d: "0 < d" using quotient_of_denom_pos [OF q] .
  have n: "0 < n" using assms x d by (simp add: zero_less_divide_iff)
  define a b where "a = bitlen n" and "b = bitlen d"
  note nb = bitlen_powi_bounds [OF n, folded a_def]
  note db = bitlen_powi_bounds [OF d, folded b_def]
  have dpos: "(0 :: rat) < of_int d" using d by simp
  have up: "x < 2 powi (a - b + 1)"
  proof -
    have "of_int n / of_int d < (2 powi a :: rat) / of_int d"
      using nb dpos by (simp add: divide_strict_right_mono)
    also have "\<dots> \<le> 2 powi a / 2 powi (b - 1)"
      using db dpos by (intro divide_left_mono) auto
    also have "\<dots> = 2 powi (a - b + 1)"
      by (simp add: power_int_diff [symmetric] algebra_simps)
    finally show ?thesis using x by simp
  qed
  have low: "2 powi (a - b - 1) \<le> x"
  proof -
    have "2 powi (a - b - 1) = (2 powi (a - 1) / 2 powi b :: rat)"
      by (simp add: power_int_diff [symmetric] algebra_simps)
    also have "\<dots> \<le> of_int n / 2 powi b"
      using nb by (intro divide_right_mono) auto
    also have "\<dots> \<le> of_int n / of_int d"
      using db dpos n by (intro divide_left_mono) auto
    finally show ?thesis using x by simp
  qed
  have f: "flog2 x = (if 2 powi (a - b) \<le> x then a - b else a - b - 1)"
    by (simp add: flog2_def q a_def b_def)
  show "2 powi flog2 x \<le> x" using low by (simp add: f)
  show "x < 2 powi (flog2 x + 1)" using up by (simp add: f not_le)
qed

section \<open>Rounding to a float\<close>

definition ulp :: "rat \<Rightarrow> rat" where
  "ulp x = 2 powi (flog2 \<bar>x\<bar> - 52)"

definition fl :: "rat \<Rightarrow> rat" where
  "fl x = (if x = 0 then 0 else of_int (round_half_even (x / ulp x)) * ulp x)"

lemma ulp_pos [simp]: "0 < ulp x" and ulp_nonneg [simp]: "0 \<le> ulp x"
  by (simp_all add: ulp_def)

lemma fl_0 [simp]: "fl 0 = 0"
  by (simp add: fl_def)

lemma fl_nonneg: "0 \<le> x \<Longrightarrow> 0 \<le> fl x"
  using round_half_even_nonneg [of "x / ulp x"] ulp_pos [of x]
  by (simp add: fl_def zero_le_mult_iff)

lemma fl_error: "\<bar>fl x - x\<bar> \<le> \<bar>x\<bar> / 2 ^ 53"
proof (cases "x = 0")
  case True
  then show ?thesis by simp
next
  case False
  define u where "u = ulp x"
  have u: "0 < u" by (simp add: u_def)
  have "fl x - x = (of_int (round_half_even (x / u)) - x / u) * u"
    using False u by (simp add: fl_def u_def [symmetric] algebra_simps)
  then have "\<bar>fl x - x\<bar> = \<bar>of_int (round_half_even (x / u)) - x / u\<bar> * u"
    using u by (simp add: abs_mult)
  also have "\<dots> \<le> 1 / 2 * u"
    using round_half_even_error u by (intro mult_right_mono) auto
  also have "\<dots> = 2 powi flog2 \<bar>x\<bar> / 2 ^ 53"
    by (simp add: u_def ulp_def power_int_diff)
  also have "\<dots> \<le> \<bar>x\<bar> / 2 ^ 53"
    using flog2_bounds(1) [of "\<bar>x\<bar>"] False by (intro divide_right_mono) auto
  finally show ?thesis .
qed

lemma fl_of_int [simp]:
  assumes "\<bar>n\<bar> < 2 ^ 53"
  shows "fl (of_int n) = of_int n"
proof (cases "n = 0")
  case True
  then show ?thesis by simp
next
  case False
  define e where "e = flog2 \<bar>of_int n :: rat\<bar>"
  have "(2 :: rat) powi e \<le> \<bar>of_int n\<bar>"
    using flog2_bounds(1) [of "\<bar>of_int n\<bar>"] False by (simp add: e_def)
  also have "\<bar>of_int n :: rat\<bar> < 2 ^ 53"
    using assms by (metis of_int_abs of_int_less_iff of_int_numeral of_int_power)
  also have "(2 :: rat) ^ 53 = 2 powi 53" by simp
  finally have "e < 53"
    using power_int_increasing [of 53 e "2 :: rat"] by (cases "e < 53") auto
  then have e: "0 \<le> 52 - e" by simp
  have "of_int n / ulp (of_int n) = (of_int n :: rat) * 2 powi (52 - e)"
    by (simp add: ulp_def e_def power_int_diff field_simps)
  also have "\<dots> = of_int (n * 2 ^ nat (52 - e))"
    using e by (simp add: power_int_def)
  finally have q: "of_int n / ulp (of_int n) = (of_int (n * 2 ^ nat (52 - e)) :: rat)" .
  have "fl (of_int n) = of_int (n * 2 ^ nat (52 - e)) * ulp (of_int n)"
    using False by (simp only: fl_def q round_half_even_of_int of_int_eq_0_iff if_False)
  also have "\<dots> = of_int n"
  proof -
    have "ulp (of_int n) \<noteq> 0" using ulp_pos [of "of_int n"] by linarith
    then show ?thesis by (simp only: q [symmetric]) simp
  qed
  finally show ?thesis .
qed

lemma trunc_div_exact:
  assumes "0 \<le> m" "m < 2 ^ 40" "0 < k" "k < 2 ^ 10"
  shows "trunc_int (fl (of_int m / of_int k)) = m div k"
proof -
  define q :: rat where "q = of_int m / of_int k"
  have q0: "0 \<le> q" using assms by (simp add: q_def)
  have qlt: "q < 2 ^ 40"
  proof -
    have "q \<le> of_int m" using assms by (simp add: q_def divide_le_eq mult_le_cancel_left1)
    also have "\<dots> < 2 ^ 40" using assms(2)
      by (metis of_int_less_iff of_int_numeral of_int_power)
    finally show ?thesis .
  qed
  show ?thesis
  proof (cases "k dvd m")
    case True
    then obtain j where j: "m = k * j" by blast
    have "q = of_int j" using assms j by (simp add: q_def)
    moreover have "\<bar>j\<bar> < 2 ^ 53"
    proof -
      have "\<bar>j\<bar> \<le> m" using j assms
        by (metis abs_of_nonneg mult_le_cancel_right1 mult_nonneg_nonneg not_le zero_le_mult_iff
            int_one_le_iff_zero_less linorder_not_less)
      then show ?thesis using assms(2) by simp
    qed
    ultimately show ?thesis
      using assms j q0 by (simp add: q_def [symmetric] trunc_int_def)
  next
    case False
    define f where "f = m div k"
    define r where "r = m mod k"
    have "r \<noteq> 0" "0 \<le> r" "r < k"
      using False assms by (auto simp: r_def dvd_eq_mod_eq_0)
    then have r: "1 \<le> r" "r \<le> k - 1" by linarith+
    have m: "m = k * f + r" by (simp add: f_def r_def)
    have q: "q = of_int f + of_int r / of_int k"
      using assms by (simp add: q_def m field_simps)
    have kk: "(0 :: rat) < of_int k" "(of_int k :: rat) < 2 ^ 10"
      using assms by (simp, metis of_int_less_iff of_int_numeral of_int_power)
    have err: "\<bar>fl q - q\<bar> < 1 / of_int k"
    proof -
      have "\<bar>fl q - q\<bar> \<le> \<bar>q\<bar> / 2 ^ 53" by (rule fl_error)
      also have "\<dots> < 2 ^ 40 / 2 ^ 53"
        using q0 qlt by (intro divide_strict_right_mono) auto
      also have "\<dots> = 1 / 2 ^ 13" by simp
      also have "\<dots> < 1 / of_int k"
        using kk by (intro divide_strict_left_mono) auto
      finally show ?thesis .
    qed
    have "1 / of_int k \<le> (of_int r :: rat) / of_int k"
      using r kk by (intro divide_right_mono) auto
    then have lo: "of_int f < fl q" using err q by linarith
    have "(of_int r :: rat) \<le> of_int k - 1" using r(2)
      by (metis of_int_1 of_int_diff of_int_le_iff)
    then have "(of_int r :: rat) / of_int k \<le> (of_int k - 1) / of_int k"
      using kk by (intro divide_right_mono) auto
    also have "\<dots> = 1 - 1 / of_int k" using kk by (simp add: diff_divide_distrib)
    finally have hi: "fl q < of_int f + 1" using err q by linarith
    have "\<lfloor>fl q\<rfloor> = f" using lo hi by (intro floor_unique) auto
    then show ?thesis
      using fl_nonneg [OF q0] by (simp add: trunc_int_def q_def [symmetric] f_def)
  qed
qed

section \<open>Hours between two instants\<close>

text \<open>
  \<open>(a - b).total_seconds() / 3600\<close> for two instants in microseconds.  Both divisions round,
  but comparing the result with a whole number of hours up to \<open>2 ^ 16\<close> gives the exact answer.
\<close>

definition hours_between :: "int \<Rightarrow> int \<Rightarrow> rat" where
  "hours_between a b = fl (fl (of_int (a - b) / 1000000) / 3600)"

lemma fl_upper: "0 \<le> x \<Longrightarrow> fl x \<le> x * (1 + 1 / 2 ^ 53)"
  using fl_error [of x] by (simp add: abs_if split: if_splits)

lemma fl_lower: "0 \<le> x \<Longrightarrow> x * (1 - 1 / 2 ^ 53) \<le> fl x"
  using fl_error [of x] by (simp add: abs_if split: if_splits)

lemma fl_nonpos: "x \<le> 0 \<Longrightarrow> fl x \<le> x * (1 - 1 / 2 ^ 53)"
  using fl_error [of x] by (simp add: abs_if split: if_splits)

lemma fl_neg: "x < 0 \<Longrightarrow> fl x < 0"
  using fl_nonpos [of x] mult_neg_pos [of x "1 - 1 / 2 ^ 53"] by simp

lemma hours_between_neg: "a < b \<Longrightarrow> hours_between a b < 0"
  unfolding hours_between_def by (intro fl_neg divide_neg_pos) simp_all

lemma hours_between_nonneg: "b \<le> a \<Longrightarrow> 0 \<le> hours_between a b"
  unfolding hours_between_def by (intro fl_nonneg divide_nonneg_pos) simp_all

lemma hours_between_le:
  assumes "0 \<le> L" "L \<le> 2 ^ 16"
  shows "hours_between a b \<le> of_int L \<longleftrightarrow> a - b \<le> L * 3600000000"
proof -
  define x :: rat where "x = of_int (a - b) / 1000000"
  have h: "hours_between a b = fl (fl x / 3600)" by (simp add: hours_between_def x_def)
  have L: "(0 :: rat) \<le> of_int L" "of_int L \<le> (65536 :: rat)" using assms by (simp_all add: of_int_le_numeral_iff)
  consider "a - b < 0" | "0 \<le> a - b" "a - b < L * 3600000000" | "a - b = L * 3600000000" | "L * 3600000000 < a - b"
    by linarith
  then show ?thesis
  proof cases
    case 1
    then have "hours_between a b < 0" by (intro hours_between_neg) simp
    then have "hours_between a b \<le> of_int L" using L(1) by linarith
    moreover have "a - b \<le> L * 3600000000" using 1 assms(1) by linarith
    ultimately show ?thesis by simp
  next
    case 2
    have x: "0 \<le> x" "x \<le> of_int L * 3600 - 1 / 1000000"
    proof -
      show "0 \<le> x" using 2(1) unfolding x_def by (intro divide_nonneg_pos) simp_all
      have "a - b \<le> L * 3600000000 - 1" using 2(2) by linarith
      then have "(of_int (a - b) :: rat) \<le> of_int (L * 3600000000 - 1)" by (rule of_int_le_iff [THEN iffD2])
      then show "x \<le> of_int L * 3600 - 1 / 1000000" by (simp add: x_def)
    qed
    have "fl (fl x / 3600) \<le> fl x / 3600 * (1 + 1 / 2 ^ 53)" using fl_nonneg [OF x(1)] by (intro fl_upper) simp
    also have "\<dots> \<le> x * (1 + 1 / 2 ^ 53) / 3600 * (1 + 1 / 2 ^ 53)"
      using fl_upper [OF x(1)] by (intro mult_right_mono divide_right_mono) simp_all
    also have "\<dots> \<le> of_int L" using x L by simp
    finally show ?thesis using 2 h by simp
  next
    case 3
    have "x = of_int (L * 3600)" by (simp add: x_def 3)
    moreover have "\<bar>L * 3600\<bar> < 2 ^ 53" "\<bar>L\<bar> < 2 ^ 53" using assms by simp_all
    ultimately have "fl (fl x / 3600) = of_int L" by (simp only: fl_of_int) simp
    then show ?thesis using 3 h by simp
  next
    case 4
    have x: "0 \<le> x" "of_int L * 3600 + 1 / 1000000 \<le> x"
    proof -
      have "L * 3600000000 + 1 \<le> a - b" using 4 by linarith
      then have "of_int (L * 3600000000 + 1) \<le> (of_int (a - b) :: rat)" by (rule of_int_le_iff [THEN iffD2])
      then show "of_int L * 3600 + 1 / 1000000 \<le> x" by (simp add: x_def)
      then show "0 \<le> x" using L(1) by linarith
    qed
    have "of_int L < x * (1 - 1 / 2 ^ 53) / 3600 * (1 - 1 / 2 ^ 53)" using x L by simp
    also have "\<dots> \<le> fl x / 3600 * (1 - 1 / 2 ^ 53)"
      using fl_lower [OF x(1)] by (intro mult_right_mono divide_right_mono) simp_all
    also have "\<dots> \<le> fl (fl x / 3600)" using fl_nonneg [OF x(1)] by (intro fl_lower) simp
    finally show ?thesis using 4 h by simp
  qed
qed

end
