(* ===== verification/BuildSequencer.thy ===== *)
theory BuildSequencer
  imports ControlDomain DiGraph PyFloat
begin

text \<open>
  \<open>src/project_pipeline/control/graph.py\<close>: the class \<open>BuildSequencer\<close>, method by method: the
  dependency graph with its checks, eligibility and readiness of a task, durations, the critical
  path with earliest finish and slack, depths, scores, and the ordered build sequence.  An
  instance is the record \<open>BuildSequencer\<close>; a method takes it as an argument, and fails with
  \<open>KeyError\<close> where the code would.  The networkx operations are the argument \<open>dg\<close>; \<open>isoformat\<close>
  renders a time stamp in the fingerprint.
\<close>

section \<open>Construction\<close>

definition TERMINAL_STATES :: "TaskLifecycleState list" where
  "TERMINAL_STATES = [T_DONE, T_CANCELLED]"

definition ACTIVE_STATES :: "TaskLifecycleState list" where
  "ACTIVE_STATES = [T_CLAIMED, T_IN_PROGRESS, T_IN_REVIEW, T_VALIDATING]"

definition DEFAULT_DURATION_MINUTES :: int where
  "DEFAULT_DURATION_MINUTES = 60"

record 'g BuildSequencer =
  sq_facts :: "TaskControlFact list"
  sq_by_id :: "(string, TaskControlFact) dict"
  sq_project_id :: string
  sq_graph :: 'g

definition add_dependency ::
  "'g digraph_ops \<Rightarrow> (string, TaskControlFact) dict \<Rightarrow> string \<Rightarrow> 'g \<Rightarrow> string \<Rightarrow> 'g result" where
  "add_dependency dg by_id task_id graph dependency =
     (if map_of by_id dependency = None
      then Inl (ControlGraphError (''task '' @ task_id @ '' depends on unknown work item '' @ dependency))
      else Inr (dg_add_edge dg dependency task_id graph))"

definition build_graph ::
  "'g digraph_ops \<Rightarrow> TaskControlFact list \<Rightarrow> (string, TaskControlFact) dict \<Rightarrow> 'g result" where
  "build_graph dg facts by_id =
     (let graph = fold (\<lambda>f. dg_add_node dg (tf_task_id f)) facts (dg_DiGraph dg)
      in res_bind
           (fold_res (\<lambda>g f. fold_res (add_dependency dg by_id (tf_task_id f)) g (tf_dependency_ids f)) graph facts)
           (\<lambda>graph.
              if \<not> dg_is_dag dg graph
              then Inl (ControlGraphError (''blocking dependency graph contains a cycle: ''
                     @ join_str '', '' (map (join_str '' '') (take 3 (dg_simple_cycles dg graph)))))
              else Inr graph))"

definition init_BuildSequencer :: "'g digraph_ops \<Rightarrow> TaskControlFact list \<Rightarrow> 'g BuildSequencer result" where
  "init_BuildSequencer dg fs =
     (let facts = sort_key tf_task_id fs;
          by_id = dict_of (map (\<lambda>f. (tf_task_id f, f)) facts);
          project_ids = remdups (map tf_project_id facts)
      in if length by_id \<noteq> length facts
         then Inl (ControlGraphError ''task control facts contain duplicate task identifiers'')
         else if 1 < length project_ids
         then Inl (ControlGraphError ''one build sequence cannot mix multiple projects'')
         else res_bind (build_graph dg facts by_id) (\<lambda>graph.
           Inr \<lparr>sq_facts = facts, sq_by_id = by_id,
                sq_project_id = (case project_ids of [] \<Rightarrow> ''PROJECT-PIPELINE'' | p # _ \<Rightarrow> p),
                sq_graph = graph\<rparr>))"

section \<open>Fingerprint\<close>

definition JOptInt :: "int option \<Rightarrow> json" where
  "JOptInt v = (case v of None \<Rightarrow> JNull | Some n \<Rightarrow> JInt n)"

definition fingerprint_node :: "(int \<Rightarrow> string) \<Rightarrow> TaskControlFact \<Rightarrow> json" where
  "fingerprint_node isoformat f = JObj
     [(''task_id'', JStr (tf_task_id f)), (''state'', JStr (task_state_value (tf_state f))),
      (''issue_type'', JStr (tf_issue_type f)), (''priority'', JStr (tf_priority f)), (''risk'', JStr (tf_risk f)),
      (''dependencies'', JList (map JStr (tf_dependency_ids f))), (''blockers'', JList (map JStr (tf_blocker_ids f))),
      (''duration'', JOptInt (tf_expected_duration_minutes f)),
      (''deadline'', JOpt (map_option (isoformat \<circ> instant) (tf_deadline_utc f))),
      (''accepted'', JBool (tf_accepted f)), (''policy_eligible'', JBool (tf_policy_eligible f)),
      (''approval_satisfied'', JBool (tf_approval_satisfied f)),
      (''context_satisfied'', JBool (tf_context_satisfied f)),
      (''resources_available'', JBool (tf_resources_available f)),
      (''environment_available'', JBool (tf_environment_available f)),
      (''external_blocked'', JBool (tf_external_blocked f)),
      (''reconciliation_required'', JBool (tf_reconciliation_required f)),
      (''remote_readback_required'', JBool (tf_remote_readback_required f)),
      (''product_scope_allowed'', JBool (tf_product_scope_allowed f))]"

definition graph_fingerprint ::
  "(int \<Rightarrow> string) \<Rightarrow> 'g digraph_ops \<Rightarrow> 'g BuildSequencer \<Rightarrow> string" where
  "graph_fingerprint isoformat dg sq =
     sha256_hex (dumps True (JObj
       [(''nodes'', JList (map (fingerprint_node isoformat) (sq_facts sq))),
        (''edges'', JList (map (\<lambda>(a, b). JList [JStr a, JStr b]) (sort (dg_edges dg (sq_graph sq)))))]))"

section \<open>Eligibility and readiness\<close>

definition not_eligible :: "string \<Rightarrow> EligibilityState \<Rightarrow> string list \<Rightarrow> TaskEligibility result" where
  "not_eligible task_id st reasons =
     make_TaskEligibility \<lparr>te_task_id = task_id, te_state = st, te_eligible = False, te_reasons = reasons\<rparr>"

definition eligibility :: "TaskControlFact \<Rightarrow> TaskEligibility result" where
  "eligibility tf =
     (if tf_issue_type tf = ''EPIC''
      then not_eligible (tf_task_id tf) E_POLICY_DENIED
             [''epic is a structural work container and is not directly executable'']
      else if tf_state tf \<in> set TERMINAL_STATES
      then not_eligible (tf_task_id tf) E_TERMINAL
             [''task is terminal: '' @ task_state_value (tf_state tf)]
      else if tf_remote_readback_required tf
      then not_eligible (tf_task_id tf) E_POLICY_DENIED
             [''implementation already projected; local DONE waits for integrated main and remote readback beyond To Do'']
      else if tf_reconciliation_required tf
      then not_eligible (tf_task_id tf) E_RECONCILIATION_REQUIRED
             [''issue-specific artifacts, tests, criteria, or evidence indicate existing delivery; audit and batch-reconcile this item instead of opening a fresh implementation lane'']
      else if tf_state tf \<in> set ACTIVE_STATES
      then not_eligible (tf_task_id tf) E_ALREADY_ACTIVE
             [''task already has active execution state: '' @ task_state_value (tf_state tf)]
      else if tf_external_blocked tf
      then not_eligible (tf_task_id tf) E_BLOCKED_EXTERNAL
             [''task has an unavailable external precondition; autonomous recovery owns the recheck and unaffected lanes continue'']
      else if \<not> tf_product_scope_allowed tf
      then not_eligible (tf_task_id tf) E_PRODUCT_SCOPE_PAUSED
             [''ordinary backlog selection is paused by the product-outcome correction; only the bounded autonomous-runtime critical-path slices may be admitted'']
      else if \<not> tf_accepted tf \<or> \<not> tf_policy_eligible tf
      then not_eligible (tf_task_id tf) E_POLICY_DENIED
             ((if \<not> tf_accepted tf then [''task is not accepted into executable scope''] else [])
              @ (if \<not> tf_policy_eligible tf then [''task is denied by current policy eligibility''] else []))
      else if tf_state tf \<in> {T_BLOCKED, T_FAILED}
      then not_eligible (tf_task_id tf) E_BLOCKED
             [''task state requires reconciliation before admission: '' @ task_state_value (tf_state tf)]
      else make_TaskEligibility
             \<lparr>te_task_id = tf_task_id tf, te_state = E_ELIGIBLE, te_eligible = True, te_reasons = []\<rparr>)"

definition not_ready ::
  "string \<Rightarrow> ReadinessState \<Rightarrow> string list \<Rightarrow> string list \<Rightarrow> string list \<Rightarrow> TaskReadiness result" where
  "not_ready task_id st deps blockers reasons =
     make_TaskReadiness \<lparr>td_task_id = task_id, td_state = st, td_ready = False,
       td_unresolved_dependencies = deps, td_unresolved_blockers = blockers, td_reasons = reasons\<rparr>"

definition unresolved_dependencies ::
  "(string, TaskControlFact) dict \<Rightarrow> TaskControlFact \<Rightarrow> string list result" where
  "unresolved_dependencies by_id tf =
     res_bind (map_res (\<lambda>d. res_bind (dict_get id by_id d) (\<lambda>f. Inr (d, tf_state f))) (tf_dependency_ids tf))
       (\<lambda>ds. Inr (map fst (filter (\<lambda>(d, st). st \<noteq> T_DONE) ds)))"

definition unresolved_blockers :: "(string, TaskControlFact) dict \<Rightarrow> TaskControlFact \<Rightarrow> string list" where
  "unresolved_blockers by_id tf =
     filter (\<lambda>b. case map_of by_id b of None \<Rightarrow> False | Some f \<Rightarrow> tf_state f \<noteq> T_DONE) (tf_blocker_ids tf)"

definition readiness :: "'g BuildSequencer \<Rightarrow> TaskControlFact \<Rightarrow> TaskReadiness result" where
  "readiness sq tf =
     res_bind (eligibility tf) (\<lambda>e.
       if te_state e = E_TERMINAL then not_ready (tf_task_id tf) R_TERMINAL [] [] (te_reasons e)
       else if te_state e = E_ALREADY_ACTIVE then not_ready (tf_task_id tf) R_ACTIVE [] [] (te_reasons e)
       else if \<not> te_eligible e
       then not_ready (tf_task_id tf) (if te_state e = E_BLOCKED then R_BLOCKED else R_NOT_ELIGIBLE)
              [] [] (te_reasons e)
       else res_bind (unresolved_dependencies (sq_by_id sq) tf) (\<lambda>deps.
         let blockers = unresolved_blockers (sq_by_id sq) tf
         in if deps \<noteq> []
            then not_ready (tf_task_id tf) R_WAITING_DEPENDENCIES deps []
                   [''one or more blocking dependencies are not done'']
            else if blockers \<noteq> []
            then not_ready (tf_task_id tf) R_BLOCKED [] blockers
                   [''one or more explicit blockers remain unresolved'']
            else if tf_approval_required tf \<and> \<not> tf_approval_satisfied tf
            then not_ready (tf_task_id tf) R_WAITING_APPROVAL [] [] [''required approval is not satisfied'']
            else if tf_context_required tf \<and> \<not> tf_context_satisfied tf
            then not_ready (tf_task_id tf) R_WAITING_CONTEXT [] []
                   [''required execution context is not available'']
            else if \<not> tf_resources_available tf
            then not_ready (tf_task_id tf) R_WAITING_RESOURCES [] [] [''required resources are not available'']
            else if \<not> tf_environment_available tf
            then not_ready (tf_task_id tf) R_WAITING_ENVIRONMENT [] []
                   [''required execution environment is not available'']
            else make_TaskReadiness
                   \<lparr>td_task_id = tf_task_id tf, td_state = R_READY, td_ready = True,
                    td_unresolved_dependencies = [], td_unresolved_blockers = [], td_reasons = []\<rparr>))"

section \<open>The critical path\<close>

definition consumes_no_time :: "TaskControlFact \<Rightarrow> bool" where
  "consumes_no_time f \<longleftrightarrow> tf_state f \<in> set TERMINAL_STATES \<or> tf_issue_type f = ''EPIC''"

definition duration_of :: "TaskControlFact \<Rightarrow> int" where
  "duration_of f =
     (if consumes_no_time f then 0
      else case tf_expected_duration_minutes f of None \<Rightarrow> DEFAULT_DURATION_MINUTES | Some m \<Rightarrow> m)"

definition durations :: "'g BuildSequencer \<Rightarrow> (string, int) dict \<times> string" where
  "durations sq =
     (let vals = dict_of (map (\<lambda>f. (tf_task_id f, duration_of f)) (sq_facts sq));
          rest = filter (\<lambda>f. \<not> consumes_no_time f) (sq_facts sq);
          remaining = length rest;
          declared = length (filter (\<lambda>f. tf_expected_duration_minutes f \<noteq> None) rest)
      in (vals,
          if vals = [] \<or> remaining = 0 then (if vals = [] then ''EMPTY'' else ''DEFAULT_HEURISTIC'')
          else if declared = remaining then ''DECLARED''
          else if declared = 0 then ''DEFAULT_HEURISTIC''
          else ''MIXED''))"

definition get_int :: "(string, int) dict \<Rightarrow> string \<Rightarrow> int result" where
  "get_int d k = dict_get id d k"

text \<open>One round of the forward loop: the earliest finish and the chosen predecessor of a node.\<close>

definition earliest_step ::
  "'g digraph_ops \<Rightarrow> 'g \<Rightarrow> (string, int) dict \<Rightarrow> (string, int) dict \<times> (string, string option) dict \<Rightarrow> string
     \<Rightarrow> ((string, int) dict \<times> (string, string option) dict) result" where
  "earliest_step dg g dur = (\<lambda>(ef, pred) node.
     res_bind (get_int dur node) (\<lambda>d.
       case sort (dg_predecessors dg g node) of
         [] \<Rightarrow> Inr (AList.update node d ef, AList.update node None pred)
       | p # ps \<Rightarrow>
           res_bind (map_res (\<lambda>q. res_bind (get_int ef q) (\<lambda>e. Inr (e, q))) (p # ps)) (\<lambda>ks.
             let (e, best) = max_by (\<lambda>k. k) (hd ks) (tl ks)
             in Inr (AList.update node (e + d) ef, AList.update node (Some best) pred))))"

text \<open>
  Following the predecessors back from the end of the path.  The loop of the code has no bound;
  \<open>fuel\<close> counts the rounds, and running out of it stands for a loop that does not end.
\<close>

fun walk_back :: "nat \<Rightarrow> (string, string option) dict \<Rightarrow> string \<Rightarrow> string list result" where
  "walk_back 0 pred cursor = Inl (RuntimeError ''the loop does not end'')"
| "walk_back (Suc fuel) pred cursor =
     res_bind (dict_get id pred cursor) (\<lambda>p.
       case p of None \<Rightarrow> Inr [cursor]
       | Some q \<Rightarrow> res_bind (walk_back fuel pred q) (\<lambda>path. Inr (path @ [cursor])))"

definition latest_step ::
  "'g digraph_ops \<Rightarrow> 'g \<Rightarrow> (string, int) dict \<Rightarrow> (string, int) dict \<Rightarrow> string \<Rightarrow> (string, int) dict result" where
  "latest_step dg g dur lf node =
     (case sort (dg_successors dg g node) of
        [] \<Rightarrow> Inr lf
      | s # ss \<Rightarrow>
          res_bind (map_res (\<lambda>q. res_bind (get_int lf q) (\<lambda>l. res_bind (get_int dur q) (\<lambda>d. Inr (l - d)))) (s # ss))
            (\<lambda>ls. Inr (AList.update node (Min (set ls)) lf)))"

definition critical_path :: "'g digraph_ops \<Rightarrow> 'g BuildSequencer \<Rightarrow> CriticalPathAnalysis result" where
  "critical_path dg sq =
     (if sq_facts sq = []
      then make_CriticalPathAnalysis \<lparr>ca_path = [], ca_total_duration_minutes = 0, ca_duration_source = ''EMPTY'',
             ca_earliest_finish_minutes = [], ca_slack_minutes = []\<rparr>
      else
        let (dur, source) = durations sq;
            topo = dg_topological_sort dg (sq_graph sq)
        in res_bind (fold_res (earliest_step dg (sq_graph sq) dur) ([], []) topo) (\<lambda>(ef, pred).
           if topo = [] then Inl (ValueError ''max() iterable argument is empty'')
           else res_bind (map_res (\<lambda>n. res_bind (get_int ef n) (\<lambda>e. Inr (e, n))) topo) (\<lambda>ks.
             let (tot, final) = max_by (\<lambda>k. k) (hd ks) (tl ks)
             in res_bind (walk_back (length topo) pred final) (\<lambda>path.
                res_bind (fold_res (latest_step dg (sq_graph sq) dur)
                            (dict_of (map (\<lambda>n. (n, tot)) topo)) (rev topo)) (\<lambda>lf.
                res_bind (map_res (\<lambda>n. res_bind (get_int lf n) (\<lambda>l. res_bind (get_int ef n) (\<lambda>e.
                            Inr (n, max 0 (l - e))))) topo) (\<lambda>slack.
                make_CriticalPathAnalysis
                  \<lparr>ca_path = path, ca_total_duration_minutes = tot, ca_duration_source = source,
                   ca_earliest_finish_minutes = sort ef, ca_slack_minutes = sort (dict_of slack)\<rparr>))))))"

section \<open>Depths and scores\<close>

definition depth_step ::
  "'g digraph_ops \<Rightarrow> 'g \<Rightarrow> (string, int) dict \<Rightarrow> string \<Rightarrow> (string, int) dict result" where
  "depth_step dg g depth node =
     (case dg_predecessors dg g node of
        [] \<Rightarrow> Inr (AList.update node 0 depth)
      | p # ps \<Rightarrow> res_bind (map_res (get_int depth) (p # ps)) (\<lambda>ds.
          Inr (AList.update node (1 + Max (set ds)) depth)))"

definition depths :: "'g digraph_ops \<Rightarrow> 'g BuildSequencer \<Rightarrow> (string, int) dict result" where
  "depths dg sq =
     fold_res (depth_step dg (sq_graph sq)) [] (dg_topological_sort dg (sq_graph sq))"

definition deadline_score :: "py_datetime option \<Rightarrow> int \<Rightarrow> int" where
  "deadline_score deadline now =
     (case deadline of
        None \<Rightarrow> 0
      | Some t \<Rightarrow>
          let hours = hours_between (instant t) now
          in if hours \<le> 0 then 200 else if hours \<le> 24 then 150
             else if hours \<le> 72 then 100 else if hours \<le> 168 then 50 else 0)"

definition priority_scores :: "(string, int) dict" where
  "priority_scores = [(''P0'', 1000), (''P1'', 700), (''P2'', 400), (''P3'', 100)]"

definition risk_scores :: "(string, int) dict" where
  "risk_scores = [(''LOW'', 0), (''MEDIUM'', 10), (''HIGH'', 25), (''CRITICAL'', 40)]"

definition duration_score :: "int option \<Rightarrow> int" where
  "duration_score minutes =
     (case minutes of None \<Rightarrow> 0 | Some m \<Rightarrow> max (- 80) (- trunc_int (fl (of_int m / 60)) * 2))"

definition score :: "TaskControlFact \<Rightarrow> string list \<Rightarrow> int \<Rightarrow> int \<Rightarrow> SequenceScore result" where
  "score tf critical_nodes downstream_count now =
     res_bind (get_int priority_scores (tf_priority tf)) (\<lambda>priority.
     res_bind (get_int risk_scores (tf_risk tf)) (\<lambda>risk.
       let critical = (if tf_task_id tf \<in> set critical_nodes then 200 else 0);
           deadline = deadline_score (tf_deadline_utc tf) now;
           unblock = min 150 (downstream_count * 10);
           duration = duration_score (tf_expected_duration_minutes tf)
       in make_SequenceScore
            \<lparr>sc_task_id = tf_task_id tf, sc_priority_score = priority, sc_critical_path_score = critical,
             sc_deadline_score = deadline, sc_risk_score = risk, sc_unblock_score = unblock,
             sc_duration_score = duration,
             sc_total_score = priority + critical + deadline + risk + unblock + duration\<rparr>))"

section \<open>The build sequence\<close>

definition BLOCKED_READINESS :: "ReadinessState list" where
  "BLOCKED_READINESS =
     [R_BLOCKED, R_WAITING_APPROVAL, R_WAITING_CONTEXT, R_WAITING_DEPENDENCIES,
      R_WAITING_ENVIRONMENT, R_WAITING_RESOURCES, R_NOT_ELIGIBLE]"

definition critical_nodes_of :: "'g BuildSequencer \<Rightarrow> CriticalPathAnalysis \<Rightarrow> string list result" where
  "critical_nodes_of sq critical =
     res_bind (map_res (\<lambda>(n, s). if s = 0
                  then res_bind (dict_get id (sq_by_id sq) n) (\<lambda>f. Inr (n, tf_state f \<notin> set TERMINAL_STATES))
                  else Inr (n, False)) (ca_slack_minutes critical))
       (\<lambda>ns. Inr (map fst (filter snd ns)))"

definition sequence_candidate ::
  "'g digraph_ops \<Rightarrow> 'g BuildSequencer \<Rightarrow> string list \<Rightarrow> int \<Rightarrow> TaskControlFact
     \<Rightarrow> (TaskControlFact \<times> SequenceScore \<times> int) result" where
  "sequence_candidate dg sq critical_nodes now tf =
     (let downstream = int (length (dg_descendants dg (sq_graph sq) (tf_task_id tf)))
      in res_bind (score tf critical_nodes downstream now) (\<lambda>s. Inr (tf, s, downstream)))"

definition sequence_item ::
  "(string, int) dict \<Rightarrow> string list \<Rightarrow> nat \<times> TaskControlFact \<times> SequenceScore \<times> int \<Rightarrow> SequenceItem result" where
  "sequence_item depth critical_nodes = (\<lambda>(index, tf, s, downstream).
     res_bind (get_int depth (tf_task_id tf)) (\<lambda>d.
       make_SequenceItem
         \<lparr>si_rank = int index, si_task_id = tf_task_id tf, si_readiness = R_READY, si_score = s,
          si_dependency_depth = d, si_downstream_count = downstream,
          si_on_critical_path = tf_task_id tf \<in> set critical_nodes\<rparr>))"

definition build_sequence ::
  "(int \<Rightarrow> string) \<Rightarrow> 'g digraph_ops \<Rightarrow> 'g BuildSequencer \<Rightarrow> int \<Rightarrow> BuildSequence result" where
  "build_sequence isoformat dg sq now =
     res_bind (critical_path dg sq) (\<lambda>critical.
     res_bind (critical_nodes_of sq critical) (\<lambda>critical_nodes.
     res_bind (depths dg sq) (\<lambda>depth.
     res_bind (map_res (\<lambda>f. res_bind (readiness sq f) (\<lambda>r. Inr (f, r))) (sq_facts sq)) (\<lambda>ready.
       let active = length (filter (\<lambda>(f, r). td_state r = R_ACTIVE) ready);
           blocked = length (filter (\<lambda>(f, r). td_state r \<in> set BLOCKED_READINESS \<and> tf_issue_type f \<noteq> ''EPIC'') ready)
       in
     res_bind (map_res (sequence_candidate dg sq critical_nodes now)
                 (map fst (filter (\<lambda>(f, r). td_ready r) ready))) (\<lambda>candidates.
     res_bind (map_res (sequence_item depth critical_nodes)
                 (enumerate 1 (sort_key (\<lambda>(f, s, d). (- sc_total_score s, tf_task_id f)) candidates))) (\<lambda>items.
       let fingerprint = graph_fingerprint isoformat dg sq
       in
     res_bind (control_identifier ''SEQ'' ([sq_project_id sq, fingerprint] @ map si_task_id items)) (\<lambda>sequence_id.
       make_BuildSequence
         \<lparr>bq_sequence_id = sequence_id, bq_project_id = sq_project_id sq, bq_graph_fingerprint = fingerprint,
          bq_task_count = int (length (sq_facts sq)), bq_edge_count = int (length (dg_edges dg (sq_graph sq))),
          bq_ready_count = int (length items), bq_active_count = int active, bq_blocked_count = int blocked,
          bq_critical_path = critical, bq_ordered_ready_work = items, bq_generated_at_utc = Aware now\<rparr>)))))))"

section \<open>What construction guarantees\<close>

definition dep_edges :: "TaskControlFact list \<Rightarrow> (string \<times> string) set" where
  "dep_edges facts = {(d, tf_task_id f) | d f. f \<in> set facts \<and> d \<in> set (tf_dependency_ids f)}"

text \<open>The sequencer that construction returns: sorted facts with distinct identifiers, an index of them, and an acyclic graph of their dependencies.\<close>

definition sequencer_ok :: "'g digraph_ops \<Rightarrow> 'g BuildSequencer \<Rightarrow> bool" where
  "sequencer_ok dg sq \<longleftrightarrow>
     sorted (map tf_task_id (sq_facts sq)) \<and> distinct (map tf_task_id (sq_facts sq))
     \<and> sq_by_id sq = map (\<lambda>f. (tf_task_id f, f)) (sq_facts sq)
     \<and> set (dg_nodes dg (sq_graph sq)) = tf_task_id ` set (sq_facts sq)
     \<and> set (dg_edges dg (sq_graph sq)) = dep_edges (sq_facts sq)
     \<and> dep_edges (sq_facts sq) \<subseteq> tf_task_id ` set (sq_facts sq) \<times> tf_task_id ` set (sq_facts sq)
     \<and> dg_is_dag dg (sq_graph sq) \<and> acyclic (dep_edges (sq_facts sq))"

lemma add_dependency_Inr:
  "add_dependency dg by_id t g d = Inr g' \<longleftrightarrow> d \<in> dom (map_of by_id) \<and> g' = dg_add_edge dg d t g"
  by (auto simp: add_dependency_def)

context nx_digraph
begin

lemma add_dependencies:
  assumes "fold_res (add_dependency dg by_id t) g ds = Inr g'"
  shows "set (dg_edges dg g') = set (dg_edges dg g) \<union> {(d, t) | d. d \<in> set ds}
     \<and> set (dg_nodes dg g') = set (dg_nodes dg g) \<union> set ds \<union> (if ds = [] then {} else {t})
     \<and> set ds \<subseteq> dom (map_of by_id)"
  using assms
proof (induction ds arbitrary: g)
  case (Cons d ds)
  then have d: "d \<in> dom (map_of by_id)" and rest: "fold_res (add_dependency dg by_id t) (dg_add_edge dg d t g) ds = Inr g'"
    by (auto simp: add_dependency_Inr)
  from Cons.IH [OF rest] d show ?case by (auto simp: edges_add_edge nodes_add_edge)
qed auto

lemma add_all_dependencies:
  assumes "fold_res (\<lambda>g f. fold_res (add_dependency dg by_id (tf_task_id f)) g (tf_dependency_ids f)) g fs = Inr g'"
    and "tf_task_id ` set fs \<subseteq> set (dg_nodes dg g)" "dom (map_of by_id) \<subseteq> set (dg_nodes dg g)"
  shows "set (dg_edges dg g') = set (dg_edges dg g) \<union> dep_edges fs
     \<and> set (dg_nodes dg g') = set (dg_nodes dg g)
     \<and> (\<forall>f \<in> set fs. set (tf_dependency_ids f) \<subseteq> dom (map_of by_id))"
  using assms
proof (induction fs arbitrary: g)
  case Nil
  then show ?case by (simp add: dep_edges_def)
next
  case (Cons f fs)
  then obtain g1 where g1: "fold_res (add_dependency dg by_id (tf_task_id f)) g (tf_dependency_ids f) = Inr g1"
    and rest: "fold_res (\<lambda>g f. fold_res (add_dependency dg by_id (tf_task_id f)) g (tf_dependency_ids f)) g1 fs = Inr g'"
    by auto
  note a = add_dependencies [OF g1]
  have nodes: "set (dg_nodes dg g1) = set (dg_nodes dg g)" using a Cons.prems(2,3) by auto
  have "set (dg_edges dg g') = set (dg_edges dg g1) \<union> dep_edges fs \<and> set (dg_nodes dg g') = set (dg_nodes dg g1)
     \<and> (\<forall>f \<in> set fs. set (tf_dependency_ids f) \<subseteq> dom (map_of by_id))"
    using Cons.IH [OF rest] Cons.prems(2,3) nodes by simp
  moreover have "dep_edges (f # fs) = {(d, tf_task_id f) | d. d \<in> set (tf_dependency_ids f)} \<union> dep_edges fs"
    by (auto simp: dep_edges_def)
  ultimately show ?case using a nodes by auto
qed

lemma add_nodes:
  "set (dg_nodes dg (fold (\<lambda>f. dg_add_node dg (tf_task_id f)) fs g)) = tf_task_id ` set fs \<union> set (dg_nodes dg g)
   \<and> set (dg_edges dg (fold (\<lambda>f. dg_add_node dg (tf_task_id f)) fs g)) = set (dg_edges dg g)"
  by (induction fs arbitrary: g) (auto simp: nodes_add_node edges_add_node)

lemma init_ok:
  assumes "init_BuildSequencer dg fs = Inr sq"
  shows "sequencer_ok dg sq" "sq_facts sq = sort_key tf_task_id fs" "distinct (map tf_task_id fs)"
proof -
  let ?facts = "sort_key tf_task_id fs"
  let ?ids = "map (\<lambda>f. (tf_task_id f, f)) ?facts"
  have dup: "length (dict_of ?ids) = length ?facts"
    and "\<exists>g. build_graph dg ?facts (dict_of ?ids) = Inr g \<and> sq_graph sq = g"
    and f: "sq_facts sq = ?facts" "sq_by_id sq = dict_of ?ids"
    using assms by (auto simp: init_BuildSequencer_def Let_def split: if_splits)
  then have g: "build_graph dg ?facts (dict_of ?ids) = Inr (sq_graph sq)" by auto
  have dist: "distinct (map tf_task_id ?facts)" using dup length_dict_of [of ?ids] by (simp add: comp_def)
  then have by_id: "dict_of ?ids = ?ids" by (intro dict_of_distinct) (simp add: comp_def)
  let ?g0 = "fold (\<lambda>f. dg_add_node dg (tf_task_id f)) ?facts (dg_DiGraph dg)"
  have loop: "fold_res (\<lambda>g f. fold_res (add_dependency dg ?ids (tf_task_id f)) g (tf_dependency_ids f)) ?g0 ?facts = Inr (sq_graph sq)"
    and dag: "dg_is_dag dg (sq_graph sq)"
    using g by (auto simp: build_graph_def by_id Let_def split: if_splits)
  have dom: "dom (map_of ?ids) = tf_task_id ` set ?facts" by (simp add: dom_map_of_conv_image_fst image_image)
  note n0 = add_nodes [of ?facts "dg_DiGraph dg"]
  have a: "set (dg_edges dg (sq_graph sq)) = dep_edges ?facts"
    "set (dg_nodes dg (sq_graph sq)) = tf_task_id ` set ?facts"
    "\<forall>f \<in> set ?facts. set (tf_dependency_ids f) \<subseteq> tf_task_id ` set ?facts"
    using add_all_dependencies [OF loop] n0 dom nodes_empty edges_empty by simp_all
  then show "sequencer_ok dg sq"
    using dist dag is_dag [of "sq_graph sq"] f by_id by (auto simp: sequencer_ok_def dep_edges_def)
  show "sq_facts sq = ?facts" by (rule f)
  show "distinct (map tf_task_id fs)" using dist by (simp add: distinct_map)
qed

end

end
