(* ===== verification/CriticalPath.thy ===== *)
theory CriticalPath
  imports BuildSequencer
begin

text \<open>
  The critical path analysis of \<open>control/graph.py\<close> computes longest paths.  The forward loop
  leaves the earliest finish of every node and a predecessor that attains it, the backward loop
  the latest finish; the loop that follows the predecessors ends; and path, earliest finish and
  slack are characterised by the paths of the dependency graph.
\<close>

section \<open>The loops of the critical path\<close>

lemma max_by_Max: "max_by (\<lambda>k. k) b xs = Max (set (b # xs))"
proof (induction xs arbitrary: b)
  case (Cons x xs)
  have "max_by (\<lambda>k. k) b (x # xs) = Max (insert (if b < x then x else b) (set xs))" using Cons.IH by simp
  also have "\<dots> = Max (set (b # x # xs))" by (cases "xs = []") (auto simp: max_def Max_insert)
  finally show ?case .
qed simp

lemma map_res_get:
  assumes "\<forall>q \<in> set qs. map_of d q = Some (v q)"
  shows "map_res (\<lambda>q. res_bind (get_int d q) (\<lambda>e. Inr (f e q))) qs = Inr (map (\<lambda>q. f (v q) q) qs)"
  using assms by (induction qs) (simp_all add: get_int_def dict_get_def)

text \<open>
  What the forward loop has recorded for a node, and its state after a prefix \<open>xs\<close> of the
  topological order.
\<close>

definition earliest_node ::
  "(string \<times> string) set \<Rightarrow> (string \<Rightarrow> int) \<Rightarrow> (string \<rightharpoonup> int) \<Rightarrow> (string \<rightharpoonup> string option) \<Rightarrow> string \<Rightarrow> bool" where
  "earliest_node E dur ef pred n \<longleftrightarrow>
     ({m. (m, n) \<in> E} = {} \<and> ef n = Some (dur n) \<and> pred n = Some None)
     \<or> (\<exists>b. (b, n) \<in> E \<and> pred n = Some (Some b) \<and> ef n = Some (the (ef b) + dur n)
           \<and> (\<forall>m. (m, n) \<in> E \<longrightarrow> the (ef m) \<le> the (ef b)))"

definition earliest_inv ::
  "(string \<times> string) set \<Rightarrow> (string \<Rightarrow> int) \<Rightarrow> string list \<Rightarrow> (string, int) dict \<Rightarrow> (string, string option) dict \<Rightarrow> bool" where
  "earliest_inv E dur xs ef pred \<longleftrightarrow>
     map fst ef = xs \<and> dom (map_of pred) = set xs
     \<and> (\<forall>n \<in> set xs. {m. (m, n) \<in> E} \<subseteq> set xs \<and> earliest_node E dur (map_of ef) (map_of pred) n)"

lemma earliest_node_cong:
  assumes "ef' n = ef n" "pred' n = pred n" "\<And>m. (m, n) \<in> E \<Longrightarrow> ef' m = ef m"
  shows "earliest_node E dur ef' pred' n = earliest_node E dur ef pred n"
  unfolding earliest_node_def assms(1,2) by (simp add: assms(3) cong: conj_cong)

lemma earliest_inv_extend:
  assumes inv: "earliest_inv E dur xs ef pred" and x: "x \<notin> set xs"
    and p: "{m. (m, x) \<in> E} \<subseteq> set xs"
    and new: "earliest_node E dur ((map_of ef)(x \<mapsto> v)) ((map_of pred)(x \<mapsto> c)) x"
  shows "earliest_inv E dur (xs @ [x]) (AList.update x v ef) (AList.update x c pred)"
proof -
  have keys: "map fst ef = xs" "dom (map_of pred) = set xs" using inv by (simp_all add: earliest_inv_def)
  have "x \<notin> fst ` set ef" using keys(1) x by (metis list.set_map)
  then have ef': "map fst (AList.update x v ef) = xs @ [x]" using keys(1) by (simp add: update_append_new)
  have "earliest_node E dur ((map_of ef)(x \<mapsto> v)) ((map_of pred)(x \<mapsto> c)) n" if "n \<in> set xs" for n
  proof -
    have "{m. (m, n) \<in> E} \<subseteq> set xs" "earliest_node E dur (map_of ef) (map_of pred) n"
      using inv that by (simp_all add: earliest_inv_def)
    then show ?thesis
      using that x by (subst earliest_node_cong [where ef = "map_of ef" and pred = "map_of pred"]) auto
  qed
  moreover have "{m. (m, n) \<in> E} \<subseteq> set xs" if "n \<in> set xs" for n
    using inv that by (simp add: earliest_inv_def)
  ultimately show ?thesis
    unfolding earliest_inv_def using ef' keys(2) new p by (auto simp: update_conv')
qed

context nx_digraph
begin

lemma earliest_step_ok:
  assumes preds: "{m. (m, n) \<in> set (dg_edges dg g)} \<subseteq> dom (map_of ef)" and irr: "(n, n) \<notin> set (dg_edges dg g)"
    and d: "map_of durs n = Some (dur n)"
  shows "\<exists>v c. earliest_step dg g durs (ef, pred) n = Inr (AList.update n v ef, AList.update n c pred)
     \<and> earliest_node (set (dg_edges dg g)) dur ((map_of ef)(n \<mapsto> v)) ((map_of pred)(n \<mapsto> c)) n"
proof (cases "sort (dg_predecessors dg g n)")
  case Nil
  then have "{m. (m, n) \<in> set (dg_edges dg g)} = {}" by (metis predecessors set_empty set_sort)
  then show ?thesis using Nil d by (simp add: earliest_step_def get_int_def dict_get_def earliest_node_def)
next
  case (Cons p ps)
  let ?v = "\<lambda>q. the (map_of ef q)"
  let ?ks = "map (\<lambda>q. (?v q, q)) (p # ps)"
  have set: "set (p # ps) = {m. (m, n) \<in> set (dg_edges dg g)}" using Cons predecessors by (metis set_sort)
  then have "\<forall>q \<in> set (p # ps). map_of ef q = Some (?v q)" using preds by auto
  then have ks: "map_res (\<lambda>q. res_bind (get_int ef q) (\<lambda>e. Inr (e, q))) (p # ps) = Inr ?ks"
    by (rule map_res_get)
  have "Max (set ?ks) \<in> set ?ks" by (rule Max_in) simp_all
  then obtain b where b: "b \<in> set (p # ps)" "Max (set ?ks) = (?v b, b)" by auto
  have best: "?v q \<le> ?v b" if "q \<in> set (p # ps)" for q
  proof -
    have "(?v q, q) \<le> Max (set ?ks)" using that by (intro Max_ge) auto
    then show ?thesis unfolding b(2) by (auto simp: less_eq_prod_def)
  qed
  have "max_by (\<lambda>k. k) (hd ?ks) (tl ?ks) = (?v b, b)" using b(2) max_by_Max [of "hd ?ks" "tl ?ks"] by simp
  then have "earliest_step dg g durs (ef, pred) n =
      Inr (AList.update n (?v b + dur n) ef, AList.update n (Some b) pred)"
    using Cons ks d by (simp add: earliest_step_def get_int_def dict_get_def del: map_res.simps)
  moreover have "b \<noteq> n" "(b, n) \<in> set (dg_edges dg g)" using b(1) set irr by auto
  moreover have "q \<noteq> n \<and> ?v q \<le> ?v b" if "(q, n) \<in> set (dg_edges dg g)" for q using best that set irr by auto
  ultimately show ?thesis
    by (intro exI [of _ "?v b + dur n"] exI [of _ "Some b"]) (auto simp: earliest_node_def)
qed

lemma earliest_loop:
  assumes "earliest_inv (set (dg_edges dg g)) dur xs ef pred"
    and "distinct (xs @ ys)" "topological (set (dg_edges dg g)) (xs @ ys)" "irrefl (set (dg_edges dg g))"
    and "set (dg_edges dg g) \<subseteq> set (xs @ ys) \<times> set (xs @ ys)" "\<forall>n \<in> set (xs @ ys). map_of durs n = Some (dur n)"
  shows "\<exists>ef' pred'. fold_res (earliest_step dg g durs) (ef, pred) ys = Inr (ef', pred')
     \<and> earliest_inv (set (dg_edges dg g)) dur (xs @ ys) ef' pred'"
  using assms
proof (induction ys arbitrary: xs ef pred)
  case (Cons y ys)
  let ?E = "set (dg_edges dg g)"
  have y: "y \<notin> set xs" using Cons.prems(2) by auto
  have irr: "(y, y) \<notin> ?E" using Cons.prems(4) by (auto simp: irrefl_def)
  have p: "{m. (m, y) \<in> ?E} \<subseteq> set xs"
  proof
    fix m assume "m \<in> {m. (m, y) \<in> ?E}"
    then have m: "(m, y) \<in> ?E" "m \<in> set (xs @ y # ys)" using Cons.prems(5) by auto
    have "m \<notin> set ys" using Cons.prems(3) m(1) by (auto simp: sorted_wrt_append)
    then show "m \<in> set xs" using m irr by auto
  qed
  have "dom (map_of ef) = set xs" using Cons.prems(1) by (metis dom_map_of_conv_image_fst earliest_inv_def list.set_map)
  then obtain v c where st: "earliest_step dg g durs (ef, pred) y = Inr (AList.update y v ef, AList.update y c pred)"
    and node: "earliest_node ?E dur ((map_of ef)(y \<mapsto> v)) ((map_of pred)(y \<mapsto> c)) y"
    using earliest_step_ok [OF _ irr, of ef durs dur pred] p Cons.prems(6) by auto
  have "earliest_inv ?E dur (xs @ [y]) (AList.update y v ef) (AList.update y c pred)"
    by (rule earliest_inv_extend [OF Cons.prems(1) y p node])
  from Cons.IH [OF this] show ?case using Cons.prems st by simp
qed auto

end

text \<open>The recorded values solve the equations of earliest finish.\<close>

lemma earliest_inv_eqs:
  assumes inv: "earliest_inv E dur us ef pred" and fin: "E \<subseteq> set us \<times> set us"
  shows "earliest_eqs E dur (set us) (\<lambda>n. the (map_of ef n))"
  unfolding earliest_eqs_def
proof
  fix n assume "n \<in> set us"
  let ?P = "{m. (m, n) \<in> E}" and ?v = "\<lambda>n. the (map_of ef n)"
  have "earliest_node E dur (map_of ef) (map_of pred) n" using inv \<open>n \<in> set us\<close> by (simp add: earliest_inv_def)
  then consider "?P = {}" "map_of ef n = Some (dur n)"
    | b where "(b, n) \<in> E" "map_of ef n = Some (?v b + dur n)" "\<forall>m. (m, n) \<in> E \<longrightarrow> ?v m \<le> ?v b"
    unfolding earliest_node_def by blast
  then show "?v n = (if ?P = {} then 0 else Max (?v ` ?P)) + dur n"
  proof cases
    case (2 b)
    have "finite ?P" using finite_rel_images(1) [OF _ fin] by simp
    then have "Max (?v ` ?P) = ?v b" using 2 by (intro Max_eqI) auto
    then show ?thesis using 2 by auto
  qed simp
qed

text \<open>Enough fuel: from the \<open>i\<close>-th node of the order at most \<open>i + 1\<close> rounds are needed.\<close>

lemma walk_back_ok:
  assumes inv: "earliest_inv E dur us ef pred" and top: "topological E us" and irr: "irrefl E"
    and "i < length us" "i < fuel"
  shows "\<exists>path. walk_back fuel pred (us ! i) = Inr path \<and> dep_path E path \<and> set path \<subseteq> set us
     \<and> last path = us ! i \<and> weight dur path = the (map_of ef (us ! i))"
  using assms(4,5)
proof (induction i arbitrary: fuel rule: less_induct)
  case (less i)
  obtain k where fuel: "fuel = Suc k" using less.prems(2) by (cases fuel) auto
  let ?n = "us ! i"
  have n: "?n \<in> set us" using less.prems by simp
  have "earliest_node E dur (map_of ef) (map_of pred) ?n" using inv n by (simp add: earliest_inv_def)
  then consider "map_of ef ?n = Some (dur ?n)" "map_of pred ?n = Some None"
    | b where "(b, ?n) \<in> E" "map_of pred ?n = Some (Some b)" "map_of ef ?n = Some (the (map_of ef b) + dur ?n)"
    unfolding earliest_node_def by blast
  then show ?case
  proof cases
    case 1
    then show ?thesis using n fuel by (simp add: dict_get_def)
  next
    case (2 b)
    have "b \<in> set us" using inv n 2(1) by (auto simp: earliest_inv_def)
    then obtain j where j: "j < length us" "us ! j = b" by (metis in_set_conv_nth)
    have "j < i"
    proof (rule ccontr)
      assume "\<not> j < i"
      then have "i = j \<or> i < j" by auto
      then show False
        using 2(1) j irr sorted_wrt_nth_less [OF top, of i j] by (auto simp: irrefl_def)
    qed
    then obtain path where p: "walk_back k pred b = Inr path" "dep_path E path" "set path \<subseteq> set us" "last path = b"
      "weight dur path = the (map_of ef b)"
      using less.IH [of j k] j less.prems fuel by auto
    have "dep_path E (path @ [?n])" using p 2(1) dep_path_append [of path "[?n]" E] dep_path_not_Nil by auto
    then show ?thesis using p 2 n fuel by (simp add: dict_get_def)
  qed
qed

text \<open>The backward loop: latest finish, and its state after a suffix \<open>zs\<close> of the order.\<close>

definition latest_node ::
  "(string \<times> string) set \<Rightarrow> (string \<Rightarrow> int) \<Rightarrow> int \<Rightarrow> (string \<rightharpoonup> int) \<Rightarrow> string \<Rightarrow> bool" where
  "latest_node E dur tot lf n \<longleftrightarrow>
     lf n = Some (if {m. (n, m) \<in> E} = {} then tot else Min ((\<lambda>m. the (lf m) - dur m) ` {m. (n, m) \<in> E}))"

definition latest_inv ::
  "(string \<times> string) set \<Rightarrow> (string \<Rightarrow> int) \<Rightarrow> int \<Rightarrow> string list \<Rightarrow> string list \<Rightarrow> (string, int) dict \<Rightarrow> bool" where
  "latest_inv E dur tot xs zs lf \<longleftrightarrow>
     dom (map_of lf) = set (xs @ zs) \<and> (\<forall>n \<in> set xs. map_of lf n = Some tot)
     \<and> (\<forall>n \<in> set zs. {m. (n, m) \<in> E} \<subseteq> set zs \<and> latest_node E dur tot (map_of lf) n)"

lemma latest_node_cong:
  assumes "lf' n = lf n" "\<And>m. (n, m) \<in> E \<Longrightarrow> lf' m = lf m"
  shows "latest_node E dur tot lf' n = latest_node E dur tot lf n"
  unfolding latest_node_def assms(1) by (simp add: assms(2))

context nx_digraph
begin

lemma latest_step_ok:
  assumes inv: "latest_inv (set (dg_edges dg g)) dur tot (xs @ [x]) zs lf" and dist: "distinct (xs @ x # zs)"
    and succs: "{m. (x, m) \<in> set (dg_edges dg g)} \<subseteq> set zs"
    and durs: "\<forall>n \<in> set zs. map_of durs n = Some (dur n)"
  shows "\<exists>lf'. latest_step dg g durs lf x = Inr lf' \<and> latest_inv (set (dg_edges dg g)) dur tot xs (x # zs) lf'"
proof -
  let ?E = "set (dg_edges dg g)" and ?S = "{m. (x, m) \<in> set (dg_edges dg g)}"
  have keep: "{m. (n, m) \<in> ?E} \<subseteq> set zs" "latest_node ?E dur tot (map_of lf) n" if "n \<in> set zs" for n
    using inv that by (simp_all add: latest_inv_def)
  have dom: "dom (map_of lf) = set (xs @ x # zs)" and tot: "\<forall>n \<in> set (xs @ [x]). map_of lf n = Some tot"
    using inv by (auto simp: latest_inv_def)
  show ?thesis
  proof (cases "sort (dg_successors dg g x)")
    case Nil
    then have "?S = {}" using successors by (metis set_empty set_sort)
    then have "latest_node ?E dur tot (map_of lf) x" using tot by (simp add: latest_node_def)
    then have "latest_inv ?E dur tot xs (x # zs) lf"
      using keep dom tot \<open>?S = {}\<close> by (auto simp: latest_inv_def)
    then show ?thesis using Nil by (simp add: latest_step_def)
  next
    case (Cons q qs)
    let ?h = "\<lambda>m. the (map_of lf m) - dur m"
    have set: "set (q # qs) = ?S" using Cons successors by (metis set_sort)
    have "\<forall>m \<in> set (q # qs). res_bind (get_int lf m) (\<lambda>l. res_bind (get_int durs m) (\<lambda>d. Inr (l - d))) = Inr (?h m)"
    proof
      fix m assume "m \<in> set (q # qs)"
      then have m: "m \<in> set zs" using set succs by auto
      then have "m \<in> dom (map_of lf)" unfolding dom by simp
      then obtain l where "map_of lf m = Some l" by blast
      then show "res_bind (get_int lf m) (\<lambda>l. res_bind (get_int durs m) (\<lambda>d. Inr (l - d))) = Inr (?h m)"
        using durs m by (simp add: get_int_def dict_get_def)
    qed
    then have ls: "map_res (\<lambda>m. res_bind (get_int lf m) (\<lambda>l. res_bind (get_int durs m) (\<lambda>d. Inr (l - d)))) (q # qs) =
        Inr (map ?h (q # qs))" by (intro map_res_total) blast
    let ?v = "Min (?h ` ?S)" and ?lf' = "AList.update x (Min (?h ` ?S)) lf"
    have "set (map ?h (q # qs)) = ?h ` ?S" unfolding set [symmetric] by simp
    then have st: "latest_step dg g durs lf x = Inr ?lf'"
      using Cons ls by (simp add: latest_step_def del: map_res.simps)
    have upd: "map_of ?lf' = (map_of lf)(x \<mapsto> ?v)" by (simp add: update_conv')
    have nx: "x \<notin> set zs" "x \<notin> set xs" using dist by auto
    have "latest_node ?E dur tot (map_of ?lf') n" if "n \<in> set zs" for n
    proof -
      have "n \<noteq> x" "\<And>m. (n, m) \<in> ?E \<Longrightarrow> m \<noteq> x" using keep(1) [OF that] that nx by auto
      then show ?thesis
        using keep(2) [OF that] by (subst latest_node_cong [where lf = "map_of lf"]) (auto simp: upd)
    qed
    moreover have "latest_node ?E dur tot (map_of ?lf') x"
    proof -
      have "(\<lambda>m. the (map_of ?lf' m) - dur m) ` ?S = ?h ` ?S"
        using succs nx by (intro image_cong) (auto simp: upd)
      moreover have "map_of ?lf' x = Some ?v" by (simp add: upd)
      moreover have "?S \<noteq> {}" using set by auto
      ultimately show ?thesis unfolding latest_node_def by (simp only: if_False)
    qed
    ultimately have "latest_inv ?E dur tot xs (x # zs) ?lf'"
      using keep(1) dom tot nx succs by (auto simp: latest_inv_def upd)
    then show ?thesis using st by blast
  qed
qed

lemma latest_loop:
  assumes "latest_inv (set (dg_edges dg g)) dur tot xs zs lf"
    and "distinct (xs @ zs)" "topological (set (dg_edges dg g)) (xs @ zs)" "irrefl (set (dg_edges dg g))"
    and "set (dg_edges dg g) \<subseteq> set (xs @ zs) \<times> set (xs @ zs)" "\<forall>n \<in> set (xs @ zs). map_of durs n = Some (dur n)"
  shows "\<exists>lf'. fold_res (latest_step dg g durs) lf (rev xs) = Inr lf'
     \<and> latest_inv (set (dg_edges dg g)) dur tot [] (xs @ zs) lf'"
  using assms
proof (induction xs arbitrary: zs lf rule: rev_induct)
  case (snoc x xs)
  let ?E = "set (dg_edges dg g)"
  have "{m. (x, m) \<in> ?E} \<subseteq> set zs"
  proof
    fix m assume "m \<in> {m. (x, m) \<in> ?E}"
    then have m: "(x, m) \<in> ?E" "m \<in> set ((xs @ [x]) @ zs)" using snoc.prems(5) by auto
    have "m \<notin> set xs" using snoc.prems(3) m(1) by (auto simp: sorted_wrt_append)
    moreover have "m \<noteq> x" using snoc.prems(4) m(1) by (auto simp: irrefl_def)
    ultimately show "m \<in> set zs" using m(2) by auto
  qed
  from latest_step_ok [OF snoc.prems(1) _ this, of durs] obtain lf1 where
    st: "latest_step dg g durs lf x = Inr lf1" and inv: "latest_inv ?E dur tot xs (x # zs) lf1"
    using snoc.prems(2,6) by auto
  from snoc.IH [OF inv] show ?case using snoc.prems st by simp
qed auto

end

lemma latest_inv_eqs:
  "latest_inv E dur tot [] us lf \<Longrightarrow> latest_eqs E dur (set us) tot (\<lambda>n. the (map_of lf n))"
  by (auto simp: latest_inv_def latest_eqs_def latest_node_def)

section \<open>The critical path\<close>

abbreviation task_ids :: "'g BuildSequencer \<Rightarrow> string set" where
  "task_ids sq \<equiv> tf_task_id ` set (sq_facts sq)"

definition task_duration :: "'g BuildSequencer \<Rightarrow> string \<Rightarrow> int" where
  "task_duration sq n = duration_of (the (map_of (sq_by_id sq) n))"

lemma by_id_get:
  assumes "sequencer_ok dg sq" "f \<in> set (sq_facts sq)"
  shows "map_of (sq_by_id sq) (tf_task_id f) = Some f"
proof -
  have "distinct (map fst (sq_by_id sq))" using assms(1) by (simp add: sequencer_ok_def comp_def)
  then show ?thesis using assms by (intro map_of_is_SomeI) (auto simp: sequencer_ok_def)
qed

lemma durations_get:
  assumes "sequencer_ok dg sq" "n \<in> task_ids sq"
  shows "map_of (fst (durations sq)) n = Some (task_duration sq n)"
proof -
  obtain f where f: "f \<in> set (sq_facts sq)" "tf_task_id f = n" using assms(2) by blast
  let ?ds = "map (\<lambda>f. (tf_task_id f, duration_of f)) (sq_facts sq)"
  have dist: "distinct (map fst ?ds)" using assms(1) by (simp add: sequencer_ok_def comp_def)
  have "map_of ?ds n = Some (duration_of f)" using f by (intro map_of_is_SomeI [OF dist]) auto
  then show ?thesis
    using by_id_get [OF assms(1) f(1)] f(2) by (simp add: durations_def Let_def dict_of_distinct [OF dist] task_duration_def)
qed

lemma duration_of_nonneg: "valid_TaskControlFact f \<Longrightarrow> 0 \<le> duration_of f"
  by (auto simp: duration_of_def valid_TaskControlFact_def DEFAULT_DURATION_MINUTES_def split: option.splits)

lemma task_duration_nonneg:
  assumes "sequencer_ok dg sq" "\<forall>f \<in> set (sq_facts sq). valid_TaskControlFact f" "n \<in> task_ids sq"
  shows "0 \<le> task_duration sq n"
proof -
  obtain f where f: "f \<in> set (sq_facts sq)" "n = tf_task_id f" using assms(3) by blast
  then show ?thesis
    using duration_of_nonneg assms(2) by (simp add: task_duration_def by_id_get [OF assms(1) f(1)])
qed

lemma durations_source:
  "snd (durations sq) \<in> {''DECLARED'', ''MIXED'', ''DEFAULT_HEURISTIC'', ''EMPTY''}"
  by (simp add: durations_def Let_def)

text \<open>The result of the analysis in terms of paths of the dependency graph.\<close>

definition longest_path_facts ::
  "(string \<times> string) set \<Rightarrow> (string \<Rightarrow> int) \<Rightarrow> string set \<Rightarrow> CriticalPathAnalysis \<Rightarrow> bool" where
  "longest_path_facts E dur N a \<longleftrightarrow>
     dep_path E (ca_path a) \<and> set (ca_path a) \<subseteq> N \<and> weight dur (ca_path a) = ca_total_duration_minutes a
     \<and> (\<forall>xs. dep_path E xs \<and> set xs \<subseteq> N \<longrightarrow> weight dur xs \<le> ca_total_duration_minutes a)"

definition earliest_facts ::
  "(string \<times> string) set \<Rightarrow> (string \<Rightarrow> int) \<Rightarrow> string set \<Rightarrow> CriticalPathAnalysis \<Rightarrow> bool" where
  "earliest_facts E dur N a \<longleftrightarrow>
     (\<forall>n \<in> N. \<exists>e. map_of (ca_earliest_finish_minutes a) n = Some e
        \<and> (\<exists>xs. dep_path E xs \<and> set xs \<subseteq> N \<and> last xs = n \<and> weight dur xs = e)
        \<and> (\<forall>xs. dep_path E xs \<and> set xs \<subseteq> N \<and> last xs = n \<longrightarrow> weight dur xs \<le> e))"

definition slack_facts ::
  "(string \<times> string) set \<Rightarrow> (string \<Rightarrow> int) \<Rightarrow> string set \<Rightarrow> CriticalPathAnalysis \<Rightarrow> bool" where
  "slack_facts E dur N a \<longleftrightarrow>
     (\<forall>n \<in> N. \<exists>s. map_of (ca_slack_minutes a) n = Some s \<and> 0 \<le> s
        \<and> (\<exists>xs. dep_path E xs \<and> set xs \<subseteq> N \<and> n \<in> set xs \<and> weight dur xs = ca_total_duration_minutes a - s)
        \<and> (\<forall>xs. dep_path E xs \<and> set xs \<subseteq> N \<and> n \<in> set xs \<longrightarrow> weight dur xs \<le> ca_total_duration_minutes a - s))"

lemma slack_exact:
  assumes fin: "finite N" "E \<subseteq> N \<times> N" "acyclic E"
    and ef: "earliest_eqs E dur N ef" and lf: "latest_eqs E dur N tot lf"
    and dur: "\<forall>n \<in> N. 0 \<le> dur n" and upper: "\<forall>xs. dep_path E xs \<and> set xs \<subseteq> N \<longrightarrow> weight dur xs \<le> tot"
    and pos: "\<forall>n \<in> N. 0 \<le> ef n - dur n" and n: "n \<in> N"
  shows "0 \<le> lf n - ef n"
    "\<exists>xs. dep_path E xs \<and> set xs \<subseteq> N \<and> n \<in> set xs \<and> weight dur xs = tot - (lf n - ef n)"
    "\<forall>xs. dep_path E xs \<and> set xs \<subseteq> N \<and> n \<in> set xs \<longrightarrow> weight dur xs \<le> tot - (lf n - ef n)"
proof -
  obtain xs where xs: "dep_path E xs" "set xs \<subseteq> N" "last xs = n" "weight dur xs = ef n"
    using earliest_attained [OF fin ef n] by blast
  obtain ys where ys: "dep_path E (n # ys)" "set ys \<subseteq> N" "weight dur ys = tot - lf n"
    using latest_attained [OF fin lf n] by blast
  have join: "dep_path E (xs @ ys)"
    using xs ys dep_path_append [of xs ys E] dep_path_not_Nil by (cases ys) auto
  have mem: "n \<in> set (xs @ ys)" using xs(3) last_in_set [OF dep_path_not_Nil [OF xs(1)]] by simp
  have w: "weight dur (xs @ ys) = tot - (lf n - ef n)" using xs ys by simp
  moreover have "weight dur (xs @ ys) \<le> tot" using upper [rule_format, of "xs @ ys"] join xs(2) ys(2) by simp
  ultimately show "0 \<le> lf n - ef n" by simp
  show "\<exists>xs. dep_path E xs \<and> set xs \<subseteq> N \<and> n \<in> set xs \<and> weight dur xs = tot - (lf n - ef n)"
    using join mem w xs ys by (intro exI [of _ "xs @ ys"]) auto
  have lf_le: "\<forall>n \<in> N. lf n \<le> tot"
  proof
    fix m assume m: "m \<in> N"
    obtain zs where z: "set zs \<subseteq> N" "weight dur zs = tot - lf m" using latest_attained [OF fin lf m] by blast
    have "0 \<le> weight dur zs" using z(1) dur by (intro sum_list_nonneg) auto
    then show "lf m \<le> tot" using z by simp
  qed
  show "\<forall>xs. dep_path E xs \<and> set xs \<subseteq> N \<and> n \<in> set xs \<longrightarrow> weight dur xs \<le> tot - (lf n - ef n)"
  proof (intro allI impI)
    fix zs assume z: "dep_path E zs \<and> set zs \<subseteq> N \<and> n \<in> set zs"
    then obtain as bs where zs: "zs = as @ n # bs" by (meson split_list)
    have split: "dep_path E (as @ [n])" "dep_path E (n # bs)"
      using z dep_path_append [of "as @ [n]" bs E] dep_path_append [of as "n # bs" E] zs
      by (cases as; cases bs; auto)+
    have "weight dur (as @ [n]) \<le> ef n"
      using earliest_upper [OF fin(1,2) ef split(1) _ pos] z zs by simp
    moreover have "lf n \<le> tot - weight dur bs"
      using latest_upper [OF fin(1,2) lf split(2) _ lf_le] z zs by simp
    ultimately show "weight dur zs \<le> tot - (lf n - ef n)" by (simp add: zs)
  qed
qed

lemma earliest_nonneg:
  assumes "finite N" "E \<subseteq> N \<times> N" "acyclic E" "earliest_eqs E dur N ef" "\<forall>n \<in> N. 0 \<le> dur n"
  shows "\<forall>n \<in> N. 0 \<le> ef n - dur n"
proof
  fix n assume n: "n \<in> N"
  have nn: "0 \<le> ef m" if m: "m \<in> N" for m
  proof -
    obtain xs where xs: "set xs \<subseteq> N" "weight dur xs = ef m" using earliest_attained [OF assms(1-4) m] by blast
    have "0 \<le> weight dur xs" using xs(1) assms(5) by (intro sum_list_nonneg) auto
    then show ?thesis using xs(2) by simp
  qed
  show "0 \<le> ef n - dur n"
  proof (cases "{m. (m, n) \<in> E} = {}")
    case True
    then show ?thesis using assms(4) n by (simp add: earliest_eqs_def)
  next
    case False
    then obtain m where m: "(m, n) \<in> E" by auto
    have "0 \<le> ef m" using nn m assms(2) by auto
    also have "\<dots> \<le> Max (ef ` {m. (m, n) \<in> E})"
      using m finite_rel_images(1) [OF assms(1,2)] by (intro Max_ge) auto
    also have "\<dots> = ef n - dur n" using assms(4) n False by (auto simp: earliest_eqs_def)
    finally show ?thesis .
  qed
qed

context nx_digraph
begin

lemma topo_facts:
  assumes "sequencer_ok dg sq"
  shows "distinct (dg_topological_sort dg (sq_graph sq))" "set (dg_topological_sort dg (sq_graph sq)) = task_ids sq"
    "topological (dep_edges (sq_facts sq)) (dg_topological_sort dg (sq_graph sq))"
    "irrefl (dep_edges (sq_facts sq))"
proof -
  have e: "set (dg_edges dg (sq_graph sq)) = dep_edges (sq_facts sq)" "set (dg_nodes dg (sq_graph sq)) = task_ids sq"
    "dep_edges (sq_facts sq) \<subseteq> task_ids sq \<times> task_ids sq" "dg_is_dag dg (sq_graph sq)" "acyclic (dep_edges (sq_facts sq))"
    using assms by (simp_all add: sequencer_ok_def)
  show "distinct (dg_topological_sort dg (sq_graph sq))" "set (dg_topological_sort dg (sq_graph sq)) = task_ids sq"
    "topological (dep_edges (sq_facts sq)) (dg_topological_sort dg (sq_graph sq))"
    using topological_sort [OF e(4)] e(1-3) by simp_all
  show "irrefl (dep_edges (sq_facts sq))" using e(5) acyclic_irrefl irrefl_trancl_rD by (auto simp: acyclic_def irrefl_def)
qed

lemma forward_loop:
  assumes ok: "sequencer_ok dg sq" and us: "us = dg_topological_sort dg (sq_graph sq)"
  shows "\<exists>ef pred. fold_res (earliest_step dg (sq_graph sq) (fst (durations sq))) ([], []) us = Inr (ef, pred)
     \<and> earliest_inv (dep_edges (sq_facts sq)) (task_duration sq) us ef pred"
proof -
  note t = topo_facts [OF ok, folded us]
  have e: "set (dg_edges dg (sq_graph sq)) = dep_edges (sq_facts sq)"
    "dep_edges (sq_facts sq) \<subseteq> task_ids sq \<times> task_ids sq" using ok by (simp_all add: sequencer_ok_def)
  have "earliest_inv (set (dg_edges dg (sq_graph sq))) (task_duration sq) [] [] []" by (simp add: earliest_inv_def)
  from earliest_loop [OF this, of us "fst (durations sq)"] t e durations_get [OF ok] show ?thesis by simp
qed

lemma backward_loop:
  assumes ok: "sequencer_ok dg sq" and us: "us = dg_topological_sort dg (sq_graph sq)"
  shows "\<exists>lf. fold_res (latest_step dg (sq_graph sq) (fst (durations sq))) (dict_of (map (\<lambda>n. (n, tot)) us)) (rev us) = Inr lf
     \<and> latest_inv (dep_edges (sq_facts sq)) (task_duration sq) tot [] us lf"
proof -
  note t = topo_facts [OF ok, folded us]
  have e: "set (dg_edges dg (sq_graph sq)) = dep_edges (sq_facts sq)"
    "dep_edges (sq_facts sq) \<subseteq> task_ids sq \<times> task_ids sq" using ok by (simp_all add: sequencer_ok_def)
  let ?lf = "map (\<lambda>n. (n, tot)) us"
  have lf: "dict_of ?lf = ?lf" using t(1) by (intro dict_of_distinct) (simp add: comp_def)
  have "map_of ?lf n = Some tot" if "n \<in> set us" for n
    using that t(1) by (intro map_of_is_SomeI) (auto simp: comp_def)
  then have "latest_inv (set (dg_edges dg (sq_graph sq))) (task_duration sq) tot us [] ?lf"
    by (auto simp: latest_inv_def dom_map_of_conv_image_fst image_image)
  from latest_loop [OF this, of "fst (durations sq)"] t e durations_get [OF ok] lf show ?thesis by simp
qed

text \<open>Selecting the end of the path and computing the slack, from the values the loops leave.\<close>

lemma select_end:
  assumes "us \<noteq> []" "\<forall>n \<in> set us. map_of ef n = Some (e n)"
  shows "\<exists>n \<in> set us. (\<forall>m \<in> set us. e m \<le> e n)
     \<and> (\<exists>ks. map_res (\<lambda>n. res_bind (get_int ef n) (\<lambda>e. Inr (e, n))) us = Inr ks
            \<and> max_by (\<lambda>k. k) (hd ks) (tl ks) = (e n, n))"
proof -
  let ?ks = "map (\<lambda>n. (e n, n)) us"
  have ks: "map_res (\<lambda>n. res_bind (get_int ef n) (\<lambda>e. Inr (e, n))) us = Inr ?ks"
    using assms(2) by (rule map_res_get)
  have "Max (set ?ks) \<in> set ?ks" using assms(1) by (intro Max_in) simp_all
  then obtain n where n: "n \<in> set us" "Max (set ?ks) = (e n, n)" by auto
  have "e m \<le> e n" if "m \<in> set us" for m
  proof -
    have "(e m, m) \<le> Max (set ?ks)" using that by (intro Max_ge) auto
    then show ?thesis unfolding n(2) by (auto simp: less_eq_prod_def)
  qed
  moreover have "max_by (\<lambda>k. k) (hd ?ks) (tl ?ks) = (e n, n)"
    using n(2) max_by_Max [of "hd ?ks" "tl ?ks"] assms(1) by (cases us) simp_all
  ultimately show ?thesis using n(1) ks by blast
qed

lemma slack_list:
  assumes "\<forall>n \<in> set us. map_of lf n = Some (l n)" "\<forall>n \<in> set us. map_of ef n = Some (e n)"
  shows "map_res (\<lambda>n. res_bind (get_int lf n) (\<lambda>l. res_bind (get_int ef n) (\<lambda>e. Inr (n, max 0 (l - e))))) us =
     Inr (map (\<lambda>n. (n, max 0 (l n - e n))) us)"
  using assms by (intro map_res_total) (simp add: get_int_def dict_get_def)

lemma earliest_inv_get:
  assumes "earliest_inv E dur us ef pred"
  shows "\<forall>n \<in> set us. map_of ef n = Some (the (map_of ef n))"
proof
  fix n assume "n \<in> set us"
  moreover have "dom (map_of ef) = set us"
    using assms by (metis dom_map_of_conv_image_fst earliest_inv_def list.set_map)
  ultimately have "n \<in> dom (map_of ef)" by simp
  then show "map_of ef n = Some (the (map_of ef n))" by auto
qed

lemma latest_inv_get:
  assumes "latest_inv E dur tot [] us lf"
  shows "\<forall>n \<in> set us. map_of lf n = Some (the (map_of lf n))"
  using assms by (auto simp: latest_inv_def latest_node_def)

lemma critical_path_run:
  assumes ok: "sequencer_ok dg sq" and ne: "sq_facts sq \<noteq> []" and valid: "\<forall>f \<in> set (sq_facts sq). valid_TaskControlFact f"
  obtains us ef pred lf path tot where
    "distinct us" "set us = task_ids sq"
    "earliest_inv (dep_edges (sq_facts sq)) (task_duration sq) us ef pred"
    "latest_inv (dep_edges (sq_facts sq)) (task_duration sq) tot [] us lf"
    "\<forall>n \<in> set us. the (map_of ef n) \<le> tot"
    "dep_path (dep_edges (sq_facts sq)) path" "set path \<subseteq> task_ids sq" "weight (task_duration sq) path = tot"
    "critical_path dg sq = Inr \<lparr>ca_path = path, ca_total_duration_minutes = tot,
       ca_duration_source = snd (durations sq), ca_earliest_finish_minutes = sort ef,
       ca_slack_minutes = sort (map (\<lambda>n. (n, max 0 (the (map_of lf n) - the (map_of ef n)))) us)\<rparr>"
proof -
  let ?E = "dep_edges (sq_facts sq)" and ?dur = "task_duration sq" and ?N = "task_ids sq"
  obtain us where us: "us = dg_topological_sort dg (sq_graph sq)" by simp
  note t = topo_facts [OF ok, folded us]
  have us_ne: "us \<noteq> []" using t(2) ne by auto
  obtain ef pred where fwd: "fold_res (earliest_step dg (sq_graph sq) (fst (durations sq))) ([], []) us = Inr (ef, pred)"
    and inv: "earliest_inv ?E ?dur us ef pred" using forward_loop [OF ok us] by blast
  let ?ef = "\<lambda>n. the (map_of ef n)"
  from select_end [OF us_ne earliest_inv_get [OF inv]] obtain final ks where
    final: "final \<in> set us" "\<forall>m \<in> set us. ?ef m \<le> ?ef final"
    and ks: "map_res (\<lambda>n. res_bind (get_int ef n) (\<lambda>e. Inr (e, n))) us = Inr ks"
      "max_by (\<lambda>k. k) (hd ks) (tl ks) = (?ef final, final)" by blast
  obtain i where i: "i < length us" "us ! i = final" using final(1) by (metis in_set_conv_nth)
  from walk_back_ok [OF inv t(3,4) i(1) i(1)] obtain path where
    walk: "walk_back (length us) pred final = Inr path" and path: "dep_path ?E path" "set path \<subseteq> ?N"
      "weight ?dur path = ?ef final" unfolding i(2) t(2) by blast
  obtain lf where bwd: "fold_res (latest_step dg (sq_graph sq) (fst (durations sq)))
       (dict_of (map (\<lambda>n. (n, ?ef final)) us)) (rev us) = Inr lf"
    and linv: "latest_inv ?E ?dur (?ef final) [] us lf" using backward_loop [OF ok us] by blast
  let ?slack = "map (\<lambda>n. (n, max 0 (the (map_of lf n) - ?ef n))) us"
  note slack = slack_list [OF latest_inv_get [OF linv] earliest_inv_get [OF inv]]
  have sd: "dict_of ?slack = ?slack" using t(1) by (intro dict_of_distinct) (simp add: comp_def)
  have "0 \<le> ?ef final"
    unfolding path(3) [symmetric] using path(2) task_duration_nonneg [OF ok valid] by (intro sum_list_nonneg) auto
  moreover have "list_all is_issue_id path"
    using path(2) valid by (fastforce simp: list_all_iff valid_TaskControlFact_def)
  ultimately have "critical_path dg sq = Inr \<lparr>ca_path = path, ca_total_duration_minutes = ?ef final,
       ca_duration_source = snd (durations sq), ca_earliest_finish_minutes = sort ef, ca_slack_minutes = sort ?slack\<rparr>"
    using durations_source [of sq] sd
    by (simp add: critical_path_def ne us_ne us [symmetric] split_beta fwd ks walk bwd slack Let_def
        make_CriticalPathAnalysis_def)
  from that [OF t(1,2) inv linv final(2) path this] show thesis .
qed

lemma critical_path_ok:
  assumes ok: "sequencer_ok dg sq" and ne: "sq_facts sq \<noteq> []" and valid: "\<forall>f \<in> set (sq_facts sq). valid_TaskControlFact f"
  shows "\<exists>a. critical_path dg sq = Inr a
     \<and> longest_path_facts (dep_edges (sq_facts sq)) (task_duration sq) (task_ids sq) a
     \<and> earliest_facts (dep_edges (sq_facts sq)) (task_duration sq) (task_ids sq) a
     \<and> slack_facts (dep_edges (sq_facts sq)) (task_duration sq) (task_ids sq) a"
proof (rule critical_path_run [OF ok ne valid])
  let ?E = "dep_edges (sq_facts sq)" and ?dur = "task_duration sq" and ?N = "task_ids sq"
  fix us :: "string list" and ef lf :: "(string, int) dict" and pred path and tot :: int
  let ?ef = "\<lambda>n. the (map_of ef n)" and ?lf = "\<lambda>n. the (map_of lf n)"
  let ?slack = "map (\<lambda>n. (n, max 0 (?lf n - ?ef n))) us"
  let ?a = "\<lparr>ca_path = path, ca_total_duration_minutes = tot, ca_duration_source = snd (durations sq),
      ca_earliest_finish_minutes = sort ef, ca_slack_minutes = sort ?slack\<rparr>"
  assume us: "distinct us" "set us = ?N" and inv: "earliest_inv ?E ?dur us ef pred"
    and linv: "latest_inv ?E ?dur tot [] us lf" and top: "\<forall>n \<in> set us. ?ef n \<le> tot"
    and path: "dep_path ?E path" "set path \<subseteq> ?N" "weight ?dur path = tot"
    and res: "critical_path dg sq = Inr ?a"
  have E: "finite ?N" "?E \<subseteq> ?N \<times> ?N" "acyclic ?E" using ok by (simp_all add: sequencer_ok_def)
  have ef_eqs: "earliest_eqs ?E ?dur ?N ?ef" using earliest_inv_eqs [OF inv] E(2) us(2) by simp
  have lf_eqs: "latest_eqs ?E ?dur ?N tot ?lf" using latest_inv_eqs [OF linv] us(2) by simp
  have dur: "\<forall>n \<in> ?N. 0 \<le> ?dur n" using task_duration_nonneg [OF ok valid] by blast
  note pos = earliest_nonneg [OF E ef_eqs dur]
  have le: "weight ?dur xs \<le> ?ef (last xs)" if "dep_path ?E xs" "set xs \<subseteq> ?N" for xs
    by (rule earliest_upper [OF E(1,2) ef_eqs that pos])
  have upper: "\<forall>xs. dep_path ?E xs \<and> set xs \<subseteq> ?N \<longrightarrow> weight ?dur xs \<le> tot"
  proof (intro allI impI)
    fix xs assume xs: "dep_path ?E xs \<and> set xs \<subseteq> ?N"
    then have "last xs \<in> set us" using us(2) dep_path_not_Nil last_in_set by blast
    then show "weight ?dur xs \<le> tot" using le xs top by fastforce
  qed
  have "longest_path_facts ?E ?dur ?N ?a" using path upper by (simp add: longest_path_facts_def)
  moreover have "earliest_facts ?E ?dur ?N ?a"
  proof -
    have "distinct (map fst ef)" using inv us(1) by (simp add: earliest_inv_def)
    then have "map_of (sort ef) n = Some (?ef n)" if "n \<in> ?N" for n
      using earliest_inv_get [OF inv] that unfolding us(2) by (metis map_of_sort)
    note get = this
    show ?thesis unfolding earliest_facts_def CriticalPathAnalysis.select_convs
    proof
      fix n assume n: "n \<in> ?N"
      have "\<forall>xs. dep_path ?E xs \<and> set xs \<subseteq> ?N \<and> last xs = n \<longrightarrow> weight ?dur xs \<le> ?ef n" using le by blast
      then show "\<exists>e. map_of (sort ef) n = Some e
          \<and> (\<exists>xs. dep_path ?E xs \<and> set xs \<subseteq> ?N \<and> last xs = n \<and> weight ?dur xs = e)
          \<and> (\<forall>xs. dep_path ?E xs \<and> set xs \<subseteq> ?N \<and> last xs = n \<longrightarrow> weight ?dur xs \<le> e)"
        using get [OF n] earliest_attained [OF E ef_eqs n] by (intro exI [of _ "?ef n"] conjI)
    qed
  qed
  moreover have "slack_facts ?E ?dur ?N ?a"
    unfolding slack_facts_def
  proof
    fix n assume n: "n \<in> ?N"
    note x = slack_exact [OF E ef_eqs lf_eqs dur upper pos n]
    have d: "distinct (map fst ?slack)" using us(1) by (simp add: comp_def)
    have "map_of (sort ?slack) n = Some (?lf n - ?ef n)"
      unfolding map_of_sort [OF d] using n us(2) x(1) by (intro map_of_is_SomeI [OF d]) auto
    then show "\<exists>s. map_of (ca_slack_minutes ?a) n = Some s \<and> 0 \<le> s
        \<and> (\<exists>xs. dep_path ?E xs \<and> set xs \<subseteq> ?N \<and> n \<in> set xs \<and> weight ?dur xs = ca_total_duration_minutes ?a - s)
        \<and> (\<forall>xs. dep_path ?E xs \<and> set xs \<subseteq> ?N \<and> n \<in> set xs \<longrightarrow> weight ?dur xs \<le> ca_total_duration_minutes ?a - s)"
      using x by (intro exI [of _ "?lf n - ?ef n"]) simp
  qed
  ultimately show ?thesis using res by blast
qed

end

section \<open>Properties\<close>

definition example_fact :: "string \<Rightarrow> TaskLifecycleState \<Rightarrow> string list \<Rightarrow> int option \<Rightarrow> TaskControlFact" where
  "example_fact tid st deps minutes =
     \<lparr>tf_task_id = tid, tf_project_id = ''PROJECT-X'', tf_state = st, tf_issue_type = ''TASK'', tf_priority = ''P1'',
      tf_risk = ''LOW'', tf_dependency_ids = deps, tf_blocker_ids = [], tf_requirement_ids = [], tf_accepted = True,
      tf_policy_eligible = True, tf_approval_required = False, tf_approval_satisfied = True,
      tf_context_required = False, tf_context_satisfied = True, tf_resources_available = True,
      tf_environment_available = True, tf_external_blocked = False, tf_reconciliation_required = False,
      tf_remote_readback_required = False, tf_product_scope_allowed = True,
      tf_expected_duration_minutes = minutes, tf_deadline_utc = None\<rparr>"

definition example_facts :: "TaskControlFact list" where
  "example_facts =
     [example_fact ''PP-TASK-000003'' T_BACKLOG [''PP-TASK-000001'', ''PP-TASK-000002''] None,
      example_fact ''PP-TASK-000001'' T_BACKLOG [] (Some 90),
      example_fact ''PP-TASK-000002'' T_BACKLOG [] (Some 30)]"

lemma example_facts_valid: "\<forall>f \<in> set example_facts. valid_TaskControlFact f" by code_simp

lemma example_init: "\<exists>sq. init_BuildSequencer list_digraph example_facts = Inr sq"
proof -
  have "\<not> isl (init_BuildSequencer list_digraph example_facts)" by code_simp
  then show ?thesis by (cases "init_BuildSequencer list_digraph example_facts") auto
qed

text \<open>
  C9. The critical path is a longest path: for any accepted set of tasks the analysis
  returns; its path follows dependencies and takes exactly the reported total; no chain of
  dependent tasks takes longer; and the earliest finish of each task is the length of the longest
  chain that ends in it.
\<close>
theorem critical_path_longest:
  assumes "nx_digraph dg" "init_BuildSequencer dg fs = Inr sq" "fs \<noteq> []" "\<forall>f \<in> set fs. valid_TaskControlFact f"
  shows "\<exists>a. critical_path dg sq = Inr a
     \<and> longest_path_facts (dep_edges fs) (task_duration sq) (tf_task_id ` set fs) a
     \<and> earliest_facts (dep_edges fs) (task_duration sq) (tf_task_id ` set fs) a"
proof -
  note ok = nx_digraph.init_ok [OF assms(1,2)]
  have "dep_edges (sq_facts sq) = dep_edges fs" "set (sq_facts sq) = set fs" "sq_facts sq \<noteq> []"
    using assms(3) by (simp_all add: ok(2) dep_edges_def flip: set_empty)
  then show ?thesis using nx_digraph.critical_path_ok [OF assms(1) ok(1)] assms(4) by metis
qed

theorem critical_path_longest_witness:
  "\<exists>sq a. init_BuildSequencer list_digraph example_facts = Inr sq \<and> critical_path list_digraph sq = Inr a
     \<and> dep_path (dep_edges example_facts) (ca_path a)
     \<and> weight (task_duration sq) (ca_path a) = ca_total_duration_minutes a"
proof -
  obtain sq where sq: "init_BuildSequencer list_digraph example_facts = Inr sq" using example_init by blast
  have "example_facts \<noteq> []" by (simp add: example_facts_def)
  from critical_path_longest [OF lists.nx_digraph_axioms sq this example_facts_valid] sq show ?thesis
    unfolding longest_path_facts_def by blast
qed

text \<open>
  C22. Slack is exact: the slack of a task is the time by which the longest chain through it
  falls short of the total duration.  It is never negative, and it is zero exactly for the tasks
  on some longest chain.
\<close>
theorem critical_path_slack:
  assumes "nx_digraph dg" "init_BuildSequencer dg fs = Inr sq" "fs \<noteq> []" "\<forall>f \<in> set fs. valid_TaskControlFact f"
    and "critical_path dg sq = Inr a"
  shows "slack_facts (dep_edges fs) (task_duration sq) (tf_task_id ` set fs) a
     \<and> (\<forall>n \<in> tf_task_id ` set fs. map_of (ca_slack_minutes a) n = Some 0 \<longleftrightarrow>
          (\<exists>xs. dep_path (dep_edges fs) xs \<and> set xs \<subseteq> tf_task_id ` set fs \<and> n \<in> set xs
             \<and> weight (task_duration sq) xs = ca_total_duration_minutes a))"
proof -
  note ok = nx_digraph.init_ok [OF assms(1,2)]
  have eq: "dep_edges (sq_facts sq) = dep_edges fs" "set (sq_facts sq) = set fs" "sq_facts sq \<noteq> []"
    using assms(3) by (simp_all add: ok(2) dep_edges_def flip: set_empty)
  have sl: "slack_facts (dep_edges fs) (task_duration sq) (tf_task_id ` set fs) a"
    using nx_digraph.critical_path_ok [OF assms(1) ok(1) eq(3)] assms(4,5) unfolding eq(1,2) by auto
  moreover have "map_of (ca_slack_minutes a) n = Some 0 \<longleftrightarrow>
      (\<exists>xs. dep_path (dep_edges fs) xs \<and> set xs \<subseteq> tf_task_id ` set fs \<and> n \<in> set xs
             \<and> weight (task_duration sq) xs = ca_total_duration_minutes a)" if n: "n \<in> tf_task_id ` set fs" for n
  proof -
    from sl n obtain s where s: "map_of (ca_slack_minutes a) n = Some s" "0 \<le> s"
      and att: "\<exists>xs. dep_path (dep_edges fs) xs \<and> set xs \<subseteq> tf_task_id ` set fs \<and> n \<in> set xs
          \<and> weight (task_duration sq) xs = ca_total_duration_minutes a - s"
      and up: "\<forall>xs. dep_path (dep_edges fs) xs \<and> set xs \<subseteq> tf_task_id ` set fs \<and> n \<in> set xs
          \<longrightarrow> weight (task_duration sq) xs \<le> ca_total_duration_minutes a - s"
      unfolding slack_facts_def by meson
    show ?thesis
    proof
      assume "map_of (ca_slack_minutes a) n = Some 0"
      then have "s = 0" using s(1) by simp
      with att show "\<exists>xs. dep_path (dep_edges fs) xs \<and> set xs \<subseteq> tf_task_id ` set fs \<and> n \<in> set xs
             \<and> weight (task_duration sq) xs = ca_total_duration_minutes a" by simp
    next
      assume "\<exists>xs. dep_path (dep_edges fs) xs \<and> set xs \<subseteq> tf_task_id ` set fs \<and> n \<in> set xs
             \<and> weight (task_duration sq) xs = ca_total_duration_minutes a"
      then have "ca_total_duration_minutes a \<le> ca_total_duration_minutes a - s" using up by metis
      then show "map_of (ca_slack_minutes a) n = Some 0" using s by simp
    qed
  qed
  ultimately show ?thesis by blast
qed

theorem critical_path_slack_witness:
  "\<exists>sq a. init_BuildSequencer list_digraph example_facts = Inr sq \<and> critical_path list_digraph sq = Inr a
     \<and> slack_facts (dep_edges example_facts) (task_duration sq) (tf_task_id ` set example_facts) a"
proof -
  obtain sq where sq: "init_BuildSequencer list_digraph example_facts = Inr sq" using example_init by blast
  have ne: "example_facts \<noteq> []" by (simp add: example_facts_def)
  note ok = lists.init_ok [OF sq]
  have "sq_facts sq \<noteq> []" "set (sq_facts sq) = set example_facts" using ne by (simp_all add: ok(2) flip: set_empty)
  then obtain a where a: "critical_path list_digraph sq = Inr a"
    using lists.critical_path_ok [OF ok(1)] example_facts_valid by auto
  from sq a critical_path_slack [OF lists.nx_digraph_axioms sq ne example_facts_valid a] show ?thesis by blast
qed

end
