(* ===== verification/SequenceOrder.thy ===== *)
theory SequenceOrder
  imports CriticalPath
begin

text \<open>
  What \<open>BuildSequencer.readiness\<close> and \<open>BuildSequencer.build_sequence\<close> of
  \<open>src/project_pipeline/control/graph.py\<close> compute: when a task is ready, that some task is ready
  while admissible work is left, what the scores are, and that the sequence lists exactly the
  ready tasks in the order of their scores.
\<close>

section \<open>Ready tasks\<close>

text \<open>The conditions of \<open>eligibility\<close> and \<open>readiness\<close>, on the facts alone.\<close>

definition admissible :: "TaskControlFact \<Rightarrow> bool" where
  "admissible f \<longleftrightarrow>
     tf_issue_type f \<noteq> ''EPIC'' \<and> tf_state f \<in> {T_BACKLOG, T_READY} \<and> \<not> tf_remote_readback_required f
     \<and> \<not> tf_reconciliation_required f \<and> \<not> tf_external_blocked f \<and> tf_product_scope_allowed f
     \<and> tf_accepted f \<and> tf_policy_eligible f"

definition provisioned :: "TaskControlFact \<Rightarrow> bool" where
  "provisioned f \<longleftrightarrow>
     (tf_approval_required f \<longrightarrow> tf_approval_satisfied f) \<and> (tf_context_required f \<longrightarrow> tf_context_satisfied f)
     \<and> tf_resources_available f \<and> tf_environment_available f"

definition waits_for :: "TaskControlFact \<Rightarrow> TaskControlFact \<Rightarrow> bool" where
  "waits_for f g \<longleftrightarrow>
     tf_task_id g \<in> set (tf_dependency_ids f) \<union> set (tf_blocker_ids f) \<and> tf_state g \<noteq> T_DONE"

definition task_ready :: "TaskControlFact list \<Rightarrow> TaskControlFact \<Rightarrow> bool" where
  "task_ready facts f \<longleftrightarrow> admissible f \<and> provisioned f \<and> (\<forall>g \<in> set facts. \<not> waits_for f g)"

lemma eligibility_total:
  assumes "is_issue_id (tf_task_id f)"
  shows "\<exists>e. eligibility f = Inr e \<and> te_task_id e = tf_task_id f \<and> (te_eligible e \<longleftrightarrow> admissible f)
     \<and> (te_state e = E_ELIGIBLE \<longleftrightarrow> admissible f) \<and> (te_reasons e = [] \<longleftrightarrow> admissible f)"
  using assms
  by (cases "tf_state f")
     (simp_all add: eligibility_def not_eligible_def make_TaskEligibility_def valid_TaskEligibility_def
       admissible_def TERMINAL_STATES_def ACTIVE_STATES_def)

lemma unresolved_dependencies_total:
  assumes "sequencer_ok dg sq" "f \<in> set (sq_facts sq)"
  shows "\<exists>ds. unresolved_dependencies (sq_by_id sq) f = Inr ds
     \<and> set ds = {tf_task_id g | g. g \<in> set (sq_facts sq) \<and> tf_task_id g \<in> set (tf_dependency_ids f) \<and> tf_state g \<noteq> T_DONE}"
proof -
  let ?state = "\<lambda>d. tf_state (the (map_of (sq_by_id sq) d))"
  have known: "\<exists>g \<in> set (sq_facts sq). d = tf_task_id g" if "d \<in> set (tf_dependency_ids f)" for d
  proof -
    have "(d, tf_task_id f) \<in> dep_edges (sq_facts sq)" using that assms(2) by (auto simp: dep_edges_def)
    then show ?thesis using assms(1) by (auto simp: sequencer_ok_def)
  qed
  have get: "map_of (sq_by_id sq) d = Some (the (map_of (sq_by_id sq) d))" if "d \<in> set (tf_dependency_ids f)" for d
    using known [OF that] by_id_get [OF assms(1)] by force
  have "map_res (\<lambda>d. res_bind (dict_get id (sq_by_id sq) d) (\<lambda>f. Inr (d, tf_state f))) (tf_dependency_ids f)
      = Inr (map (\<lambda>d. (d, ?state d)) (tf_dependency_ids f))"
    by (intro map_res_total, subst dict_get_def, subst get) simp_all
  then have "unresolved_dependencies (sq_by_id sq) f = Inr (filter (\<lambda>d. ?state d \<noteq> T_DONE) (tf_dependency_ids f))"
    by (simp add: unresolved_dependencies_def filter_map comp_def)
  moreover have "set (filter (\<lambda>d. ?state d \<noteq> T_DONE) (tf_dependency_ids f)) =
      {tf_task_id g | g. g \<in> set (sq_facts sq) \<and> tf_task_id g \<in> set (tf_dependency_ids f) \<and> tf_state g \<noteq> T_DONE}"
    (is "?L = ?R")
  proof
    show "?L \<subseteq> ?R"
    proof
      fix d assume "d \<in> ?L"
      moreover from this obtain g where "g \<in> set (sq_facts sq)" "d = tf_task_id g" using known by auto
      ultimately show "d \<in> ?R" using by_id_get [OF assms(1)] by auto
    qed
    show "?R \<subseteq> ?L" using by_id_get [OF assms(1)] by auto
  qed
  ultimately show ?thesis by blast
qed

lemma unresolved_blockers_empty:
  assumes "sequencer_ok dg sq"
  shows "unresolved_blockers (sq_by_id sq) f = [] \<longleftrightarrow>
     (\<forall>g \<in> set (sq_facts sq). tf_task_id g \<in> set (tf_blocker_ids f) \<longrightarrow> tf_state g = T_DONE)"
proof -
  have "map_of (sq_by_id sq) b = Some g \<longleftrightarrow> g \<in> set (sq_facts sq) \<and> tf_task_id g = b" for b g
    using by_id_get [OF assms] assms by (auto simp: sequencer_ok_def dest: map_of_SomeD)
  then show ?thesis
    by (auto simp: unresolved_blockers_def filter_empty_conv split: option.splits)
qed

lemma readiness_total:
  assumes ok: "sequencer_ok dg sq" and f: "f \<in> set (sq_facts sq)" and id: "is_issue_id (tf_task_id f)"
  shows "\<exists>r. readiness sq f = Inr r \<and> td_task_id r = tf_task_id f \<and> (td_ready r \<longleftrightarrow> task_ready (sq_facts sq) f)
     \<and> (td_state r = R_READY \<longleftrightarrow> task_ready (sq_facts sq) f)"
proof -
  obtain e where e: "eligibility f = Inr e" "te_eligible e \<longleftrightarrow> admissible f"
      "te_state e = E_ELIGIBLE \<longleftrightarrow> admissible f" "te_reasons e = [] \<longleftrightarrow> admissible f"
    using eligibility_total [OF id] by blast
  obtain ds where ds: "unresolved_dependencies (sq_by_id sq) f = Inr ds"
      "set ds = {tf_task_id g | g. g \<in> set (sq_facts sq) \<and> tf_task_id g \<in> set (tf_dependency_ids f) \<and> tf_state g \<noteq> T_DONE}"
    using unresolved_dependencies_total [OF ok f] by blast
  have free: "(\<forall>g \<in> set (sq_facts sq). \<not> waits_for f g) \<longleftrightarrow> ds = [] \<and> unresolved_blockers (sq_by_id sq) f = []"
    using ds(2) unfolding unresolved_blockers_empty [OF ok] by (auto simp: waits_for_def simp flip: set_empty)
  note mk = readiness_def not_ready_def make_TaskReadiness_def valid_TaskReadiness_def
  show ?thesis
  proof (cases "admissible f")
    case False
    then show ?thesis using e id by (simp add: mk task_ready_def)
  next
    case True
    then have "te_state e = E_ELIGIBLE" "te_eligible e" using e by simp_all
    then show ?thesis using e(1) ds(1) id True by (simp add: mk task_ready_def free provisioned_def Let_def)
  qed
qed

section \<open>Progress\<close>



section \<open>Depths\<close>

definition depth_inv :: "(string \<times> string) set \<Rightarrow> string list \<Rightarrow> (string, int) dict \<Rightarrow> bool" where
  "depth_inv E xs depth \<longleftrightarrow>
     map fst depth = xs
     \<and> (\<forall>n \<in> set xs. {m. (m, n) \<in> E} \<subseteq> set xs
          \<and> map_of depth n = Some (if {m. (m, n) \<in> E} = {} then 0
               else 1 + Max ((\<lambda>m. the (map_of depth m)) ` {m. (m, n) \<in> E})))"

lemma depth_inv_get: "depth_inv E xs depth \<Longrightarrow> m \<in> set xs \<Longrightarrow> m \<in> dom (map_of depth)"
  unfolding depth_inv_def dom_map_of_conv_image_fst by (metis list.set_map)

lemma depth_inv_eq:
  "depth_inv E xs depth \<Longrightarrow> n \<in> set xs \<Longrightarrow>
     map_of depth n = Some (if {m. (m, n) \<in> E} = {} then 0 else 1 + Max ((\<lambda>m. the (map_of depth m)) ` {m. (m, n) \<in> E}))"
  unfolding depth_inv_def by (elim conjE, drule (1) bspec, elim conjE)

lemma depth_get: "m \<in> dom (map_of d) \<Longrightarrow> get_int d m = Inr (the (map_of d m))"
  by (auto simp: get_int_def dict_get_def)

lemma depth_inv_extend:
  assumes inv: "depth_inv E xs depth" and x: "x \<notin> set xs" and p: "{m. (m, x) \<in> E} \<subseteq> set xs"
    and v: "v = (if {m. (m, x) \<in> E} = {} then 0 else 1 + Max ((\<lambda>m. the (map_of depth m)) ` {m. (m, x) \<in> E}))"
  shows "depth_inv E (xs @ [x]) (AList.update x v depth)"
proof -
  let ?d = "AList.update x v depth"
  have keys: "map fst depth = xs" using inv by (simp add: depth_inv_def)
  have up: "?d = depth @ [(x, v)]" using x by (intro update_append_new) (simp flip: keys)
  have old: "map_of ?d m = map_of depth m" if "m \<in> set xs" for m
    using that x by (auto simp: update_conv')
  have img: "(\<lambda>m. the (map_of ?d m)) ` {m. (m, n) \<in> E} = (\<lambda>m. the (map_of depth m)) ` {m. (m, n) \<in> E}"
    if "{m. (m, n) \<in> E} \<subseteq> set xs" for n
    using that old by (intro image_cong) auto
  have new: "map_of ?d x = Some v" by (simp add: update_conv')
  show ?thesis unfolding depth_inv_def
  proof (intro conjI ballI)
    show "map fst ?d = xs @ [x]" using keys by (simp add: up)
    fix n assume n: "n \<in> set (xs @ [x])"
    show "{m. (m, n) \<in> E} \<subseteq> set (xs @ [x])" using n inv p by (auto simp: depth_inv_def)
    show "map_of ?d n = Some (if {m. (m, n) \<in> E} = {} then 0
        else 1 + Max ((\<lambda>m. the (map_of ?d m)) ` {m. (m, n) \<in> E}))"
    proof (cases "n = x")
      case True
      then show ?thesis using new v img [OF p] by simp
    next
      case False
      then have m: "n \<in> set xs" using n by simp
      then have "{m. (m, n) \<in> E} \<subseteq> set xs" using inv by (simp add: depth_inv_def)
      then show ?thesis using inv m img old by (simp add: depth_inv_def)
    qed
  qed
qed

context nx_digraph
begin

lemma depth_loop:
  assumes "depth_inv (set (dg_edges dg g)) xs depth"
    and "distinct (xs @ ys)" "topological (set (dg_edges dg g)) (xs @ ys)" "irrefl (set (dg_edges dg g))"
    and "set (dg_edges dg g) \<subseteq> set (xs @ ys) \<times> set (xs @ ys)"
  shows "\<exists>depth'. fold_res (depth_step dg g) depth ys = Inr depth' \<and> depth_inv (set (dg_edges dg g)) (xs @ ys) depth'"
  using assms
proof (induction ys arbitrary: xs depth)
  case (Cons y ys)
  let ?E = "set (dg_edges dg g)" and ?d = "\<lambda>m. the (map_of depth m)"
  have p: "{m. (m, y) \<in> ?E} \<subseteq> set xs"
    using Cons.prems(3,4,5) by (auto simp: sorted_wrt_append irrefl_def)
  let ?v = "if {m. (m, y) \<in> ?E} = {} then 0 else 1 + Max (?d ` {m. (m, y) \<in> ?E})"
  have get: "get_int depth m = Inr (?d m)" if "m \<in> set xs" for m
    using depth_inv_get [OF Cons.prems(1) that] by (rule depth_get)
  have step: "depth_step dg g depth y = Inr (AList.update y ?v depth)"
  proof (cases "dg_predecessors dg g y")
    case Nil
    then have "{m. (m, y) \<in> ?E} = {}" using predecessors [of g y] by simp
    then show ?thesis using Nil by (simp add: depth_step_def)
  next
    case (Cons q qs)
    then have ps: "{m. (m, y) \<in> ?E} = set (q # qs)" using predecessors [of g y] by simp
    have "map_res (get_int depth) (q # qs) = Inr (map ?d (q # qs))"
      using p get unfolding ps by (intro map_res_total) blast
    then show ?thesis using Cons by (simp add: depth_step_def ps)
  qed
  have inv: "depth_inv ?E (xs @ [y]) (AList.update y ?v depth)"
    using Cons.prems(1,2) p by (intro depth_inv_extend) auto
  from Cons.IH [OF inv] Cons.prems(2-5) step show ?case by simp
qed simp

lemma depths_total:
  assumes "sequencer_ok dg sq"
  shows "\<exists>depth. depths dg sq = Inr depth \<and> depth_inv (dep_edges (sq_facts sq)) (dg_topological_sort dg (sq_graph sq)) depth"
proof -
  note t = topo_facts [OF assms]
  have e: "set (dg_edges dg (sq_graph sq)) = dep_edges (sq_facts sq)"
    "dep_edges (sq_facts sq) \<subseteq> task_ids sq \<times> task_ids sq" using assms by (auto simp: sequencer_ok_def)
  have "depth_inv (dep_edges (sq_facts sq)) [] []" by (simp add: depth_inv_def)
  from depth_loop [of "sq_graph sq" "[]", unfolded e(1), OF this] t e(2) show ?thesis
    by (simp add: depths_def)
qed

end

text \<open>The depth of a task is one less than the length of the longest chain that ends in it.\<close>

lemma depth_inv_longest:
  assumes inv: "depth_inv E us depth" and E: "E \<subseteq> set us \<times> set us" "acyclic E" and n: "n \<in> set us"
  shows "\<exists>d. map_of depth n = Some d \<and> 0 \<le> d
     \<and> (\<exists>xs. dep_path E xs \<and> set xs \<subseteq> set us \<and> last xs = n \<and> int (length xs) = d + 1)
     \<and> (\<forall>xs. dep_path E xs \<and> set xs \<subseteq> set us \<and> last xs = n \<longrightarrow> int (length xs) \<le> d + 1)"
proof -
  let ?f = "\<lambda>n. the (map_of depth n) + 1"
  have eqs: "earliest_eqs E (\<lambda>_. 1) (set us) ?f"
    unfolding earliest_eqs_def
  proof
    fix n assume "n \<in> set us"
    then have "the (map_of depth n) = (if {m. (m, n) \<in> E} = {} then 0
               else 1 + Max ((\<lambda>m. the (map_of depth m)) ` {m. (m, n) \<in> E}))"
      by (subst depth_inv_eq [OF inv]) simp_all
    moreover have "finite {m. (m, n) \<in> E}" using E(1) by (rule finite_rel_images(1) [OF List.finite_set])
    moreover have "Max (?f ` {m. (m, n) \<in> E}) = Max ((\<lambda>m. the (map_of depth m)) ` {m. (m, n) \<in> E}) + 1"
      if "{m. (m, n) \<in> E} \<noteq> {}"
      using \<open>finite {m. (m, n) \<in> E}\<close> that by (rule Max_add_commute)
    ultimately show "?f n = (if {m. (m, n) \<in> E} = {} then 0 else Max (?f ` {m. (m, n) \<in> E})) + 1" by auto
  qed
  have pos: "\<forall>n \<in> set us. 0 \<le> ?f n - 1" by (rule earliest_nonneg [OF _ E eqs]) simp_all
  have w: "weight (\<lambda>_. 1) xs = int (length xs)" for xs :: "string list" by (simp add: sum_list_triv)
  have d: "map_of depth n = Some (the (map_of depth n))"  using depth_inv_get [OF inv n] by auto
  have "0 \<le> the (map_of depth n)" using pos n by auto
  moreover have "\<exists>xs. dep_path E xs \<and> set xs \<subseteq> set us \<and> last xs = n \<and> int (length xs) = the (map_of depth n) + 1"
    using earliest_attained [OF _ E eqs n] by (simp add: w)
  moreover have "\<forall>xs. dep_path E xs \<and> set xs \<subseteq> set us \<and> last xs = n \<longrightarrow> int (length xs) \<le> the (map_of depth n) + 1"
    using earliest_upper [OF _ E(1) eqs] pos by (metis List.finite_set w)
  ultimately show ?thesis using d by blast
qed

section \<open>Scores\<close>

text \<open>The score of a task in exact arithmetic, from microseconds and minutes.\<close>

definition exact_deadline_score :: "py_datetime option \<Rightarrow> int \<Rightarrow> int" where
  "exact_deadline_score deadline now =
     (case deadline of
        None \<Rightarrow> 0
      | Some t \<Rightarrow>
          let us = instant t - now; hour = 3600000000
          in if us \<le> 0 then 200 else if us \<le> 24 * hour then 150
             else if us \<le> 72 * hour then 100 else if us \<le> 168 * hour then 50 else 0)"

definition exact_total :: "TaskControlFact \<Rightarrow> bool \<Rightarrow> int \<Rightarrow> int \<Rightarrow> int" where
  "exact_total f critical downstream now =
     the (map_of priority_scores (tf_priority f)) + (if critical then 200 else 0)
     + exact_deadline_score (tf_deadline_utc f) now + the (map_of risk_scores (tf_risk f))
     + min 150 (10 * downstream)
     - (case tf_expected_duration_minutes f of None \<Rightarrow> 0 | Some m \<Rightarrow> min 80 (2 * (m div 60)))"

lemma deadline_score_exact: "deadline_score d now = exact_deadline_score d now"
proof (cases d)
  case (Some t)
  then show ?thesis
    using hours_between_le [of 0 "instant t" now] hours_between_le [of 24 "instant t" now]
      hours_between_le [of 72 "instant t" now] hours_between_le [of 168 "instant t" now]
    by (simp add: deadline_score_def exact_deadline_score_def Let_def)
qed (simp add: deadline_score_def exact_deadline_score_def)

lemma duration_score_exact:
  assumes "case d of None \<Rightarrow> True | Some m \<Rightarrow> 1 \<le> m \<and> m \<le> 525600"
  shows "duration_score d = - (case d of None \<Rightarrow> 0 | Some m \<Rightarrow> min 80 (2 * (m div 60)))"
proof (cases d)
  case (Some m)
  then have "trunc_int (fl (of_int m / of_int 60)) = m div 60" using assms by (intro trunc_div_exact) auto
  then show ?thesis using Some by (simp add: duration_score_def)
qed (simp add: duration_score_def)

lemma score_exact:
  assumes "valid_TaskControlFact f"
  shows "\<exists>s. score f cn d now = Inr s \<and> sc_task_id s = tf_task_id f
     \<and> sc_total_score s = exact_total f (tf_task_id f \<in> set cn) d now"
proof -
  have v: "is_issue_id (tf_task_id f)" "is_priority (tf_priority f)" "tf_risk f \<in> set RISKS"
    and m: "case tf_expected_duration_minutes f of None \<Rightarrow> True | Some m \<Rightarrow> 1 \<le> m \<and> m \<le> 525600"
    using assms by (simp_all add: valid_TaskControlFact_def)
  have "\<exists>p. map_of priority_scores (tf_priority f) = Some p"
    using v(2) by (auto simp: is_priority_def priority_scores_def)
  moreover have "\<exists>r. map_of risk_scores (tf_risk f) = Some r"
    using v(3) by (auto simp: RISKS_def risk_scores_def)
  ultimately show ?thesis
    using v(1) duration_score_exact [OF m]
    by (auto simp: score_def get_int_def dict_get_def make_SequenceScore_def Let_def exact_total_def deadline_score_exact mult.commute)
qed

lemma exact_deadline_score_bounds: "0 \<le> exact_deadline_score d now" "exact_deadline_score d now \<le> 200"
  by (simp_all add: exact_deadline_score_def Let_def split: option.split)

lemma exact_total_bounds:
  assumes "valid_TaskControlFact f" "0 \<le> d"
  shows "20 \<le> exact_total f critical d now" "exact_total f critical d now \<le> 1590"
proof -
  have "tf_priority f \<in> {''P0'', ''P1'', ''P2'', ''P3''}" "tf_risk f \<in> {''LOW'', ''MEDIUM'', ''HIGH'', ''CRITICAL''}"
    and m: "case tf_expected_duration_minutes f of None \<Rightarrow> True | Some m \<Rightarrow> 1 \<le> m \<and> m \<le> 525600"
    using assms by (simp_all add: valid_TaskControlFact_def is_priority_def RISKS_def)
  then obtain p r where p: "map_of priority_scores (tf_priority f) = Some p" "100 \<le> p" "p \<le> 1000"
    and r: "map_of risk_scores (tf_risk f) = Some r" "0 \<le> r" "r \<le> 40"
    by (auto simp: priority_scores_def risk_scores_def)
  obtain u where u: "(case tf_expected_duration_minutes f of None \<Rightarrow> 0 | Some m \<Rightarrow> min 80 (2 * (m div 60))) = u"
    "0 \<le> u" "u \<le> 80"
    using m by (cases "tf_expected_duration_minutes f") auto
  note b = exact_deadline_score_bounds [of "tf_deadline_utc f" now]
  note defs = exact_total_def p(1) r(1) u(1) option.sel
  have m: "0 \<le> min 150 (10 * d)" "min 150 (10 * d) \<le> 150" using assms(2) by simp_all
  show "20 \<le> exact_total f critical d now" "exact_total f critical d now \<le> 1590"
    unfolding defs using p(2,3) r(2,3) u(2,3) b m by (cases critical; simp)+
qed

section \<open>The build sequence\<close>

lemma graph_fingerprint_format: "is_sha256_hex (graph_fingerprint isoformat dg sq)"
  using sha256_hex_lower by (auto simp: is_sha256_hex_def graph_fingerprint_def list_all_iff)

lemma graph_fingerprint_not_blank: "py_strip (graph_fingerprint isoformat dg sq) \<noteq> []"
  by (simp add: graph_fingerprint_def)

definition on_critical_path :: "'g BuildSequencer \<Rightarrow> CriticalPathAnalysis \<Rightarrow> TaskControlFact \<Rightarrow> bool" where
  "on_critical_path sq a f \<longleftrightarrow>
     map_of (ca_slack_minutes a) (tf_task_id f) = Some 0 \<and> tf_state f \<notin> set TERMINAL_STATES"

definition downstream_count :: "TaskControlFact list \<Rightarrow> TaskControlFact \<Rightarrow> int" where
  "downstream_count facts f = int (card {m. (tf_task_id f, m) \<in> (dep_edges facts)\<^sup>+})"

definition sequence_key ::
  "'g BuildSequencer \<Rightarrow> CriticalPathAnalysis \<Rightarrow> int \<Rightarrow> TaskControlFact \<Rightarrow> int \<times> string" where
  "sequence_key sq a now f =
     (- exact_total f (on_critical_path sq a f) (downstream_count (sq_facts sq) f) now, tf_task_id f)"

lemma critical_nodes_total:
  assumes ok: "sequencer_ok dg sq" and keys: "fst ` set (ca_slack_minutes a) \<subseteq> task_ids sq"
    and dist: "distinct (map fst (ca_slack_minutes a))"
  shows "\<exists>cn. critical_nodes_of sq a = Inr cn
     \<and> (\<forall>f \<in> set (sq_facts sq). tf_task_id f \<in> set cn \<longleftrightarrow> on_critical_path sq a f)"
proof -
  let ?live = "\<lambda>n. tf_state (the (map_of (sq_by_id sq) n)) \<notin> set TERMINAL_STATES"
  let ?step = "\<lambda>(n, s). if s = 0
                  then res_bind (dict_get id (sq_by_id sq) n) (\<lambda>f. Inr (n, tf_state f \<notin> set TERMINAL_STATES))
                  else Inr (n, False)"
  have "?step p = Inr (fst p, snd p = 0 \<and> ?live (fst p))" if p: "p \<in> set (ca_slack_minutes a)" for p :: "string \<times> int"
  proof -
    have "fst p \<in> task_ids sq" using keys p by blast
    then obtain f where f: "f \<in> set (sq_facts sq)" "fst p = tf_task_id f" by blast
    have "map_of (sq_by_id sq) (fst p) = Some f" using by_id_get [OF ok f(1)] f(2) by simp
    then show ?thesis by (cases p) (simp add: dict_get_def)
  qed
  then have "critical_nodes_of sq a = Inr (map fst (filter (\<lambda>p. snd p = 0 \<and> ?live (fst p)) (ca_slack_minutes a)))"
    unfolding critical_nodes_of_def by (subst map_res_total, assumption) (simp add: filter_map comp_def)
  moreover have "tf_task_id f \<in> set (map fst (filter (\<lambda>p. snd p = 0 \<and> ?live (fst p)) (ca_slack_minutes a)))
      \<longleftrightarrow> on_critical_path sq a f" if f: "f \<in> set (sq_facts sq)" for f
    using by_id_get [OF ok f] dist by (force simp: on_critical_path_def)
  ultimately show ?thesis by blast
qed

definition ready_facts :: "'g BuildSequencer \<Rightarrow> TaskControlFact list" where
  "ready_facts sq = filter (task_ready (sq_facts sq)) (sq_facts sq)"

lemma readiness_list:
  assumes ok: "sequencer_ok dg sq" and valid: "\<forall>f \<in> set (sq_facts sq). valid_TaskControlFact f"
  obtains rd where "map_res (\<lambda>f. res_bind (readiness sq f) (\<lambda>r. Inr (f, r))) (sq_facts sq) =
      Inr (map (\<lambda>f. (f, rd f)) (sq_facts sq))"
    "map fst (filter (\<lambda>(f, r). td_ready r) (map (\<lambda>f. (f, rd f)) (sq_facts sq))) = ready_facts sq"
proof -
  define rd where "rd f = projr (readiness sq f)" for f
  have r: "readiness sq f = Inr (rd f)" "td_ready (rd f) \<longleftrightarrow> task_ready (sq_facts sq) f" if "f \<in> set (sq_facts sq)" for f
    using readiness_total [OF ok that] valid that by (auto simp: valid_TaskControlFact_def rd_def)
  have "map_res (\<lambda>f. res_bind (readiness sq f) (\<lambda>r. Inr (f, r))) (sq_facts sq) = Inr (map (\<lambda>f. (f, rd f)) (sq_facts sq))"
    using r(1) by (intro map_res_total) simp
  moreover have "map fst (filter (\<lambda>(f, r). td_ready r) (map (\<lambda>f. (f, rd f)) (sq_facts sq))) = ready_facts sq"
    using r(2) by (simp add: ready_facts_def filter_map comp_def cong: filter_cong)
  ultimately show thesis by (rule that)
qed

text \<open>The item of a ready task at a position, given the analysis, the depths and the scores.\<close>

definition sequence_entry ::
  "'g BuildSequencer \<Rightarrow> CriticalPathAnalysis \<Rightarrow> (string, int) dict \<Rightarrow> (TaskControlFact \<Rightarrow> SequenceScore)
     \<Rightarrow> nat \<times> TaskControlFact \<Rightarrow> SequenceItem" where
  "sequence_entry sq a depth sc = (\<lambda>(i, f).
     \<lparr>si_rank = int i, si_task_id = tf_task_id f, si_readiness = R_READY, si_score = sc f,
      si_dependency_depth = the (map_of depth (tf_task_id f)),
      si_downstream_count = downstream_count (sq_facts sq) f, si_on_critical_path = on_critical_path sq a f\<rparr>)"

context nx_digraph
begin

lemma critical_path_slack_keys:
  assumes ok: "sequencer_ok dg sq" and valid: "\<forall>f \<in> set (sq_facts sq). valid_TaskControlFact f"
  obtains a where "critical_path dg sq = Inr a" "fst ` set (ca_slack_minutes a) \<subseteq> task_ids sq"
    "distinct (map fst (ca_slack_minutes a))"
proof (cases "sq_facts sq = []")
  case True
  then show ?thesis using that by (simp add: critical_path_def make_CriticalPathAnalysis_def)
next
  case False
  show ?thesis
  proof (rule critical_path_run [OF ok False valid])
    fix us :: "string list" and ef lf :: "(string, int) dict" and path and tot :: int
    let ?slack = "map (\<lambda>n. (n, max 0 (the (map_of lf n) - the (map_of ef n)))) us"
    assume us: "distinct us" "set us = task_ids sq"
      and res: "critical_path dg sq = Inr \<lparr>ca_path = path, ca_total_duration_minutes = tot,
        ca_duration_source = snd (durations sq), ca_earliest_finish_minutes = sort ef, ca_slack_minutes = sort ?slack\<rparr>"
    have "distinct (map fst ?slack)" using us(1) by (simp add: comp_def)
    then have "distinct (map fst (sort ?slack))" by (simp only: distinct_map_sort_key)
    then show thesis using that [OF res] us(2) by (simp add: image_image)
  qed
qed

lemma downstream_eq:
  assumes "sequencer_ok dg sq"
  shows "int (length (dg_descendants dg (sq_graph sq) (tf_task_id f))) = downstream_count (sq_facts sq) f"
proof -
  have d: "dg_is_dag dg (sq_graph sq)" "set (dg_edges dg (sq_graph sq)) = dep_edges (sq_facts sq)"
    using assms by (simp_all add: sequencer_ok_def)
  from descendants [OF d(1)] show ?thesis by (simp add: downstream_count_def d(2) distinct_card [symmetric])
qed

lemma sequence_candidates_total:
  assumes ok: "sequencer_ok dg sq" and valid: "\<forall>f \<in> set (sq_facts sq). valid_TaskControlFact f"
    and cn: "\<forall>f \<in> set (sq_facts sq). tf_task_id f \<in> set cn \<longleftrightarrow> on_critical_path sq a f"
    and fs: "set fs \<subseteq> set (sq_facts sq)"
  obtains sc where
    "map_res (sequence_candidate dg sq cn now) fs = Inr (map (\<lambda>f. (f, sc f, downstream_count (sq_facts sq) f)) fs)"
    "\<forall>f \<in> set fs. sc_total_score (sc f) =
       exact_total f (on_critical_path sq a f) (downstream_count (sq_facts sq) f) now"
proof -
  let ?down = "downstream_count (sq_facts sq)"
  define sc where "sc f = projr (score f cn (?down f) now)" for f
  have s: "score f cn (?down f) now = Inr (sc f)"
    "sc_total_score (sc f) = exact_total f (on_critical_path sq a f) (?down f) now" if "f \<in> set fs" for f
  proof -
    have "f \<in> set (sq_facts sq)" using that fs by blast
    then show "score f cn (?down f) now = Inr (sc f)"
      "sc_total_score (sc f) = exact_total f (on_critical_path sq a f) (?down f) now"
      using score_exact [of f cn "?down f" now] valid cn by (auto simp: sc_def)
  qed
  have "map_res (sequence_candidate dg sq cn now) fs = Inr (map (\<lambda>f. (f, sc f, ?down f)) fs)"
    using s(1) by (intro map_res_total) (simp add: sequence_candidate_def downstream_eq [OF ok])
  then show thesis using that s(2) by blast
qed

lemma sequence_items_total:
  assumes ok: "sequencer_ok dg sq" and valid: "\<forall>f \<in> set (sq_facts sq). valid_TaskControlFact f"
    and cn: "\<forall>f \<in> set (sq_facts sq). tf_task_id f \<in> set cn \<longleftrightarrow> on_critical_path sq a f"
    and depth: "depth_inv (dep_edges (sq_facts sq)) (dg_topological_sort dg (sq_graph sq)) depth"
    and fs: "set fs \<subseteq> set (sq_facts sq)"
  shows "map_res (sequence_item depth cn) (enumerate 1 (map (\<lambda>f. (f, sc f, downstream_count (sq_facts sq) f)) fs)) =
     Inr (map (sequence_entry sq a depth sc) (enumerate 1 fs))"
proof -
  let ?us = "dg_topological_sort dg (sq_graph sq)"
  have graph: "dep_edges (sq_facts sq) \<subseteq> set ?us \<times> set ?us" "acyclic (dep_edges (sq_facts sq))"
    unfolding topo_facts(2) [OF ok] using ok by (simp_all add: sequencer_ok_def)
  have "sequence_item depth cn (i, f, sc f, downstream_count (sq_facts sq) f) = Inr (sequence_entry sq a depth sc (i, f))"
    if "1 \<le> i" and f: "f \<in> set (sq_facts sq)" for i f
  proof -
    have "tf_task_id f \<in> set ?us" using topo_facts(2) [OF ok] f by simp
    from depth_inv_longest [OF depth graph this] obtain d where "map_of depth (tf_task_id f) = Some d" "0 \<le> d"
      by blast
    then show ?thesis using that valid cn
      by (simp add: sequence_item_def sequence_entry_def get_int_def dict_get_def make_SequenceItem_def
          valid_TaskControlFact_def downstream_count_def)
  qed
  then show ?thesis
    using fs by (subst enumerate_map, subst map_res_map) (rule map_res_total, auto dest!: enumerateD)
qed

text \<open>
  The run of \<open>build_sequence\<close>: nothing fails, and the listed items are those of the ready tasks,
  sorted by falling score and then by identifier, numbered from 1.
\<close>

lemma build_sequence_run:
  assumes ok: "sequencer_ok dg sq" and valid: "\<forall>f \<in> set (sq_facts sq). valid_TaskControlFact f"
    and proj: "is_project_id (sq_project_id sq)"
  obtains a depth sc b where "critical_path dg sq = Inr a"
    "depth_inv (dep_edges (sq_facts sq)) (dg_topological_sort dg (sq_graph sq)) depth"
    "\<forall>f \<in> set (ready_facts sq). sc_total_score (sc f) =
       exact_total f (on_critical_path sq a f) (downstream_count (sq_facts sq) f) now"
    "build_sequence isoformat dg sq now = Inr b" "bq_critical_path b = a"
    "bq_ordered_ready_work b =
       map (sequence_entry sq a depth sc) (enumerate 1 (sort_key (sequence_key sq a now) (ready_facts sq)))"
    "bq_ready_count b = int (length (ready_facts sq))"
proof -
  obtain a where a: "critical_path dg sq = Inr a" "fst ` set (ca_slack_minutes a) \<subseteq> task_ids sq"
    "distinct (map fst (ca_slack_minutes a))" using critical_path_slack_keys [OF ok valid] .
  obtain cn where cn: "critical_nodes_of sq a = Inr cn"
    "\<forall>f \<in> set (sq_facts sq). tf_task_id f \<in> set cn \<longleftrightarrow> on_critical_path sq a f"
    using critical_nodes_total [OF ok a(2,3)] by blast
  obtain depth where depth: "depths dg sq = Inr depth"
    "depth_inv (dep_edges (sq_facts sq)) (dg_topological_sort dg (sq_graph sq)) depth" using depths_total [OF ok] by blast
  obtain rd where ready: "map_res (\<lambda>f. res_bind (readiness sq f) (\<lambda>r. Inr (f, r))) (sq_facts sq) =
      Inr (map (\<lambda>f. (f, rd f)) (sq_facts sq))"
    and sel: "map fst (filter (\<lambda>(f, r). td_ready r) (map (\<lambda>f. (f, rd f)) (sq_facts sq))) = ready_facts sq"
    using readiness_list [OF ok valid] .
  let ?down = "downstream_count (sq_facts sq)"
  have sub: "set (ready_facts sq) \<subseteq> set (sq_facts sq)" by (auto simp: ready_facts_def)
  obtain sc where cands: "map_res (sequence_candidate dg sq cn now) (ready_facts sq) =
        Inr (map (\<lambda>f. (f, sc f, ?down f)) (ready_facts sq))"
    and sc: "\<forall>f \<in> set (ready_facts sq). sc_total_score (sc f) = exact_total f (on_critical_path sq a f) (?down f) now"
    using sequence_candidates_total [OF ok valid cn(2) sub] .
  let ?sorted = "sort_key (sequence_key sq a now) (ready_facts sq)"
  have sorted: "sort_key (\<lambda>(f, s, d). (- sc_total_score s, tf_task_id f)) (map (\<lambda>f. (f, sc f, ?down f)) (ready_facts sq)) =
      map (\<lambda>f. (f, sc f, ?down f)) ?sorted"
    using sc unfolding sort_key_map
    by (intro arg_cong [of _ _ "map _"] sort_key_cong) (simp_all add: sequence_key_def)
  have "set ?sorted \<subseteq> set (sq_facts sq)" using sub by simp
  note items = sequence_items_total [OF ok valid cn(2) depth(2) this, of sc]
  let ?items = "map (sequence_entry sq a depth sc) (enumerate 1 ?sorted)"
  let ?parts = "[sq_project_id sq, graph_fingerprint isoformat dg sq] @ map si_task_id ?items"
  have "map si_task_id ?items = map tf_task_id ?sorted"
    by (simp add: sequence_entry_def comp_def split_beta map_enumerate_snd)
  then have "list_all (\<lambda>s. py_strip s \<noteq> []) ?parts"
    using valid sub pattern_not_blank proj graph_fingerprint_not_blank [of isoformat dg sq]
    by (auto simp: list_all_iff valid_TaskControlFact_def)
  then obtain v where v: "control_identifier ''SEQ'' ?parts = Inr v" "fullmatch control_id_rx v" "startswith v ''SEQ-''"
    using control_identifier_valid [of "''SEQ''" ?parts] by auto
  have "\<exists>b. build_sequence isoformat dg sq now = Inr b \<and> bq_critical_path b = a
      \<and> bq_ordered_ready_work b = ?items \<and> bq_ready_count b = int (length (ready_facts sq))"
    unfolding build_sequence_def a(1) cn(1) depth(1) ready sel cands sorted items v(1) Let_def res_bind_simps
    using v(2,3) proj graph_fingerprint_format [of isoformat dg sq] by (simp add: make_BuildSequence_def)
  then show thesis using that [OF a(1) depth(2) sc] by blast
qed

end

section \<open>Properties\<close>

lemma default_project_id: "is_project_id ''PROJECT-PIPELINE''" by code_simp

lemma init_project_id:
  assumes "init_BuildSequencer dg fs = Inr sq" "\<forall>f \<in> set fs. valid_TaskControlFact f"
  shows "is_project_id (sq_project_id sq)"
proof -
  let ?ps = "remdups (map tf_project_id (sort_key tf_task_id fs))"
  have p: "sq_project_id sq = (case ?ps of [] \<Rightarrow> ''PROJECT-PIPELINE'' | p # _ \<Rightarrow> p)"
    using assms(1) by (auto simp: init_BuildSequencer_def Let_def split: if_splits)
  show ?thesis
  proof (cases ?ps)
    case Nil
    then show ?thesis using p default_project_id by simp
  next
    case (Cons q qs)
    then have "q \<in> set ?ps" by (metis list.set_intros(1))
    then obtain f where "f \<in> set fs" "q = tf_project_id f" by auto
    then show ?thesis using p Cons assms(2) by (simp add: valid_TaskControlFact_def)
  qed
qed

lemma task_ready_cong: "set fs = set gs \<Longrightarrow> task_ready fs = task_ready gs"
  by (auto simp: task_ready_def fun_eq_iff)

lemma dep_edges_cong: "set fs = set gs \<Longrightarrow> dep_edges fs = dep_edges gs"
  by (simp add: dep_edges_def)

lemma init_duplicate:
  assumes "\<not> distinct (map tf_task_id fs)"
  shows "init_BuildSequencer dg fs = Inl (ControlGraphError ''task control facts contain duplicate task identifiers'')"
proof -
  let ?ids = "map (\<lambda>f. (tf_task_id f, f)) (sort_key tf_task_id fs)"
  have "\<not> distinct (map tf_task_id (sort_key tf_task_id fs))" using assms by (simp only: distinct_map_sort_key not_False_eq_True)
  then have "length (dict_of ?ids) \<noteq> length (sort_key tf_task_id fs)"
    using length_dict_of [of ?ids] by (simp add: comp_def)
  then show ?thesis unfolding init_BuildSequencer_def Let_def by (simp only: if_True not_False_eq_True)
qed

lemma sequence_nonempty:
  assumes "nx_digraph dg" "init_BuildSequencer dg fs = Inr sq" "\<forall>f \<in> set fs. valid_TaskControlFact f"
    and "f \<in> set fs" "task_ready fs f"
  shows "\<exists>b. build_sequence isoformat dg sq now = Inr b \<and> bq_ordered_ready_work b \<noteq> []"
proof -
  note ok = nx_digraph.init_ok [OF assms(1,2)]
  have eq: "set (sq_facts sq) = set fs" by (simp add: ok(2))
  have valid: "\<forall>f \<in> set (sq_facts sq). valid_TaskControlFact f" using assms(3) eq by simp
  obtain a depth sc b where b: "build_sequence isoformat dg sq now = Inr b"
    and work: "bq_ordered_ready_work b =
      map (sequence_entry sq a depth sc) (enumerate 1 (sort_key (sequence_key sq a now) (ready_facts sq)))"
    by (rule nx_digraph.build_sequence_run [OF assms(1) ok(1) valid init_project_id [OF assms(2,3)]])
  have "ready_facts sq \<noteq> []"
    using assms(4,5) eq task_ready_cong [OF eq] by (auto simp: ready_facts_def filter_empty_conv)
  then have "length (bq_ordered_ready_work b) \<noteq> 0" by (simp add: work)
  then show ?thesis using b by auto
qed

lemma example_ready: "example_facts ! 1 \<in> set example_facts" "task_ready example_facts (example_facts ! 1)"
  by code_simp+

text \<open>
  C20. Readiness is exact: for every task of an accepted set the check returns, and it
  reports the task ready exactly when the task is executable work in BACKLOG or READY that no
  policy holds back, its approvals, context, resources and environment are there, and no task it
  names as dependency or blocker is short of DONE.
\<close>
theorem readiness_exact:
  assumes "nx_digraph dg" "init_BuildSequencer dg fs = Inr sq" "\<forall>f \<in> set fs. valid_TaskControlFact f" "f \<in> set fs"
  shows "\<exists>r. readiness sq f = Inr r \<and> td_task_id r = tf_task_id f \<and> (td_ready r \<longleftrightarrow> task_ready fs f)
     \<and> (td_state r = R_READY \<longleftrightarrow> task_ready fs f)"
proof -
  note ok = nx_digraph.init_ok [OF assms(1,2)]
  have "set (sq_facts sq) = set fs" by (simp add: ok(2))
  then show ?thesis
    using readiness_total [OF ok(1), of f] assms(3,4) task_ready_cong [of "sq_facts sq" fs]
    by (simp add: valid_TaskControlFact_def)
qed

theorem readiness_exact_witness:
  "\<exists>sq r. init_BuildSequencer list_digraph example_facts = Inr sq
     \<and> readiness sq (example_facts ! 1) = Inr r \<and> td_ready r"
proof -
  obtain sq where sq: "init_BuildSequencer list_digraph example_facts = Inr sq" using example_init by blast
  from readiness_exact [OF lists.nx_digraph_axioms sq example_facts_valid example_ready(1)] sq example_ready(2)
  show ?thesis by blast
qed

lemma build_sequence_ready:
  assumes "nx_digraph dg" "init_BuildSequencer dg fs = Inr sq" "\<forall>f \<in> set fs. valid_TaskControlFact f"
  shows "\<exists>b. build_sequence isoformat dg sq now = Inr b
     \<and> set (map si_task_id (bq_ordered_ready_work b)) = {tf_task_id f | f. f \<in> set fs \<and> task_ready fs f}
     \<and> distinct (map si_task_id (bq_ordered_ready_work b))
     \<and> map si_rank (bq_ordered_ready_work b) = map int [1..<Suc (length (bq_ordered_ready_work b))]
     \<and> sorted_wrt (\<lambda>i j. sc_total_score (si_score j) < sc_total_score (si_score i)
          \<or> sc_total_score (si_score i) = sc_total_score (si_score j) \<and> si_task_id i < si_task_id j)
         (bq_ordered_ready_work b)
     \<and> bq_ready_count b = int (length (bq_ordered_ready_work b))"
proof -
  note ok = nx_digraph.init_ok [OF assms(1,2)]
  have eq: "set (sq_facts sq) = set fs" by (simp add: ok(2))
  have valid: "\<forall>f \<in> set (sq_facts sq). valid_TaskControlFact f" using assms(3) eq by simp
  obtain a depth sc b where sc: "\<forall>f \<in> set (ready_facts sq). sc_total_score (sc f) =
       exact_total f (on_critical_path sq a f) (downstream_count (sq_facts sq) f) now"
    and b: "build_sequence isoformat dg sq now = Inr b" "bq_ready_count b = int (length (ready_facts sq))"
    and work: "bq_ordered_ready_work b =
      map (sequence_entry sq a depth sc) (enumerate 1 (sort_key (sequence_key sq a now) (ready_facts sq)))"
    by (rule nx_digraph.build_sequence_run [OF assms(1) ok(1) valid init_project_id [OF assms(2,3)]])
  let ?s = "sort_key (sequence_key sq a now) (ready_facts sq)"
  have ids: "map si_task_id (bq_ordered_ready_work b) = map tf_task_id ?s"
    by (simp add: work sequence_entry_def comp_def split_beta map_enumerate_snd)
  have "distinct (map tf_task_id (ready_facts sq))"
    using ok(1) by (auto simp: ready_facts_def sequencer_ok_def distinct_map intro: inj_on_subset)
  then have dist: "distinct (map tf_task_id ?s)" by (simp only: distinct_map_sort_key)
  have ranks: "map si_rank (bq_ordered_ready_work b) = map int [1..<Suc (length (bq_ordered_ready_work b))]"
    by (simp add: work sequence_entry_def comp_def split_beta map_enumerate_fst del: upt_Suc)
  let ?R = "\<lambda>f g. sc_total_score (sc g) < sc_total_score (sc f)
      \<or> sc_total_score (sc f) = sc_total_score (sc g) \<and> tf_task_id f < tf_task_id g"
  have "sorted_wrt (\<lambda>f g. sequence_key sq a now f < sequence_key sq a now g) ?s"
    using dist by (intro sort_key_strict) (auto simp: sequence_key_def distinct_map inj_on_def)
  then have "sorted_wrt ?R ?s"
    using sc by (elim sorted_wrt_mono_rel [rotated]) (auto simp: sequence_key_def)
  then have order: "sorted_wrt (\<lambda>i j. sc_total_score (si_score j) < sc_total_score (si_score i)
        \<or> sc_total_score (si_score i) = sc_total_score (si_score j) \<and> si_task_id i < si_task_id j) (bq_ordered_ready_work b)"
    using sorted_wrt_enumerate [of ?R 1 ?s] by (simp add: work sorted_wrt_map sequence_entry_def split_beta)
  have "set (map tf_task_id ?s) = {tf_task_id f | f. f \<in> set fs \<and> task_ready fs f}"
    using eq task_ready_cong [OF eq] by (auto simp: ready_facts_def)
  then show ?thesis using b ids dist ranks order by (intro exI [of _ b]) (simp add: work)
qed

text \<open>
  C8. The build sequence is exactly the ready work in order: for every accepted set of tasks
  the sequence is computed; it holds one item per ready task and no other; the items are ranked
  from 1 without gaps, by falling score and, among equal scores, by task identifier; and the ready
  count is their number.
\<close>
theorem build_sequence_exact:
  assumes "nx_digraph dg" "init_BuildSequencer dg fs = Inr sq" "\<forall>f \<in> set fs. valid_TaskControlFact f"
  shows "\<exists>b. build_sequence isoformat dg sq now = Inr b
     \<and> set (map si_task_id (bq_ordered_ready_work b)) = {tf_task_id f | f. f \<in> set fs \<and> task_ready fs f}
     \<and> distinct (map si_task_id (bq_ordered_ready_work b))
     \<and> map si_rank (bq_ordered_ready_work b) = map int [1..<Suc (length (bq_ordered_ready_work b))]
     \<and> sorted_wrt (\<lambda>i j. sc_total_score (si_score j) < sc_total_score (si_score i)
          \<or> sc_total_score (si_score i) = sc_total_score (si_score j) \<and> si_task_id i < si_task_id j)
         (bq_ordered_ready_work b)
     \<and> bq_ready_count b = int (length (bq_ordered_ready_work b))"
  by (rule build_sequence_ready [OF assms])

theorem build_sequence_exact_witness:
  "\<exists>sq b. init_BuildSequencer list_digraph example_facts = Inr sq
     \<and> build_sequence str_int list_digraph sq 0 = Inr b
     \<and> set (map si_task_id (bq_ordered_ready_work b)) = {tf_task_id f | f. f \<in> set example_facts \<and> task_ready example_facts f}
     \<and> map si_rank (bq_ordered_ready_work b) = map int [1..<Suc (length (bq_ordered_ready_work b))]"
proof -
  obtain sq where sq: "init_BuildSequencer list_digraph example_facts = Inr sq" using example_init by blast
  from build_sequence_exact [OF lists.nx_digraph_axioms sq example_facts_valid, of str_int 0] sq show ?thesis by blast
qed

text \<open>
  C23. The numbers of a sequence item are exact: its score is the sum of the priority, critical
  path, deadline, risk, unblocking and duration parts computed without rounding and lies between 20
  and 1590; the downstream count is the number of tasks that depend on it, directly or not; the
  depth is the number of tasks before it on the longest dependency chain that leads to it.
\<close>
theorem sequence_item_values:
  assumes "nx_digraph dg" "init_BuildSequencer dg fs = Inr sq" "\<forall>f \<in> set fs. valid_TaskControlFact f"
    and "build_sequence isoformat dg sq now = Inr b" "i \<in> set (bq_ordered_ready_work b)"
  shows "\<exists>f. f \<in> set fs \<and> tf_task_id f = si_task_id i
     \<and> sc_total_score (si_score i) = exact_total f (si_on_critical_path i) (si_downstream_count i) now
     \<and> 20 \<le> sc_total_score (si_score i) \<and> sc_total_score (si_score i) \<le> 1590
     \<and> si_on_critical_path i = on_critical_path sq (bq_critical_path b) f
     \<and> si_downstream_count i = downstream_count fs f
     \<and> (\<exists>xs. dep_path (dep_edges fs) xs \<and> set xs \<subseteq> tf_task_id ` set fs \<and> last xs = si_task_id i
            \<and> int (length xs) = si_dependency_depth i + 1)
     \<and> (\<forall>xs. dep_path (dep_edges fs) xs \<and> set xs \<subseteq> tf_task_id ` set fs \<and> last xs = si_task_id i
            \<longrightarrow> int (length xs) \<le> si_dependency_depth i + 1)"
proof -
  note ok = nx_digraph.init_ok [OF assms(1,2)]
  have eq: "set (sq_facts sq) = set fs" by (simp add: ok(2))
  note edges = dep_edges_cong [OF eq]
  have valid: "\<forall>f \<in> set (sq_facts sq). valid_TaskControlFact f" using assms(3) eq by simp
  obtain a depth sc b' where depth: "depth_inv (dep_edges (sq_facts sq)) (dg_topological_sort dg (sq_graph sq)) depth"
    and sc: "\<forall>f \<in> set (ready_facts sq). sc_total_score (sc f) =
       exact_total f (on_critical_path sq a f) (downstream_count (sq_facts sq) f) now"
    and b': "build_sequence isoformat dg sq now = Inr b'" "bq_critical_path b' = a"
    and work: "bq_ordered_ready_work b' =
      map (sequence_entry sq a depth sc) (enumerate 1 (sort_key (sequence_key sq a now) (ready_facts sq)))"
    by (rule nx_digraph.build_sequence_run [OF assms(1) ok(1) valid init_project_id [OF assms(2,3)]])
  have b: "b' = b" using b'(1) assms(4) by simp
  obtain k f where f: "f \<in> set (ready_facts sq)" and i: "i = sequence_entry sq a depth sc (k, f)"
    using assms(5) work unfolding b by (auto dest!: enumerateD)
  then have mem: "f \<in> set fs" using eq by (auto simp: ready_facts_def)
  note us = nx_digraph.topo_facts(2) [OF assms(1) ok(1)]
  have graph: "dep_edges (sq_facts sq) \<subseteq> task_ids sq \<times> task_ids sq" "acyclic (dep_edges (sq_facts sq))"
    using ok(1) by (simp_all add: sequencer_ok_def)
  have "tf_task_id f \<in> task_ids sq" using mem eq by simp
  from depth_inv_longest [OF depth, unfolded us, OF graph this] obtain d where
    d: "map_of depth (tf_task_id f) = Some d"
      "\<exists>xs. dep_path (dep_edges (sq_facts sq)) xs \<and> set xs \<subseteq> task_ids sq \<and> last xs = tf_task_id f \<and> int (length xs) = d + 1"
      "\<forall>xs. dep_path (dep_edges (sq_facts sq)) xs \<and> set xs \<subseteq> task_ids sq \<and> last xs = tf_task_id f \<longrightarrow> int (length xs) \<le> d + 1"
    by blast
  have v: "si_task_id i = tf_task_id f" "si_dependency_depth i = d" "si_on_critical_path i = on_critical_path sq a f"
    "si_downstream_count i = downstream_count fs f" "si_score i = sc f"
    by (simp_all add: i sequence_entry_def d(1) downstream_count_def edges)
  have total: "sc_total_score (sc f) = exact_total f (on_critical_path sq a f) (downstream_count fs f) now"
    using sc f by (simp add: downstream_count_def edges)
  have "0 \<le> downstream_count fs f" by (simp add: downstream_count_def)
  then have "20 \<le> sc_total_score (sc f)" "sc_total_score (sc f) \<le> 1590"
    unfolding total using exact_total_bounds assms(3) mem by blast+
  then show ?thesis
    using mem total d(2,3) b'(2) unfolding v b edges eq by (intro exI [of _ f] conjI) simp_all
qed

theorem sequence_item_values_witness:
  "\<exists>sq b i f. init_BuildSequencer list_digraph example_facts = Inr sq \<and> build_sequence str_int list_digraph sq 0 = Inr b
     \<and> i \<in> set (bq_ordered_ready_work b) \<and> f \<in> set example_facts \<and> tf_task_id f = si_task_id i
     \<and> sc_total_score (si_score i) = exact_total f (si_on_critical_path i) (si_downstream_count i) 0"
proof -
  obtain sq where sq: "init_BuildSequencer list_digraph example_facts = Inr sq" using example_init by blast
  obtain b where b: "build_sequence str_int list_digraph sq 0 = Inr b" "bq_ordered_ready_work b \<noteq> []"
    using sequence_nonempty [OF lists.nx_digraph_axioms sq example_facts_valid example_ready] by blast
  have i: "hd (bq_ordered_ready_work b) \<in> set (bq_ordered_ready_work b)" using b(2) by simp
  from sequence_item_values [OF lists.nx_digraph_axioms sq example_facts_valid b(1) i] sq b i show ?thesis by blast
qed



text \<open>
  The sequencer does not depend on the order of the facts: permuting them changes neither
  the result of construction nor, therefore, anything computed from it.
\<close>
theorem init_BuildSequencer_permutation:
  assumes "mset fs = mset gs"
  shows "init_BuildSequencer dg fs = init_BuildSequencer dg gs"
proof (cases "distinct (map tf_task_id fs)")
  case True
  then have "sort_key tf_task_id fs = sort_key tf_task_id gs"
    using assms by (intro sort_key_perm)
  then show ?thesis by (simp add: init_BuildSequencer_def)
next
  case False
  have "\<not> distinct (map tf_task_id gs)" using False assms by (metis mset_eq_imp_distinct_iff mset_map)
  then show ?thesis using False by (simp add: init_duplicate)
qed

theorem init_BuildSequencer_permutation_witness:
  "\<exists>sq. init_BuildSequencer list_digraph (rev example_facts) = Inr sq"
  using init_BuildSequencer_permutation [of "rev example_facts" example_facts list_digraph] example_init by simp



end
