(* ===== verification/ControlKernel.thy ===== *)
theory ControlKernel
  imports StateStore SequenceOrder
begin

text \<open>
  \<open>src/project_pipeline/control/kernel.py\<close> with \<open>cohorts.py\<close> and \<open>authority.py\<close>: the facts about every
  task from the repository and the state store, scope reconciliation, cohort counts, the completion
  projection, the control snapshot, and the transitions to READY that the kernel applies to the store.

  The repository is an argument: \<open>Repository\<close> holds what the kernel reads from its files.  A document
  is the typed view of its JSON object: an optional field is \<open>None\<close> where the key is missing, and where
  the code tests \<open>isinstance(value, str)\<close> or \<open>dict\<close> a value of another type is \<open>None\<close>.
  The clock and the time rendering of the sequencer are arguments as well.
\<close>

section \<open>What the kernel reads\<close>

record Verification =
  vf_path :: "string option"
  vf_status :: "string option"

record Issue =
  is_local_id :: string
  is_issue_type :: "string option"
  is_risk_classification :: "string option"
  is_requirement_ids :: "string list"
  is_state :: "string option"
  is_implementation_state :: "string option"
  is_expected_implementation_artifacts :: "string option list"
  is_acceptance_criteria :: "Verification option list"
  is_required_tests :: "string list"
  is_completion_evidence :: "string list"
  is_last_observed_status :: "string option"
  is_dependencies :: "string list"
  is_blockers :: "string list"
  is_relationships :: "(string option \<times> string option) list"

record Requirement =
  rq_requirement_id :: string
  rq_disposition :: "string option"
  rq_implementation_state :: "string option"
  rq_jira_ids :: "string list"
  rq_implementation_paths :: "string list"

text \<open>
  \<open>is_last_observed_status\<close> is \<open>str(observed.get("status_name") or "")\<close>, or \<open>None\<close> if the observation
  is no object; a relationship is its type and target; \<open>repo_selection\<close> is the mode and, if it is a
  list, the allowed issues of \<open>config/product_outcome.json\<close>; \<open>repo_audit\<close> holds the issue and status of
  every finding of the audit file, if it exists.
\<close>

record Repository =
  repo_issues :: "Issue list"
  repo_requirements :: "Requirement list"
  repo_catalog_present :: bool
  repo_exists :: "string \<Rightarrow> bool"
  repo_selection :: "(string \<times> string list option) option"
  repo_audit :: "(string \<times> string option) list option"

section \<open>Cohorts\<close>

definition count_if :: "('a \<Rightarrow> bool) \<Rightarrow> 'a list \<Rightarrow> int" where
  "count_if P xs = int (length (filter P xs))"

definition is_structural_container :: "TaskControlFact \<Rightarrow> bool" where
  "is_structural_container f \<longleftrightarrow> tf_issue_type f \<in> {''EPIC''}"

definition reconciliation_facts :: "TaskControlFact list \<Rightarrow> TaskControlFact list" where
  "reconciliation_facts facts =
     filter (\<lambda>f. tf_reconciliation_required f \<and> tf_state f \<notin> set TERMINAL_STATES) facts"

definition summarize_control_cohorts ::
  "TaskControlFact list \<Rightarrow> TaskEligibility list \<Rightarrow> TaskReadiness list \<Rightarrow> ControlCohortCounts result" where
  "summarize_control_cohorts facts elig ready =
     (let reconciliation = reconciliation_facts facts;
          structural = filter is_structural_container reconciliation;
          counted = (\<lambda>st. count_if (\<lambda>e. te_state e = st) elig)
      in make_ControlCohortCounts
           \<lparr>cc_total_work_items = int (length facts),
            cc_reconciliation_facts = int (length reconciliation),
            cc_structural_container_facts = int (length structural),
            cc_leaf_reconciliation_facts = int (length reconciliation) - int (length structural),
            cc_eligibility_reconciliation = counted E_RECONCILIATION_REQUIRED,
            cc_eligibility_eligible = counted E_ELIGIBLE,
            cc_eligibility_policy_denied = counted E_POLICY_DENIED,
            cc_eligibility_product_scope_paused = counted E_PRODUCT_SCOPE_PAUSED,
            cc_eligibility_terminal = counted E_TERMINAL,
            cc_eligibility_already_active = counted E_ALREADY_ACTIVE,
            cc_eligibility_blocked = counted E_BLOCKED,
            cc_eligibility_blocked_external = counted E_BLOCKED_EXTERNAL,
            cc_dependency_ready = count_if (\<lambda>r. td_state r = R_READY) ready\<rparr>)"

definition describe_reconciliation_cohorts :: "ControlCohortCounts \<Rightarrow> string" where
  "describe_reconciliation_cohorts c =
     str_int (cc_reconciliation_facts c) @ '' reconciliation-class facts ('' @ str_int (cc_leaf_reconciliation_facts c)
     @ '' RECONCILIATION_REQUIRED leaves are directly reconcilable; '' @ str_int (cc_structural_container_facts c)
     @ '' structural container projections are not independently executable)''"

definition assert_cohort_invariants ::
  "TaskControlFact list \<Rightarrow> TaskEligibility list \<Rightarrow> TaskReadiness list \<Rightarrow> ControlCohortCounts \<Rightarrow> unit result" where
  "assert_cohort_invariants facts elig ready cohorts =
     res_bind (summarize_control_cohorts facts elig ready) (\<lambda>recomputed.
       if recomputed \<noteq> cohorts
       then Inl (ValueError ''control cohort counts drifted from the same-snapshot facts'')
       else if cc_reconciliation_facts cohorts \<noteq> cc_leaf_reconciliation_facts cohorts + cc_structural_container_facts cohorts
       then Inl (ValueError ''reconciliation facts must equal leaf plus structural container counts'')
       else if cc_eligibility_reconciliation cohorts > cc_reconciliation_facts cohorts
       then Inl (ValueError ''eligibility reconciliation cannot exceed reconciliation-class facts'')
       else if cc_dependency_ready cohorts > cc_eligibility_eligible cohorts
       then Inl (ValueError ''dependency-ready items cannot exceed eligible items'')
       else Inr ())"

section \<open>Recommendations\<close>

datatype RecommendationDisposition = ACCEPT | REJECT | ESCALATE

record RecommendationAuthorityDecision =
  ra_recommendation_id :: string
  ra_disposition :: RecommendationDisposition
  ra_may_apply :: bool
  ra_reasons :: "string list"

definition evaluate_recommendation_authority :: "string \<Rightarrow> bool \<Rightarrow> bool \<Rightarrow> RecommendationAuthorityDecision" where
  "evaluate_recommendation_authority rid conflicts_with_canonical_plan conflicts_with_policy =
     (if conflicts_with_policy
      then \<lparr>ra_recommendation_id = rid, ra_disposition = REJECT, ra_may_apply = False,
            ra_reasons = [''recommendation conflicts with governing policy'']\<rparr>
      else if conflicts_with_canonical_plan
      then \<lparr>ra_recommendation_id = rid, ra_disposition = ESCALATE, ra_may_apply = False,
            ra_reasons = [''recommendation conflicts with the canonical plan and requires explicit reconciliation'']\<rparr>
      else \<lparr>ra_recommendation_id = rid, ra_disposition = ACCEPT, ra_may_apply = True,
            ra_reasons = [''recommendation is aligned with canonical plan and policy'']\<rparr>)"

section \<open>Facts\<close>

definition COMPLETE_REQUIREMENT_STATES :: "string list" where
  "COMPLETE_REQUIREMENT_STATES = [''IMPLEMENTED'', ''MOCK_VERIFIED'', ''LIVE_VERIFIED'', ''BLOCKED_EXTERNAL'']"

definition COMPLETE_ISSUE_IMPLEMENTATION_STATES :: "string list" where
  "COMPLETE_ISSUE_IMPLEMENTATION_STATES = [''IMPLEMENTED'', ''MOCK_VERIFIED'', ''LIVE_VERIFIED'']"

definition RECONCILABLE_ISSUE_IMPLEMENTATION_STATES :: "string list" where
  "RECONCILABLE_ISSUE_IMPLEMENTATION_STATES = [''IMPLEMENTED'', ''MOCK_VERIFIED'', ''LIVE_VERIFIED'']"

definition PRODUCT_SELECTION_BOUNDED_MODES :: "string list" where
  "PRODUCT_SELECTION_BOUNDED_MODES =
     [''PAUSED_PENDING_INDEPENDENT_PRODUCT_MODEL_AUDIT'', ''PRODUCT_OUTCOME_CRITICAL_PATH_ONLY'']"

definition CRITICAL_PATH_PREDECESSORS :: "string list" where
  "CRITICAL_PATH_PREDECESSORS =
     [''PP-TASK-000380'', ''PP-TASK-000381'', ''PP-TASK-000382'', ''PP-TASK-000383'', ''PP-TASK-000384'']"

definition CYCLE_OWNED_VALIDATION_JOBS :: "string list" where
  "CYCLE_OWNED_VALIDATION_JOBS = [''PP-TASK-000992'', ''PP-TASK-000993'']"

text \<open>\<open>value in states\<close> for an optional string.\<close>

definition is_one_of :: "string option \<Rightarrow> string list \<Rightarrow> bool" where
  "is_one_of v states = (case v of None \<Rightarrow> False | Some s \<Rightarrow> s \<in> set states)"

definition criterion_ok :: "(string \<Rightarrow> bool) \<Rightarrow> bool \<Rightarrow> Verification option \<Rightarrow> bool" where
  "criterion_ok exists strict c =
     (case c of
        None \<Rightarrow> False
      | Some v \<Rightarrow>
          (case vf_path v of None \<Rightarrow> False | Some path \<Rightarrow> exists path)
          \<and> \<not> (strict \<and> vf_status v \<noteq> Some ''VERIFIED''))"

definition issue_has_reconciliation_evidence :: "(string \<Rightarrow> bool) \<Rightarrow> Issue \<Rightarrow> bool" where
  "issue_has_reconciliation_evidence exists issue \<longleftrightarrow>
     is_one_of (is_implementation_state issue)
       (RECONCILABLE_ISSUE_IMPLEMENTATION_STATES @ [''PLANNED_ONLY'', ''PARTIALLY_IMPLEMENTED''])
     \<and> is_expected_implementation_artifacts issue \<noteq> []
     \<and> list_all (\<lambda>p. case p of None \<Rightarrow> False | Some path \<Rightarrow> exists path) (is_expected_implementation_artifacts issue)
     \<and> is_acceptance_criteria issue \<noteq> []
     \<and> list_all (criterion_ok exists
         (is_one_of (is_implementation_state issue) RECONCILABLE_ISSUE_IMPLEMENTATION_STATES)) (is_acceptance_criteria issue)
     \<and> is_required_tests issue \<noteq> [] \<and> is_completion_evidence issue \<noteq> []"

definition issue_waits_for_remote_readback :: "Issue \<Rightarrow> bool" where
  "issue_waits_for_remote_readback issue \<longleftrightarrow>
     is_implementation_state issue = Some ''IMPLEMENTED''
     \<and> \<not> is_one_of (is_state issue) [''DONE'', ''CANCELLED'']
     \<and> (case is_last_observed_status issue of
          None \<Rightarrow> False
        | Some name \<Rightarrow>
            let status = map lower_char (py_strip name)
            in status \<noteq> [] \<and> status \<notin> {''done'', ''in progress''})"

definition reconciliation_quarantine_ids :: "Repository \<Rightarrow> string list" where
  "reconciliation_quarantine_ids repo =
     (case repo_audit repo of
        None \<Rightarrow> []
      | Some findings \<Rightarrow> map fst (filter (\<lambda>(i, st). st = Some ''ISSUE_SPECIFIC_AUDIT_REQUIRED'') findings))"

definition selection_scope :: "Repository \<Rightarrow> string \<times> string list \<times> bool" where
  "selection_scope repo =
     (case repo_selection repo of
        None \<Rightarrow> ([], [], True)
      | Some (raw_mode, allowed_raw) \<Rightarrow>
          let mode = py_strip raw_mode;
              allowed = (case allowed_raw of None \<Rightarrow> [] | Some ids \<Rightarrow> filter (\<lambda>i. py_strip i \<noteq> []) ids)
          in if mode \<notin> set PRODUCT_SELECTION_BOUNDED_MODES then (mode, [], True)
             else if allowed = [] then (mode, [], True)
             else (mode, allowed, False))"

definition predecessors_accepted :: "(string, Issue) dict \<Rightarrow> bool" where
  "predecessors_accepted issues \<longleftrightarrow>
     list_all (\<lambda>t. case map_of issues t of
                     None \<Rightarrow> False
                   | Some i \<Rightarrow> is_one_of (is_implementation_state i) COMPLETE_ISSUE_IMPLEMENTATION_STATES)
       CRITICAL_PATH_PREDECESSORS"

definition linked_requirements :: "(string, Requirement) dict \<Rightarrow> Issue \<Rightarrow> Requirement list" where
  "linked_requirements requirements issue = List.map_filter (map_of requirements) (is_requirement_ids issue)"

definition completion_convergence_allowed :: "Issue \<Rightarrow> (string, Requirement) dict \<Rightarrow> bool \<Rightarrow> bool" where
  "completion_convergence_allowed issue requirements accepted \<longleftrightarrow>
     accepted
     \<and> list_ex (\<lambda>r. rq_disposition r = Some ''ACCEPTED''
                   \<and> \<not> is_one_of (rq_implementation_state r) COMPLETE_REQUIREMENT_STATES)
         (linked_requirements requirements issue)"

text \<open>The stand-in document for a validation job that has no issue.\<close>

definition validation_job :: "string \<Rightarrow> Issue" where
  "validation_job task_id =
     \<lparr>is_local_id = task_id, is_issue_type = Some ''TASK'', is_risk_classification = Some ''LOW'', is_requirement_ids = [],
      is_state = Some [], is_implementation_state = None, is_expected_implementation_artifacts = [],
      is_acceptance_criteria = [], is_required_tests = [], is_completion_evidence = [], is_last_observed_status = None,
      is_dependencies = [], is_blockers = [], is_relationships = []\<rparr>"

definition issue_of :: "(string, Issue) dict \<Rightarrow> string \<Rightarrow> Issue option" where
  "issue_of issues task_id =
     (case map_of issues task_id of
        Some i \<Rightarrow> Some i
      | None \<Rightarrow> if task_id \<in> set CYCLE_OWNED_VALIDATION_JOBS then Some (validation_job task_id) else None)"

definition lifecycle_of :: "TaskStateRecord \<Rightarrow> Issue \<Rightarrow> TaskLifecycleState" where
  "lifecycle_of st issue =
     (if is_state issue = Some ''DONE'' then T_DONE
      else if is_state issue = Some ''CANCELLED'' then T_CANCELLED
      else ts_state st)"

definition task_fact ::
  "Repository \<Rightarrow> string \<Rightarrow> (string, Requirement) dict \<Rightarrow> string list \<Rightarrow> bool \<Rightarrow> bool \<Rightarrow> TaskStateRecord \<Rightarrow> Issue
     \<Rightarrow> TaskControlFact result" where
  "task_fact repo project_id requirements scope fail_closed accepted_before st issue =
     (let linked = linked_requirements requirements issue;
          waits = issue_waits_for_remote_readback issue
      in make_TaskControlFact
           \<lparr>tf_task_id = ts_task_id st, tf_project_id = project_id, tf_state = lifecycle_of st issue,
            tf_issue_type = (case is_issue_type issue of None \<Rightarrow> ''TASK'' | Some v \<Rightarrow> v),
            tf_priority = ts_priority st,
            tf_risk = (case is_risk_classification issue of None \<Rightarrow> ''MEDIUM'' | Some v \<Rightarrow> v),
            tf_dependency_ids = ts_dependency_ids st, tf_blocker_ids = ts_blocker_ids st,
            tf_requirement_ids = is_requirement_ids issue,
            tf_accepted = list_all (\<lambda>r. rq_disposition r = Some ''ACCEPTED'') linked,
            tf_policy_eligible = True, tf_approval_required = False, tf_approval_satisfied = True,
            tf_context_required = False, tf_context_satisfied = True, tf_resources_available = True,
            tf_environment_available = True,
            tf_external_blocked =
              linked \<noteq> [] \<and> list_all (\<lambda>r. rq_implementation_state r = Some ''BLOCKED_EXTERNAL'') linked,
            tf_reconciliation_required =
              (issue_has_reconciliation_evidence (repo_exists repo) issue
               \<or> ts_task_id st \<in> set (reconciliation_quarantine_ids repo)) \<and> \<not> waits,
            tf_remote_readback_required = waits,
            tf_product_scope_allowed =
              \<not> fail_closed
              \<and> (ts_task_id st \<in> set scope \<or> ts_task_id st \<in> set CYCLE_OWNED_VALIDATION_JOBS
                 \<or> completion_convergence_allowed issue requirements accepted_before),
            tf_expected_duration_minutes = None, tf_deadline_utc = None\<rparr>)"

definition task_facts :: "Repository \<Rightarrow> StateStore \<Rightarrow> string \<Rightarrow> TaskControlFact list result" where
  "task_facts repo store project_id =
     (let issues = dict_of (map (\<lambda>i. (is_local_id i, i)) (repo_issues repo));
          requirements = dict_of (map (\<lambda>r. (rq_requirement_id r, r)) (repo_requirements repo))
      in res_bind (list_task_states store project_id) (\<lambda>states.
           let (mode, scope, fail_closed) = selection_scope repo;
               accepted = predecessors_accepted issues \<and> \<not> fail_closed;
               known = List.map_filter (\<lambda>st. map_option (Pair st) (issue_of issues (ts_task_id st))) states
           in res_bind (map_res (\<lambda>(st, i). task_fact repo project_id requirements scope fail_closed accepted st i) known)
                (\<lambda>facts. Inr (sort_key tf_task_id facts))))"

section \<open>Scope reconciliation\<close>

definition finding :: "ScopeFindingKind \<Rightarrow> string \<Rightarrow> string option \<Rightarrow> string \<Rightarrow> ScopeFinding" where
  "finding kind subject related detail =
     \<lparr>sf_kind = kind, sf_subject_id = subject, sf_related_id = related, sf_detail = detail\<rparr>"

definition requirement_findings :: "Requirement \<Rightarrow> ScopeFinding list" where
  "requirement_findings r =
     (if rq_disposition r \<noteq> Some ''ACCEPTED'' then []
      else (if rq_jira_ids r = []
            then [finding REQUIREMENT_WITHOUT_WORK (rq_requirement_id r) None
                    ''Accepted requirement has no mapped work item.''] else [])
        @ (if is_one_of (rq_implementation_state r) COMPLETE_REQUIREMENT_STATES \<and> rq_implementation_paths r = []
           then [finding IMPLEMENTED_REQUIREMENT_WITHOUT_ARTIFACT (rq_requirement_id r) None
                   ''Requirement is represented as implemented or externally blocked without an implementation artifact mapping.'']
           else []))"

definition issue_relations :: "Issue \<Rightarrow> string list" where
  "issue_relations i =
     is_dependencies i @ is_blockers i
     @ List.map_filter (\<lambda>(ty, target). if is_one_of ty [''DEPENDS_ON'', ''BLOCKED_BY'', ''IS_BLOCKED_BY''] then target else None)
         (is_relationships i)"

definition issue_findings :: "(string, Requirement) dict \<Rightarrow> string list \<Rightarrow> Issue \<Rightarrow> ScopeFinding list" where
  "issue_findings req_by_id issue_ids i =
     (if is_requirement_ids i = [] \<and> is_issue_type i \<noteq> Some ''EPIC''
      then [finding WORK_WITHOUT_REQUIREMENT (is_local_id i) None ''Work item has no requirement mapping.''] else [])
     @ map (\<lambda>r. finding UNKNOWN_REQUIREMENT (is_local_id i) (Some r)
                 ''Work item references a requirement absent from the authoritative registry.'')
         (filter (\<lambda>r. map_of req_by_id r = None) (is_requirement_ids i))
     @ map (\<lambda>d. finding UNKNOWN_DEPENDENCY (is_local_id i) (Some d)
                 ''Work item references a dependency or blocker absent from the local Jira authority.'')
         (filter (\<lambda>d. d \<notin> set issue_ids) (sorted_set (filter (\<lambda>d. d \<noteq> []) (issue_relations i))))
     @ (if is_state i = Some ''DONE'' \<and> is_completion_evidence i = []
        then [finding DONE_WITHOUT_EVIDENCE (is_local_id i) None ''Done work item has no completion evidence mapping.''] else [])
     @ (if is_state i = Some ''DONE'' \<and> is_implementation_state i = Some ''PLANNED_ONLY''
        then [finding DONE_WITHOUT_IMPLEMENTATION (is_local_id i) None
                ''Done work item is still represented as planned only.''] else [])"

definition dump_finding :: "ScopeFinding \<Rightarrow> json" where
  "dump_finding f =
     JObj [(''schema_version'', JStr ''1.0.0''), (''kind'', JStr (scope_kind_value (sf_kind f))),
           (''subject_id'', JStr (sf_subject_id f)), (''related_id'', JOpt (sf_related_id f)), (''detail'', JStr (sf_detail f))]"

definition scope_reconciliation :: "Repository \<Rightarrow> string \<Rightarrow> ScopeReconciliationReport result" where
  "scope_reconciliation repo project_id =
     (let req_by_id = dict_of (map (\<lambda>r. (rq_requirement_id r, r)) (repo_requirements repo));
          issue_ids = map is_local_id (repo_issues repo);
          raised = concat (map requirement_findings (repo_requirements repo))
                   @ concat (map (issue_findings req_by_id issue_ids) (repo_issues repo))
      in res_bind (map_res make_ScopeFinding raised) (\<lambda>made.
           let findings = sort_key (\<lambda>f. (scope_kind_value (sf_kind f), sf_subject_id f,
                                        case sf_related_id f of None \<Rightarrow> [] | Some r \<Rightarrow> r)) made;
               fingerprint = semantic_fingerprint (JList (map dump_finding findings))
           in res_bind (control_identifier ''SCOPE'' [project_id, fingerprint]) (\<lambda>report_id.
                make_ScopeReconciliationReport
                  \<lparr>sx_report_id = report_id, sx_project_id = project_id,
                   sx_requirement_count = int (length (repo_requirements repo)),
                   sx_work_item_count = int (length (repo_issues repo)), sx_findings = findings,
                   sx_fingerprint = fingerprint\<rparr>)))"

section \<open>Completion\<close>

definition accepted_requirements :: "Repository \<Rightarrow> Requirement list" where
  "accepted_requirements repo = filter (\<lambda>r. rq_disposition r = Some ''ACCEPTED'') (repo_requirements repo)"

definition eligibility_or_recompute ::
  "'g digraph_ops \<Rightarrow> TaskEligibility list \<Rightarrow> TaskControlFact list \<Rightarrow> TaskEligibility list result" where
  "eligibility_or_recompute dg elig facts =
     (if elig \<noteq> [] then Inr elig
      else map_res (\<lambda>f. res_bind (init_BuildSequencer dg facts) (\<lambda>_. eligibility f)) facts)"

record completion_counts =
  ct_total :: int
  ct_completed :: int
  ct_active :: int
  ct_blocked :: int
  ct_failed :: int
  ct_ordinary_active :: int
  ct_ordinary_ready :: int
  ct_requirements :: int
  ct_req_complete :: int

definition completion_counts_of ::
  "Repository \<Rightarrow> TaskStateRecord list \<Rightarrow> TaskReadiness list \<Rightarrow> completion_counts" where
  "completion_counts_of repo states ready =
     (let (mode, scope, fail_closed) = selection_scope repo;
          readiness_by_id = dict_of (map (\<lambda>r. (td_task_id r, r)) ready)
      in \<lparr>ct_total = int (length states),
          ct_completed = count_if (\<lambda>t. ts_state t \<in> set TERMINAL_STATES) states,
          ct_active = count_if (\<lambda>t. ts_state t \<in> set ACTIVE_STATES) states,
          ct_blocked = count_if (\<lambda>t. ts_state t = T_BLOCKED) states,
          ct_failed = count_if (\<lambda>t. ts_state t = T_FAILED) states,
          ct_ordinary_active = count_if (\<lambda>t. ts_state t \<in> set ACTIVE_STATES \<and> ts_task_id t \<notin> set scope) states,
          ct_ordinary_ready = count_if (\<lambda>(k, r). k \<notin> set scope \<and> td_ready r) readiness_by_id,
          ct_requirements = int (length (accepted_requirements repo)),
          ct_req_complete =
            count_if (\<lambda>r. is_one_of (rq_implementation_state r) COMPLETE_REQUIREMENT_STATES) (accepted_requirements repo)\<rparr>)"

definition all_work_terminal :: "completion_counts \<Rightarrow> bool" where
  "all_work_terminal c \<longleftrightarrow> 0 < ct_total c \<and> ct_completed c = ct_total c"

definition all_requirements_complete :: "Repository \<Rightarrow> completion_counts \<Rightarrow> bool" where
  "all_requirements_complete repo c \<longleftrightarrow>
     repo_catalog_present repo \<and> ct_requirements c \<noteq> 0 \<and> ct_req_complete c = ct_requirements c"

definition incomplete_reasons ::
  "Repository \<Rightarrow> completion_counts \<Rightarrow> int \<Rightarrow> ControlCohortCounts \<Rightarrow> string list" where
  "incomplete_reasons repo c ready_count cohorts =
     (if \<not> all_work_terminal c then [str_int (ct_total c - ct_completed c) @ '' work items are not terminal''] else [])
     @ (if \<not> repo_catalog_present repo then [''requirement catalog is missing'']
        else if \<not> all_requirements_complete repo c
        then [str_int (ct_requirements c - ct_req_complete c)
              @ '' accepted requirements are not implemented or externally blocked''] else [])
     @ (if ready_count \<noteq> 0 then [str_int ready_count @ '' independent work items are ready to continue''] else [])
     @ (if cc_reconciliation_facts cohorts \<noteq> 0 then [describe_reconciliation_cohorts cohorts] else [])
     @ (if ready_count \<le> 1 \<and> (cc_reconciliation_facts cohorts \<noteq> 0 \<or> ct_requirements c - ct_req_complete c \<noteq> 0)
        then [''a single ready item is not a stop signal while reconciliation or incomplete requirements remain''] else [])"

definition completion_state ::
  "Repository \<Rightarrow> completion_counts \<Rightarrow> int \<Rightarrow> ControlCohortCounts \<Rightarrow> CompletionProjectionState \<times> string list" where
  "completion_state repo c ready_count cohorts =
     (if fst (selection_scope repo) = ''PAUSED_PENDING_INDEPENDENT_PRODUCT_MODEL_AUDIT''
         \<and> (ct_ordinary_active c \<noteq> 0 \<or> ct_ordinary_ready c \<noteq> 0)
      then (CP_FAILED,
            (if ct_ordinary_active c \<noteq> 0
             then [''ordinary active lanes remain while product-model audit is pending: '' @ str_int (ct_ordinary_active c)] else [])
            @ (if ct_ordinary_ready c \<noteq> 0
               then [''ordinary backlog remains ready while product-model audit is pending: '' @ str_int (ct_ordinary_ready c)]
               else []))
      else if ct_failed c \<noteq> 0 then (CP_FAILED, [str_int (ct_failed c) @ '' work items are in FAILED state''])
      else if ct_blocked c \<noteq> 0 \<and> ready_count = 0 \<and> ct_active c = 0 \<and> cc_reconciliation_facts cohorts = 0
      then (CP_BLOCKED, [''no independent ready or active work remains while blocked work exists''])
      else if all_work_terminal c \<and> all_requirements_complete repo c
      then (CP_READY_FOR_COMPLETION_GATE,
            [''all accepted requirements and work items satisfy the control-plane projection'',
             ''independent Completion Gate evaluation is still required''])
      else (CP_INCOMPLETE, incomplete_reasons repo c ready_count cohorts))"

definition completion_projection ::
  "'g digraph_ops \<Rightarrow> Repository \<Rightarrow> StateStore \<Rightarrow> string \<Rightarrow> BuildSequence \<Rightarrow> TaskReadiness list \<Rightarrow> TaskEligibility list
     \<Rightarrow> TaskControlFact list option \<Rightarrow> CompletionProjection result" where
  "completion_projection dg repo store project_id seq ready elig facts =
     res_bind (list_task_states store project_id) (\<lambda>states.
     res_bind (case facts of Some fs \<Rightarrow> Inr fs | None \<Rightarrow> task_facts repo store project_id) (\<lambda>fact_list.
     res_bind (eligibility_or_recompute dg elig fact_list) (\<lambda>elig'.
     res_bind (summarize_control_cohorts fact_list elig' ready) (\<lambda>cohorts.
       let c = completion_counts_of repo states ready;
           (st, reasons) = completion_state repo c (bq_ready_count seq) cohorts
       in
     res_bind (control_identifier ''COMPLETE''
         [project_id, str_int (ct_total c), str_int (ct_completed c), str_int (ct_req_complete c), completion_value st])
       (\<lambda>projection_id.
       make_CompletionProjection
         \<lparr>cp_projection_id = projection_id, cp_project_id = project_id, cp_state = st,
          cp_total_work_items = ct_total c, cp_completed_work_items = ct_completed c,
          cp_active_work_items = ct_active c, cp_blocked_work_items = ct_blocked c, cp_failed_work_items = ct_failed c,
          cp_accepted_requirements = ct_requirements c,
          cp_implemented_or_external_blocked_requirements = ct_req_complete c,
          cp_ready_work_items = bq_ready_count seq,
          cp_verification_eligible = (st = CP_READY_FOR_COMPLETION_GATE),
          cp_final_completion_gate_satisfied = False, cp_reasons = reasons, cp_cohorts = cohorts\<rparr>)))))"

section \<open>Snapshots\<close>

definition dump_eligibility :: "TaskEligibility \<Rightarrow> json" where
  "dump_eligibility e =
     JObj [(''schema_version'', JStr ''1.0.0''), (''task_id'', JStr (te_task_id e)),
           (''state'', JStr (eligibility_value (te_state e))), (''eligible'', JBool (te_eligible e)),
           (''reasons'', JList (map JStr (te_reasons e)))]"

definition dump_readiness :: "TaskReadiness \<Rightarrow> json" where
  "dump_readiness r =
     JObj [(''schema_version'', JStr ''1.0.0''), (''task_id'', JStr (td_task_id r)),
           (''state'', JStr (readiness_value (td_state r))), (''ready'', JBool (td_ready r)),
           (''unresolved_dependencies'', JList (map JStr (td_unresolved_dependencies r))),
           (''unresolved_blockers'', JList (map JStr (td_unresolved_blockers r))),
           (''reasons'', JList (map JStr (td_reasons r)))]"

definition evaluate ::
  "(int \<Rightarrow> string) \<Rightarrow> 'g digraph_ops \<Rightarrow> Repository \<Rightarrow> StateStore \<Rightarrow> string \<Rightarrow> int \<Rightarrow> ControlSnapshot result" where
  "evaluate isoformat dg repo store project_id now =
     res_bind (task_facts repo store project_id) (\<lambda>facts.
     res_bind (init_BuildSequencer dg facts) (\<lambda>sequencer.
     res_bind (build_sequence isoformat dg sequencer now) (\<lambda>seq.
     res_bind (map_res eligibility facts) (\<lambda>elig.
     res_bind (map_res (readiness sequencer) facts) (\<lambda>ready.
     res_bind (scope_reconciliation repo project_id) (\<lambda>scope.
     res_bind (completion_projection dg repo store project_id seq ready elig (Some facts)) (\<lambda>completion.
     res_bind (assert_cohort_invariants facts elig ready (cp_cohorts completion)) (\<lambda>_.
       let fingerprint = semantic_fingerprint (JObj
             [(''sequence_id'', JStr (bq_sequence_id seq)), (''graph_fingerprint'', JStr (bq_graph_fingerprint seq)),
              (''scope_report_id'', JStr (sx_report_id scope)),
              (''completion_projection_id'', JStr (cp_projection_id completion)),
              (''eligibility'', JList (map dump_eligibility elig)), (''readiness'', JList (map dump_readiness ready))])
       in
     res_bind (control_identifier ''CTRL'' [project_id, fingerprint]) (\<lambda>snapshot_id.
       make_ControlSnapshot
         \<lparr>cs_snapshot_id = snapshot_id, cs_project_id = project_id, cs_sequence = seq, cs_scope = scope,
          cs_completion = completion, cs_eligibility = elig, cs_readiness = ready,
          cs_snapshot_fingerprint = fingerprint\<rparr>)))))))))"

section \<open>Transitions to READY\<close>

record TransitionOperation =
  op_task_id :: string
  op_previous_state :: string
  op_next_state :: string
  op_expected_version :: int
  op_reason :: string

definition READY_REASON :: string where
  "READY_REASON = ''Control Kernel recomputed all deterministic readiness predicates as satisfied.''"

definition plan_operations ::
  "(string, TaskStateRecord) dict \<Rightarrow> string list \<Rightarrow> TransitionOperation list result" where
  "plan_operations states ready =
     res_bind (map_res (dict_get id states) ready) (\<lambda>rows.
       Inr (map (\<lambda>(task_id, st).
                   \<lparr>op_task_id = task_id, op_previous_state = task_state_value (ts_state st),
                    op_next_state = task_state_value T_READY, op_expected_version = ts_version st,
                    op_reason = READY_REASON\<rparr>)
             (filter (\<lambda>(task_id, st). ts_state st = T_BACKLOG) (zip ready rows))))"

definition readiness_transition_plan ::
  "(int \<Rightarrow> string) \<Rightarrow> 'g digraph_ops \<Rightarrow> Repository \<Rightarrow> StateStore \<Rightarrow> string \<Rightarrow> int \<Rightarrow> string list option
     \<Rightarrow> TransitionOperation list result" where
  "readiness_transition_plan isoformat dg repo store project_id now requested =
     res_bind (evaluate isoformat dg repo store project_id now) (\<lambda>snapshot.
     res_bind (list_task_states store project_id) (\<lambda>rows.
       let ready = map td_task_id (filter td_ready (cs_readiness snapshot));
           states = dict_of (map (\<lambda>t. (ts_task_id t, t)) rows)
       in case requested of
            None \<Rightarrow> plan_operations states (sorted_set ready)
          | Some ids \<Rightarrow>
              let unknown = filter (\<lambda>i. map_of states i = None) ids
              in if unknown \<noteq> []
                 then Inl (ValueError (''unknown task IDs in readiness transition request: ''
                                       @ join_str '', '' (sorted_set unknown)))
                 else plan_operations states (sorted_set (filter (\<lambda>i. i \<in> set ids) ready))))"

fun apply_operations ::
  "(nat \<Rightarrow> int) \<Rightarrow> string \<Rightarrow> string \<Rightarrow> nat \<Rightarrow> TransitionOperation list \<Rightarrow> StateStore
     \<Rightarrow> StateStore \<times> TaskStateRecord list result" where
  "apply_operations clock actor_id correlation_id i [] store = (store, Inr [])"
| "apply_operations clock actor_id correlation_id i (p # ops) store =
     (case transition_task (clock i) (op_task_id p) T_READY (op_expected_version p) (op_reason p) actor_id
             correlation_id None None store of
        (store', Inl e) \<Rightarrow> (store', Inl e)
      | (store', Inr st) \<Rightarrow>
          (case apply_operations clock actor_id correlation_id (Suc i) ops store' of
             (store'', Inl e) \<Rightarrow> (store'', Inl e)
           | (store'', Inr sts) \<Rightarrow> (store'', Inr (st # sts))))"

definition apply_readiness_transitions ::
  "(int \<Rightarrow> string) \<Rightarrow> 'g digraph_ops \<Rightarrow> Repository \<Rightarrow> string \<Rightarrow> int \<Rightarrow> (nat \<Rightarrow> int) \<Rightarrow> string \<Rightarrow> string
     \<Rightarrow> string list option \<Rightarrow> StateStore \<Rightarrow> StateStore \<times> TaskStateRecord list result" where
  "apply_readiness_transitions isoformat dg repo project_id now clock actor_id correlation_id requested store =
     (case readiness_transition_plan isoformat dg repo store project_id now requested of
        Inl e \<Rightarrow> (store, Inl e)
      | Inr ops \<Rightarrow> apply_operations clock actor_id correlation_id 0 ops store)"

end
