(* ===== verification/ControlProperties.thy ===== *)
theory ControlProperties
  imports ControlKernel
begin

text \<open>
  What the control kernel guarantees: a snapshot is computed whenever the facts and the graph are
  accepted and its counts agree with the facts; the completion projection is exact; the transitions
  to READY change exactly the ready backlog; a repository without a bounded selection selects nothing.
\<close>

section \<open>Counting\<close>

lemma count_if_map: "count_if P (map g xs) = count_if (\<lambda>x. P (g x)) xs"
  by (simp add: count_if_def filter_map comp_def)

lemma count_if_nonneg [simp]: "0 \<le> count_if P xs"
  by (simp add: count_if_def)

lemma count_if_le_length [simp]: "count_if P xs \<le> int (length xs)"
  by (simp add: count_if_def)

lemma count_if_cong: "(\<And>x. x \<in> set xs \<Longrightarrow> P x \<longleftrightarrow> Q x) \<Longrightarrow> count_if P xs = count_if Q xs"
  by (simp add: count_if_def cong: filter_cong)

lemma count_if_mono: "(\<And>x. x \<in> set xs \<Longrightarrow> P x \<Longrightarrow> Q x) \<Longrightarrow> count_if P xs \<le> count_if Q xs"
  by (induction xs) (auto simp: count_if_def)

lemma count_if_zero: "count_if P xs = 0 \<longleftrightarrow> (\<forall>x \<in> set xs. \<not> P x)"
  by (simp add: count_if_def filter_empty_conv)

lemma count_if_all: "count_if P xs = int (length xs) \<longleftrightarrow> (\<forall>x \<in> set xs. P x)"
  by (auto simp: count_if_def) (metis filter_id_conv length_filter_less less_irrefl)

lemma eligibility_classes:
  "count_if (\<lambda>e. te_state e = E_RECONCILIATION_REQUIRED) es + count_if (\<lambda>e. te_state e = E_ELIGIBLE) es
   + count_if (\<lambda>e. te_state e = E_POLICY_DENIED) es + count_if (\<lambda>e. te_state e = E_PRODUCT_SCOPE_PAUSED) es
   + count_if (\<lambda>e. te_state e = E_TERMINAL) es + count_if (\<lambda>e. te_state e = E_ALREADY_ACTIVE) es
   + count_if (\<lambda>e. te_state e = E_BLOCKED) es + count_if (\<lambda>e. te_state e = E_BLOCKED_EXTERNAL) es = int (length es)"
proof (induction es)
  case (Cons e es)
  then show ?case by (cases "te_state e") (simp_all add: count_if_def)
qed (simp add: count_if_def)

section \<open>Facts\<close>

abbreviation issues_by_id :: "Repository \<Rightarrow> (string, Issue) dict" where
  "issues_by_id repo \<equiv> dict_of (map (\<lambda>i. (is_local_id i, i)) (repo_issues repo))"

abbreviation requirements_by_id :: "Repository \<Rightarrow> (string, Requirement) dict" where
  "requirements_by_id repo \<equiv> dict_of (map (\<lambda>r. (rq_requirement_id r, r)) (repo_requirements repo))"

definition requirement_complete :: "Requirement \<Rightarrow> bool" where
  "requirement_complete r \<longleftrightarrow> is_one_of (rq_implementation_state r) COMPLETE_REQUIREMENT_STATES"

definition in_scope :: "Repository \<Rightarrow> string \<Rightarrow> bool" where
  "in_scope repo task_id \<longleftrightarrow> task_id \<in> set (fst (snd (selection_scope repo)))"

text \<open>What admits a task to the selection.\<close>

definition converging :: "Repository \<Rightarrow> string \<Rightarrow> bool" where
  "converging repo task_id \<longleftrightarrow>
     predecessors_accepted (issues_by_id repo)
     \<and> (\<exists>i. issue_of (issues_by_id repo) task_id = Some i
          \<and> (\<exists>r \<in> set (linked_requirements (requirements_by_id repo) i).
               rq_disposition r = Some ''ACCEPTED'' \<and> \<not> requirement_complete r))"

definition selected :: "Repository \<Rightarrow> string \<Rightarrow> bool" where
  "selected repo task_id \<longleftrightarrow>
     fst (selection_scope repo) \<in> set PRODUCT_SELECTION_BOUNDED_MODES \<and> fst (snd (selection_scope repo)) \<noteq> []
     \<and> (in_scope repo task_id \<or> task_id \<in> set CYCLE_OWNED_VALIDATION_JOBS \<or> converging repo task_id)"

lemma selection_bounded:
  "snd (snd (selection_scope repo)) \<longleftrightarrow>
     \<not> (fst (selection_scope repo) \<in> set PRODUCT_SELECTION_BOUNDED_MODES \<and> fst (snd (selection_scope repo)) \<noteq> [])"
  by (auto simp: selection_scope_def Let_def split: option.splits)

text \<open>What every fact of a project satisfies, whatever the repository holds.\<close>

definition fact_ok :: "Repository \<Rightarrow> string \<Rightarrow> TaskStateRecord list \<Rightarrow> TaskControlFact \<Rightarrow> bool" where
  "fact_ok repo project_id states f \<longleftrightarrow>
     valid_TaskControlFact f \<and> tf_project_id f = project_id
     \<and> (tf_reconciliation_required f \<longrightarrow> \<not> tf_remote_readback_required f)
     \<and> (tf_product_scope_allowed f \<longrightarrow> selected repo (tf_task_id f))
     \<and> (\<exists>st \<in> set states. ts_task_id st = tf_task_id f \<and> (tf_state f = ts_state st \<or> tf_state f \<in> {T_DONE, T_CANCELLED}))"

lemma task_fact_ok:
  assumes "task_fact repo pid (requirements_by_id repo) scope fc (predecessors_accepted (issues_by_id repo) \<and> \<not> fc) st i = Inr f"
    "selection_scope repo = (mode, scope, fc)" "st \<in> set states" "issue_of (issues_by_id repo) (ts_task_id st) = Some i"
  shows "fact_ok repo pid states f"
proof -
  have "selected repo (ts_task_id st)"
    if "\<not> fc" "ts_task_id st \<in> set scope \<or> ts_task_id st \<in> set CYCLE_OWNED_VALIDATION_JOBS
        \<or> completion_convergence_allowed i (requirements_by_id repo) (predecessors_accepted (issues_by_id repo) \<and> \<not> fc)"
    using that selection_bounded [of repo] assms(2,4)
    by (auto simp: selected_def in_scope_def converging_def completion_convergence_allowed_def list_ex_iff requirement_complete_def)
  then show ?thesis using assms(1,3)
    by (auto simp: task_fact_def Let_def make_TaskControlFact_def fact_ok_def lifecycle_of_def split: if_splits)
qed

lemma task_facts_ok:
  assumes "task_facts repo s pid = Inr facts" "list_task_states s pid = Inr states"
  shows "\<forall>f \<in> set facts. fact_ok repo pid states f" "sort_key tf_task_id facts = facts"
proof -
  obtain mode scope fc where sel: "selection_scope repo = (mode, scope, fc)" by (cases "selection_scope repo")
  let ?known = "List.map_filter (\<lambda>st. map_option (Pair st) (issue_of (issues_by_id repo) (ts_task_id st))) states"
  let ?fact = "task_fact repo pid (requirements_by_id repo) scope fc (predecessors_accepted (issues_by_id repo) \<and> \<not> fc)"
  obtain fs where fs: "map_res (\<lambda>(st, i). ?fact st i) ?known = Inr fs" and facts: "facts = sort_key tf_task_id fs"
    using assms by (auto simp: task_facts_def Let_def sel)
  show "sort_key tf_task_id facts = facts" unfolding facts by (simp add: sort_key_id_if_sorted)
  show "\<forall>f \<in> set facts. fact_ok repo pid states f"
  proof
    fix f assume "f \<in> set facts"
    then have "f \<in> set fs" by (simp add: facts)
    then obtain st i where "(st, i) \<in> set ?known" "?fact st i = Inr f" using map_res_set [OF fs] by fastforce
    moreover from this(1) have "st \<in> set states" "issue_of (issues_by_id repo) (ts_task_id st) = Some i"
      by (auto simp: List.map_filter_def)
    ultimately show "fact_ok repo pid states f" by (intro task_fact_ok [OF _ sel])
  qed
qed

lemma task_facts_states:
  "task_facts repo s pid = Inr facts \<Longrightarrow> \<exists>states. list_task_states s pid = Inr states"
  by (auto simp: task_facts_def Let_def)

lemma fact_ok_valid: "fact_ok repo pid states f \<Longrightarrow> valid_TaskControlFact f"
  by (simp add: fact_ok_def)

section \<open>Cohorts\<close>

lemma summarize_total:
  "\<exists>c. summarize_control_cohorts facts es rs = Inr c
     \<and> cc_total_work_items c = int (length facts)
     \<and> cc_reconciliation_facts c = int (length (reconciliation_facts facts))
     \<and> cc_reconciliation_facts c = cc_leaf_reconciliation_facts c + cc_structural_container_facts c
     \<and> cc_leaf_reconciliation_facts c = count_if (\<lambda>f. \<not> is_structural_container f) (reconciliation_facts facts)
     \<and> cc_eligibility_reconciliation c = count_if (\<lambda>e. te_state e = E_RECONCILIATION_REQUIRED) es
     \<and> cc_eligibility_eligible c = count_if (\<lambda>e. te_state e = E_ELIGIBLE) es
     \<and> cc_dependency_ready c = count_if (\<lambda>r. td_state r = R_READY) rs
     \<and> cc_eligibility_reconciliation c + cc_eligibility_eligible c + cc_eligibility_policy_denied c
       + cc_eligibility_product_scope_paused c + cc_eligibility_terminal c + cc_eligibility_already_active c
       + cc_eligibility_blocked c + cc_eligibility_blocked_external c = int (length es)"
  using sum_length_filter_compl [of is_structural_container "reconciliation_facts facts"]
    length_filter_le [of is_structural_container "reconciliation_facts facts"] eligibility_classes [of es]
  by (simp add: summarize_control_cohorts_def Let_def make_ControlCohortCounts_def valid_ControlCohortCounts_def
      count_if_def flip: of_nat_add)

lemma eligibility_reconciliation:
  assumes "eligibility f = Inr e"
  shows "te_state e = E_RECONCILIATION_REQUIRED \<longleftrightarrow>
     tf_issue_type f \<noteq> ''EPIC'' \<and> tf_state f \<notin> set TERMINAL_STATES \<and> \<not> tf_remote_readback_required f
     \<and> tf_reconciliation_required f"
  using assms
  by (auto simp: eligibility_def not_eligible_def make_TaskEligibility_def split: if_splits)

lemma task_ready_admissible: "task_ready facts f \<Longrightarrow> admissible f"
  by (simp add: task_ready_def)

section \<open>The run of an evaluation\<close>

lemma scope_reconciliation_total:
  assumes "is_project_id pid"
  shows "\<exists>r. scope_reconciliation repo pid = Inr r"
proof -
  let ?reqs = "dict_of (map (\<lambda>r. (rq_requirement_id r, r)) (repo_requirements repo))"
  let ?raised = "concat (map requirement_findings (repo_requirements repo))
     @ concat (map (issue_findings ?reqs (map is_local_id (repo_issues repo))) (repo_issues repo))"
  have "make_ScopeFinding f = Inr f" if "f \<in> set ?raised" for f
    using that
    by (auto simp: requirement_findings_def issue_findings_def finding_def make_ScopeFinding_def split: if_splits)
  then have made: "map_res make_ScopeFinding ?raised = Inr ?raised" using map_res_total [of ?raised make_ScopeFinding id] by simp
  define fp where "fp = semantic_fingerprint (JList (map dump_finding (sort_key (\<lambda>f. (scope_kind_value (sf_kind f),
     sf_subject_id f, case sf_related_id f of None \<Rightarrow> [] | Some r \<Rightarrow> r)) ?raised)))"
  have fp: "is_sha256_hex fp" "py_strip fp \<noteq> []"
    by (simp_all add: fp_def semantic_fingerprint_format) (simp add: semantic_fingerprint_def)
  then obtain v where "control_identifier ''SCOPE'' [pid, fp] = Inr v" "fullmatch control_id_rx v" "startswith v ''SCOPE-''"
    using control_identifier_valid [of "''SCOPE''" "[pid, fp]"] assms pattern_not_blank by auto
  then show ?thesis
    unfolding scope_reconciliation_def Let_def made res_bind_simps fp_def [symmetric] using assms fp
    by (simp add: make_ScopeReconciliationReport_def)
qed

lemma completion_value_not_blank: "py_strip (completion_value st) \<noteq> []"
  by (cases st; hypsubst; code_simp)

lemma completion_projection_total:
  assumes pid: "is_project_id pid" and states: "list_task_states s pid = Inr states"
    and el: "length es = length facts" and count: "0 \<le> bq_ready_count seq"
    and co: "summarize_control_cohorts facts es rs = Inr cohorts"
    and c_def: "c = completion_counts_of repo states rs"
  shows "\<exists>p. completion_projection dg repo s pid seq rs es (Some facts) = Inr p
     \<and> (cp_state p, cp_reasons p) = completion_state repo c (bq_ready_count seq) cohorts
     \<and> cp_cohorts p = cohorts \<and> \<not> cp_final_completion_gate_satisfied p
     \<and> (cp_verification_eligible p \<longleftrightarrow> cp_state p = CP_READY_FOR_COMPLETION_GATE)
     \<and> cp_ready_work_items p = bq_ready_count seq \<and> cp_total_work_items p = int (length states)"
proof -
  have e: "eligibility_or_recompute dg es facts = Inr es" using el by (cases facts) (auto simp: eligibility_or_recompute_def)
  obtain st reasons where st: "completion_state repo c (bq_ready_count seq) cohorts = (st, reasons)"
    by (cases "completion_state repo c (bq_ready_count seq) cohorts")
  let ?parts = "[pid, str_int (ct_total c), str_int (ct_completed c), str_int (ct_req_complete c), completion_value st]"
  have "list_all (\<lambda>s. py_strip s \<noteq> []) ?parts"
    using pid pattern_not_blank completion_value_not_blank by auto
  then obtain v where v: "control_identifier ''COMPLETE'' ?parts = Inr v" "fullmatch control_id_rx v" "startswith v ''COMPLETE-''"
    using control_identifier_valid [of "''COMPLETE''" ?parts] by auto
  have n: "0 \<le> ct_total c" "0 \<le> ct_completed c" "0 \<le> ct_active c" "0 \<le> ct_blocked c" "0 \<le> ct_failed c"
    "0 \<le> ct_requirements c" "0 \<le> ct_req_complete c" "ct_total c = int (length states)"
    by (simp_all add: c_def completion_counts_of_def Let_def split_beta)
  show ?thesis
    unfolding completion_projection_def states option.case res_bind_simps e co Let_def c_def [symmetric] st prod.case v(1)
    using n v(2,3) pid count by (simp add: make_CompletionProjection_def)
qed

lemma assert_cohorts_pass:
  assumes ok: "\<forall>f \<in> set facts. fact_ok repo pid states f"
    and el: "\<forall>f \<in> set facts. eligibility f = Inr (el f)"
    and rd: "\<forall>f \<in> set facts. td_state (rd f) = R_READY \<longrightarrow> te_state (el f) = E_ELIGIBLE"
    and co: "summarize_control_cohorts facts (map el facts) (map rd facts) = Inr c"
  shows "assert_cohort_invariants facts (map el facts) (map rd facts) c = Inr ()"
    "cc_eligibility_reconciliation c = cc_leaf_reconciliation_facts c"
proof -
  note t = summarize_total [of facts "map el facts" "map rd facts", unfolded co sum.inject ex_simps(6) simp_thms(39,40)]
  have rec: "te_state (el f) = E_RECONCILIATION_REQUIRED \<longleftrightarrow>
      (tf_reconciliation_required f \<and> tf_state f \<notin> set TERMINAL_STATES) \<and> \<not> is_structural_container f"
    if "f \<in> set facts" for f
    using eligibility_reconciliation [of f "el f"] el ok that by (auto simp: is_structural_container_def fact_ok_def)
  have "cc_eligibility_reconciliation c = count_if (\<lambda>f. te_state (el f) = E_RECONCILIATION_REQUIRED) facts"
    using t by (simp add: count_if_map)
  also have "\<dots> = count_if (\<lambda>f. \<not> is_structural_container f) (reconciliation_facts facts)"
    unfolding reconciliation_facts_def count_if_def filter_filter using rec
    by (intro arg_cong [of _ _ "\<lambda>xs. int (length xs)"] filter_cong) auto
  finally show leaf: "cc_eligibility_reconciliation c = cc_leaf_reconciliation_facts c" using t by simp
  have "0 \<le> cc_structural_container_facts c"
    using co by (auto simp: summarize_control_cohorts_def Let_def make_ControlCohortCounts_def split: if_splits)
  moreover have "cc_dependency_ready c \<le> cc_eligibility_eligible c"
    using t rd count_if_mono [of facts "\<lambda>f. td_state (rd f) = R_READY" "\<lambda>f. te_state (el f) = E_ELIGIBLE"]
    by (simp add: count_if_map)
  ultimately show "assert_cohort_invariants facts (map el facts) (map rd facts) c = Inr ()"
    using t leaf by (simp add: assert_cohort_invariants_def co)
qed

text \<open>What the sequencer answers for the facts of a project.\<close>

lemma sequencer_answers:
  assumes nx: "nx_digraph dg" and sq: "init_BuildSequencer dg facts = Inr sq"
    and sorted: "sort_key tf_task_id facts = facts" and valid: "\<forall>f \<in> set facts. valid_TaskControlFact f"
  obtains seq el rd where "build_sequence isoformat dg sq now = Inr seq"
    "bq_ready_count seq = count_if (task_ready facts) facts"
    "map_res eligibility facts = Inr (map el facts)" "map_res (readiness sq) facts = Inr (map rd facts)"
    "\<forall>f \<in> set facts. eligibility f = Inr (el f) \<and> (te_state (el f) = E_ELIGIBLE \<longleftrightarrow> admissible f)"
    "\<forall>f \<in> set facts. td_task_id (rd f) = tf_task_id f \<and> (td_ready (rd f) \<longleftrightarrow> task_ready facts f)
       \<and> (td_state (rd f) = R_READY \<longleftrightarrow> task_ready facts f)"
proof -
  note ok = nx_digraph.init_ok [OF nx sq, unfolded sorted]
  have validq: "\<forall>f \<in> set (sq_facts sq). valid_TaskControlFact f" using valid ok(2) by simp
  obtain seq where seq: "build_sequence isoformat dg sq now = Inr seq" "bq_ready_count seq = int (length (ready_facts sq))"
    by (rule nx_digraph.build_sequence_run [OF nx ok(1) validq init_project_id [OF sq valid]])
  have count: "bq_ready_count seq = count_if (task_ready facts) facts"
    using seq(2) ok(2) by (simp add: ready_facts_def count_if_def)
  define el where "el f = projr (eligibility f)" for f
  define rd where "rd f = projr (readiness sq f)" for f
  have el: "eligibility f = Inr (el f)" "te_state (el f) = E_ELIGIBLE \<longleftrightarrow> admissible f" if "f \<in> set facts" for f
    using eligibility_total [of f] valid that by (auto simp: el_def valid_TaskControlFact_def)
  have rd: "readiness sq f = Inr (rd f)" "td_task_id (rd f) = tf_task_id f" "td_ready (rd f) \<longleftrightarrow> task_ready facts f"
    "td_state (rd f) = R_READY \<longleftrightarrow> task_ready facts f" if "f \<in> set facts" for f
    using readiness_total [OF ok(1), of f] valid that ok(2) by (auto simp: rd_def valid_TaskControlFact_def)
  show thesis
    by (rule that [OF seq(1) count map_res_total map_res_total]) (use el rd in auto)
qed

text \<open>
  The run of \<open>evaluate\<close> once facts and graph are accepted: nothing fails, and the snapshot
  holds the eligibility and the readiness of every fact in the order of the facts.
\<close>

lemma evaluate_run:
  assumes nx: "nx_digraph dg" and pid: "is_project_id pid" and facts: "task_facts repo s pid = Inr facts"
    and states: "list_task_states s pid = Inr states" and sq: "init_BuildSequencer dg facts = Inr sq"
  obtains snap el rd cohorts where "evaluate isoformat dg repo s pid now = Inr snap"
    "make_ControlSnapshot snap = Inr snap" "cs_project_id snap = pid" "build_sequence isoformat dg sq now = Inr (cs_sequence snap)"
    "cs_eligibility snap = map el facts" "cs_readiness snap = map rd facts"
    "\<forall>f \<in> set facts. eligibility f = Inr (el f)"
    "\<forall>f \<in> set facts. td_task_id (rd f) = tf_task_id f \<and> (td_ready (rd f) \<longleftrightarrow> task_ready facts f)
       \<and> (td_state (rd f) = R_READY \<longleftrightarrow> task_ready facts f)"
    "cp_cohorts (cs_completion snap) = cohorts"
    "summarize_control_cohorts facts (map el facts) (map rd facts) = Inr cohorts"
    "cc_eligibility_reconciliation cohorts = cc_leaf_reconciliation_facts cohorts"
    "(cp_state (cs_completion snap), cp_reasons (cs_completion snap)) =
       completion_state repo (completion_counts_of repo states (map rd facts)) (count_if (task_ready facts) facts) cohorts"
    "\<not> cp_final_completion_gate_satisfied (cs_completion snap)"
    "cp_verification_eligible (cs_completion snap) \<longleftrightarrow> cp_state (cs_completion snap) = CP_READY_FOR_COMPLETION_GATE"
    "cp_ready_work_items (cs_completion snap) = count_if (task_ready facts) facts"
    "cp_total_work_items (cs_completion snap) = int (length states)"
proof -
  note fok = task_facts_ok [OF facts states]
  have valid: "\<forall>f \<in> set facts. valid_TaskControlFact f" using fok(1) fact_ok_valid by blast
  obtain seq el rd where seq: "build_sequence isoformat dg sq now = Inr seq"
      "bq_ready_count seq = count_if (task_ready facts) facts"
    and maps: "map_res eligibility facts = Inr (map el facts)" "map_res (readiness sq) facts = Inr (map rd facts)"
    and el: "\<forall>f \<in> set facts. eligibility f = Inr (el f) \<and> (te_state (el f) = E_ELIGIBLE \<longleftrightarrow> admissible f)"
    and rd: "\<forall>f \<in> set facts. td_task_id (rd f) = tf_task_id f \<and> (td_ready (rd f) \<longleftrightarrow> task_ready facts f)
       \<and> (td_state (rd f) = R_READY \<longleftrightarrow> task_ready facts f)"
    by (rule sequencer_answers [OF nx sq fok(2) valid])
  obtain c where co: "summarize_control_cohorts facts (map el facts) (map rd facts) = Inr c" using summarize_total by blast
  have e1: "\<forall>f \<in> set facts. eligibility f = Inr (el f)" using el by blast
  have "\<forall>f \<in> set facts. td_state (rd f) = R_READY \<longrightarrow> te_state (el f) = E_ELIGIBLE" using el rd task_ready_admissible by blast
  note pass = assert_cohorts_pass [OF fok(1) e1 this co]
  obtain scope where scope: "scope_reconciliation repo pid = Inr scope" using scope_reconciliation_total [OF pid] by blast
  have "length (map el facts) = length facts" "0 \<le> bq_ready_count seq" by (simp_all add: seq(2))
  from completion_projection_total [OF pid states this co refl, of dg repo]
  obtain p where p: "completion_projection dg repo s pid seq (map rd facts) (map el facts) (Some facts) = Inr p" "cp_cohorts p = c"
    and cp: "(cp_state p, cp_reasons p) = completion_state repo (completion_counts_of repo states (map rd facts)) (bq_ready_count seq) c"
      "\<not> cp_final_completion_gate_satisfied p" "cp_verification_eligible p \<longleftrightarrow> cp_state p = CP_READY_FOR_COMPLETION_GATE"
      "cp_ready_work_items p = bq_ready_count seq" "cp_total_work_items p = int (length states)" by blast
  define fp where "fp = semantic_fingerprint (JObj
             [(''sequence_id'', JStr (bq_sequence_id seq)), (''graph_fingerprint'', JStr (bq_graph_fingerprint seq)),
              (''scope_report_id'', JStr (sx_report_id scope)),
              (''completion_projection_id'', JStr (cp_projection_id p)),
              (''eligibility'', JList (map dump_eligibility (map el facts))), (''readiness'', JList (map dump_readiness (map rd facts)))])"
  have fp: "is_sha256_hex fp" "py_strip fp \<noteq> []" by (simp add: fp_def) (simp add: fp_def semantic_fingerprint_def)
  then obtain v where v: "control_identifier ''CTRL'' [pid, fp] = Inr v" "fullmatch control_id_rx v" "startswith v ''CTRL-''"
    using control_identifier_valid [of "''CTRL''" "[pid, fp]"] pid pattern_not_blank by auto
  have "\<exists>snap. evaluate isoformat dg repo s pid now = Inr snap \<and> cs_eligibility snap = map el facts
      \<and> cs_readiness snap = map rd facts \<and> cs_completion snap = p \<and> make_ControlSnapshot snap = Inr snap
      \<and> cs_project_id snap = pid \<and> cs_sequence snap = seq"
    unfolding evaluate_def facts sq seq(1) maps scope p(1) res_bind_simps p(2) pass(1) Let_def fp_def [symmetric] v(1)
    using v fp pid by (simp add: make_ControlSnapshot_def)
  then show thesis
    by (elim exE conjE, intro that) (assumption | (simp add: e1 rd p(2) co pass(2) seq(1) cp [unfolded seq(2)]; fail))+
qed

section \<open>Completion\<close>

definition paused :: "Repository \<Rightarrow> bool" where
  "paused repo \<longleftrightarrow> fst (selection_scope repo) = ''PAUSED_PENDING_INDEPENDENT_PRODUCT_MODEL_AUDIT''"

lemma ordinary_ready_zero:
  assumes "distinct (map tf_task_id facts)"
    and "\<forall>f \<in> set facts. td_task_id (rd f) = tf_task_id f \<and> (td_ready (rd f) \<longleftrightarrow> task_ready facts f)"
  shows "ct_ordinary_ready (completion_counts_of repo states (map rd facts)) = 0 \<longleftrightarrow>
     (\<forall>f \<in> set facts. task_ready facts f \<longrightarrow> in_scope repo (tf_task_id f))"
proof -
  let ?kv = "map (\<lambda>r. (td_task_id r, r)) (map rd facts)"
  have "map fst ?kv = map tf_task_id facts" using assms(2) by simp
  then have "dict_of ?kv = ?kv" using assms(1) by (intro dict_of_distinct) (simp only:)
  then show ?thesis using assms(2)
    by (auto simp: completion_counts_of_def Let_def split_beta count_if_zero in_scope_def)
qed

lemma counts_meaning:
  fixes states rs repo
  defines "c \<equiv> completion_counts_of repo states rs"
  shows "ct_failed c = 0 \<longleftrightarrow> (\<forall>t \<in> set states. ts_state t \<noteq> T_FAILED)"
    "ct_blocked c = 0 \<longleftrightarrow> (\<forall>t \<in> set states. ts_state t \<noteq> T_BLOCKED)"
    "ct_active c = 0 \<longleftrightarrow> (\<forall>t \<in> set states. ts_state t \<notin> set ACTIVE_STATES)"
    "ct_ordinary_active c = 0 \<longleftrightarrow> (\<forall>t \<in> set states. ts_state t \<in> set ACTIVE_STATES \<longrightarrow> in_scope repo (ts_task_id t))"
    "all_work_terminal c \<longleftrightarrow> states \<noteq> [] \<and> (\<forall>t \<in> set states. ts_state t \<in> set TERMINAL_STATES)"
    "all_requirements_complete repo c \<longleftrightarrow> repo_catalog_present repo \<and> accepted_requirements repo \<noteq> []
       \<and> (\<forall>r \<in> set (accepted_requirements repo). requirement_complete r)"
  by (auto simp: c_def completion_counts_of_def Let_def split_beta count_if_zero count_if_all in_scope_def
      all_work_terminal_def all_requirements_complete_def requirement_complete_def)

lemma completion_reasons: "snd (completion_state repo c n cohorts) \<noteq> []"
  by (auto simp: completion_state_def incomplete_reasons_def)

lemma completion_state_exact:
  assumes "all_work_terminal c \<longrightarrow> ct_failed c = 0 \<and> ct_blocked c = 0 \<and> ct_ordinary_active c = 0 \<and> ct_ordinary_ready c = 0"
    and "ct_active c = 0 \<longrightarrow> ct_ordinary_active c = 0" and "n = 0 \<longrightarrow> ct_ordinary_ready c = 0"
  shows "fst (completion_state repo c n co) = CP_READY_FOR_COMPLETION_GATE \<longleftrightarrow>
       all_work_terminal c \<and> all_requirements_complete repo c"
    "fst (completion_state repo c n co) = CP_FAILED \<longleftrightarrow>
       ct_failed c \<noteq> 0 \<or> paused repo \<and> (ct_ordinary_active c \<noteq> 0 \<or> ct_ordinary_ready c \<noteq> 0)"
    "fst (completion_state repo c n co) = CP_BLOCKED \<longleftrightarrow>
       ct_blocked c \<noteq> 0 \<and> ct_failed c = 0 \<and> ct_active c = 0 \<and> n = 0 \<and> cc_reconciliation_facts co = 0"
  using assms by (auto simp: completion_state_def paused_def)

lemma terminal_not_ready:
  assumes "\<forall>f \<in> set facts. fact_ok repo pid states f" "\<forall>t \<in> set states. ts_state t \<in> set TERMINAL_STATES" "f \<in> set facts"
  shows "\<not> task_ready facts f"
  using assms by (fastforce simp: task_ready_def admissible_def fact_ok_def TERMINAL_STATES_def)

lemma completion_state_meaning:
  assumes ok: "\<forall>f \<in> set facts. fact_ok repo pid states f" and dist: "distinct (map tf_task_id facts)"
    and rd: "\<forall>f \<in> set facts. td_task_id (rd f) = tf_task_id f \<and> (td_ready (rd f) \<longleftrightarrow> task_ready facts f)"
    and rec: "cc_reconciliation_facts co = int (length (reconciliation_facts facts))"
    and st: "st = fst (completion_state repo (completion_counts_of repo states (map rd facts)) (count_if (task_ready facts) facts) co)"
  shows "st = CP_READY_FOR_COMPLETION_GATE \<longleftrightarrow>
       states \<noteq> [] \<and> (\<forall>t \<in> set states. ts_state t \<in> {T_DONE, T_CANCELLED})
       \<and> repo_catalog_present repo \<and> accepted_requirements repo \<noteq> []
       \<and> (\<forall>r \<in> set (accepted_requirements repo). requirement_complete r)"
    "st = CP_FAILED \<longleftrightarrow>
       (\<exists>t \<in> set states. ts_state t = T_FAILED)
       \<or> paused repo \<and> ((\<exists>t \<in> set states. ts_state t \<in> set ACTIVE_STATES \<and> \<not> in_scope repo (ts_task_id t))
                        \<or> (\<exists>f \<in> set facts. task_ready facts f \<and> \<not> in_scope repo (tf_task_id f)))"
    "st = CP_BLOCKED \<longleftrightarrow>
       (\<exists>t \<in> set states. ts_state t = T_BLOCKED)
       \<and> (\<forall>t \<in> set states. ts_state t \<noteq> T_FAILED \<and> ts_state t \<notin> set ACTIVE_STATES)
       \<and> (\<forall>f \<in> set facts. \<not> task_ready facts f) \<and> reconciliation_facts facts = []"
proof -
  let ?c = "completion_counts_of repo states (map rd facts)"
  note meaning = counts_meaning [of repo states "map rd facts"] ordinary_ready_zero [OF dist rd] count_if_zero
  have idle: "ct_active ?c = 0 \<longrightarrow> ct_ordinary_active ?c = 0" unfolding meaning by blast
  have unready: "count_if (task_ready facts) facts = 0 \<longrightarrow> ct_ordinary_ready ?c = 0" unfolding meaning by blast
  have over: "all_work_terminal ?c \<longrightarrow>
      ct_failed ?c = 0 \<and> ct_blocked ?c = 0 \<and> ct_ordinary_active ?c = 0 \<and> ct_ordinary_ready ?c = 0"
    using terminal_not_ready [OF ok] unfolding meaning by (auto simp: TERMINAL_STATES_def ACTIVE_STATES_def)
  note exact = completion_state_exact [where repo = repo and co = co, OF over idle unready]
  have rec0: "cc_reconciliation_facts co = 0 \<longleftrightarrow> reconciliation_facts facts = []" by (simp add: rec)
  show "st = CP_READY_FOR_COMPLETION_GATE \<longleftrightarrow>
       states \<noteq> [] \<and> (\<forall>t \<in> set states. ts_state t \<in> {T_DONE, T_CANCELLED})
       \<and> repo_catalog_present repo \<and> accepted_requirements repo \<noteq> []
       \<and> (\<forall>r \<in> set (accepted_requirements repo). requirement_complete r)"
    unfolding st exact meaning by (simp add: TERMINAL_STATES_def)
  show "st = CP_FAILED \<longleftrightarrow>
       (\<exists>t \<in> set states. ts_state t = T_FAILED)
       \<or> paused repo \<and> ((\<exists>t \<in> set states. ts_state t \<in> set ACTIVE_STATES \<and> \<not> in_scope repo (ts_task_id t))
                        \<or> (\<exists>f \<in> set facts. task_ready facts f \<and> \<not> in_scope repo (tf_task_id f)))"
    unfolding st exact meaning by blast
  show "st = CP_BLOCKED \<longleftrightarrow>
       (\<exists>t \<in> set states. ts_state t = T_BLOCKED)
       \<and> (\<forall>t \<in> set states. ts_state t \<noteq> T_FAILED \<and> ts_state t \<notin> set ACTIVE_STATES)
       \<and> (\<forall>f \<in> set facts. \<not> task_ready facts f) \<and> reconciliation_facts facts = []"
    unfolding st exact meaning rec0 by blast
qed

section \<open>Transitions to READY\<close>

text \<open>Every stored task row lies under its own identifier and belongs to a stored project.\<close>

definition rows_keyed :: "StateStore \<Rightarrow> bool" where
  "rows_keyed s \<longleftrightarrow> (\<forall>(k, r) \<in> set (st_task_states s). ts_task_id r = k \<and> ts_project_id r \<in> dom (map_of (st_projects s)))"

lemma insert_task_keyed: "insert_task s t = Inr s' \<Longrightarrow> rows_keyed s \<Longrightarrow> rows_keyed s'"
  by (auto simp: insert_task_def rows_keyed_def update_append_new dom_def split: if_splits dest!: map_of_eq_None_iff [THEN iffD1])

lemma put_task_states_keyed: "rows_keyed s \<Longrightarrow> rows_keyed (fst (put_task_states ts s))"
proof (cases "fold_res insert_task s ts")
  case (Inr s')
  then show "rows_keyed s \<Longrightarrow> rows_keyed (fst (put_task_states ts s))"
    using fold_res_invariant [OF Inr, of rows_keyed] insert_task_keyed by (simp add: put_task_states_def transaction_def)
qed (simp add: put_task_states_def transaction_def)

lemma put_manifest_keyed: "rows_keyed s \<Longrightarrow> rows_keyed (fst (put_project_manifest m s))"
  by (auto simp: put_project_manifest_def put_manifest_body_def transaction_def rows_keyed_def Let_def update_conv' dom_def)

lemma transition_project_keyed: "rows_keyed s \<Longrightarrow> rows_keyed (fst (transition_project now k pn ev reason actor corr br s))"
  by (cases rule: transition_project_cases [of now k pn ev reason actor corr br s])
     (auto elim!: transition_project_body_Inr simp: rows_keyed_def)

lemma update_where_all:
  assumes "\<forall>(k, r) \<in> set rows. P k r" "\<And>k r. P k r \<Longrightarrow> P k (f r)"
  shows "\<forall>(k, r) \<in> set (fst (update_where ver key v f rows)). P k r"
  using assms by (auto simp: update_where_def split: if_splits)

lemma transition_task_keyed:
  assumes "rows_keyed s"
  shows "rows_keyed (fst (transition_task now k tn ev reason actor corr br own s))"
proof (cases rule: transition_task_cases [of now k tn ev reason actor corr br own s])
  case (committed s')
  have keep: "rows_keyed (s\<lparr>st_task_states := fst (update_where ver key v f (st_task_states s)), st_transitions := ts\<rparr>)"
    if "\<And>r. ts_task_id (f r) = ts_task_id r \<and> ts_project_id (f r) = ts_project_id r" for ver key v f ts
  proof -
    have "\<forall>(k, r) \<in> set (fst (update_where ver key v f (st_task_states s))).
        ts_task_id r = k \<and> ts_project_id r \<in> dom (map_of (st_projects s))"
      using assms that by (intro update_where_all) (auto simp: rows_keyed_def)
    then show ?thesis by (simp add: rows_keyed_def)
  qed
  have "rows_keyed s'"
    by (rule transition_task_body_Inr [OF committed(1)]) (simp only:, rule keep, simp)
  then show ?thesis by (simp only: committed(2))
qed (simp add: assms)

lemma store_reachable_keyed: "store_reachable s \<Longrightarrow> rows_keyed s"
proof (induction rule: store_reachable.induct)
  case (reach_step s s')
  from reach_step.hyps(2) reach_step.IH show ?case
    by (cases rule: store_step.cases)
       (auto intro: put_manifest_keyed put_task_states_keyed transition_project_keyed transition_task_keyed)
qed (simp add: rows_keyed_def empty_store_def)

lemma listed_row:
  assumes "rows_keyed s" "list_task_states s pid = Inr states" "t \<in> set states"
  shows "map_of (st_task_states s) (ts_task_id t) = Some t" "valid_TaskStateRecord t"
    "ts_project_id t \<in> dom (map_of (st_projects s))"
proof -
  obtain rs k where "Some t \<in> set rs" "get_task_state s k = Inr (Some t)"
    using assms(2,3) by (auto simp: list_task_states_def List.map_filter_def dest!: map_res_set)
  then have row: "map_of (st_task_states s) k = Some t" "valid_TaskStateRecord t"
    by (auto simp: get_task_state_def make_TaskStateRecord_def split: option.splits if_splits)
  then have "ts_task_id t = k \<and> ts_project_id t \<in> dom (map_of (st_projects s))"
    using assms(1) map_of_SomeD [OF row(1)] by (auto simp: rows_keyed_def)
  then show "map_of (st_task_states s) (ts_task_id t) = Some t" "valid_TaskStateRecord t"
    "ts_project_id t \<in> dom (map_of (st_projects s))" using row by auto
qed

text \<open>A name the transition log accepts, and the row of a promoted task.\<close>

definition loggable :: "string \<Rightarrow> bool" where
  "loggable n \<longleftrightarrow> py_strip n \<noteq> [] \<and> 3 \<le> length n \<and> length n \<le> 191"

definition promoted :: "TaskStateRecord \<Rightarrow> TaskStateRecord \<Rightarrow> bool" where
  "promoted r r' \<longleftrightarrow>
     (\<exists>i t. r' = r\<lparr>ts_state := T_READY, ts_version := ts_version r + 1, ts_blocked_reason := None,
                  ts_last_transition_id := Some i, ts_updated_at_utc := Aware t\<rparr>)"

definition duplicate_transition :: py_error where
  "duplicate_transition = IntegrityError ''UNIQUE state_transitions.transition_id''"

lemma promote_row:
  assumes inv: "store_inv s" and row: "map_of (st_task_states s) k = Some row" "ts_state row = T_BACKLOG"
    and valid: "valid_TaskStateRecord row" "ts_task_id row = k" "ts_project_id row \<in> dom (map_of (st_projects s))"
    and names: "loggable actor" "loggable corr"
  shows "transition_task now k T_READY (ts_version row) READY_REASON actor corr None None s = (s, Inl duplicate_transition)
     \<or> (\<exists>s' r. transition_task now k T_READY (ts_version row) READY_REASON actor corr None None s = (s', Inr r))"
proof -
  have strips: "py_strip READY_REASON \<noteq> []" "py_strip ''BACKLOG'' \<noteq> []" "py_strip ''READY'' \<noteq> []"
    unfolding READY_REASON_def by code_simp+
  have len: "1 \<le> length READY_REASON" "length READY_REASON \<le> 2000" by (simp_all add: READY_REASON_def)
  have k: "py_strip k \<noteq> []" "1 \<le> ts_version row" using valid pattern_not_blank by (auto simp: valid_TaskStateRecord_def)
  obtain t where t: "create_transition now ''task'' k ''BACKLOG'' ''READY'' (ts_version row) READY_REASON actor corr = Inr t"
    using create_transition_ok [of "''task''" k "''BACKLOG''" "''READY''" "ts_version row" READY_REASON actor corr now]
      strips len k names by (simp add: loggable_def)
  have "distinct (map fst (st_task_states s))" using inv by (simp add: store_inv_def audited_tasks_def)
  note upd = update_where_map_of [where ver = ts_version, OF this row(1) refl]
  have reason: "falsy None" by (simp add: falsy_def)
  let ?f = "\<lambda>r. r\<lparr>ts_state := T_READY, ts_version := tr_resulting_version t, ts_owner_id := ts_owner_id row,
      ts_blocked_reason := None, ts_last_transition_id := Some (tr_transition_id t), ts_updated_at_utc := tr_occurred_at_utc t\<rparr>"
  let ?s = "s\<lparr>st_task_states := fst (update_where ts_version k (ts_version row) ?f (st_task_states s))\<rparr>"
  have body: "transition_task_body now k T_READY (ts_version row) READY_REASON actor corr None None s =
      res_bind (insert_transition (ts_project_id row) t ?s) (\<lambda>s'. Inr (s', ()))"
    unfolding transition_task_body_def using row t upd(2) reason
    by (simp add: ensure_task_transition_def split_beta Let_def)
  have ok: "valid_TaskStateRecord (?f row)"
    using valid(1) k(2) create_transition_fields [OF t] row(2) by (simp add: valid_TaskStateRecord_def max_length_def falsy_def)
  show ?thesis
  proof (cases "tr_transition_id t \<in> (\<lambda>(p, u). tr_transition_id u) ` set (st_transitions s)")
    case True
    then have "transition_task_body now k T_READY (ts_version row) READY_REASON actor corr None None s = Inl duplicate_transition"
      unfolding body by (simp add: insert_transition_def duplicate_transition_def)
    then show ?thesis by (simp add: transition_task_def transaction_def)
  next
    case False
    then have "transition_task_body now k T_READY (ts_version row) READY_REASON actor corr None None s =
        Inr (?s\<lparr>st_transitions := st_transitions s @ [(ts_project_id row, t)]\<rparr>, ())"
      unfolding body using valid(3) by (auto simp: insert_transition_def)
    then show ?thesis using upd(1) ok by (simp add: transition_task_def transaction_def get_task_state_def make_TaskStateRecord_def)
  qed
qed

text \<open>
  A batch of operations: the identifiers in \<open>moved\<close> are promoted, every other row is as before.
\<close>

definition promotes :: "StateStore \<Rightarrow> string list \<Rightarrow> StateStore \<Rightarrow> bool" where
  "promotes s moved s' \<longleftrightarrow>
     (\<forall>k. case map_of (st_task_states s) k of
            None \<Rightarrow> map_of (st_task_states s') k = None
          | Some r \<Rightarrow> (\<exists>r'. map_of (st_task_states s') k = Some r' \<and> (if k \<in> set moved then promoted r r' else r' = r)))"

definition operation_ok :: "StateStore \<Rightarrow> TransitionOperation \<Rightarrow> bool" where
  "operation_ok s p \<longleftrightarrow>
     (\<exists>r. map_of (st_task_states s) (op_task_id p) = Some r \<and> ts_state r = T_BACKLOG \<and> ts_version r = op_expected_version p
        \<and> valid_TaskStateRecord r \<and> ts_task_id r = op_task_id p \<and> ts_project_id r \<in> dom (map_of (st_projects s)))
     \<and> op_reason p = READY_REASON"

lemma promotes_refl: "promotes s [] s"
  by (auto simp: promotes_def split: option.split)

lemma promotes_step:
  assumes "map_of (st_task_states s) k = Some r" "promoted r r'" "k \<notin> set moved"
    and "map_of (st_task_states s1) = (map_of (st_task_states s))(k \<mapsto> r')" "promotes s1 moved s2"
  shows "promotes s (k # moved) s2"
  unfolding promotes_def
proof
  fix j
  show "case map_of (st_task_states s) j of
      None \<Rightarrow> map_of (st_task_states s2) j = None
    | Some r \<Rightarrow> (\<exists>r'. map_of (st_task_states s2) j = Some r' \<and> (if j \<in> set (k # moved) then promoted r r' else r' = r))"
    using assms(5) [unfolded promotes_def, THEN spec, of j] assms(1-4)
    by (cases "j = k") (auto split: option.splits)
qed

lemma operation_ok_frame:
  assumes "operation_ok s q" "op_task_id q \<noteq> k" "map_of (st_task_states s1) = (map_of (st_task_states s))(k \<mapsto> r)"
    "st_projects s1 = st_projects s"
  shows "operation_ok s1 q"
  using assms unfolding operation_ok_def by simp

lemma promote_success:
  assumes inv: "store_inv s" and r: "map_of (st_task_states s) k = Some r"
    and call: "transition_task now k T_READY ev reason actor corr None None s = (s1, Inr r1)"
  shows "map_of (st_task_states s1) = (map_of (st_task_states s))(k \<mapsto> r1)" "st_projects s1 = st_projects s" "promoted r r1"
proof -
  obtain row and t :: DomainStateTransition where row: "map_of (st_task_states s) k = Some row" "ts_version row = ev"
    and s1: "map_of (st_task_states s1) = (map_of (st_task_states s))(k \<mapsto> r1)"
    and r1: "r1 = row\<lparr>ts_state := T_READY, ts_version := ev + 1, ts_owner_id := (if None \<noteq> (None :: string option) then None else ts_owner_id row),
             ts_blocked_reason := None, ts_last_transition_id := Some (tr_transition_id t), ts_updated_at_utc := Aware now\<rparr>"
    and projects: "st_projects s1 = st_projects s"
    by (rule transition_task_success [OF inv call])
  have "row = r" using row(1) r by simp
  then have "r1 = r\<lparr>ts_state := T_READY, ts_version := ts_version r + 1, ts_blocked_reason := None,
      ts_last_transition_id := Some (tr_transition_id t), ts_updated_at_utc := Aware now\<rparr>" using row(2) by (simp add: r1)
  then show "promoted r r1" unfolding promoted_def by blast
  show "map_of (st_task_states s1) = (map_of (st_task_states s))(k \<mapsto> r1)" "st_projects s1 = st_projects s" by (fact s1 projects)+
qed

lemma apply_operations_run:
  assumes "store_inv s" "distinct (map op_task_id ops)" "\<forall>p \<in> set ops. operation_ok s p" "loggable actor" "loggable corr"
    "apply_operations clock actor corr i ops s = (s', res)"
  shows "\<exists>n \<le> length ops. promotes s (take n (map op_task_id ops)) s'
     \<and> (case res of Inr rs \<Rightarrow> n = length ops \<and> map ts_task_id rs = map op_task_id ops
                  | Inl e \<Rightarrow> n < length ops \<and> e = duplicate_transition)"
  using assms
proof (induction ops arbitrary: s i s' res)
  case Nil
  then show ?case by (auto simp: promotes_refl)
next
  case (Cons p ops)
  let ?k = "op_task_id p"
  obtain r where r: "map_of (st_task_states s) ?k = Some r" "ts_state r = T_BACKLOG" "ts_version r = op_expected_version p"
      "valid_TaskStateRecord r" "ts_task_id r = ?k" "ts_project_id r \<in> dom (map_of (st_projects s))" "op_reason p = READY_REASON"
    using Cons.prems(3) by (auto simp: operation_ok_def)
  let ?call = "transition_task (clock i) ?k T_READY (op_expected_version p) READY_REASON actor corr None None s"
  from promote_row [OF Cons.prems(1) r(1,2,4,5,6) Cons.prems(4,5), of "clock i"]
  consider "?call = (s, Inl duplicate_transition)" | (moved) s1 r1 where "?call = (s1, Inr r1)" unfolding r(3) by blast
  then show ?case
  proof cases
    case 1
    then have "s' = s" "res = Inl duplicate_transition" using Cons.prems(6) r(7) by auto
    then show ?thesis by (intro exI [of _ 0]) (simp add: promotes_refl)
  next
    case moved
    have s1: "map_of (st_task_states s1) = (map_of (st_task_states s))(?k \<mapsto> r1)" "st_projects s1 = st_projects s"
      and prom: "promoted r r1"
      using promote_success [OF Cons.prems(1) r(1) moved] by simp_all
    obtain rest where rest: "apply_operations clock actor corr (Suc i) ops s1 = (s', rest)"
      and res: "res = (case rest of Inl e \<Rightarrow> Inl e | Inr sts \<Rightarrow> Inr (r1 # sts))"
      using Cons.prems(6) moved r(7) by (auto split: prod.splits sum.splits)
    have "\<forall>q \<in> set ops. operation_ok s1 q"
      using Cons.prems(2,3) by (intro ballI operation_ok_frame [OF _ _ s1]) (auto simp: image_iff)
    moreover have "store_inv s1" using transition_task_inv [OF Cons.prems(1)] moved by (metis fst_conv)
    ultimately obtain n where n: "n \<le> length ops" "promotes s1 (take n (map op_task_id ops)) s'"
      "case rest of Inr rs \<Rightarrow> n = length ops \<and> map ts_task_id rs = map op_task_id ops
         | Inl e \<Rightarrow> n < length ops \<and> e = duplicate_transition"
      using Cons.IH [OF _ _ _ Cons.prems(4,5) rest] Cons.prems(2) by auto
    have "?k \<notin> set (take n (map op_task_id ops))" using Cons.prems(2) by (auto dest: in_set_takeD)
    note promotes_step [OF r(1) prom this s1(1) n(2)]
    moreover have "ts_task_id r1 = ?k" using r(5) prom by (auto simp: promoted_def)
    ultimately show ?thesis using n res by (intro exI [of _ "Suc n"]) (auto split: sum.splits)
  qed
qed

lemma states_by_id:
  assumes "rows_keyed s" "list_task_states s pid = Inr states"
  shows "map_of (dict_of (map (\<lambda>t. (ts_task_id t, t)) states)) k = Some t \<longleftrightarrow> t \<in> set states \<and> ts_task_id t = k"
proof
  assume "map_of (dict_of (map (\<lambda>t. (ts_task_id t, t)) states)) k = Some t"
  then show "t \<in> set states \<and> ts_task_id t = k" by (auto simp: dict_of_map_of dest!: map_of_SomeD)
next
  assume t: "t \<in> set states \<and> ts_task_id t = k"
  then have "k \<in> dom (map_of (dict_of (map (\<lambda>t. (ts_task_id t, t)) states)))"
    unfolding dict_of_map_of dom_map_of_conv_image_fst by (auto simp: image_image)
  then obtain u where u: "map_of (dict_of (map (\<lambda>t. (ts_task_id t, t)) states)) k = Some u" by blast
  then have "u \<in> set states" "ts_task_id u = k" by (auto simp: dict_of_map_of dest!: map_of_SomeD)
  then have "u = t" using listed_row(1) [OF assms] t by (metis option.inject)
  then show "map_of (dict_of (map (\<lambda>t. (ts_task_id t, t)) states)) k = Some t" using u by simp
qed

lemma plan_operations_run:
  assumes "\<forall>k \<in> set ids. map_of states k = Some (row k)"
  shows "plan_operations states ids = Inr (map (\<lambda>k. \<lparr>op_task_id = k, op_previous_state = task_state_value (ts_state (row k)),
      op_next_state = task_state_value T_READY, op_expected_version = ts_version (row k), op_reason = READY_REASON\<rparr>)
      (filter (\<lambda>k. ts_state (row k) = T_BACKLOG) ids))"
proof -
  have "map_res (dict_get id states) ids = Inr (map row ids)"
    using assms by (intro map_res_total) (simp add: dict_get_def)
  moreover have "zip ids (map row ids) = map (\<lambda>k. (k, row k)) ids" by (simp add: zip_map2 zip_same_conv_map)
  ultimately show ?thesis by (simp add: plan_operations_def filter_map comp_def)
qed

text \<open>The tasks a request promotes: ready, in BACKLOG and, if identifiers are named, among them.\<close>

definition promotable :: "TaskControlFact list \<Rightarrow> string list option \<Rightarrow> string set" where
  "promotable facts requested =
     {tf_task_id f | f. f \<in> set facts \<and> task_ready facts f \<and> tf_state f = T_BACKLOG
        \<and> (case requested of None \<Rightarrow> True | Some ids \<Rightarrow> tf_task_id f \<in> set ids)}"

definition known_request :: "TaskStateRecord list \<Rightarrow> string list option \<Rightarrow> bool" where
  "known_request states requested \<longleftrightarrow> (case requested of None \<Rightarrow> True | Some ids \<Rightarrow> set ids \<subseteq> ts_task_id ` set states)"

lemma sorted_set_sorted: "sorted (sorted_set xs)" "distinct (sorted_set xs)"
  by (simp_all add: sorted_set_def)

lemma ready_row:
  assumes "rows_keyed s" "list_task_states s pid = Inr states" "fact_ok repo pid states f" "task_ready facts f"
  shows "\<exists>t. t \<in> set states \<and> ts_task_id t = tf_task_id f \<and> ts_state t = tf_state f"
  using assms by (auto simp: fact_ok_def task_ready_def admissible_def)

lemma readiness_plan_run:
  assumes nx: "nx_digraph dg" and pid: "is_project_id pid" and keyed: "rows_keyed s" and states: "list_task_states s pid = Inr states"
    and facts: "task_facts repo s pid = Inr facts" and sq: "init_BuildSequencer dg facts = Inr sq" and known: "known_request states requested"
  obtains ops where "readiness_transition_plan isoformat dg repo s pid now requested = Inr ops"
    "sorted (map op_task_id ops)" "distinct (map op_task_id ops)" "set (map op_task_id ops) = promotable facts requested"
    "\<forall>p \<in> set ops. operation_ok s p"
proof -
  note fok = task_facts_ok(1) [OF facts states]
  obtain snap rd where snap: "evaluate isoformat dg repo s pid now = Inr snap" "cs_readiness snap = map rd facts"
    and rd: "\<forall>f \<in> set facts. td_task_id (rd f) = tf_task_id f \<and> (td_ready (rd f) \<longleftrightarrow> task_ready facts f)
       \<and> (td_state (rd f) = R_READY \<longleftrightarrow> task_ready facts f)"
    by (rule evaluate_run [OF nx pid facts states sq])
  let ?ready = "map td_task_id (filter td_ready (cs_readiness snap))"
  let ?by_id = "dict_of (map (\<lambda>t. (ts_task_id t, t)) states)"
  define ids where "ids = sorted_set (case requested of None \<Rightarrow> ?ready | Some rs \<Rightarrow> filter (\<lambda>i. i \<in> set rs) ?ready)"
  define row where "row k = the (map_of ?by_id k)" for k
  have ready: "set ?ready = {tf_task_id f | f. f \<in> set facts \<and> task_ready facts f}" using rd by (auto simp: snap(2) filter_map)
  have ids: "set ids = {tf_task_id f | f. f \<in> set facts \<and> task_ready facts f
      \<and> (case requested of None \<Rightarrow> True | Some rs \<Rightarrow> tf_task_id f \<in> set rs)}"
    using ready by (cases requested) (auto simp: ids_def)
  note by_id = states_by_id [OF keyed states]
  have row: "map_of ?by_id (tf_task_id f) = Some (row (tf_task_id f)) \<and> ts_state (row (tf_task_id f)) = tf_state f"
    if "f \<in> set facts" "task_ready facts f" for f
    using ready_row [OF keyed states fok [rule_format, OF that(1)] that(2)] by (metis by_id option.sel row_def)
  have unknown: "filter (\<lambda>i. map_of ?by_id i = None) rs = []" if "requested = Some rs" for rs
    using known that by_id by (fastforce simp: known_request_def filter_empty_conv image_subset_iff)
  define ops where "ops = map (\<lambda>k. \<lparr>op_task_id = k, op_previous_state = task_state_value (ts_state (row k)),
      op_next_state = task_state_value T_READY, op_expected_version = ts_version (row k), op_reason = READY_REASON\<rparr>)
      (filter (\<lambda>k. ts_state (row k) = T_BACKLOG) ids)"
  have "plan_operations ?by_id ids = Inr ops"
    unfolding ops_def using ids row by (intro plan_operations_run) auto
  then have "readiness_transition_plan isoformat dg repo s pid now requested = Inr ops"
    using unknown by (cases requested) (simp_all add: readiness_transition_plan_def snap(1) states Let_def ids_def)
  moreover have op_ids: "map op_task_id ops = filter (\<lambda>k. ts_state (row k) = T_BACKLOG) ids" by (simp add: ops_def comp_def)
  moreover have "set (map op_task_id ops) = promotable facts requested"
    using row unfolding op_ids by (auto simp: ids promotable_def)
  moreover have "\<forall>p \<in> set ops. operation_ok s p"
  proof
    fix p assume "p \<in> set ops"
    then obtain k where k: "k \<in> set ids" "ts_state (row k) = T_BACKLOG" "op_task_id p = k"
      "op_expected_version p = ts_version (row k)" "op_reason p = READY_REASON" by (auto simp: ops_def)
    then have in_states: "row k \<in> set states" and key: "ts_task_id (row k) = k" using row ids by_id by auto
    show "operation_ok s p"
      using listed_row [OF keyed states in_states] k(2-) key
      by (auto simp: operation_ok_def intro!: exI [of _ "row k"])
  qed
  moreover have "sorted (map op_task_id ops)" "distinct (map op_task_id ops)"
    unfolding op_ids ids_def by (simp_all add: sorted_set_sorted sorted_wrt_filter)
  ultimately show thesis using that by blast
qed

section \<open>A small project\<close>

definition example_issue :: Issue where
  "example_issue = (validation_job ''PP-TASK-000001'')\<lparr>is_requirement_ids := [''REQ-CORE-0001''],
     is_implementation_state := Some ''PLANNED_ONLY''\<rparr>"

definition example_requirement :: Requirement where
  "example_requirement =
     \<lparr>rq_requirement_id = ''REQ-CORE-0001'', rq_disposition = Some ''ACCEPTED'', rq_implementation_state = Some ''PLANNED_ONLY'',
      rq_jira_ids = [''PP-TASK-000001''], rq_implementation_paths = []\<rparr>"

definition example_repo :: Repository where
  "example_repo =
     \<lparr>repo_issues = [example_issue], repo_requirements = [example_requirement], repo_catalog_present = True,
      repo_exists = (\<lambda>_. False), repo_selection = Some (''PRODUCT_OUTCOME_CRITICAL_PATH_ONLY'', Some [''PP-TASK-000001'']),
      repo_audit = None\<rparr>"

definition example_task_fact :: TaskControlFact where
  "example_task_fact = (example_fact ''PP-TASK-000001'' T_BACKLOG [] None)\<lparr>tf_requirement_ids := [''REQ-CORE-0001'']\<rparr>"

lemma example_project: "is_project_id ''PROJECT-X''" by code_simp

lemma example_states: "list_task_states (example_store T_BACKLOG) ''PROJECT-X'' = Inr [example_task T_BACKLOG]"
proof -
  have "ts_project_id (example_task T_BACKLOG) = ''PROJECT-X''" by (simp add: example_task_def)
  then show ?thesis
    using example_task_valid [of T_BACKLOG]
    by (simp add: list_task_states_def example_store_eq get_task_state_def make_TaskStateRecord_def List.map_filter_def)
qed

lemma example_task_facts:
  "task_facts example_repo (example_store T_BACKLOG) ''PROJECT-X'' = Inr [example_task_fact]"
  by code_simp

lemma example_paused_facts:
  "task_facts (example_repo\<lparr>repo_selection := None\<rparr>) (example_store T_BACKLOG) ''PROJECT-X'' =
     Inr [example_task_fact\<lparr>tf_product_scope_allowed := False\<rparr>]"
  by code_simp

lemma example_task_ready: "task_ready [example_task_fact] example_task_fact" by code_simp

lemma example_sequencer:
  "\<exists>sq. init_BuildSequencer list_digraph [example_task_fact] = Inr sq"
  "\<exists>sq. init_BuildSequencer list_digraph [example_task_fact\<lparr>tf_product_scope_allowed := False\<rparr>] = Inr sq"
proof -
  have ok: "\<exists>x. r = Inr x" if "\<not> isl r" for r :: "'x result" using that by (cases r) auto
  show "\<exists>sq. init_BuildSequencer list_digraph [example_task_fact] = Inr sq" by (rule ok) code_simp
  show "\<exists>sq. init_BuildSequencer list_digraph [example_task_fact\<lparr>tf_product_scope_allowed := False\<rparr>] = Inr sq"
    by (rule ok) code_simp
qed

lemma example_names: "loggable ''kernel''" "loggable ''cycle-1''" by code_simp+

section \<open>Properties\<close>

text \<open>
  C13. A control snapshot is always consistent with the facts it is computed from: whenever the facts
  are built and their dependency graph is accepted, the evaluation returns; its cohort assertion never
  fires; it decides the readiness of exactly the given tasks, and exactly; the number of ready tasks
  in the completion projection and in the cohorts is the number of tasks that are ready; the leaves
  that need reconciliation are exactly the tasks whose eligibility says so; and the eight eligibility
  classes add up to all tasks.
\<close>
theorem evaluate_consistent:
  assumes "nx_digraph dg" "is_project_id pid" "task_facts repo s pid = Inr facts" "init_BuildSequencer dg facts = Inr sq"
  shows "\<exists>snap c. evaluate isoformat dg repo s pid now = Inr snap \<and> c = cp_cohorts (cs_completion snap)
     \<and> assert_cohort_invariants facts (cs_eligibility snap) (cs_readiness snap) c = Inr ()
     \<and> map td_task_id (cs_readiness snap) = map tf_task_id facts
     \<and> map td_ready (cs_readiness snap) = map (task_ready facts) facts
     \<and> cc_dependency_ready c = count_if (task_ready facts) facts
     \<and> cp_ready_work_items (cs_completion snap) = count_if (task_ready facts) facts
     \<and> cc_dependency_ready c \<le> cc_eligibility_eligible c
     \<and> cc_leaf_reconciliation_facts c = cc_eligibility_reconciliation c
     \<and> cc_total_work_items c = int (length facts)
     \<and> cc_eligibility_reconciliation c + cc_eligibility_eligible c + cc_eligibility_policy_denied c
       + cc_eligibility_product_scope_paused c + cc_eligibility_terminal c + cc_eligibility_already_active c
       + cc_eligibility_blocked c + cc_eligibility_blocked_external c = int (length facts)"
proof -
  obtain states where states: "list_task_states s pid = Inr states" using task_facts_states [OF assms(3)] by blast
  note fok = task_facts_ok [OF assms(3) states]
  obtain snap el rd c where snap: "evaluate isoformat dg repo s pid now = Inr snap"
      "cs_eligibility snap = map el facts" "cs_readiness snap = map rd facts"
    and el: "\<forall>f \<in> set facts. eligibility f = Inr (el f)"
    and rd: "\<forall>f \<in> set facts. td_task_id (rd f) = tf_task_id f \<and> (td_ready (rd f) \<longleftrightarrow> task_ready facts f)
       \<and> (td_state (rd f) = R_READY \<longleftrightarrow> task_ready facts f)"
    and c: "cp_cohorts (cs_completion snap) = c" "summarize_control_cohorts facts (map el facts) (map rd facts) = Inr c"
    and n: "cc_eligibility_reconciliation c = cc_leaf_reconciliation_facts c"
      "cp_ready_work_items (cs_completion snap) = count_if (task_ready facts) facts"
    by (rule evaluate_run [OF assms(1-3) states assms(4)])
  have imp: "\<forall>f \<in> set facts. td_state (rd f) = R_READY \<longrightarrow> te_state (el f) = E_ELIGIBLE"
    using rd el task_ready_admissible eligibility_total fok(1) by (fastforce simp: fact_ok_def valid_TaskControlFact_def)
  note pass = assert_cohorts_pass(1) [OF fok(1) el imp c(2)]
  note t = summarize_total [of facts "map el facts" "map rd facts", unfolded c(2) sum.inject ex_simps(6) simp_thms(39,40)]
  have "cc_dependency_ready c = count_if (task_ready facts) facts"
    using t rd count_if_cong [of facts "\<lambda>f. td_state (rd f) = R_READY" "task_ready facts"] by (simp add: count_if_map)
  moreover have "cc_dependency_ready c \<le> cc_eligibility_eligible c" using pass by (auto simp: assert_cohort_invariants_def c(2) split: if_splits)
  ultimately show ?thesis
    using snap c n t rd pass by (intro exI [of _ snap] exI [of _ c]) simp
qed

theorem evaluate_consistent_witness:
  "\<exists>snap. evaluate str_int list_digraph example_repo (example_store T_BACKLOG) ''PROJECT-X'' 0 = Inr snap
     \<and> map td_task_id (cs_readiness snap) = [''PP-TASK-000001''] \<and> map td_ready (cs_readiness snap) = [True]
     \<and> cp_ready_work_items (cs_completion snap) = 1"
proof -
  obtain sq where sq: "init_BuildSequencer list_digraph [example_task_fact] = Inr sq" using example_sequencer(1) by blast
  have "tf_task_id example_task_fact = ''PP-TASK-000001''" by (simp add: example_task_fact_def example_fact_def)
  then show ?thesis
    using evaluate_consistent [OF lists.nx_digraph_axioms example_project example_task_facts sq, of str_int 0] example_task_ready
    by (auto simp: count_if_def)
qed

text \<open>
  C7. The completion projection of a snapshot is exact.  The project is ready for the Completion
  Gate exactly when it has tasks, all of them are done or cancelled in the store, the requirement catalog
  is there and holds an accepted requirement, and every accepted one is complete.  It is FAILED exactly
  when a task failed or, during the pause, a task outside the selection is active or ready.  It is
  BLOCKED exactly when a task is blocked, none failed, none is ready or active and nothing waits for
  reconciliation.  The projection never claims that the Completion Gate itself is satisfied and always
  gives a reason.
\<close>
theorem completion_projection_exact:
  assumes "nx_digraph dg" "is_project_id pid" "list_task_states s pid = Inr states"
    "task_facts repo s pid = Inr facts" "init_BuildSequencer dg facts = Inr sq"
  shows "\<exists>snap p. evaluate isoformat dg repo s pid now = Inr snap \<and> p = cs_completion snap
     \<and> (cp_state p = CP_READY_FOR_COMPLETION_GATE \<longleftrightarrow>
          states \<noteq> [] \<and> (\<forall>t \<in> set states. ts_state t \<in> {T_DONE, T_CANCELLED})
          \<and> repo_catalog_present repo \<and> accepted_requirements repo \<noteq> []
          \<and> (\<forall>r \<in> set (accepted_requirements repo). requirement_complete r))
     \<and> (cp_state p = CP_FAILED \<longleftrightarrow>
          (\<exists>t \<in> set states. ts_state t = T_FAILED)
          \<or> paused repo \<and> ((\<exists>t \<in> set states. ts_state t \<in> set ACTIVE_STATES \<and> \<not> in_scope repo (ts_task_id t))
                           \<or> (\<exists>f \<in> set facts. task_ready facts f \<and> \<not> in_scope repo (tf_task_id f))))
     \<and> (cp_state p = CP_BLOCKED \<longleftrightarrow>
          (\<exists>t \<in> set states. ts_state t = T_BLOCKED)
          \<and> (\<forall>t \<in> set states. ts_state t \<noteq> T_FAILED \<and> ts_state t \<notin> set ACTIVE_STATES)
          \<and> (\<forall>f \<in> set facts. \<not> task_ready facts f) \<and> reconciliation_facts facts = [])
     \<and> \<not> cp_final_completion_gate_satisfied p
     \<and> (cp_verification_eligible p \<longleftrightarrow> cp_state p = CP_READY_FOR_COMPLETION_GATE) \<and> cp_reasons p \<noteq> []"
proof -
  note fok = task_facts_ok [OF assms(4,3)]
  obtain snap el rd c where snap: "evaluate isoformat dg repo s pid now = Inr snap"
    and rd: "\<forall>f \<in> set facts. td_task_id (rd f) = tf_task_id f \<and> (td_ready (rd f) \<longleftrightarrow> task_ready facts f)
       \<and> (td_state (rd f) = R_READY \<longleftrightarrow> task_ready facts f)"
    and c: "summarize_control_cohorts facts (map el facts) (map rd facts) = Inr c"
    and st: "(cp_state (cs_completion snap), cp_reasons (cs_completion snap)) =
       completion_state repo (completion_counts_of repo states (map rd facts)) (count_if (task_ready facts) facts) c"
    and gate: "\<not> cp_final_completion_gate_satisfied (cs_completion snap)"
      "cp_verification_eligible (cs_completion snap) \<longleftrightarrow> cp_state (cs_completion snap) = CP_READY_FOR_COMPLETION_GATE"
    by (rule evaluate_run [OF assms(1,2,4,3,5)])
  note t = summarize_total [of facts "map el facts" "map rd facts", unfolded c sum.inject ex_simps(6) simp_thms(39,40)]
  have rec: "cc_reconciliation_facts c = int (length (reconciliation_facts facts))" using t by simp
  have rd': "\<forall>f \<in> set facts. td_task_id (rd f) = tf_task_id f \<and> (td_ready (rd f) \<longleftrightarrow> task_ready facts f)" using rd by blast
  have "cp_state (cs_completion snap) =
        fst (completion_state repo (completion_counts_of repo states (map rd facts)) (count_if (task_ready facts) facts) c)"
    and reasons: "cp_reasons (cs_completion snap) \<noteq> []"
    using st completion_reasons by (metis fst_conv, metis snd_conv)
  note completion_state_meaning [OF fok(1) nx_digraph.init_ok(3) [OF assms(1,5)] rd' rec this(1)]
  then show ?thesis using snap gate reasons by (intro exI [of _ snap] exI [of _ "cs_completion snap"] conjI refl)
qed

theorem completion_projection_exact_witness:
  "\<exists>snap. evaluate str_int list_digraph example_repo (example_store T_BACKLOG) ''PROJECT-X'' 0 = Inr snap
     \<and> cp_state (cs_completion snap) = CP_INCOMPLETE \<and> \<not> cp_verification_eligible (cs_completion snap)"
proof -
  obtain sq where sq: "init_BuildSequencer list_digraph [example_task_fact] = Inr sq" using example_sequencer(1) by blast
  have st: "ts_state (example_task T_BACKLOG) = T_BACKLOG" by (simp add: example_task_def)
  have "\<not> paused example_repo" by code_simp
  from completion_projection_exact [OF lists.nx_digraph_axioms example_project example_states example_task_facts sq, of str_int 0] this
  obtain snap where "evaluate str_int list_digraph example_repo (example_store T_BACKLOG) ''PROJECT-X'' 0 = Inr snap"
    "cp_state (cs_completion snap) \<notin> {CP_READY_FOR_COMPLETION_GATE, CP_FAILED, CP_BLOCKED}"
    "\<not> cp_verification_eligible (cs_completion snap)" by (auto simp: st)
  then show ?thesis by (cases "cp_state (cs_completion snap)") auto
qed

text \<open>
  C5. The kernel promotes exactly the ready backlog.  For a reachable store and accepted facts a
  request that names an unknown task is refused and changes nothing.  Every other request applies the
  transitions of exactly the tasks that are ready, in BACKLOG and, if tasks are named, among the named
  ones, in the order of their identifiers: each promoted row moves to READY with the next version and
  keeps its other data, and every other row is unchanged.  The batch can stop only at a transition
  identifier that is already in the log; the transitions before it stay committed.
\<close>
theorem apply_readiness_transitions_exact:
  assumes "nx_digraph dg" "is_project_id pid" "store_reachable s" "list_task_states s pid = Inr states"
    "task_facts repo s pid = Inr facts" "init_BuildSequencer dg facts = Inr sq" "loggable actor" "loggable corr"
    "apply_readiness_transitions isoformat dg repo pid now clock actor corr requested s = (s', res)"
  shows "if known_request states requested
     then \<exists>ids n. sorted ids \<and> distinct ids \<and> set ids = promotable facts requested
       \<and> promotes s (take n ids) s'
       \<and> (case res of Inr rs \<Rightarrow> n = length ids \<and> map ts_task_id rs = ids
                    | Inl e \<Rightarrow> n < length ids \<and> e = duplicate_transition)
     else s' = s \<and> (\<exists>msg. res = Inl (ValueError msg))"
proof (cases "known_request states requested")
  case True
  note keyed = store_reachable_keyed [OF assms(3)] and inv = store_reachable_inv [OF assms(3)]
  obtain ops where ops: "readiness_transition_plan isoformat dg repo s pid now requested = Inr ops"
    "sorted (map op_task_id ops)" "distinct (map op_task_id ops)" "set (map op_task_id ops) = promotable facts requested"
    "\<forall>p \<in> set ops. operation_ok s p"
    by (rule readiness_plan_run [OF assms(1,2) keyed assms(4-6) True])
  have "apply_operations clock actor corr 0 ops s = (s', res)" using assms(9) by (simp add: apply_readiness_transitions_def ops(1))
  from apply_operations_run [OF inv ops(3,5) assms(7,8) this] obtain n where "promotes s (take n (map op_task_id ops)) s'"
    "case res of Inr rs \<Rightarrow> n = length ops \<and> map ts_task_id rs = map op_task_id ops
       | Inl e \<Rightarrow> n < length ops \<and> e = duplicate_transition" by blast
  with ops(2-4) have "\<exists>ids n. sorted ids \<and> distinct ids \<and> set ids = promotable facts requested \<and> promotes s (take n ids) s'
      \<and> (case res of Inr rs \<Rightarrow> n = length ids \<and> map ts_task_id rs = ids | Inl e \<Rightarrow> n < length ids \<and> e = duplicate_transition)"
    by (intro exI [of _ "map op_task_id ops"] exI [of _ n]) (simp split: sum.splits)
  then show ?thesis using True by simp
next
  case False
  then obtain ids where ids: "requested = Some ids" "\<not> set ids \<subseteq> ts_task_id ` set states"
    by (auto simp: known_request_def split: option.splits)
  obtain snap where snap: "evaluate isoformat dg repo s pid now = Inr snap"
    by (rule evaluate_run [OF assms(1,2,5,4,6)])
  have "filter (\<lambda>i. map_of (dict_of (map (\<lambda>t. (ts_task_id t, t)) states)) i = None) ids \<noteq> []"
    using ids(2) states_by_id [OF store_reachable_keyed [OF assms(3)] assms(4)] unfolding filter_empty_conv by fastforce
  then have "s' = s" "\<exists>msg. res = Inl (ValueError msg)"
    using assms(9) by (auto simp: apply_readiness_transitions_def readiness_transition_plan_def snap assms(4) ids(1) Let_def)
  then show ?thesis using False by simp
qed

theorem apply_readiness_transitions_exact_witness:
  "\<exists>s' res n. apply_readiness_transitions str_int list_digraph example_repo ''PROJECT-X'' 0 int ''kernel'' ''cycle-1'' None
       (example_store T_BACKLOG) = (s', res)
     \<and> promotes (example_store T_BACKLOG) (take n [''PP-TASK-000001'']) s'
     \<and> (case res of Inr rs \<Rightarrow> n = 1 \<and> map ts_task_id rs = [''PP-TASK-000001''] | Inl e \<Rightarrow> n = 0 \<and> e = duplicate_transition)"
proof -
  obtain sq where sq: "init_BuildSequencer list_digraph [example_task_fact] = Inr sq" using example_sequencer(1) by blast
  obtain s' res where call: "apply_readiness_transitions str_int list_digraph example_repo ''PROJECT-X'' 0 int ''kernel'' ''cycle-1''
      None (example_store T_BACKLOG) = (s', res)" by fastforce
  have ids: "promotable [example_task_fact] None = {''PP-TASK-000001''}"
    using example_task_ready by (simp add: promotable_def example_task_fact_def example_fact_def)
  have one: "ids = [x]" if "distinct ids" "set ids = {x}" for ids and x :: string
    using that by (cases ids) (auto dest!: subset_singletonD)
  have known: "known_request [example_task T_BACKLOG] None" by (simp add: known_request_def)
  obtain ids n where *: "distinct ids" "set ids = promotable [example_task_fact] None" "promotes (example_store T_BACKLOG) (take n ids) s'"
    "case res of Inr rs \<Rightarrow> n = length ids \<and> map ts_task_id rs = ids | Inl e \<Rightarrow> n < length ids \<and> e = duplicate_transition"
    using apply_readiness_transitions_exact [OF lists.nx_digraph_axioms example_project example_store_reachable example_states
      example_task_facts sq example_names call, unfolded if_P [OF known]] by (elim exE conjE)
  have ids: "ids = [''PP-TASK-000001'']" using one [OF *(1) *(2) [unfolded ids]] .
  have "case res of Inr rs \<Rightarrow> n = 1 \<and> map ts_task_id rs = [''PP-TASK-000001''] | Inl e \<Rightarrow> n = 0 \<and> e = duplicate_transition"
    using *(4) unfolding ids by (cases res) simp_all
  with call *(3) [unfolded ids] show ?thesis by (intro exI conjI)
qed

text \<open>
  C11. Selection fails closed: a task is ready in a snapshot only if the repository has a selection in
  one of the two bounded modes with a non-empty list, and the task is on the list, or is a cycle-owned
  validation job, or its issue is linked to an accepted requirement that is not complete while all five
  predecessors of the critical path are implemented.  Without such a selection nothing is ready and
  applying the transitions changes nothing.
\<close>
theorem selection_fails_closed:
  assumes "nx_digraph dg" "is_project_id pid" "store_reachable s" "task_facts repo s pid = Inr facts"
    "init_BuildSequencer dg facts = Inr sq"
  shows "(\<forall>f \<in> set facts. task_ready facts f \<longrightarrow> selected repo (tf_task_id f))
     \<and> (snd (snd (selection_scope repo)) \<longrightarrow>
          (\<forall>f \<in> set facts. \<not> task_ready facts f)
          \<and> apply_readiness_transitions isoformat dg repo pid now clock actor corr None s = (s, Inr []))"
proof -
  obtain states where states: "list_task_states s pid = Inr states" using task_facts_states [OF assms(4)] by blast
  note fok = task_facts_ok(1) [OF assms(4) states]
  have sel: "\<forall>f \<in> set facts. task_ready facts f \<longrightarrow> selected repo (tf_task_id f)"
    using fok by (auto simp: fact_ok_def task_ready_def admissible_def)
  have "known_request states None" by (simp add: known_request_def)
  then obtain ops where ops: "readiness_transition_plan isoformat dg repo s pid now None = Inr ops"
      "set (map op_task_id ops) = promotable facts None"
    by (rule readiness_plan_run [OF assms(1,2) store_reachable_keyed [OF assms(3)] states assms(4,5)])
  have "(\<forall>f \<in> set facts. \<not> task_ready facts f) \<and> ops = []" if "snd (snd (selection_scope repo))"
  proof -
    have idle: "\<forall>f \<in> set facts. \<not> task_ready facts f" using that sel by (auto simp: selection_bounded selected_def)
    then have "set (map op_task_id ops) = {}" using ops(2) by (auto simp: promotable_def)
    then show ?thesis using idle by simp
  qed
  then show ?thesis using sel ops(1) by (auto simp: apply_readiness_transitions_def)
qed

theorem selection_fails_closed_witness:
  "selected example_repo ''PP-TASK-000001''
   \<and> apply_readiness_transitions str_int list_digraph (example_repo\<lparr>repo_selection := None\<rparr>) ''PROJECT-X'' 0 int
       ''kernel'' ''cycle-1'' None (example_store T_BACKLOG) = (example_store T_BACKLOG, Inr [])"
proof
  obtain sq where sq: "init_BuildSequencer list_digraph [example_task_fact] = Inr sq" using example_sequencer(1) by blast
  have "tf_task_id example_task_fact = ''PP-TASK-000001''" by (simp add: example_task_fact_def example_fact_def)
  then show "selected example_repo ''PP-TASK-000001''"
    using selection_fails_closed [OF lists.nx_digraph_axioms example_project example_store_reachable example_task_facts sq] example_task_ready
    by auto
next
  obtain sq where sq: "init_BuildSequencer list_digraph [example_task_fact\<lparr>tf_product_scope_allowed := False\<rparr>] = Inr sq"
    using example_sequencer(2) by blast
  have "snd (snd (selection_scope (example_repo\<lparr>repo_selection := None\<rparr>)))" by (simp add: selection_scope_def)
  then show "apply_readiness_transitions str_int list_digraph (example_repo\<lparr>repo_selection := None\<rparr>) ''PROJECT-X'' 0 int
       ''kernel'' ''cycle-1'' None (example_store T_BACKLOG) = (example_store T_BACKLOG, Inr [])"
    using selection_fails_closed [OF lists.nx_digraph_axioms example_project example_store_reachable example_paused_facts sq] by blast
qed

end
