(* ===== verification/PyDatetime.thy ===== *)
theory PyDatetime
  imports Prelude
begin

text \<open>
  \<open>datetime.isoformat()\<close> of the standard library for UTC time stamps.  An instant is the number of
  microseconds since 0001-01-01T00:00:00+00:00; \<open>ord2ymd\<close> is the library's conversion of a day
  number into year, month and day.  The SQL queries compare the rendered texts, and
  \<open>isoformat_less\<close> shows that this orders every two instants of the years 1 to 9999 as the
  instants themselves: the fixed widths make the order of the fields the order of the texts, and the
  optional fraction starts with a character above the sign of the offset.
\<close>

section \<open>Calendar\<close>

definition is_leap :: "int \<Rightarrow> bool" where
  "is_leap y \<longleftrightarrow> y mod 4 = 0 \<and> (y mod 100 \<noteq> 0 \<or> y mod 400 = 0)"

definition days_before_year :: "int \<Rightarrow> int" where
  "days_before_year year = (let y = year - 1 in y * 365 + y div 4 - y div 100 + y div 400)"

definition month_lengths :: "bool \<Rightarrow> int list" where
  "month_lengths leap = [31, if leap then 29 else 28, 31, 30, 31, 30, 31, 31, 30, 31, 30, 31]"

definition days_before_month :: "bool \<Rightarrow> int \<Rightarrow> int" where
  "days_before_month leap m = sum_list (take (nat (m - 1)) (month_lengths leap))"

definition days_in_month :: "bool \<Rightarrow> int \<Rightarrow> int" where
  "days_in_month leap m = month_lengths leap ! nat (m - 1)"

definition month_day :: "bool \<Rightarrow> int \<Rightarrow> int \<times> int" where
  "month_day leap n =
     (let month = (n + 50) div 32; preceding = days_before_month leap month
      in if preceding > n
         then (month - 1, n - (preceding - days_in_month leap (month - 1)) + 1)
         else (month, n - preceding + 1))"

definition ord2ymd :: "int \<Rightarrow> int \<times> int \<times> int" where
  "ord2ymd n =
     (let n400 = n div 146097; n = n mod 146097;
          n100 = n div 36524; n = n mod 36524;
          n4 = n div 1461; n = n mod 1461;
          n1 = n div 365; n = n mod 365;
          year = n400 * 400 + 1 + n100 * 100 + n4 * 4 + n1
      in if n1 = 4 \<or> n100 = 4 then (year - 1, 12, 31)
         else (year, month_day (n1 = 3 \<and> (n4 \<noteq> 24 \<or> n100 = 3)) n))"

section \<open>Rendering\<close>

primrec zpad :: "nat \<Rightarrow> int \<Rightarrow> string" where
  "zpad 0 n = []"
| "zpad (Suc w) n = zpad w (n div 10) @ [digit_char (nat (n mod 10))]"

definition us_per_day :: int where
  "us_per_day = 86400000000"

definition max_instant :: int where
  "max_instant = 3652059 * us_per_day"

definition iso_date :: "int \<Rightarrow> string" where
  "iso_date n = (case ord2ymd n of (y, m, d) \<Rightarrow> zpad 4 y @ ''-'' @ zpad 2 m @ ''-'' @ zpad 2 d)"

definition iso_time :: "int \<Rightarrow> string" where
  "iso_time u =
     zpad 2 (u div 3600000000) @ '':'' @ zpad 2 (u div 60000000 mod 60) @ '':''
       @ zpad 2 (u div 1000000 mod 60)
       @ (if u mod 1000000 = 0 then [] else ''.'' @ zpad 6 (u mod 1000000)) @ ''+00:00''"

definition utc_isoformat :: "int \<Rightarrow> string" where
  "utc_isoformat t = iso_date (t div us_per_day) @ ''T'' @ iso_time (t mod us_per_day)"

text \<open>\<open>t + timedelta(seconds=n)\<close>, which raises outside the years 1 to 9999.\<close>

definition valid_instant :: "int \<Rightarrow> bool" where
  "valid_instant t \<longleftrightarrow> 0 \<le> t \<and> t < max_instant"

definition add_seconds :: "int \<Rightarrow> int \<Rightarrow> int result" where
  "add_seconds t n =
     (if valid_instant (t + n * microseconds) then Inr (t + n * microseconds)
      else Inl (OverflowError ''date value out of range''))"

section \<open>The calendar is monotone\<close>

definition valid_ymd :: "int \<times> int \<times> int \<Rightarrow> bool" where
  "valid_ymd = (\<lambda>(y, m, d). 1 \<le> y \<and> 1 \<le> m \<and> m \<le> 12 \<and> 1 \<le> d \<and> d \<le> days_in_month (is_leap y) m)"

definition ymd2ord :: "int \<times> int \<times> int \<Rightarrow> int" where
  "ymd2ord = (\<lambda>(y, m, d). days_before_year y + days_before_month (is_leap y) m + d - 1)"

lemma month_day_ok:
  assumes "0 \<le> n" "n < (if leap then 366 else 365)"
  shows "case month_day leap n of (m, d) \<Rightarrow>
     1 \<le> m \<and> m \<le> 12 \<and> 1 \<le> d \<and> d \<le> days_in_month leap m \<and> days_before_month leap m + d - 1 = n"
proof -
  define ok where "ok = (\<lambda>b n. case month_day b n of (m, d) \<Rightarrow>
     1 \<le> m \<and> m \<le> 12 \<and> 1 \<le> d \<and> d \<le> days_in_month b m \<and> days_before_month b m + d - 1 = n)"
  have "list_all (ok True) [0..365]" "list_all (ok False) [0..364]" unfolding ok_def by code_simp+
  note t = this [unfolded list_all_iff set_upto]
  have "ok leap n"
  proof (cases leap)
    case True
    have "n \<in> {0..365}" using assms True by simp
    from bspec [OF t(1) this] show ?thesis using True by simp
  next
    case False
    have "n \<in> {0..364}" using assms False by simp
    from bspec [OF t(2) this] show ?thesis using False by simp
  qed
  then show ?thesis by (simp add: ok_def)
qed

lemma div_by_parts: "0 \<le> r \<Longrightarrow> r < k \<Longrightarrow> (k * q + r) div k = q" "0 \<le> r \<Longrightarrow> r < k \<Longrightarrow> (k * q + r) mod k = r"
  for k q r :: int
  by (simp_all add: mult.commute)

lemma cycle_parts:
  assumes "0 \<le> b" "b \<le> 3" "0 \<le> c" "c \<le> 24" "0 \<le> e" "e \<le> (3 :: int)"
  shows "(400 * a + 100 * b + 4 * c + e) div 4 = 100 * a + 25 * b + c" "(400 * a + 100 * b + 4 * c + e) mod 4 = e"
    "(400 * a + 100 * b + 4 * c + e) div 100 = 4 * a + b" "(400 * a + 100 * b + 4 * c + e) mod 100 = 4 * c + e"
    "(400 * a + 100 * b + 4 * c + e) div 400 = a" "(400 * a + 100 * b + 4 * c + e) mod 400 = 100 * b + 4 * c + e"
proof -
  have e: "400 * a + 100 * b + 4 * c + e = 4 * (100 * a + 25 * b + c) + e"
    "400 * a + 100 * b + 4 * c + e = 100 * (4 * a + b) + (4 * c + e)"
    "400 * a + 100 * b + 4 * c + e = 400 * a + (100 * b + 4 * c + e)" by simp_all
  show "(400 * a + 100 * b + 4 * c + e) div 4 = 100 * a + 25 * b + c" "(400 * a + 100 * b + 4 * c + e) mod 4 = e"
    unfolding e(1) using assms by (intro div_by_parts; linarith)+
  show "(400 * a + 100 * b + 4 * c + e) div 100 = 4 * a + b" "(400 * a + 100 * b + 4 * c + e) mod 100 = 4 * c + e"
    unfolding e(2) using assms by (intro div_by_parts; linarith)+
  show "(400 * a + 100 * b + 4 * c + e) div 400 = a" "(400 * a + 100 * b + 4 * c + e) mod 400 = 100 * b + 4 * c + e"
    unfolding e(3) using assms by (intro div_by_parts; linarith)+
qed

lemma days_before_year_cycle:
  assumes "0 \<le> b" "b \<le> 3" "0 \<le> c" "c \<le> 24" "0 \<le> e" "e \<le> 3"
  shows "days_before_year (400 * a + 100 * b + 4 * c + e + 1) = 146097 * a + 36524 * b + 1461 * c + 365 * e"
  using cycle_parts [OF assms, of a] by (simp add: days_before_year_def Let_def)

lemma mod_step:
  assumes "0 < (k :: int)"
  shows "(x + 1) mod k = (if x mod k = k - 1 then 0 else x mod k + 1)"
proof (cases "x mod k = k - 1")
  case True
  have "k * (x div k) + (k - 1) = x" using mult_div_mod_eq [of k x] unfolding True .
  then have "x + 1 = k * (x div k) + k" by linarith
  then have "x + 1 = k * (x div k + 1)" by (simp only: distrib_left mult_1_right)
  then have "(x + 1) mod k = 0" by (metis mod_mult_self1_is_0)
  then show ?thesis using True by simp
next
  case False
  have "0 \<le> x mod k" "x mod k < k" using assms by simp_all
  then have "(k * (x div k) + (x mod k + 1)) mod k = x mod k + 1" using False by (intro div_by_parts(2)) simp_all
  moreover have "x + 1 = k * (x div k) + (x mod k + 1)" using mult_div_mod_eq [of k x] by linarith
  ultimately have "(x + 1) mod k = x mod k + 1" by presburger
  then show ?thesis using False by (simp only: if_False)
qed

lemma is_leap_cycle:
  assumes "0 \<le> b" "b \<le> 3" "0 \<le> c" "c \<le> 24" "0 \<le> e" "e \<le> (3 :: int)"
  shows "is_leap (400 * a + 100 * b + 4 * c + e + 1) \<longleftrightarrow> e = 3 \<and> (c \<noteq> 24 \<or> b = 3)"
  using assms unfolding is_leap_def mod_step [OF zero_less_numeral] cycle_parts [OF assms]
  by (auto split: if_splits)

lemma december: "days_in_month True 12 = 31" "days_before_month True 12 = 335"
  by code_simp+

lemma ord2ymd_ok:
  assumes "0 \<le> n"
  shows "valid_ymd (ord2ymd n) \<and> ymd2ord (ord2ymd n) = n"
proof -
  define a where "a = n div 146097"
  define n1 where "n1 = n mod 146097"
  define b where "b = n1 div 36524"
  define n2 where "n2 = n1 mod 36524"
  define c where "c = n2 div 1461"
  define n3 where "n3 = n2 mod 1461"
  define e where "e = n3 div 365"
  define r where "r = n3 mod 365"
  have n: "n = 146097 * a + n1" "n1 = 36524 * b + n2" "n2 = 1461 * c + n3" "n3 = 365 * e + r"
    by (simp_all add: a_def n1_def b_def n2_def c_def n3_def e_def r_def)
  have lo: "0 \<le> n1" "n1 < 146097" "0 \<le> n2" "n2 < 36524" "0 \<le> n3" "n3 < 1461" "0 \<le> r" "r < 365"
    by (simp_all add: n1_def n2_def n3_def r_def)
  have "0 \<le> a" "0 \<le> b" "0 \<le> c" "0 \<le> e"
    unfolding a_def b_def c_def e_def using assms lo by (intro pos_imp_zdiv_nonneg_iff [THEN iffD2]; simp)+
  moreover have "b \<le> 4" "c \<le> 24" "e \<le> 4" using lo n by linarith+
  ultimately have bounds: "0 \<le> a" "0 \<le> b" "b \<le> 4" "0 \<le> c" "c \<le> 24" "0 \<le> e" "e \<le> 4" "0 \<le> r" "r < 365"
    "n1 < 146097" "n2 < 36524" "n3 < 1461" "0 \<le> n2" "0 \<le> n3" using lo by simp_all
  have ord: "ord2ymd n = (if e = 4 \<or> b = 4 then (400 * a + 100 * b + 4 * c + e, 12, 31)
      else (400 * a + 100 * b + 4 * c + e + 1, month_day (e = 3 \<and> (c \<noteq> 24 \<or> b = 3)) r))"
    unfolding ord2ymd_def Let_def a_def n1_def b_def n2_def c_def n3_def e_def r_def by (simp add: algebra_simps)
  consider "b = 4" | "e = 4" "b \<le> 3" | "b \<le> 3" "e \<le> 3" using bounds by linarith
  then show ?thesis
  proof cases
    case 1
    then have z: "c = 0" "e = 0" "r = 0" using bounds n by linarith+
    have y: "400 * a + 100 * b + 4 * c + e = 400 * a + 100 * 3 + 4 * 24 + 3 + 1" using 1 z by simp
    have "is_leap (400 * a + 100 * b + 4 * c + e)" unfolding y by (subst is_leap_cycle) simp_all
    moreover have "days_before_year (400 * a + 100 * b + 4 * c + e) = 146097 * a + 36524 * 3 + 1461 * 24 + 365 * 3"
      unfolding y by (subst days_before_year_cycle) simp_all
    ultimately show ?thesis unfolding ord using 1 z n bounds(1) by (simp add: valid_ymd_def ymd2ord_def december)
  next
    case 2
    then have r: "r = 0" using bounds n by linarith
    have y: "400 * a + 100 * b + 4 * c + e = 400 * a + 100 * b + 4 * c + 3 + 1" using 2 by simp
    have c: "c \<noteq> 24 \<or> b = 3" using bounds 2 n r by linarith
    have "is_leap (400 * a + 100 * b + 4 * c + e)" unfolding y using bounds 2 c by (subst is_leap_cycle) simp_all
    moreover have "days_before_year (400 * a + 100 * b + 4 * c + e) = 146097 * a + 36524 * b + 1461 * c + 365 * 3"
      unfolding y using bounds 2 by (subst days_before_year_cycle) simp_all
    ultimately show ?thesis unfolding ord using 2 r n bounds by (simp add: valid_ymd_def ymd2ord_def december)
  next
    case 3
    define leap where "leap \<longleftrightarrow> e = 3 \<and> (c \<noteq> 24 \<or> b = 3)"
    obtain m d where md: "month_day leap r = (m, d)" by (cases "month_day leap r")
    have l: "is_leap (400 * a + 100 * b + 4 * c + e + 1) = leap"
      unfolding leap_def using 3 bounds by (intro is_leap_cycle) simp_all
    have y: "days_before_year (400 * a + 100 * b + 4 * c + e + 1) = 146097 * a + 36524 * b + 1461 * c + 365 * e"
      using 3 bounds by (intro days_before_year_cycle) simp_all
    have "r < (if leap then 366 else 365)" using bounds by simp
    from month_day_ok [OF bounds(8) this] have "1 \<le> m \<and> m \<le> 12 \<and> 1 \<le> d \<and> d \<le> days_in_month leap m
      \<and> days_before_month leap m + d - 1 = r" by (simp add: md)
    moreover have "ord2ymd n = (400 * a + 100 * b + 4 * c + e + 1, m, d)"
      unfolding ord leap_def [symmetric] md using 3 by simp
    ultimately show ?thesis using 3 bounds n by (simp add: valid_ymd_def ymd2ord_def l y)
  qed
qed

lemma div_pred:
  assumes "0 < (k :: int)"
  shows "y div k = (y - 1) div k + (if y mod k = 0 then 1 else 0)"
proof (cases "y mod k = 0")
  case True
  have e: "y - 1 = k * (y div k - 1) + (k - 1)" using True by (auto simp: algebra_simps)
  have "(k * (y div k - 1) + (k - 1)) div k = y div k - 1" using assms by (intro div_by_parts(1)) simp_all
  then have "(y - 1) div k = y div k - 1" unfolding e [symmetric] .
  then show ?thesis using True by simp
next
  case False
  have "0 \<le> y mod k" "y mod k < k" using assms by simp_all
  then have "(k * (y div k) + (y mod k - 1)) div k = y div k" using False by (intro div_by_parts(1)) simp_all
  moreover have "y - 1 = k * (y div k) + (y mod k - 1)" using mult_div_mod_eq [of k y] by linarith
  ultimately have "(y - 1) div k = y div k" by presburger
  then show ?thesis using False by simp
qed

lemma days_before_next_year: "days_before_year (y + 1) = days_before_year y + (if is_leap y then 366 else 365)"
proof -
  have dvd: "100 dvd y \<Longrightarrow> 4 dvd y" "400 dvd y \<Longrightarrow> 100 dvd y"
    using dvd_trans [of 4 100 y] dvd_trans [of 100 400 y] by simp_all
  define q4 where "q4 = (y - 1) div 4"
  define q100 where "q100 = (y - 1) div 100"
  define q400 where "q400 = (y - 1) div 400"
  have "y div 4 = q4 + (if 4 dvd y then 1 else 0)" "y div 100 = q100 + (if 100 dvd y then 1 else 0)"
    "y div 400 = q400 + (if 400 dvd y then 1 else 0)"
    unfolding q4_def q100_def q400_def dvd_eq_mod_eq_0 by (rule div_pred; simp)+
  then have "days_before_year (y + 1) = y * 365 + (q4 + (if 4 dvd y then 1 else 0))
      - (q100 + (if 100 dvd y then 1 else 0)) + (q400 + (if 400 dvd y then 1 else 0))"
    by (simp only: days_before_year_def Let_def add_diff_cancel_right')
  moreover have "days_before_year y = (y - 1) * 365 + q4 - q100 + q400"
    by (simp only: days_before_year_def Let_def q4_def q100_def q400_def)
  moreover have "is_leap y \<longleftrightarrow> 4 dvd y \<and> (\<not> 100 dvd y \<or> 400 dvd y)" by (simp only: is_leap_def dvd_eq_mod_eq_0)
  moreover have "y * 365 + (q4 + (if a then 1 else 0)) - (q100 + (if b then 1 else 0)) + (q400 + (if c then 1 else 0))
      = (y - 1) * 365 + q4 - q100 + q400 + (if a \<and> (\<not> b \<or> c) then 366 else 365)"
    if "b \<Longrightarrow> a" "c \<Longrightarrow> b" for a b c using that by (cases a; cases b; cases c) simp_all
  ultimately show ?thesis using dvd by presburger
qed

lemma days_before_year_mono:
  assumes "y < y'"
  shows "days_before_year y + (if is_leap y then 366 else 365) \<le> days_before_year y'"
proof -
  have "days_before_year (y + 1) \<le> days_before_year (y + 1 + int k)" for k
  proof (induction k)
    case (Suc k)
    then show ?case using days_before_next_year [of "y + 1 + int k"] by (simp add: algebra_simps split: if_splits)
  qed simp
  from this [of "nat (y' - y - 1)"] show ?thesis using assms days_before_next_year [of y] by simp
qed

lemma days_before_month_mono:
  assumes "1 \<le> m" "m < m'" "m' \<le> 12"
  shows "days_before_month leap m + days_in_month leap m \<le> days_before_month leap m'"
proof -
  define ok where "ok = (\<lambda>leap. list_all (\<lambda>(m, m'). m < m' \<longrightarrow>
      days_before_month leap m + days_in_month leap m \<le> days_before_month leap m') (List.product [1..12] [1..12]))"
  have "ok True" "ok False" unfolding ok_def by code_simp+
  then have "ok leap" by (cases leap) auto
  then show ?thesis using assms by (simp add: ok_def list_all_iff)
qed

lemma days_before_month_year:
  assumes "1 \<le> m" "m \<le> 12"
  shows "0 \<le> days_before_month leap m \<and> days_before_month leap m + days_in_month leap m \<le> (if leap then 366 else 365)"
proof -
  define ok where "ok = (\<lambda>leap. list_all (\<lambda>m. 0 \<le> days_before_month leap m \<and>
      days_before_month leap m + days_in_month leap m \<le> (if leap then 366 else 365)) [1..12])"
  have "ok True" "ok False" unfolding ok_def by code_simp+
  then have "ok leap" by (cases leap) auto
  then show ?thesis using assms by (simp add: ok_def list_all_iff)
qed

lemma ymd2ord_mono:
  assumes "valid_ymd a" "valid_ymd b" "a < b"
  shows "ymd2ord a < ymd2ord b"
proof -
  obtain y m d where a: "a = (y, m, d)" by (cases a)
  obtain y' m' d' where b: "b = (y', m', d')" by (cases b)
  have v: "1 \<le> m" "m \<le> 12" "1 \<le> d" "d \<le> days_in_month (is_leap y) m" "1 \<le> m'" "m' \<le> 12" "1 \<le> d'"
    using assms by (auto simp: a b valid_ymd_def)
  consider "y < y'" | "y = y'" "m < m'" | "y = y'" "m = m'" "d < d'"
    using assms(3) by (auto simp: a b less_prod_def')
  then show ?thesis
  proof cases
    case 1
    then show ?thesis using v days_before_year_mono [OF 1] days_before_month_year [of m "is_leap y"]
        days_before_month_year [of m' "is_leap y'"] by (simp add: a b ymd2ord_def)
  next
    case 2
    then show ?thesis using v days_before_month_mono [of m m' "is_leap y"] by (simp add: a b ymd2ord_def)
  qed (simp add: a b ymd2ord_def)
qed

lemma ord2ymd_mono: "0 \<le> n \<Longrightarrow> n < n' \<Longrightarrow> ord2ymd n < ord2ymd n'"
  using ord2ymd_ok [of n] ord2ymd_ok [of n'] ymd2ord_mono [of "ord2ymd n'" "ord2ymd n"]
  by (cases "ord2ymd n'" "ord2ymd n" rule: linorder_cases) auto

section \<open>Comparing the texts compares the instants\<close>

lemma less_append:
  fixes xs :: string
  assumes "length xs = length xs'"
  shows "xs @ ys < xs' @ ys' \<longleftrightarrow> xs < xs' \<or> xs = xs' \<and> ys < ys'"
  using assms by (induction xs xs' rule: list_induct2) auto

lemma less_append_same [simp]: "xs @ ys < xs @ ys' \<longleftrightarrow> ys < ys'" for xs :: string
  by (simp add: less_append)

lemma length_zpad [simp]: "length (zpad w n) = w"
  by (induction w arbitrary: n) simp_all

lemma digit_char_less: "a < b \<Longrightarrow> b < 10 \<Longrightarrow> digit_char a < digit_char b"
  by (simp add: digit_char_def less_char_def)

lemma zpad_less:
  assumes "0 \<le> a" "a < b" "b < 10 ^ w"
  shows "zpad w a < zpad w b"
  using assms
proof (induction w arbitrary: a b)
  case (Suc w)
  have q: "0 \<le> a div 10" "a div 10 \<le> b div 10" "b div 10 < 10 ^ w"
    using Suc.prems by (simp_all add: zdiv_mono1 div_less_iff_less_mult mult.commute)
  show ?case
  proof (cases "a div 10 < b div 10")
    case True
    then show ?thesis using Suc.IH [OF q(1) True q(3)] by (simp add: less_append)
  next
    case False
    then have e: "a div 10 = b div 10" using q(2) by simp
    then have "a mod 10 < b mod 10" using Suc.prems(2) by (metis add_less_cancel_left mult_div_mod_eq)
    then have "digit_char (nat (a mod 10)) < digit_char (nat (b mod 10))" by (intro digit_char_less) auto
    then show ?thesis by (simp add: e)
  qed
qed simp

lemma field_less:
  assumes "0 \<le> a" "b < 10 ^ w" "a < b \<or> a = b \<and> ys < ys'"
  shows "zpad w a @ ys < zpad w b @ ys'"
  using assms zpad_less [of a b w] by (auto simp: less_append)

lemma iso_date_less:
  assumes "0 \<le> n" "n < n'" "n' < 3652059"
  shows "iso_date n < iso_date n'"
proof -
  obtain y m d where a: "ord2ymd n = (y, m, d)" by (cases "ord2ymd n")
  obtain y' m' d' where b: "ord2ymd n' = (y', m', d')" by (cases "ord2ymd n'")
  have v: "valid_ymd (y, m, d)" "valid_ymd (y', m', d')" and o': "ymd2ord (y', m', d') = n'"
    using ord2ymd_ok [of n] ord2ymd_ok [of n'] assms by (simp_all add: a b)
  have dim: "days_in_month leap k \<le> 31" if "1 \<le> k" "k \<le> 12" for leap k
  proof -
    have "nat (k - 1) < length (month_lengths leap)" using that by (simp add: month_lengths_def)
    then have "days_in_month leap k \<in> set (month_lengths leap)" unfolding days_in_month_def by (rule nth_mem)
    then show ?thesis by (auto simp: month_lengths_def)
  qed
  have "y' < 10000"
  proof (rule ccontr)
    assume "\<not> y' < 10000"
    moreover have "days_before_year 10000 = 3652059" by code_simp
    ultimately have "3652059 \<le> days_before_year y'"
      using days_before_year_mono [of 10000 y'] by (cases "y' = 10000") (auto split: if_splits)
    then show False using o' v(2) days_before_month_year [of m' "is_leap y'"] assms(3)
      by (auto simp: ymd2ord_def valid_ymd_def)
  qed
  moreover have "(y, m, d) < (y', m', d')" using ord2ymd_mono [OF assms(1,2)] by (simp add: a b)
  moreover have "1 \<le> y" "1 \<le> m" "m' \<le> 12" "1 \<le> d" "d' \<le> 31"
    using v dim [of m' "is_leap y'"] by (auto simp: valid_ymd_def)
  ultimately show ?thesis
    unfolding iso_date_def a b prod.case
    by (intro field_less) (auto simp: less_prod_def' intro!: field_less zpad_less)
qed

lemma length_iso_date: "length (iso_date n) = 10"
  by (simp add: iso_date_def split: prod.split)

lemma fraction_less:
  assumes "0 \<le> a" "a < b" "b < 1000000"
  shows "(if a = 0 then [] else ''.'' @ zpad 6 a) @ ''+00:00'' < (if b = 0 then [] else ''.'' @ zpad 6 b) @ ''+00:00''"
  using assms zpad_less [of a b 6] by (auto simp: less_append)

lemma clock_less:
  assumes "0 \<le> h" "h' < 100" "0 \<le> m" "m' < 60" "0 \<le> s" "s' < 60" and f: "f < f' \<Longrightarrow> ys < ys'"
    and "(h, m, s, f) < (h', m', s', f' :: int)"
  shows "zpad 2 h @ '':'' @ zpad 2 m @ '':'' @ zpad 2 s @ ys < zpad 2 h' @ '':'' @ zpad 2 m' @ '':'' @ zpad 2 s' @ ys'"
  using assms by (intro field_less) (auto simp: less_prod_def' intro!: field_less)

lemma time_split:
  "(v :: int) = (v div 3600000000) * 3600000000 + (v div 60000000 mod 60) * 60000000
      + (v div 1000000 mod 60) * 1000000 + v mod 1000000"
proof -
  have "v div 60000000 = v div 1000000 div 60" "v div 3600000000 = v div 60000000 div 60"
    by (simp_all add: zdiv_zmult2_eq [symmetric])
  then show ?thesis
    using mult_div_mod_eq [of 1000000 v] mult_div_mod_eq [of 60 "v div 1000000"]
      mult_div_mod_eq [of 60 "v div 60000000"] by linarith
qed

lemma split_less:
  fixes h m s f :: int
  assumes "h * 3600000000 + m * 60000000 + s * 1000000 + f < h' * 3600000000 + m' * 60000000 + s' * 1000000 + f'"
    and "0 \<le> m" "m' < 60" "0 \<le> s" "s' < 60" "0 \<le> f" "f' < 1000000"
  shows "(h, m, s, f) < (h', m', s', f')"
proof -
  have "h \<le> h'" using assms by linarith
  moreover have "m \<le> m'" if "h = h'" using assms unfolding that by linarith
  moreover have "s \<le> s'" if "h = h'" "m = m'" using assms unfolding that by linarith
  moreover have "f < f'" if "h = h'" "m = m'" "s = s'" using assms(1) unfolding that by linarith
  ultimately show ?thesis by (auto simp: less_prod_def')
qed

lemma iso_time_less:
  assumes "0 \<le> u" "u < u'" "u' < us_per_day"
  shows "iso_time u < iso_time u'"
proof -
  have "u div 3600000000 * 3600000000 + u div 60000000 mod 60 * 60000000 + u div 1000000 mod 60 * 1000000 + u mod 1000000
    < u' div 3600000000 * 3600000000 + u' div 60000000 mod 60 * 60000000 + u' div 1000000 mod 60 * 1000000 + u' mod 1000000"
    using assms(2) unfolding time_split [symmetric] .
  then have ord: "(u div 3600000000, u div 60000000 mod 60, u div 1000000 mod 60, u mod 1000000)
    < (u' div 3600000000, u' div 60000000 mod 60, u' div 1000000 mod 60, u' mod 1000000)"
    by (rule split_less) simp_all
  have h: "0 \<le> u div 3600000000" "u' div 3600000000 < 100"
    using assms by (simp_all add: us_per_day_def div_less_iff_less_mult)
  have f: "(if u mod 1000000 = 0 then [] else ''.'' @ zpad 6 (u mod 1000000)) @ ''+00:00''
      < (if u' mod 1000000 = 0 then [] else ''.'' @ zpad 6 (u' mod 1000000)) @ ''+00:00''"
    if "u mod 1000000 < u' mod 1000000" by (rule fraction_less [OF _ that]) simp_all
  show ?thesis unfolding iso_time_def by (rule clock_less [OF h _ _ _ _ f ord]) simp_all
qed

text \<open>The rendered texts order the instants of the years 1 to 9999.\<close>

lemma isoformat_mono:
  assumes "0 \<le> t" "t < t'" "t' < max_instant"
  shows "utc_isoformat t < utc_isoformat t'"
proof -
  have d: "0 < us_per_day" by (simp add: us_per_day_def)
  have q: "0 \<le> t div us_per_day" "t div us_per_day \<le> t' div us_per_day" "t' div us_per_day < 3652059"
    using assms by (simp_all add: pos_imp_zdiv_nonneg_iff zdiv_mono1 div_less_iff_less_mult max_instant_def us_per_day_def)
  show ?thesis
  proof (cases "t div us_per_day < t' div us_per_day")
    case True
    then show ?thesis using iso_date_less [OF q(1) True q(3)]
      by (simp add: utc_isoformat_def less_append length_iso_date)
  next
    case False
    then have e: "t div us_per_day = t' div us_per_day" using q(2) by simp
    then have "t mod us_per_day < t' mod us_per_day" using assms(2) by (metis add_less_cancel_left mult_div_mod_eq)
    then show ?thesis using iso_time_less [of "t mod us_per_day" "t' mod us_per_day"] d
      by (simp add: utc_isoformat_def e)
  qed
qed

lemma isoformat_less:
  assumes "valid_instant t" "valid_instant t'"
  shows "utc_isoformat t < utc_isoformat t' \<longleftrightarrow> t < t'"
  using isoformat_mono [of t t'] isoformat_mono [of t' t] assms unfolding valid_instant_def
  by (cases t t' rule: linorder_cases) auto

end
