(* ===== verification/SchedulerDomain.thy ===== *)
theory SchedulerDomain
  imports Json Identifiers PyFloat PyDatetime
begin

text \<open>
  \<open>src/project_pipeline/domain/scheduler.py\<close>: resource claims, pools, leases and registries,
  backpressure signals and policy, and the records a scheduler plan is made of, each with its
  validators.  The lemmas at the end say what \<open>conflicts_with\<close> and \<open>normalize_resource_key\<close>
  compute.
\<close>

section \<open>Enumerations\<close>

datatype ResourceType =
    PATH | SYMBOL | MODULE | DATABASE | SCHEMA | API_CONTRACT | CONFIGURATION | INFRASTRUCTURE
  | DOCKER | ENVIRONMENT | RELEASE | FIXTURE | SERVICE | PORT | GPU | GPU_MEMORY_MB | CPU_SLOT
  | MEMORY_MB | DISK_MB | NETWORK_SLOT | PROCESS_SLOT | CONCURRENCY_SLOT | PROVIDER_SLOT | REVIEW_SLOT

fun resource_type_value :: "ResourceType \<Rightarrow> string" where
  "resource_type_value PATH = ''PATH''"
| "resource_type_value SYMBOL = ''SYMBOL''"
| "resource_type_value MODULE = ''MODULE''"
| "resource_type_value DATABASE = ''DATABASE''"
| "resource_type_value SCHEMA = ''SCHEMA''"
| "resource_type_value API_CONTRACT = ''API_CONTRACT''"
| "resource_type_value CONFIGURATION = ''CONFIGURATION''"
| "resource_type_value INFRASTRUCTURE = ''INFRASTRUCTURE''"
| "resource_type_value DOCKER = ''DOCKER''"
| "resource_type_value ENVIRONMENT = ''ENVIRONMENT''"
| "resource_type_value RELEASE = ''RELEASE''"
| "resource_type_value FIXTURE = ''FIXTURE''"
| "resource_type_value SERVICE = ''SERVICE''"
| "resource_type_value PORT = ''PORT''"
| "resource_type_value GPU = ''GPU''"
| "resource_type_value GPU_MEMORY_MB = ''GPU_MEMORY_MB''"
| "resource_type_value CPU_SLOT = ''CPU_SLOT''"
| "resource_type_value MEMORY_MB = ''MEMORY_MB''"
| "resource_type_value DISK_MB = ''DISK_MB''"
| "resource_type_value NETWORK_SLOT = ''NETWORK_SLOT''"
| "resource_type_value PROCESS_SLOT = ''PROCESS_SLOT''"
| "resource_type_value CONCURRENCY_SLOT = ''CONCURRENCY_SLOT''"
| "resource_type_value PROVIDER_SLOT = ''PROVIDER_SLOT''"
| "resource_type_value REVIEW_SLOT = ''REVIEW_SLOT''"

datatype AccessMode = SHARED | EXCLUSIVE

fun access_mode_value :: "AccessMode \<Rightarrow> string" where
  "access_mode_value SHARED = ''SHARED''"
| "access_mode_value EXCLUSIVE = ''EXCLUSIVE''"

datatype BackpressureMode = NORMAL | CONGESTED | BROWNOUT | HALT_NEW_WORK

fun backpressure_mode_value :: "BackpressureMode \<Rightarrow> string" where
  "backpressure_mode_value NORMAL = ''NORMAL''"
| "backpressure_mode_value CONGESTED = ''CONGESTED''"
| "backpressure_mode_value BROWNOUT = ''BROWNOUT''"
| "backpressure_mode_value HALT_NEW_WORK = ''HALT_NEW_WORK''"

datatype AdmissionState =
    ADMITTED | CONFLICT | CAPACITY_EXHAUSTED | LEASE_UNAVAILABLE | BACKPRESSURE
  | POLICY_DENIED | WORKSPACE_UNSAFE

section \<open>Claims\<close>

record ResourceClaim =
  rc_resource_key :: string
  rc_resource_type :: ResourceType
  rc_access_mode :: AccessMode
  rc_quantity :: int
  rc_machine_id :: "string option"
  rc_purpose :: "string option"

text \<open>\<open>re.sub(r"/+", "/", value)\<close> and \<open>re.match(r"^[A-Za-z]:/", value)\<close>.\<close>

fun collapse_slashes :: "string \<Rightarrow> string" where
  "collapse_slashes (a # b # s) =
     (if a = CHR ''/'' \<and> b = CHR ''/'' then collapse_slashes (b # s) else a # collapse_slashes (b # s))"
| "collapse_slashes s = s"

fun has_drive :: "string \<Rightarrow> bool" where
  "has_drive (d # a # b # s) =
     ((is_upper_char d \<or> is_lower_char d) \<and> a = CHR '':'' \<and> b = CHR ''/'')"
| "has_drive _ = False"

definition normalize_resource_key :: "string \<Rightarrow> string result" where
  "normalize_resource_key raw =
     (let value = replace_char (CHR 0x5C) (CHR ''/'') (py_strip raw)
      in if value = [] \<or> CHR 0x00 \<in> set value
         then Inl (ValueError ''resource key must be non-empty and contain no NUL bytes'')
         else if startswith value ''/'' \<or> has_drive value
         then Inl (ValueError ''resource keys must be logical or repository-relative, not absolute paths'')
         else if ''..'' \<in> set (split_on (CHR ''/'') value)
         then Inl (ValueError ''resource keys cannot escape their logical root'')
         else (let key = rstrip_char (CHR ''/'') (collapse_slashes value)
               in Inr (if key = [] then ''.'' else key)))"

definition make_ResourceClaim :: "ResourceClaim \<Rightarrow> ResourceClaim result" where
  "make_ResourceClaim c =
     (if 1 \<le> length (rc_resource_key c) \<and> length (rc_resource_key c) \<le> 512
         \<and> 1 \<le> rc_quantity c \<and> rc_quantity c \<le> 10000000
         \<and> max_length 191 (rc_machine_id c) \<and> max_length 1000 (rc_purpose c)
      then case normalize_resource_key (rc_resource_key c) of
             Inl e \<Rightarrow> Inl ValidationError
           | Inr key \<Rightarrow> Inr (c\<lparr>rc_resource_key := key\<rparr>)
      else Inl ValidationError)"

definition conflicts_with :: "ResourceClaim \<Rightarrow> ResourceClaim \<Rightarrow> bool" where
  "conflicts_with c d \<longleftrightarrow>
     (let left = rc_resource_key c; right = rc_resource_key d;
          overlaps =
            (if rc_resource_type c = PATH \<and> rc_resource_type d = PATH
             then left = right \<or> startswith left (right @ ''/'') \<or> startswith right (left @ ''/'')
             else left = right)
      in overlaps \<and> (rc_access_mode c = EXCLUSIVE \<or> rc_access_mode d = EXCLUSIVE))"

section \<open>Task profiles, pools, leases and registries\<close>

record SchedulerTaskProfile =
  tp_task_id :: string
  tp_project_id :: string
  tp_sequence_rank :: int
  tp_utility_score :: int
  tp_priority :: string
  tp_critical_path :: bool
  tp_claims :: "ResourceClaim list"
  tp_owner_id :: "string option"
  tp_workspace_isolated :: bool
  tp_policy_eligible :: bool
  tp_productive_idle :: bool
  tp_protected_capacity_consumption :: bool

definition claim_identity :: "ResourceClaim \<Rightarrow> string \<times> string \<times> string" where
  "claim_identity c =
     (resource_type_value (rc_resource_type c), rc_resource_key c, access_mode_value (rc_access_mode c))"

definition valid_SchedulerTaskProfile :: "SchedulerTaskProfile \<Rightarrow> bool" where
  "valid_SchedulerTaskProfile p \<longleftrightarrow>
     1 \<le> tp_sequence_rank p \<and> 0 \<le> tp_utility_score p
     \<and> tp_priority p \<in> {''P0'', ''P1'', ''P2'', ''P3''} \<and> max_length 191 (tp_owner_id p)
     \<and> is_issue_id (tp_task_id p) \<and> is_project_id (tp_project_id p)
     \<and> distinct (map claim_identity (tp_claims p))"

definition make_SchedulerTaskProfile :: "SchedulerTaskProfile \<Rightarrow> SchedulerTaskProfile result" where
  "make_SchedulerTaskProfile p = (if valid_SchedulerTaskProfile p then Inr p else Inl ValidationError)"

record ResourcePool =
  rp_resource_key :: string
  rp_resource_type :: ResourceType
  rp_capacity_units :: int
  rp_reserved_units :: int
  rp_machine_id :: "string option"
  rp_observed :: bool

definition valid_ResourcePool :: "ResourcePool \<Rightarrow> bool" where
  "valid_ResourcePool p \<longleftrightarrow>
     1 \<le> length (rp_resource_key p) \<and> length (rp_resource_key p) \<le> 512
     \<and> 1 \<le> rp_capacity_units p \<and> 0 \<le> rp_reserved_units p \<and> max_length 191 (rp_machine_id p)
     \<and> rp_reserved_units p < rp_capacity_units p"

definition make_ResourcePool :: "ResourcePool \<Rightarrow> ResourcePool result" where
  "make_ResourcePool p = (if valid_ResourcePool p then Inr p else Inl ValidationError)"

definition allocatable_units :: "ResourcePool \<Rightarrow> int" where
  "allocatable_units p = rp_capacity_units p - rp_reserved_units p"

record ResourceLease =
  rl_lease_id :: string
  rl_task_id :: string
  rl_holder_id :: string
  rl_claim :: ResourceClaim
  rl_fencing_token :: int
  rl_acquired_at_utc :: py_datetime
  rl_expires_at_utc :: py_datetime
  rl_renewed_at_utc :: "py_datetime option"
  rl_released_at_utc :: "py_datetime option"

definition valid_ResourceLease :: "ResourceLease \<Rightarrow> bool" where
  "valid_ResourceLease l \<longleftrightarrow>
     1 \<le> length (rl_holder_id l) \<and> length (rl_holder_id l) \<le> 191 \<and> 1 \<le> rl_fencing_token l
     \<and> fullmatch scheduler_id_rx (rl_lease_id l) \<and> startswith (rl_lease_id l) ''LEASE-''
     \<and> is_issue_id (rl_task_id l)
     \<and> is_aware (rl_acquired_at_utc l) \<and> is_aware (rl_expires_at_utc l)
     \<and> list_all is_aware (map the (filter (\<lambda>t. t \<noteq> None) [rl_renewed_at_utc l, rl_released_at_utc l]))
     \<and> instant (rl_acquired_at_utc l) < instant (rl_expires_at_utc l)
     \<and> \<not> (case rl_renewed_at_utc l of None \<Rightarrow> False | Some t \<Rightarrow> instant t < instant (rl_acquired_at_utc l))
     \<and> \<not> (case rl_released_at_utc l of None \<Rightarrow> False | Some t \<Rightarrow> instant t < instant (rl_acquired_at_utc l))"

definition make_ResourceLease :: "ResourceLease \<Rightarrow> ResourceLease result" where
  "make_ResourceLease l = (if valid_ResourceLease l then Inr l else Inl ValidationError)"

definition active_at :: "ResourceLease \<Rightarrow> int \<Rightarrow> bool" where
  "active_at l when \<longleftrightarrow> rl_released_at_utc l = None \<and> when < instant (rl_expires_at_utc l)"

record ResourceRegistrySnapshot =
  rr_registry_id :: string
  rr_pools :: "ResourcePool list"
  rr_active_leases :: "ResourceLease list"
  rr_observed_at_utc :: py_datetime

definition valid_ResourceRegistrySnapshot :: "ResourceRegistrySnapshot \<Rightarrow> bool" where
  "valid_ResourceRegistrySnapshot r \<longleftrightarrow>
     is_sha256_hex (rr_registry_id r) \<and> is_aware (rr_observed_at_utc r)
     \<and> distinct (map rp_resource_key (rr_pools r))"

definition make_ResourceRegistrySnapshot :: "ResourceRegistrySnapshot \<Rightarrow> ResourceRegistrySnapshot result" where
  "make_ResourceRegistrySnapshot r =
     (if valid_ResourceRegistrySnapshot r then Inr r else Inl ValidationError)"

text \<open>
  \<open>model_dump(mode="json")\<close> of pools and leases; \<open>isoformat\<close> is pydantic's rendering of a UTC time
  stamp, a parameter.
\<close>

definition dump_claim :: "ResourceClaim \<Rightarrow> json" where
  "dump_claim c = JObj
     [(''schema_version'', JStr ''1.0.0''), (''resource_key'', JStr (rc_resource_key c)),
      (''resource_type'', JStr (resource_type_value (rc_resource_type c))),
      (''access_mode'', JStr (access_mode_value (rc_access_mode c))), (''quantity'', JInt (rc_quantity c)),
      (''machine_id'', JOpt (rc_machine_id c)), (''purpose'', JOpt (rc_purpose c))]"

definition dump_pool :: "ResourcePool \<Rightarrow> json" where
  "dump_pool p = JObj
     [(''schema_version'', JStr ''1.0.0''), (''resource_key'', JStr (rp_resource_key p)),
      (''resource_type'', JStr (resource_type_value (rp_resource_type p))),
      (''capacity_units'', JInt (rp_capacity_units p)), (''reserved_units'', JInt (rp_reserved_units p)),
      (''machine_id'', JOpt (rp_machine_id p)), (''observed'', JBool (rp_observed p))]"

definition dump_lease :: "(int \<Rightarrow> string) \<Rightarrow> ResourceLease \<Rightarrow> json" where
  "dump_lease isoformat l = JObj
     [(''schema_version'', JStr ''1.0.0''), (''lease_id'', JStr (rl_lease_id l)),
      (''task_id'', JStr (rl_task_id l)), (''holder_id'', JStr (rl_holder_id l)),
      (''claim'', dump_claim (rl_claim l)), (''fencing_token'', JInt (rl_fencing_token l)),
      (''acquired_at_utc'', JStr (isoformat (instant (rl_acquired_at_utc l)))),
      (''expires_at_utc'', JStr (isoformat (instant (rl_expires_at_utc l)))),
      (''renewed_at_utc'', JOpt (map_option (isoformat \<circ> instant) (rl_renewed_at_utc l))),
      (''released_at_utc'', JOpt (map_option (isoformat \<circ> instant) (rl_released_at_utc l)))]"

definition registry_create ::
  "(int \<Rightarrow> string) \<Rightarrow> ResourcePool list \<Rightarrow> ResourceLease list \<Rightarrow> int \<Rightarrow> ResourceRegistrySnapshot result" where
  "registry_create isoformat pools leases observed_at =
     (let pool_tuple = sort_key rp_resource_key pools;
          lease_tuple = sort_key rl_lease_id leases;
          payload = JObj [(''pools'', JList (map dump_pool pool_tuple)),
                          (''active_leases'', JList (map (dump_lease isoformat) lease_tuple))]
      in make_ResourceRegistrySnapshot
           \<lparr>rr_registry_id = semantic_fingerprint payload, rr_pools = pool_tuple,
            rr_active_leases = lease_tuple, rr_observed_at_utc = Aware observed_at\<rparr>)"

section \<open>Backpressure\<close>

record BackpressureSignals =
  bs_queue_depth :: int
  bs_scheduler_queue_lag_seconds :: rat
  bs_memory_used_percent :: "rat option"
  bs_disk_free_percent :: "rat option"
  bs_outbox_depth :: int
  bs_verification_queue_depth :: int
  bs_retry_storm_count :: int

definition percent_ok :: "rat option \<Rightarrow> bool" where
  "percent_ok v = (case v of None \<Rightarrow> True | Some x \<Rightarrow> 0 \<le> x \<and> x \<le> 100)"

definition valid_BackpressureSignals :: "BackpressureSignals \<Rightarrow> bool" where
  "valid_BackpressureSignals s \<longleftrightarrow>
     0 \<le> bs_queue_depth s \<and> 0 \<le> bs_scheduler_queue_lag_seconds s
     \<and> percent_ok (bs_memory_used_percent s) \<and> percent_ok (bs_disk_free_percent s)
     \<and> 0 \<le> bs_outbox_depth s \<and> 0 \<le> bs_verification_queue_depth s \<and> 0 \<le> bs_retry_storm_count s"

text \<open>\<open>BackpressureSignals(queue_depth=n)\<close>: the other signals have their defaults.\<close>

definition default_signals :: "int \<Rightarrow> BackpressureSignals" where
  "default_signals n =
     \<lparr>bs_queue_depth = n, bs_scheduler_queue_lag_seconds = 0, bs_memory_used_percent = None,
      bs_disk_free_percent = None, bs_outbox_depth = 0, bs_verification_queue_depth = 0,
      bs_retry_storm_count = 0\<rparr>"

record BackpressurePolicy =
  bp_congested_queue_depth :: int
  bp_brownout_queue_depth :: int
  bp_halt_queue_depth :: int
  bp_congested_lag_seconds :: rat
  bp_brownout_lag_seconds :: rat
  bp_memory_brownout_percent :: rat
  bp_memory_halt_percent :: rat
  bp_disk_brownout_free_percent :: rat
  bp_disk_halt_free_percent :: rat
  bp_retry_storm_brownout_count :: int
  bp_congested_lane_fraction :: rat

definition valid_BackpressurePolicy :: "BackpressurePolicy \<Rightarrow> bool" where
  "valid_BackpressurePolicy p \<longleftrightarrow>
     1 \<le> bp_congested_queue_depth p \<and> 1 \<le> bp_brownout_queue_depth p \<and> 1 \<le> bp_halt_queue_depth p
     \<and> 0 \<le> bp_congested_lag_seconds p \<and> 0 \<le> bp_brownout_lag_seconds p
     \<and> 1 \<le> bp_memory_brownout_percent p \<and> bp_memory_brownout_percent p \<le> 100
     \<and> 1 \<le> bp_memory_halt_percent p \<and> bp_memory_halt_percent p \<le> 100
     \<and> 0 \<le> bp_disk_brownout_free_percent p \<and> bp_disk_brownout_free_percent p \<le> 100
     \<and> 0 \<le> bp_disk_halt_free_percent p \<and> bp_disk_halt_free_percent p \<le> 100
     \<and> 1 \<le> bp_retry_storm_brownout_count p
     \<and> 0 < bp_congested_lane_fraction p \<and> bp_congested_lane_fraction p \<le> 1
     \<and> bp_congested_queue_depth p < bp_brownout_queue_depth p
     \<and> bp_brownout_queue_depth p < bp_halt_queue_depth p
     \<and> bp_memory_brownout_percent p < bp_memory_halt_percent p
     \<and> bp_disk_halt_free_percent p < bp_disk_brownout_free_percent p"

definition default_policy :: BackpressurePolicy where
  "default_policy =
     \<lparr>bp_congested_queue_depth = 50, bp_brownout_queue_depth = 200, bp_halt_queue_depth = 1000,
      bp_congested_lag_seconds = 30, bp_brownout_lag_seconds = 120,
      bp_memory_brownout_percent = 90, bp_memory_halt_percent = 97,
      bp_disk_brownout_free_percent = 10, bp_disk_halt_free_percent = 3,
      bp_retry_storm_brownout_count = 8, bp_congested_lane_fraction = 1 / 2\<rparr>"

record BackpressureDecision =
  bd_mode :: BackpressureMode
  bd_lane_fraction :: rat
  bd_admit_new_work :: bool
  bd_reasons :: "string list"

definition make_BackpressureDecision :: "BackpressureDecision \<Rightarrow> BackpressureDecision result" where
  "make_BackpressureDecision d =
     (if 0 \<le> bd_lane_fraction d \<and> bd_lane_fraction d \<le> 1 then Inr d else Inl ValidationError)"

section \<open>Plans\<close>

record ConflictEdge =
  ce_left_task_id :: string
  ce_right_task_id :: string
  ce_reasons :: "string list"

definition valid_ConflictEdge :: "ConflictEdge \<Rightarrow> bool" where
  "valid_ConflictEdge e \<longleftrightarrow>
     is_issue_id (ce_left_task_id e) \<and> is_issue_id (ce_right_task_id e)
     \<and> ce_left_task_id e < ce_right_task_id e \<and> ce_reasons e \<noteq> []"

definition make_ConflictEdge :: "ConflictEdge \<Rightarrow> ConflictEdge result" where
  "make_ConflictEdge e = (if valid_ConflictEdge e then Inr e else Inl ValidationError)"

record AdmissionDecision =
  ad_task_id :: string
  ad_state :: AdmissionState
  ad_admitted :: bool
  ad_reasons :: "string list"

definition valid_AdmissionDecision :: "AdmissionDecision \<Rightarrow> bool" where
  "valid_AdmissionDecision d \<longleftrightarrow>
     is_issue_id (ad_task_id d) \<and> (ad_admitted d \<longleftrightarrow> ad_state d = ADMITTED)
     \<and> \<not> (\<not> ad_admitted d \<and> ad_reasons d = [])"

definition make_AdmissionDecision :: "AdmissionDecision \<Rightarrow> AdmissionDecision result" where
  "make_AdmissionDecision d = (if valid_AdmissionDecision d then Inr d else Inl ValidationError)"

record LaneAssignment =
  la_lane_id :: string
  la_task_id :: string
  la_rank :: int
  la_utility_score :: int
  la_claims :: "ResourceClaim list"

definition valid_LaneAssignment :: "LaneAssignment \<Rightarrow> bool" where
  "valid_LaneAssignment l \<longleftrightarrow>
     1 \<le> la_rank l \<and> 0 \<le> la_utility_score l
     \<and> fullmatch scheduler_id_rx (la_lane_id l) \<and> startswith (la_lane_id l) ''LANE-''
     \<and> is_issue_id (la_task_id l)"

definition make_LaneAssignment :: "LaneAssignment \<Rightarrow> LaneAssignment result" where
  "make_LaneAssignment l = (if valid_LaneAssignment l then Inr l else Inl ValidationError)"

datatype selection_method = EXACT_BOUNDED | DETERMINISTIC_GREEDY | ORTOOLS_CP_SAT

record SchedulerPlan =
  sp_plan_id :: string
  sp_project_id :: string
  sp_control_snapshot_id :: string
  sp_registry_id :: string
  sp_backpressure :: BackpressureDecision
  sp_selection_method :: selection_method
  sp_candidate_count :: int
  sp_lane_limit :: int
  sp_lanes :: "LaneAssignment list"
  sp_conflicts :: "ConflictEdge list"
  sp_admissions :: "AdmissionDecision list"
  sp_generated_at_utc :: py_datetime

definition valid_SchedulerPlan :: "SchedulerPlan \<Rightarrow> bool" where
  "valid_SchedulerPlan p \<longleftrightarrow>
     is_sha256_hex (sp_registry_id p) \<and> 0 \<le> sp_candidate_count p \<and> 0 \<le> sp_lane_limit p
     \<and> fullmatch scheduler_id_rx (sp_plan_id p) \<and> startswith (sp_plan_id p) ''SCHED-''
     \<and> is_project_id (sp_project_id p) \<and> is_aware (sp_generated_at_utc p)
     \<and> distinct (map la_task_id (sp_lanes p)) \<and> int (length (sp_lanes p)) \<le> sp_lane_limit p"

definition make_SchedulerPlan :: "SchedulerPlan \<Rightarrow> SchedulerPlan result" where
  "make_SchedulerPlan p = (if valid_SchedulerPlan p then Inr p else Inl ValidationError)"

record LeaseBundle =
  lb_task_id :: string
  lb_holder_id :: string
  lb_leases :: "ResourceLease list"
  lb_acquired :: bool
  lb_reasons :: "string list"

definition make_LeaseBundle :: "LeaseBundle \<Rightarrow> LeaseBundle result" where
  "make_LeaseBundle b =
     (if is_issue_id (lb_task_id b) \<and> \<not> (lb_acquired b \<and> lb_leases b = [])
         \<and> \<not> (\<not> lb_acquired b \<and> lb_reasons b = [])
      then Inr b else Inl ValidationError)"

record SchedulerSimulationResult =
  sr_simulation_id :: string
  sr_scenario_name :: string
  sr_plan :: SchedulerPlan
  sr_expected_lane_count :: "int option"
  sr_assertions_passed :: bool
  sr_findings :: "string list"

definition make_SchedulerSimulationResult :: "SchedulerSimulationResult \<Rightarrow> SchedulerSimulationResult result" where
  "make_SchedulerSimulationResult r =
     (if fullmatch scheduler_id_rx (sr_simulation_id r) \<and> startswith (sr_simulation_id r) ''SIM-''
         \<and> 1 \<le> length (sr_scenario_name r) \<and> length (sr_scenario_name r) \<le> 191
         \<and> (case sr_expected_lane_count r of None \<Rightarrow> True | Some n \<Rightarrow> 0 \<le> n)
      then Inr r else Inl ValidationError)"

section \<open>The local host\<close>

text \<open>
  What \<open>local_resource_pools\<close> reads from the operating system: \<open>os.cpu_count()\<close>, the total
  physical memory of the Windows call or \<open>SC_PHYS_PAGES\<close> and \<open>SC_PAGE_SIZE\<close> of \<open>os.sysconf\<close>
  (absent when the call fails or gives no integers), and the free bytes of the disk.
\<close>

record host_facts =
  hf_cpu_count :: "int option"
  hf_win32 :: bool
  hf_total_phys :: "int option"
  hf_sysconf :: "(int \<times> int) option"
  hf_disk_free :: int

definition host_memory_mb :: "host_facts \<Rightarrow> int option" where
  "host_memory_mb h =
     (if hf_win32 h then map_option (\<lambda>n. max 1 (n div (1024 * 1024))) (hf_total_phys h)
      else case hf_sysconf h of
             Some (pages, page_size) \<Rightarrow>
               if 0 < pages \<and> 0 < page_size then Some (max 1 (pages * page_size div (1024 * 1024))) else None
           | None \<Rightarrow> None)"

definition local_resource_pools :: "host_facts \<Rightarrow> ResourcePool list result" where
  "local_resource_pools h =
     (let cpu = max 1 (case hf_cpu_count h of None \<Rightarrow> 1 | Some n \<Rightarrow> if n = 0 then 1 else n);
          cpu_capacity = max 2 cpu;
          cpu_reserve = (if 1 < cpu_capacity then 1 else 0);
          disk_mb = max 1 (hf_disk_free h div (1024 * 1024));
          pool = (\<lambda>key ty capacity reserved.
                    make_ResourcePool \<lparr>rp_resource_key = key, rp_resource_type = ty, rp_capacity_units = capacity,
                      rp_reserved_units = reserved, rp_machine_id = Some ''machine:local'', rp_observed = True\<rparr>)
      in map_res id
           ([pool ''machine:local/cpu_slots'' CPU_SLOT cpu_capacity cpu_reserve,
             pool ''machine:local/process_slots'' PROCESS_SLOT (max 2 (min 64 (cpu_capacity * 2))) 1,
             pool ''machine:local/disk_mb'' DISK_MB disk_mb
               (if 1 < disk_mb
                then max 1 (min (disk_mb - 1) (trunc_int (fl (of_int disk_mb * fl (5 / 100))))) else 0)]
            @ (case host_memory_mb h of
                 None \<Rightarrow> []
               | Some memory_mb \<Rightarrow>
                   if 1 < memory_mb
                   then [pool ''machine:local/memory_mb'' MEMORY_MB memory_mb
                           (max 1 (min (memory_mb - 1) (trunc_int (fl (of_int memory_mb * fl (15 / 100))))))]
                   else [])))"

definition lease_expiry :: "int \<Rightarrow> int \<Rightarrow> int result" where
  "lease_expiry now ttl_seconds =
     (if ttl_seconds \<le> 0 then Inl (ValueError ''lease TTL must be positive'')
      else add_seconds now ttl_seconds)"

section \<open>Lemmas on paths\<close>

abbreviation segments :: "string \<Rightarrow> string list" where
  "segments \<equiv> split_on (CHR ''/'')"

abbreviation nonempty_segments :: "string \<Rightarrow> string list" where
  "nonempty_segments s \<equiv> filter (\<lambda>p. p \<noteq> []) (segments s)"

lemma conflicts_with_sym: "conflicts_with c d = conflicts_with d c"
  by (auto simp: conflicts_with_def Let_def)

lemma segments_collapse:
  "s \<noteq> [] \<Longrightarrow> segments (collapse_slashes s) =
     (if hd s = CHR ''/'' then [[]] else []) @ nonempty_segments s
     @ (if last s = CHR ''/'' then [[]] else [])"
proof (induction s rule: collapse_slashes.induct)
  case (1 a b s)
  obtain p ps where ps: "segments s = p # ps" using split_on_not_Nil by (meson list.exhaust)
  show ?case using 1 ps by (auto split: if_splits)
qed auto

lemma set_collapse: "set (collapse_slashes s) \<subseteq> set s"
  by (induction s rule: collapse_slashes.induct) auto

lemma rstrip_prefix: "prefix (rstrip_char c s) s"
proof -
  have "s = rev (dropWhile (\<lambda>d. d = c) (rev s)) @ rev (takeWhile (\<lambda>d. d = c) (rev s))"
    by (metis rev_append rev_rev_ident takeWhile_dropWhile_id)
  then show ?thesis unfolding rstrip_char_def prefix_def by metis
qed

lemma rstrip_not_last: "s = [] \<or> last s \<noteq> c \<Longrightarrow> rstrip_char c s = s"
  by (cases s rule: rev_cases) (auto simp: rstrip_char_def)

lemma rstrip_snoc: "rstrip_char c (s @ [c]) = rstrip_char c s"
  by (simp add: rstrip_char_def)

lemma collapse_not_Nil [simp]: "collapse_slashes s = [] \<longleftrightarrow> s = []"
  by (induction s rule: collapse_slashes.induct) auto

lemma last_collapse: "s \<noteq> [] \<Longrightarrow> last (collapse_slashes s) = last s"
  by (induction s rule: collapse_slashes.induct) auto

lemma hd_collapse: "s \<noteq> [] \<Longrightarrow> hd (collapse_slashes s) = hd s"
  by (induction s rule: collapse_slashes.induct) auto

lemma segments_normal:
  assumes "v \<noteq> []" "hd v \<noteq> CHR ''/''"
  shows "segments (rstrip_char (CHR ''/'') (collapse_slashes v)) = nonempty_segments v"
proof (cases "last v = CHR ''/''")
  case False
  then show ?thesis
    using segments_collapse [OF assms(1)] assms rstrip_not_last by (simp add: last_collapse)
next
  case True
  let ?c = "CHR ''/''"
  obtain t where t: "collapse_slashes v = t @ [?c]"
    using True assms(1) by (metis append_butlast_last_id collapse_not_Nil last_collapse)
  have seg: "segments t = nonempty_segments v"
    using segments_collapse [OF assms(1)] assms(2) True split_on_append [of ?c t "[]"] t by simp
  have "t = [] \<or> last t \<noteq> ?c"
  proof (rule ccontr)
    assume "\<not> (t = [] \<or> last t \<noteq> ?c)"
    then obtain u where "t = u @ [?c]" by (metis append_butlast_last_id)
    then have "[] \<in> set (segments t)" using split_on_append [of ?c u "[]"] by simp
    then show False using seg by simp
  qed
  then show ?thesis using seg t rstrip_snoc rstrip_not_last by simp
qed

lemma collapse_Cons: "a \<noteq> CHR ''/'' \<Longrightarrow> collapse_slashes (a # w) = a # collapse_slashes w"
  by (cases w) auto

lemma has_drive_iff:
  "has_drive s \<longleftrightarrow> (\<exists>d u. s = d # CHR '':'' # CHR ''/'' # u \<and> (is_upper_char d \<or> is_lower_char d))"
  by (cases s rule: has_drive.cases) auto

lemma has_drive_collapse:
  assumes "has_drive (collapse_slashes v)" "hd v \<noteq> CHR ''/''"
  shows "has_drive v"
proof -
  obtain d u where d: "collapse_slashes v = d # CHR '':'' # CHR ''/'' # u" "is_upper_char d \<or> is_lower_char d"
    using assms(1) by (auto simp: has_drive_iff)
  then obtain w where v: "v = d # w" "collapse_slashes w = CHR '':'' # CHR ''/'' # u"
    using assms(2) by (cases v) (auto simp: collapse_Cons)
  then have "w \<noteq> []" by auto
  then have w: "w \<noteq> []" "hd w = CHR '':''" using hd_collapse [of w] v(2) by auto
  then obtain x where x: "w = CHR '':'' # x" by (cases w) auto
  then have "collapse_slashes x = CHR ''/'' # u" using v(2) by (simp add: collapse_Cons)
  moreover from this have "x \<noteq> []" by auto
  ultimately have "x \<noteq> []" "hd x = CHR ''/''" using hd_collapse [of x] by auto
  then show ?thesis using v x d(2) by (cases x) auto
qed

lemma has_drive_prefix: "prefix p s \<Longrightarrow> has_drive p \<Longrightarrow> has_drive s"
  by (auto simp: has_drive_iff prefix_def)

lemma normalize_resource_key_Inr:
  assumes "normalize_resource_key raw = Inr key"
  obtains v where "v = replace_char (CHR 0x5C) (CHR ''/'') (py_strip raw)"
    "v \<noteq> []" "hd v \<noteq> CHR ''/''" "CHR 0x00 \<notin> set v" "\<not> has_drive v" "''..'' \<notin> set (segments v)"
    "key = rstrip_char (CHR ''/'') (collapse_slashes v)" "key \<noteq> []"
proof -
  let ?v = "replace_char (CHR 0x5C) (CHR ''/'') (py_strip raw)"
  have v: "?v \<noteq> []" "\<not> startswith ?v ''/''" "CHR 0x00 \<notin> set ?v" "\<not> has_drive ?v" "''..'' \<notin> set (segments ?v)"
    "key = (let key = rstrip_char (CHR ''/'') (collapse_slashes ?v) in if key = [] then ''.'' else key)"
    using assms by (auto simp: normalize_resource_key_def Let_def split: if_splits)
  have hd: "hd ?v \<noteq> CHR ''/''" using v(1,2) by (cases ?v) (auto simp: startswith_def)
  have ne: "rstrip_char (CHR ''/'') (collapse_slashes ?v) \<noteq> []"
  proof
    assume "rstrip_char (CHR ''/'') (collapse_slashes ?v) = []"
    then have "[] \<in> set (nonempty_segments ?v)" using segments_normal [OF v(1) hd] by (metis list.set_intros(1) split_on.simps(1))
    then show False by simp
  qed
  show thesis by (rule that [OF refl]) (use v hd ne in \<open>auto simp: Let_def\<close>)
qed

section \<open>Properties\<close>

text \<open>
  C31. Two path claims conflict exactly if one path lies at or below the other, segment by
  segment, and at least one of them is exclusive: \<open>src/a\<close> and \<open>src/ab\<close> never conflict, \<open>src\<close>
  and \<open>src/a/b\<close> do.
\<close>
theorem conflicts_with_paths:
  assumes "rc_resource_type c = PATH" "rc_resource_type d = PATH"
  shows "conflicts_with c d \<longleftrightarrow>
     (prefix (split_on (CHR ''/'') (rc_resource_key c)) (split_on (CHR ''/'') (rc_resource_key d))
      \<or> prefix (split_on (CHR ''/'') (rc_resource_key d)) (split_on (CHR ''/'') (rc_resource_key c)))
     \<and> EXCLUSIVE \<in> {rc_access_mode c, rc_access_mode d}"
  using assms by (auto simp: conflicts_with_def prefix_split_on startswith_def Let_def)

definition path_claim :: "string \<Rightarrow> AccessMode \<Rightarrow> ResourceClaim" where
  "path_claim key mode =
     \<lparr>rc_resource_key = key, rc_resource_type = PATH, rc_access_mode = mode, rc_quantity = 1,
      rc_machine_id = None, rc_purpose = None\<rparr>"

theorem conflicts_with_paths_witness:
  "conflicts_with (path_claim ''src'' EXCLUSIVE) (path_claim ''src/a'' SHARED)
   \<and> \<not> conflicts_with (path_claim ''src/a'' EXCLUSIVE) (path_claim ''src/ab'' EXCLUSIVE)"
proof -
  have "prefix (split_on (CHR ''/'') ''src'') (split_on (CHR ''/'') ''src/a'')"
    "\<not> prefix (split_on (CHR ''/'') ''src/a'') (split_on (CHR ''/'') ''src/ab'')"
    "\<not> prefix (split_on (CHR ''/'') ''src/ab'') (split_on (CHR ''/'') ''src/a'')"
    by code_simp+
  then show ?thesis
    using conflicts_with_paths [of "path_claim ''src'' EXCLUSIVE" "path_claim ''src/a'' SHARED"]
      conflicts_with_paths [of "path_claim ''src/a'' EXCLUSIVE" "path_claim ''src/ab'' EXCLUSIVE"]
    by (simp add: path_claim_def)
qed

text \<open>
  An accepted resource key is the non-empty segments of the input joined by single
  slashes: it has no empty and no parent segment, no backslash and no NUL, so it is relative
  and cannot leave its root; and normalising it again changes nothing unless it ends in white
  space (which is possible, since white space is stripped before trailing slashes are).
\<close>
theorem normalize_resource_key_normal:
  assumes "normalize_resource_key raw = Inr key"
  shows "split_on (CHR ''/'') key =
       filter (\<lambda>p. p \<noteq> []) (split_on (CHR ''/'') (replace_char (CHR 0x5C) (CHR ''/'') (py_strip raw)))
     \<and> [] \<notin> set (split_on (CHR ''/'') key) \<and> ''..'' \<notin> set (split_on (CHR ''/'') key)
     \<and> CHR 0x5C \<notin> set key \<and> CHR 0x00 \<notin> set key
     \<and> (py_strip key = key \<longrightarrow> normalize_resource_key key = Inr key)"
proof -
  from assms obtain v where v: "v = replace_char (CHR 0x5C) (CHR ''/'') (py_strip raw)"
    "v \<noteq> []" "hd v \<noteq> CHR ''/''" "CHR 0x00 \<notin> set v" "\<not> has_drive v" "''..'' \<notin> set (segments v)"
    and key: "key = rstrip_char (CHR ''/'') (collapse_slashes v)" "key \<noteq> []"
    by (rule normalize_resource_key_Inr)
  have pre: "prefix key (collapse_slashes v)" unfolding key(1) by (rule rstrip_prefix)
  then have sub: "set key \<subseteq> set v" using set_collapse [of v] set_mono_prefix by blast
  have nb: "CHR 0x5C \<notin> set v" unfolding v(1) by (auto simp: replace_char_def)
  have seg: "segments key = nonempty_segments v" unfolding key(1) by (rule segments_normal [OF v(2,3)])
  have hd: "hd key \<noteq> CHR ''/''"
    using pre key(2) hd_collapse [OF v(2)] v(3) by (metis hd_append2 prefix_def)
  have drive: "\<not> has_drive key" using has_drive_prefix [OF pre] has_drive_collapse v(3,5) by blast
  have fix_seg: "nonempty_segments key = segments key" using seg by simp
  have key_fix: "rstrip_char (CHR ''/'') (collapse_slashes key) = key"
    using segments_normal [OF key(2) hd] fix_seg by simp
  have rep: "replace_char (CHR 0x5C) (CHR ''/'') key = key"
    unfolding replace_char_def by (rule map_idI) (use sub nb in auto)
  have dd: "''..'' \<notin> set (segments key)" using seg v(6) by simp
  have rel: "\<not> startswith key ''/''" using key(2) hd by (cases key) (auto simp: startswith_def)
  have "CHR 0x00 \<notin> set key" using sub v(4) by blast
  then have "py_strip key = key \<longrightarrow> normalize_resource_key key = Inr key"
    using key(2) rel drive dd by (simp add: normalize_resource_key_def rep key_fix)
  then show ?thesis using seg dd sub nb v(4) unfolding v(1) by auto
qed

theorem normalize_resource_key_normal_witness:
  "normalize_resource_key (''src'' @ CHR 0x5C # ''//a/'') = Inr ''src/a'' \<and> normalize_resource_key ''src/a'' = Inr ''src/a''"
proof -
  have n: "normalize_resource_key (''src'' @ CHR 0x5C # ''//a/'') = Inr ''src/a''" by code_simp
  moreover have "py_strip ''src/a'' = ''src/a''" by code_simp
  ultimately show ?thesis using normalize_resource_key_normal [OF n] by blast
qed

text \<open>
  Two spellings of one file that the conflict test takes for different files, and an exclusive
  claim on the repository root that does not conflict with a file in it.
\<close>

lemma dot_segments_not_resolved:
  "make_ResourceClaim (path_claim ''src/./a.py'' EXCLUSIVE) = Inr (path_claim ''src/./a.py'' EXCLUSIVE)
   \<and> \<not> conflicts_with (path_claim ''src/./a.py'' EXCLUSIVE) (path_claim ''src/a.py'' EXCLUSIVE)
   \<and> make_ResourceClaim (path_claim ''.'' EXCLUSIVE) = Inr (path_claim ''.'' EXCLUSIVE)
   \<and> \<not> conflicts_with (path_claim ''.'' EXCLUSIVE) (path_claim ''src/a.py'' EXCLUSIVE)"
proof -
  have "normalize_resource_key ''src/./a.py'' = Inr ''src/./a.py''" "normalize_resource_key ''.'' = Inr ''.''"
    by code_simp+
  then show ?thesis
    by (simp add: make_ResourceClaim_def path_claim_def conflicts_with_def startswith_def max_length_def)
qed

lemma normalize_not_idempotent:
  "normalize_resource_key ''a /'' = Inr ''a '' \<and> normalize_resource_key ''a '' = Inr ''a''"
  by code_simp

lemma reserve_ok: "1 < n \<Longrightarrow> 0 \<le> max 1 (min (n - 1) x) \<and> max 1 (min (n - 1) x) < (n :: int)"
  by auto

lemma valid_local_pool:
  assumes "1 \<le> length key" "length key \<le> 512" "0 \<le> r" "r < c"
  shows "valid_ResourcePool \<lparr>rp_resource_key = key, rp_resource_type = ty, rp_capacity_units = c,
      rp_reserved_units = r, rp_machine_id = Some ''machine:local'', rp_observed = True\<rparr>"
  using assms by (simp add: valid_ResourcePool_def max_length_def)

text \<open>
  C34. Observing the local host never fails: whatever the operating system reports, every pool
  passes validation, keeps at least one allocatable unit above its reserve, and no two pools
  share a key.
\<close>
theorem local_resource_pools_total:
  "\<exists>pools. local_resource_pools h = Inr pools \<and> distinct (map rp_resource_key pools)
     \<and> list_all (\<lambda>p. valid_ResourcePool p \<and> 1 \<le> allocatable_units p) pools"
proof -
  obtain cpu disk where cpu: "2 \<le> cpu" and disk: "1 \<le> disk"
    and cpu_def: "cpu = max 2 (max 1 (case hf_cpu_count h of None \<Rightarrow> 1 | Some n \<Rightarrow> if n = 0 then 1 else n))"
    and disk_def: "disk = max 1 (hf_disk_free h div (1024 * 1024))"
    by simp
  obtain dr where dr_def:
      "dr = (if 1 < disk then max 1 (min (disk - 1) (trunc_int (fl (of_int disk * fl (5 / 100))))) else 0)"
    by simp
  have dr: "0 \<le> dr" "dr < disk" unfolding dr_def using disk reserve_ok by simp_all
  note unfold = local_resource_pools_def Let_def cpu_def [symmetric] disk_def [symmetric] dr_def [symmetric]
  have alloc: "valid_ResourcePool p \<Longrightarrow> 1 \<le> allocatable_units p" for p
    by (simp add: valid_ResourcePool_def allocatable_units_def)
  show ?thesis
  proof (cases "case host_memory_mb h of None \<Rightarrow> False | Some m \<Rightarrow> 1 < m")
    case True
    then obtain m where m: "host_memory_mb h = Some m" "1 < m" by (auto split: option.splits)
    obtain mr where mr_def: "mr = max 1 (min (m - 1) (trunc_int (fl (of_int m * fl (15 / 100)))))" by simp
    have "0 \<le> mr" "mr < m" unfolding mr_def using reserve_ok [OF m(2)] by simp_all
    then show ?thesis
      unfolding unfold m(1) option.case mr_def [symmetric]
      using cpu m(2) dr alloc by (simp add: make_ResourcePool_def valid_local_pool)
  next
    case False
    then consider "host_memory_mb h = None" | m where "host_memory_mb h = Some m" "\<not> 1 < m"
      by (auto split: option.splits)
    then show ?thesis
      unfolding unfold by cases (use cpu dr alloc in \<open>simp_all add: make_ResourcePool_def valid_local_pool\<close>)
  qed
qed

end
