(* ===== verification/SchedulerResources.thy ===== *)
theory SchedulerResources
  imports SchedulerDomain
begin

text \<open>
  \<open>src/project_pipeline/scheduler/backpressure.py\<close>, \<open>resources.py\<close> and \<open>conflicts.py\<close>: the
  backpressure decision, capacity accounting and admission of claims against a registry, and the
  conflict graph of a set of task profiles.  The graph container is networkx's; the model takes
  its operations as an argument, and the locale \<open>nx_graph\<close> states what the code relies on.
\<close>

section \<open>Backpressure\<close>

definition opt_ge :: "rat option \<Rightarrow> rat \<Rightarrow> bool" where
  "opt_ge v t = (case v of None \<Rightarrow> False | Some x \<Rightarrow> t \<le> x)"

definition opt_le :: "rat option \<Rightarrow> rat \<Rightarrow> bool" where
  "opt_le v t = (case v of None \<Rightarrow> False | Some x \<Rightarrow> x \<le> t)"

text \<open>The reasons whose condition holds, in the order of the code's \<open>if\<close> statements.\<close>

definition fired :: "(bool \<times> string) list \<Rightarrow> string list" where
  "fired cs = map snd (filter fst cs)"

definition halt_checks :: "BackpressureSignals \<Rightarrow> BackpressurePolicy \<Rightarrow> (bool \<times> string) list" where
  "halt_checks s p =
     [(bp_halt_queue_depth p \<le> bs_queue_depth s, ''queue_depth_halt''),
      (opt_ge (bs_memory_used_percent s) (bp_memory_halt_percent p), ''memory_pressure_halt''),
      (opt_le (bs_disk_free_percent s) (bp_disk_halt_free_percent p), ''disk_pressure_halt'')]"

definition brownout_checks :: "BackpressureSignals \<Rightarrow> BackpressurePolicy \<Rightarrow> (bool \<times> string) list" where
  "brownout_checks s p =
     [(bp_brownout_queue_depth p \<le> bs_queue_depth s, ''queue_depth_brownout''),
      (bp_brownout_lag_seconds p \<le> bs_scheduler_queue_lag_seconds s, ''scheduler_lag_brownout''),
      (opt_ge (bs_memory_used_percent s) (bp_memory_brownout_percent p), ''memory_pressure_brownout''),
      (opt_le (bs_disk_free_percent s) (bp_disk_brownout_free_percent p), ''disk_pressure_brownout''),
      (bp_retry_storm_brownout_count p \<le> bs_retry_storm_count s, ''retry_storm_brownout'')]"

definition congested_checks :: "BackpressureSignals \<Rightarrow> BackpressurePolicy \<Rightarrow> (bool \<times> string) list" where
  "congested_checks s p =
     [(bp_congested_queue_depth p \<le> bs_queue_depth s, ''queue_depth_congested''),
      (bp_congested_lag_seconds p \<le> bs_scheduler_queue_lag_seconds s, ''scheduler_lag_congested'')]"

definition evaluate_backpressure ::
  "BackpressureSignals \<Rightarrow> BackpressurePolicy option \<Rightarrow> BackpressureDecision result" where
  "evaluate_backpressure signals policy =
     (let p = (case policy of None \<Rightarrow> default_policy | Some q \<Rightarrow> q)
      in if list_ex fst (halt_checks signals p)
         then make_BackpressureDecision \<lparr>bd_mode = HALT_NEW_WORK, bd_lane_fraction = 0,
                bd_admit_new_work = False, bd_reasons = fired (halt_checks signals p)\<rparr>
         else if list_ex fst (brownout_checks signals p)
         then make_BackpressureDecision \<lparr>bd_mode = BROWNOUT, bd_lane_fraction = 0,
                bd_admit_new_work = False, bd_reasons = fired (brownout_checks signals p)\<rparr>
         else if list_ex fst (congested_checks signals p)
         then make_BackpressureDecision \<lparr>bd_mode = CONGESTED, bd_lane_fraction = bp_congested_lane_fraction p,
                bd_admit_new_work = True, bd_reasons = fired (congested_checks signals p)\<rparr>
         else make_BackpressureDecision \<lparr>bd_mode = NORMAL, bd_lane_fraction = 1,
                bd_admit_new_work = True, bd_reasons = []\<rparr>)"

section \<open>Resources\<close>

definition PHYSICAL_RESOURCE_TYPES :: "ResourceType list" where
  "PHYSICAL_RESOURCE_TYPES = [CPU_SLOT, MEMORY_MB, DISK_MB, PROCESS_SLOT, GPU, GPU_MEMORY_MB]"

definition active_leases :: "ResourceRegistrySnapshot \<Rightarrow> int \<Rightarrow> ResourceLease list" where
  "active_leases registry when = filter (\<lambda>l. active_at l when) (rr_active_leases registry)"

definition add_usage :: "(string, int) dict \<Rightarrow> string \<Rightarrow> int \<Rightarrow> (string, int) dict" where
  "add_usage usage key n = AList.update key (get_default usage key 0 + n) usage"

definition capacity_usage :: "ResourceRegistrySnapshot \<Rightarrow> int \<Rightarrow> (string, int) dict" where
  "capacity_usage registry when =
     fold (\<lambda>l usage. add_usage usage (rc_resource_key (rl_claim l)) (rc_quantity (rl_claim l)))
       (active_leases registry when) []"

definition pools_by_key :: "ResourcePool list \<Rightarrow> (string, ResourcePool) dict" where
  "pools_by_key pools = dict_of (map (\<lambda>p. (rp_resource_key p, p)) pools)"

definition claim_reasons ::
  "(string, ResourcePool) dict \<Rightarrow> ResourceLease list \<Rightarrow> (string, int) dict \<Rightarrow> ResourceClaim \<Rightarrow> string list" where
  "claim_reasons pools leases usage claim =
     (case map_of pools (rc_resource_key claim) of
        None \<Rightarrow>
          if rc_resource_type claim \<in> set PHYSICAL_RESOURCE_TYPES
          then [''unregistered_pool:'' @ rc_resource_key claim]
          else map (\<lambda>l. ''lease:'' @ rc_resource_key claim @ '':held_by:'' @ rl_holder_id l)
                 (filter (\<lambda>l. conflicts_with claim (rl_claim l)) leases)
      | Some pool \<Rightarrow>
          if \<not> falsy (rc_machine_id claim) \<and> \<not> falsy (rp_machine_id pool)
             \<and> rc_machine_id claim \<noteq> rp_machine_id pool
          then [''wrong_machine:'' @ the (rc_machine_id claim) @ ''!='' @ the (rp_machine_id pool)]
          else let available = allocatable_units pool - get_default usage (rc_resource_key claim) 0
               in if available < rc_quantity claim
                  then [''capacity:'' @ rc_resource_key claim @ '':'' @ str_int (rc_quantity claim)
                        @ ''>'' @ str_int (max 0 available)]
                  else [])"

definition admission_reasons ::
  "ResourceClaim list \<Rightarrow> ResourceRegistrySnapshot \<Rightarrow> int \<Rightarrow> (string, int) dict \<Rightarrow> string list" where
  "admission_reasons claims registry when additional_usage =
     (let usage = fold (\<lambda>(k, v) u. add_usage u k v) additional_usage (capacity_usage registry when)
      in sorted_set (concat (map (claim_reasons (pools_by_key (rr_pools registry))
                                    (active_leases registry when) usage) claims)))"

definition add_claim_usage ::
  "(string, int) dict \<Rightarrow> ResourceClaim list \<Rightarrow> (string, ResourcePool) dict \<Rightarrow> (string, int) dict" where
  "add_claim_usage usage claims pools =
     fold (\<lambda>c u. if map_of pools (rc_resource_key c) \<noteq> None
                 then add_usage u (rc_resource_key c) (rc_quantity c) else u) claims usage"

section \<open>The conflict graph\<close>

text \<open>The operations of \<open>networkx.Graph\<close> the scheduler calls.\<close>

record 'g nx_ops =
  nx_Graph :: 'g
  nx_add_node :: "string \<Rightarrow> 'g \<Rightarrow> 'g"
  nx_add_edge :: "string \<Rightarrow> string \<Rightarrow> 'g \<Rightarrow> 'g"
  nx_has_edge :: "'g \<Rightarrow> string \<Rightarrow> string \<Rightarrow> bool"
  nx_neighbors :: "'g \<Rightarrow> string \<Rightarrow> string list"
  nx_edges :: "'g \<Rightarrow> (string \<times> string) list"

definition claims_conflict :: "ResourceClaim \<Rightarrow> ResourceClaim \<Rightarrow> bool" where
  "claims_conflict left right = conflicts_with left right"

definition conflict_reasons :: "SchedulerTaskProfile \<Rightarrow> SchedulerTaskProfile \<Rightarrow> string list" where
  "conflict_reasons left right =
     map (\<lambda>(l, r). resource_type_value (rc_resource_type l) @ '':'' @ rc_resource_key l @ '':''
                  @ access_mode_value (rc_access_mode l) @ ''/'' @ access_mode_value (rc_access_mode r))
       (filter (\<lambda>(l, r). claims_conflict l r) (List.product (tp_claims left) (tp_claims right)))"

definition add_conflict ::
  "'g nx_ops \<Rightarrow> 'g \<times> ConflictEdge list \<Rightarrow> SchedulerTaskProfile \<times> SchedulerTaskProfile
     \<Rightarrow> ('g \<times> ConflictEdge list) result" where
  "add_conflict nx = (\<lambda>(graph, edges) (left, right).
     let reasons = conflict_reasons left right
     in if reasons = [] then Inr (graph, edges)
        else res_bind
          (make_ConflictEdge \<lparr>ce_left_task_id = min (tp_task_id left) (tp_task_id right),
             ce_right_task_id = max (tp_task_id left) (tp_task_id right), ce_reasons = sorted_set reasons\<rparr>)
          (\<lambda>edge. Inr (nx_add_edge nx (ce_left_task_id edge) (ce_right_task_id edge) graph, edges @ [edge])))"

definition build_conflict_graph ::
  "'g nx_ops \<Rightarrow> SchedulerTaskProfile list \<Rightarrow> ('g \<times> ConflictEdge list) result" where
  "build_conflict_graph nx profiles =
     (let ordered = sort_key tp_task_id profiles;
          by_id = dict_of (map (\<lambda>p. (tp_task_id p, p)) ordered)
      in if length by_id \<noteq> length ordered
         then Inl (SchedulerConflictError ''scheduler profiles contain duplicate task identifiers'')
         else res_bind
           (fold_res (add_conflict nx) (fold (nx_add_node nx) (map fst by_id) (nx_Graph nx), []) (pairs ordered))
           (\<lambda>(graph, edges).
              Inr (graph, sort_key (\<lambda>e. (ce_left_task_id e, ce_right_task_id e)) edges)))"

section \<open>What the code relies on of networkx\<close>

locale nx_graph =
  fixes nx :: "'g nx_ops"
  assumes has_edge_empty: "\<not> nx_has_edge nx (nx_Graph nx) u v"
    and has_edge_add_node: "nx_has_edge nx (nx_add_node nx n g) u v = nx_has_edge nx g u v"
    and has_edge_add_edge:
      "nx_has_edge nx (nx_add_edge nx a b g) u v \<longleftrightarrow>
         nx_has_edge nx g u v \<or> (u = a \<and> v = b) \<or> (u = b \<and> v = a)"
    and neighbors: "set (nx_neighbors nx g u) = {v. nx_has_edge nx g u v}"
    and edges: "nx_has_edge nx g u v \<longleftrightarrow> (u, v) \<in> set (nx_edges nx g) \<or> (v, u) \<in> set (nx_edges nx g)"
begin

lemma has_edge_nodes: "\<not> nx_has_edge nx (fold (nx_add_node nx) ns (nx_Graph nx)) u v"
proof -
  have "nx_has_edge nx (fold (nx_add_node nx) ns g) u v = nx_has_edge nx g u v" for g
    by (induction ns arbitrary: g) (simp_all add: has_edge_add_node)
  then show ?thesis by (simp add: has_edge_empty)
qed

text \<open>
  The loop over the pairs: the edges of the graph are the edges it started with and, in both
  directions, the conflicting pairs.
\<close>

lemma add_conflicts:
  assumes "fold_res (add_conflict nx) (g, es) ps = Inr (g', es')"
    and "\<forall>(l, r) \<in> set ps. tp_task_id l < tp_task_id r"
  shows "nx_has_edge nx g' u v \<longleftrightarrow> nx_has_edge nx g u v
     \<or> (\<exists>(l, r) \<in> set ps. conflict_reasons l r \<noteq> [] \<and> {u, v} = {tp_task_id l, tp_task_id r})"
  using assms
proof (induction ps arbitrary: g es)
  case (Cons p ps)
  obtain l r where p: "p = (l, r)" by (cases p)
  have lt: "tp_task_id l < tp_task_id r" using Cons.prems(2) p by auto
  have rest: "\<forall>(l, r) \<in> set ps. tp_task_id l < tp_task_id r" using Cons.prems(2) by auto
  show ?case
  proof (cases "conflict_reasons l r = []")
    case True
    then have "fold_res (add_conflict nx) (g, es) ps = Inr (g', es')"
      using Cons.prems(1) p by (simp add: add_conflict_def)
    from Cons.IH [OF this rest] show ?thesis using True p by auto
  next
    case False
    then obtain e where e: "fold_res (add_conflict nx)
        (nx_add_edge nx (tp_task_id l) (tp_task_id r) g, es @ [e]) ps = Inr (g', es')"
      using Cons.prems(1) p lt
      by (auto simp: add_conflict_def Let_def make_ConflictEdge_def min_def max_def split: if_splits)
    from Cons.IH [OF this rest] show ?thesis
      using False lt by (auto simp: p has_edge_add_edge doubleton_eq_iff)
  qed
qed auto

end

text \<open>An adjacency list implements the interface.\<close>

definition adjacency_ops :: "(string \<times> string) list nx_ops" where
  "adjacency_ops =
     \<lparr>nx_Graph = [], nx_add_node = (\<lambda>n g. g), nx_add_edge = (\<lambda>a b g. (a, b) # g),
      nx_has_edge = (\<lambda>g u v. (u, v) \<in> set g \<or> (v, u) \<in> set g),
      nx_neighbors = (\<lambda>g u. map snd (filter (\<lambda>(a, b). a = u) (g @ map (\<lambda>(a, b). (b, a)) g))), nx_edges = (\<lambda>g. g)\<rparr>"

interpretation adjacency: nx_graph adjacency_ops
  by unfold_locales (force simp: adjacency_ops_def)+

section \<open>Facts on conflicts\<close>

definition tasks_conflict :: "SchedulerTaskProfile \<Rightarrow> SchedulerTaskProfile \<Rightarrow> bool" where
  "tasks_conflict p q \<longleftrightarrow> (\<exists>c \<in> set (tp_claims p). \<exists>d \<in> set (tp_claims q). conflicts_with c d)"

lemma tasks_conflict_sym: "tasks_conflict p q = tasks_conflict q p"
  using conflicts_with_sym by (auto simp: tasks_conflict_def)

lemma conflict_reasons_Nil: "conflict_reasons p q = [] \<longleftrightarrow> \<not> tasks_conflict p q"
  by (auto simp: conflict_reasons_def tasks_conflict_def claims_conflict_def filter_empty_conv)

lemma pairs_ids_less:
  assumes "distinct (map tp_task_id ps)" "(l, r) \<in> set (pairs (sort_key tp_task_id ps))"
  shows "tp_task_id l < tp_task_id r"
proof -
  have "tp_task_id l \<le> tp_task_id r" using pairs_sorted [OF sorted_sort_key assms(2)] .
  moreover have "(tp_task_id l, tp_task_id r) \<in> set (pairs (map tp_task_id (sort_key tp_task_id ps)))"
    using assms(2) by (force simp: pairs_map)
  then have "tp_task_id l \<noteq> tp_task_id r"
    by (rule pairs_distinct [rotated]) (use assms(1) in \<open>simp add: distinct_map\<close>)
  ultimately show ?thesis by simp
qed

lemma build_conflict_graph_distinct:
  assumes "build_conflict_graph nx profiles = Inr (g, es)"
  shows "distinct (map tp_task_id profiles)"
  using assms
  by (auto simp: build_conflict_graph_def Let_def length_dict_of [of "map (\<lambda>p. (tp_task_id p, p)) ps" for ps, simplified]
      comp_def distinct_map split: if_splits)

context nx_graph
begin

lemma build_conflict_graph_edge:
  assumes b: "build_conflict_graph nx profiles = Inr (g, es)"
  shows "nx_has_edge nx g u v \<longleftrightarrow>
     (\<exists>p \<in> set profiles. \<exists>q \<in> set profiles. tp_task_id p = u \<and> tp_task_id q = v \<and> u \<noteq> v \<and> tasks_conflict p q)"
proof -
  let ?o = "sort_key tp_task_id profiles"
  have dist: "distinct (map tp_task_id profiles)" using b by (rule build_conflict_graph_distinct)
  obtain ns es' where f: "fold_res (add_conflict nx) (fold (nx_add_node nx) ns (nx_Graph nx), []) (pairs ?o) = Inr (g, es')"
    using b by (auto simp: build_conflict_graph_def Let_def split: if_splits)
  have lt: "\<forall>(l, r) \<in> set (pairs ?o). tp_task_id l < tp_task_id r"
    using pairs_ids_less [OF dist] by blast
  have "nx_has_edge nx g u v \<longleftrightarrow>
      (\<exists>(l, r) \<in> set (pairs ?o). tasks_conflict l r \<and> {u, v} = {tp_task_id l, tp_task_id r})"
    using add_conflicts [OF f lt] has_edge_nodes by (simp add: conflict_reasons_Nil)
  also have "\<dots> \<longleftrightarrow> (\<exists>p \<in> set profiles. \<exists>q \<in> set profiles.
      tp_task_id p = u \<and> tp_task_id q = v \<and> u \<noteq> v \<and> tasks_conflict p q)" (is "?L \<longleftrightarrow> ?R")
  proof
    assume ?L
    then obtain l r where lr: "(l, r) \<in> set (pairs ?o)" "tasks_conflict l r" "{u, v} = {tp_task_id l, tp_task_id r}"
      by blast
    have "l \<in> set profiles" "r \<in> set profiles" using set_pairs [OF lr(1)] by simp_all
    moreover have "tp_task_id l \<noteq> tp_task_id r" using lt lr(1) by fastforce
    ultimately show ?R using lr(2,3) tasks_conflict_sym by (metis doubleton_eq_iff)
  next
    assume ?R
    then obtain p q where pq: "p \<in> set profiles" "q \<in> set profiles" "tp_task_id p = u" "tp_task_id q = v"
      "u \<noteq> v" "tasks_conflict p q" by blast
    then have "(p, q) \<in> set (pairs ?o) \<or> (q, p) \<in> set (pairs ?o)" by (intro pairs_cover) auto
    then show ?L using pq tasks_conflict_sym by blast
  qed
  finally show ?thesis .
qed

lemma build_conflict_graph_neighbors:
  assumes "build_conflict_graph nx profiles = Inr (g, es)" "w \<in> set (nx_neighbors nx g u)"
  shows "w \<in> tp_task_id ` set profiles"
  using assms build_conflict_graph_edge [OF assms(1)] neighbors by auto

end

lemma add_conflict_total:
  assumes "is_issue_id (tp_task_id l)" "is_issue_id (tp_task_id r)" "tp_task_id l < tp_task_id r"
  shows "\<exists>x. add_conflict nx acc (l, r) = Inr x"
  using assms
  by (cases acc) (auto simp: add_conflict_def Let_def make_ConflictEdge_def valid_ConflictEdge_def min_def max_def)

lemma build_conflict_graph_total:
  assumes "distinct (map tp_task_id profiles)" "\<forall>p \<in> set profiles. is_issue_id (tp_task_id p)"
  shows "\<exists>g es. build_conflict_graph nx profiles = Inr (g, es)"
proof -
  let ?o = "sort_key tp_task_id profiles"
  have "\<exists>x. fold_res (add_conflict nx) acc ps = Inr x" if "set ps \<subseteq> set (pairs ?o)" for acc ps
    using that
  proof (induction ps arbitrary: acc)
    case (Cons p ps)
    obtain l r where p: "p = (l, r)" by (cases p)
    have lr: "(l, r) \<in> set (pairs ?o)" using Cons.prems p by simp
    then have "is_issue_id (tp_task_id l)" "is_issue_id (tp_task_id r)" using set_pairs [OF lr] assms(2) by simp_all
    then obtain x where "add_conflict nx acc (l, r) = Inr x"
      using add_conflict_total pairs_ids_less [OF assms(1) lr] by blast
    then show ?case using Cons p by simp
  qed simp
  from this [OF order_refl] obtain x where "fold_res (add_conflict nx)
      (fold (nx_add_node nx) (map fst (dict_of (map (\<lambda>p. (tp_task_id p, p)) ?o))) (nx_Graph nx), []) (pairs ?o) = Inr x"
    by blast
  moreover obtain g es where "x = (g, es)" by (cases x)
  moreover have "length (dict_of (map (\<lambda>p. (tp_task_id p, p)) ?o)) = length ?o"
    using assms(1) length_dict_of [of "map (\<lambda>p. (tp_task_id p, p)) ?o"] by (simp add: comp_def distinct_map)
  ultimately show ?thesis by (simp add: build_conflict_graph_def Let_def)
qed

section \<open>Facts on capacity\<close>

definition claimed :: "string \<Rightarrow> ResourceClaim list \<Rightarrow> int" where
  "claimed key cs = sum_list (map rc_quantity (filter (\<lambda>c. rc_resource_key c = key) cs))"

lemma claimed_simps [simp]:
  "claimed key [] = 0"
  "claimed key (c # cs) = (if rc_resource_key c = key then rc_quantity c else 0) + claimed key cs"
  "claimed key (cs @ ds) = claimed key cs + claimed key ds"
  by (simp_all add: claimed_def)

lemma claimed_nonneg: "\<forall>c \<in> set cs. 0 \<le> rc_quantity c \<Longrightarrow> 0 \<le> claimed key cs"
  by (induction cs) auto

lemma claimed_sum_mset:
  "claimed key cs = sum_mset (image_mset rc_quantity (filter_mset (\<lambda>c. rc_resource_key c = key) (mset cs)))"
  by (induction cs) auto

lemma claimed_mset: "mset cs = mset ds \<Longrightarrow> claimed key cs = claimed key ds"
  by (simp add: claimed_sum_mset)

lemma add_usage_get [simp]:
  "get_default (add_usage u k n) j 0 = get_default u j 0 + (if j = k then n else 0)"
  by (simp add: add_usage_def)

lemma capacity_usage_get:
  "get_default (capacity_usage r t) key 0 = claimed key (map rl_claim (active_leases r t))"
proof -
  have "get_default (fold (\<lambda>l u. add_usage u (rc_resource_key (rl_claim l)) (rc_quantity (rl_claim l))) ls u) key 0
      = get_default u key 0 + claimed key (map rl_claim ls)" for ls :: "ResourceLease list" and u
    by (induction ls arbitrary: u) auto
  then show ?thesis by (simp add: capacity_usage_def)
qed

lemma add_claim_usage_get:
  "get_default (add_claim_usage u cs pools) key 0 =
     get_default u key 0 + (if map_of pools key \<noteq> None then claimed key cs else 0)"
  by (induction cs arbitrary: u) (auto simp: add_claim_usage_def)

section \<open>Properties\<close>

definition example_profile :: "string \<Rightarrow> int \<Rightarrow> int \<Rightarrow> ResourceClaim list \<Rightarrow> SchedulerTaskProfile" where
  "example_profile tid rank score claims =
     \<lparr>tp_task_id = tid, tp_project_id = ''PROJECT-X'', tp_sequence_rank = rank, tp_utility_score = score,
      tp_priority = ''P1'', tp_critical_path = False, tp_claims = claims, tp_owner_id = None,
      tp_workspace_isolated = True, tp_policy_eligible = True, tp_productive_idle = False,
      tp_protected_capacity_consumption = False\<rparr>"

text \<open>
  C32. The conflict graph is exact: for tasks with valid and distinct identifiers it is built
  without error, and two tasks are joined by an edge if and only if they are different and some
  claim of the one conflicts with some claim of the other.
\<close>
theorem conflict_graph_exact:
  assumes "nx_graph nx" "distinct (map tp_task_id profiles)" "\<forall>p \<in> set profiles. valid_SchedulerTaskProfile p"
  shows "\<exists>g es. build_conflict_graph nx profiles = Inr (g, es)
     \<and> (\<forall>p \<in> set profiles. \<forall>q \<in> set profiles.
          nx_has_edge nx g (tp_task_id p) (tp_task_id q) \<longleftrightarrow>
            p \<noteq> q \<and> (\<exists>c \<in> set (tp_claims p). \<exists>d \<in> set (tp_claims q). conflicts_with c d))"
proof -
  have "\<forall>p \<in> set profiles. is_issue_id (tp_task_id p)"
    using assms(3) by (auto simp: valid_SchedulerTaskProfile_def)
  from build_conflict_graph_total [OF assms(2) this, of nx]
  obtain g es where b: "build_conflict_graph nx profiles = Inr (g, es)" by blast
  have inj: "p = q" if "p \<in> set profiles" "q \<in> set profiles" "tp_task_id p = tp_task_id q" for p q
    using assms(2) that by (auto simp: distinct_map dest: inj_onD)
  have "nx_has_edge nx g (tp_task_id p) (tp_task_id q) \<longleftrightarrow> p \<noteq> q \<and> tasks_conflict p q"
    if "p \<in> set profiles" "q \<in> set profiles" for p q
    using nx_graph.build_conflict_graph_edge [OF assms(1) b] that inj by metis
  then show ?thesis using b by (auto simp: tasks_conflict_def)
qed

theorem conflict_graph_exact_witness:
  "\<exists>g es. build_conflict_graph adjacency_ops
       [example_profile ''PP-TASK-000001'' 1 5 [path_claim ''src'' EXCLUSIVE],
        example_profile ''PP-TASK-000002'' 2 5 [path_claim ''src/a'' SHARED]] = Inr (g, es)
     \<and> nx_has_edge adjacency_ops g ''PP-TASK-000001'' ''PP-TASK-000002''"
proof -
  let ?p = "example_profile ''PP-TASK-000001'' 1 5 [path_claim ''src'' EXCLUSIVE]"
  let ?q = "example_profile ''PP-TASK-000002'' 2 5 [path_claim ''src/a'' SHARED]"
  have "is_issue_id ''PP-TASK-000001''" "is_issue_id ''PP-TASK-000002''" "is_project_id ''PROJECT-X''"
    by code_simp+
  then have "\<forall>p \<in> set [?p, ?q]. valid_SchedulerTaskProfile p"
    by (simp add: valid_SchedulerTaskProfile_def example_profile_def max_length_def)
  moreover have "distinct (map tp_task_id [?p, ?q])" by (simp add: example_profile_def)
  moreover have "conflicts_with (path_claim ''src'' EXCLUSIVE) (path_claim ''src/a'' SHARED)" by code_simp
  ultimately show ?thesis
    using conflict_graph_exact [OF adjacency.nx_graph_axioms, of "[?p, ?q]"] by (auto simp: example_profile_def)
qed

fun severity :: "BackpressureMode \<Rightarrow> nat" where
  "severity NORMAL = 0"
| "severity CONGESTED = 1"
| "severity BROWNOUT = 2"
| "severity HALT_NEW_WORK = 3"

text \<open>Signals at least as bad as others; a reading may be missing only in the better ones.\<close>

definition no_better :: "BackpressureSignals \<Rightarrow> BackpressureSignals \<Rightarrow> bool" where
  "no_better s t \<longleftrightarrow>
     bs_queue_depth s \<le> bs_queue_depth t
     \<and> bs_scheduler_queue_lag_seconds s \<le> bs_scheduler_queue_lag_seconds t
     \<and> bs_retry_storm_count s \<le> bs_retry_storm_count t
     \<and> (bs_memory_used_percent s = None \<or>
         (\<exists>x y. bs_memory_used_percent s = Some x \<and> bs_memory_used_percent t = Some y \<and> x \<le> y))
     \<and> (bs_disk_free_percent s = None \<or>
         (\<exists>x y. bs_disk_free_percent s = Some x \<and> bs_disk_free_percent t = Some y \<and> y \<le> x))"

lemma checks_mono:
  assumes "no_better s t"
  shows "list_ex fst (halt_checks s p) \<longrightarrow> list_ex fst (halt_checks t p)"
    "list_ex fst (brownout_checks s p) \<longrightarrow> list_ex fst (brownout_checks t p)"
    "list_ex fst (congested_checks s p) \<longrightarrow> list_ex fst (congested_checks t p)"
  using assms
  by (auto simp: halt_checks_def brownout_checks_def congested_checks_def no_better_def opt_ge_def opt_le_def
      split: option.splits)

lemma default_policy_valid: "valid_BackpressurePolicy default_policy"
  by (simp add: valid_BackpressurePolicy_def default_policy_def)

lemma evaluate_backpressure_fields:
  assumes "valid_BackpressurePolicy p"
  shows "\<exists>d. evaluate_backpressure s (Some p) = Inr d
     \<and> bd_mode d = (if list_ex fst (halt_checks s p) then HALT_NEW_WORK
         else if list_ex fst (brownout_checks s p) then BROWNOUT
         else if list_ex fst (congested_checks s p) then CONGESTED else NORMAL)
     \<and> bd_lane_fraction d = (if bd_mode d = NORMAL then 1 else if bd_mode d = CONGESTED
         then bp_congested_lane_fraction p else 0)
     \<and> (bd_admit_new_work d \<longleftrightarrow> bd_mode d \<in> {NORMAL, CONGESTED})"
  using assms
  by (simp add: evaluate_backpressure_def Let_def make_BackpressureDecision_def valid_BackpressurePolicy_def)

text \<open>
  C33. Backpressure is monotone: with a valid policy the evaluation always succeeds, and when
  the signals get worse (deeper queue, more lag, more retries, more memory used, less disk free)
  the mode never becomes milder, the lane fraction never grows and new work that was refused
  stays refused.
\<close>
theorem backpressure_monotone:
  assumes "valid_BackpressurePolicy p" "no_better s t"
  shows "\<exists>d e. evaluate_backpressure s (Some p) = Inr d \<and> evaluate_backpressure t (Some p) = Inr e
     \<and> severity (bd_mode d) \<le> severity (bd_mode e) \<and> bd_lane_fraction e \<le> bd_lane_fraction d
     \<and> (bd_admit_new_work e \<longrightarrow> bd_admit_new_work d)"
proof -
  obtain d where d: "evaluate_backpressure s (Some p) = Inr d"
    "bd_mode d = (if list_ex fst (halt_checks s p) then HALT_NEW_WORK
         else if list_ex fst (brownout_checks s p) then BROWNOUT
         else if list_ex fst (congested_checks s p) then CONGESTED else NORMAL)"
    "bd_lane_fraction d = (if bd_mode d = NORMAL then 1 else if bd_mode d = CONGESTED
         then bp_congested_lane_fraction p else 0)"
    "bd_admit_new_work d \<longleftrightarrow> bd_mode d \<in> {NORMAL, CONGESTED}"
    using evaluate_backpressure_fields [OF assms(1)] by blast
  obtain e where e: "evaluate_backpressure t (Some p) = Inr e"
    "bd_mode e = (if list_ex fst (halt_checks t p) then HALT_NEW_WORK
         else if list_ex fst (brownout_checks t p) then BROWNOUT
         else if list_ex fst (congested_checks t p) then CONGESTED else NORMAL)"
    "bd_lane_fraction e = (if bd_mode e = NORMAL then 1 else if bd_mode e = CONGESTED
         then bp_congested_lane_fraction p else 0)"
    "bd_admit_new_work e \<longleftrightarrow> bd_mode e \<in> {NORMAL, CONGESTED}"
    using evaluate_backpressure_fields [OF assms(1)] by blast
  have fraction: "0 < bp_congested_lane_fraction p" "bp_congested_lane_fraction p \<le> 1"
    using assms(1) by (simp_all add: valid_BackpressurePolicy_def)
  have "severity (bd_mode d) \<le> severity (bd_mode e)" using checks_mono [OF assms(2), of p] by (auto simp: d e)
  moreover from this have "bd_lane_fraction e \<le> bd_lane_fraction d"
    using fraction by (cases "bd_mode d"; cases "bd_mode e") (auto simp: d(3) e(3))
  ultimately show ?thesis
    using d(1,4) e(1,4) by (cases "bd_mode d"; cases "bd_mode e") auto
qed

theorem backpressure_monotone_witness:
  "\<exists>d e. evaluate_backpressure (default_signals 10) (Some default_policy) = Inr d
     \<and> evaluate_backpressure (default_signals 60) (Some default_policy) = Inr e
     \<and> severity (bd_mode d) \<le> severity (bd_mode e)"
proof -
  have "no_better (default_signals 10) (default_signals 60)"
    by (simp add: no_better_def default_signals_def)
  from backpressure_monotone [OF default_policy_valid this] show ?thesis by blast
qed

end
