(* ===== verification/OrToolsOptimizer.thy ===== *)
theory OrToolsOptimizer
  imports SchedulerResources
begin

text \<open>
  \<open>src/project_pipeline/scheduler/ortools_optimizer.py\<close>: the optional CP-SAT optimizer.  The
  model it builds is data: Boolean variables, linear constraints and a linear objective.  The
  solver of OR-Tools is the argument \<open>cp\<close>, absent when the package is not installed; the locale
  \<open>cp_sat\<close> states what its answers mean, and an exhaustive search implements it.
\<close>

section \<open>The solver interface\<close>

type_synonym linear = "(int \<times> nat) list"

record cp_problem =
  cm_variables :: "string list"
  cm_constraints :: "(linear \<times> int) list"
  cm_objective :: linear

datatype cp_status = CP_OPTIMAL | CP_FEASIBLE | CP_OTHER int

type_synonym cp_solver = "cp_problem \<Rightarrow> cp_status \<times> (nat \<Rightarrow> bool)"

definition linear_value :: "(nat \<Rightarrow> bool) \<Rightarrow> linear \<Rightarrow> int" where
  "linear_value v l = sum_list (map (\<lambda>(c, x). if v x then c else 0) l)"

definition cp_feasible :: "cp_problem \<Rightarrow> (nat \<Rightarrow> bool) \<Rightarrow> bool" where
  "cp_feasible p v \<longleftrightarrow> list_all (\<lambda>(l, b). linear_value v l \<le> b) (cm_constraints p)"

section \<open>The optimizer\<close>

record OrToolsOptimizerStatus =
  os_available :: bool
  os_backend :: string
  os_reason :: string

definition optimizer_module :: "cp_solver option \<Rightarrow> cp_solver result" where
  "optimizer_module cp =
     (case cp of None \<Rightarrow> Inl (OrToolsOptimizerError ''OR-Tools is not installed'') | Some s \<Rightarrow> Inr s)"

definition optimizer_status :: "cp_solver option \<Rightarrow> OrToolsOptimizerStatus" where
  "optimizer_status cp =
     (case optimizer_module cp of
        Inl e \<Rightarrow> \<lparr>os_available = False, os_backend = ''OR-Tools CP-SAT'', os_reason = ''OR-Tools is not installed''\<rparr>
      | Inr s \<Rightarrow> \<lparr>os_available = True, os_backend = ''OR-Tools CP-SAT'', os_reason = []\<rparr>)"

definition by_rank :: "SchedulerTaskProfile \<Rightarrow> int \<times> string" where
  "by_rank p = (tp_sequence_rank p, tp_task_id p)"

definition lane_variables :: "SchedulerTaskProfile list \<Rightarrow> (string, nat) dict" where
  "lane_variables ordered = dict_of (map (\<lambda>(i, p). (tp_task_id p, i)) (enumerate 0 ordered))"

definition lane_var :: "(string, nat) dict \<Rightarrow> string \<Rightarrow> nat" where
  "lane_var variables task_id = get_default variables task_id 0"

definition conflict_constraints :: "(string, nat) dict \<Rightarrow> (string \<times> string) list \<Rightarrow> (linear \<times> int) list" where
  "conflict_constraints variables edges =
     map (\<lambda>(l, r). ([(1, lane_var variables l), (1, lane_var variables r)], 1))
       (filter (\<lambda>(l, r). map_of variables l \<noteq> None \<and> map_of variables r \<noteq> None) (sort edges))"

definition capacity_terms :: "(string, nat) dict \<Rightarrow> SchedulerTaskProfile list \<Rightarrow> string \<Rightarrow> linear" where
  "capacity_terms variables ordered key =
     map (\<lambda>p. (claimed key (tp_claims p), lane_var variables (tp_task_id p)))
       (filter (\<lambda>p. claimed key (tp_claims p) \<noteq> 0) ordered)"

definition capacity_constraints ::
  "(string, nat) dict \<Rightarrow> SchedulerTaskProfile list \<Rightarrow> (string, ResourcePool) dict \<Rightarrow> (string, int) dict
     \<Rightarrow> (linear \<times> int) list" where
  "capacity_constraints variables ordered pools base_usage =
     map (\<lambda>(key, pool). (capacity_terms variables ordered key,
                        max 0 (allocatable_units pool - get_default base_usage key 0)))
       (filter (\<lambda>(key, pool). capacity_terms variables ordered key \<noteq> []) (sort_key fst pools))"

definition lane_problem ::
  "'g nx_ops \<Rightarrow> SchedulerTaskProfile list \<Rightarrow> 'g \<Rightarrow> (string, ResourcePool) dict \<Rightarrow> (string, int) dict \<Rightarrow> int
     \<Rightarrow> cp_problem" where
  "lane_problem nx ordered graph pools base_usage lane_limit =
     (let variables = lane_variables ordered;
          n = length ordered
      in \<lparr>cm_variables = map (\<lambda>i. ''lane_'' @ digits i) [0..<n],
          cm_constraints =
            [(map (\<lambda>(k, x). (1, x)) variables, lane_limit)]
            @ conflict_constraints variables (nx_edges nx graph)
            @ capacity_constraints variables ordered pools base_usage,
          cm_objective =
            map (\<lambda>(i, p). (tp_utility_score p * 1000 * 1000000 + 1000 + (int n - int i),
                          lane_var variables (tp_task_id p))) (enumerate 0 ordered)\<rparr>)"

definition optimizer_select ::
  "cp_solver option \<Rightarrow> 'g nx_ops \<Rightarrow> SchedulerTaskProfile list \<Rightarrow> 'g \<Rightarrow> (string, ResourcePool) dict
     \<Rightarrow> (string, int) dict \<Rightarrow> int \<Rightarrow> string list result" where
  "optimizer_select cp nx candidates graph pools base_usage lane_limit =
     res_bind (optimizer_module cp) (\<lambda>solve.
       let ordered = sort_key by_rank candidates
       in if ordered = [] \<or> lane_limit \<le> 0 then Inr []
          else case solve (lane_problem nx ordered graph pools base_usage lane_limit) of
                 (CP_OTHER s, v) \<Rightarrow>
                   Inl (OrToolsOptimizerError (''CP-SAT returned unsupported status '' @ str_int s))
               | (st, v) \<Rightarrow>
                   Inr (map tp_task_id
                          (filter (\<lambda>p. v (lane_var (lane_variables ordered) (tp_task_id p))) ordered)))"

section \<open>What the code relies on of CP-SAT\<close>

locale cp_sat =
  fixes solve :: cp_solver
  assumes solution: "solve p = (st, v) \<Longrightarrow> st = CP_OPTIMAL \<or> st = CP_FEASIBLE \<Longrightarrow> cp_feasible p v"
    and optimum: "solve p = (CP_OPTIMAL, v) \<Longrightarrow> cp_feasible p w \<Longrightarrow>
      linear_value w (cm_objective p) \<le> linear_value v (cm_objective p)"

text \<open>Exhaustive search over the variables that occur is an implementation.\<close>

definition cp_occurring :: "cp_problem \<Rightarrow> nat list" where
  "cp_occurring p = remdups (map snd (concat (map fst (cm_constraints p)) @ cm_objective p))"

definition cp_assignments :: "cp_problem \<Rightarrow> (nat \<Rightarrow> bool) list" where
  "cp_assignments p = map (\<lambda>xs x. x \<in> set xs) (filter (\<lambda>xs. cp_feasible p (\<lambda>x. x \<in> set xs)) (subseqs (cp_occurring p)))"

definition exhaustive_search :: cp_solver where
  "exhaustive_search p =
     (case cp_assignments p of
        [] \<Rightarrow> (CP_OTHER 3, \<lambda>_. False)
      | v # vs \<Rightarrow>
          (CP_OPTIMAL,
           fold (\<lambda>w best. if linear_value best (cm_objective p) < linear_value w (cm_objective p) then w else best) vs v))"

lemma linear_value_cong:
  "(\<And>x. x \<in> set (map snd l) \<Longrightarrow> v x = w x) \<Longrightarrow> linear_value v l = linear_value w l"
  by (induction l) (auto simp: linear_value_def)

lemma cp_assignments_cover:
  assumes "cp_feasible p w"
  shows "\<exists>v \<in> set (cp_assignments p). linear_value v (cm_objective p) = linear_value w (cm_objective p)"
proof -
  define xs where "xs = filter w (cp_occurring p)"
  have xs: "xs \<in> set (subseqs (cp_occurring p))" by (simp add: xs_def)
  have val: "linear_value (\<lambda>x. x \<in> set xs) l = linear_value w l" if "set (map snd l) \<subseteq> set (cp_occurring p)" for l
    using that by (intro linear_value_cong) (auto simp: xs_def)
  have "linear_value (\<lambda>x. x \<in> set xs) l = linear_value w l" if "(l, b) \<in> set (cm_constraints p)" for l b
    using that by (intro val) (force simp: cp_occurring_def)
  then have "cp_feasible p (\<lambda>x. x \<in> set xs)" using assms by (auto simp: cp_feasible_def list_all_iff)
  then have "(\<lambda>x. x \<in> set xs) \<in> set (cp_assignments p)" using xs by (auto simp: cp_assignments_def)
  moreover have "linear_value (\<lambda>x. x \<in> set xs) (cm_objective p) = linear_value w (cm_objective p)"
    by (intro val) (auto simp: cp_occurring_def)
  ultimately show ?thesis by (intro bexI)
qed

text \<open>The fold keeps an element with the largest key.\<close>

lemma fold_best:
  fixes key :: "'a \<Rightarrow> 'b :: linorder"
  defines "step \<equiv> \<lambda>w best. if key best < key w then w else best"
  shows "fold step ws v \<in> set (v # ws) \<and> (\<forall>w \<in> set (v # ws). key w \<le> key (fold step ws v))"
proof (induction ws arbitrary: v)
  case (Cons w ws)
  from Cons.IH [of "step w v"] show ?case by (fastforce simp: step_def split: if_splits)
qed simp

interpretation search: cp_sat exhaustive_search
proof
  fix p st v assume s: "exhaustive_search p = (st, v)" "st = CP_OPTIMAL \<or> st = CP_FEASIBLE"
  then obtain u us where u: "cp_assignments p = u # us"
    "v = fold (\<lambda>w best. if linear_value best (cm_objective p) < linear_value w (cm_objective p) then w else best) us u"
    by (auto simp: exhaustive_search_def split: list.splits)
  have "v \<in> set (cp_assignments p)"
    using fold_best [of "\<lambda>v. linear_value v (cm_objective p)" us u] unfolding u by blast
  then show "cp_feasible p v" by (auto simp: cp_assignments_def)
next
  fix p v w assume s: "exhaustive_search p = (CP_OPTIMAL, v)" and w: "cp_feasible p w"
  then obtain u us where u: "cp_assignments p = u # us"
    "v = fold (\<lambda>w best. if linear_value best (cm_objective p) < linear_value w (cm_objective p) then w else best) us u"
    by (auto simp: exhaustive_search_def split: list.splits)
  obtain x where "x \<in> set (cp_assignments p)" "linear_value x (cm_objective p) = linear_value w (cm_objective p)"
    using cp_assignments_cover [OF w] by blast
  then show "linear_value w (cm_objective p) \<le> linear_value v (cm_objective p)"
    using fold_best [of "\<lambda>v. linear_value v (cm_objective p)" us u] unfolding u by fastforce
qed

end
