(* ===== verification/Takeover.thy ===== *)
theory Takeover
  imports Json PyFloat
begin

text \<open>
  \<open>src/project_pipeline/lifecycle/takeover.py\<close>: readiness evidence, durable attestations and
  provider qualifications with their validation, path collisions, lane states and the global
  stop.  Time stamps are strings there: \<open>fromisoformat\<close> stands for \<open>datetime.fromisoformat\<close>
  (\<open>None\<close> for a \<open>ValueError\<close>) and \<open>local\<close> for the conversion of a naive local time to UTC by
  \<open>astimezone\<close>; both are arguments.  The current time is the argument \<open>now\<close>.
\<close>

section \<open>Text of a value\<close>

text \<open>\<open>str\<close> and \<open>repr\<close> of the values a JSON document decodes to.\<close>

definition is_printable :: "char \<Rightarrow> bool" where
  "is_printable c \<longleftrightarrow>
     (let n = of_char c :: nat in 32 \<le> n \<and> n < 127 \<or> 160 < n \<and> n \<noteq> 173)"

definition repr_char :: "char \<Rightarrow> char \<Rightarrow> string" where
  "repr_char q c =
     (if c = q \<or> c = CHR 0x5C then [CHR 0x5C, c]
      else if c = CHR 0x09 then [CHR 0x5C, CHR ''t'']
      else if c = CHR 0x0A then [CHR 0x5C, CHR ''n'']
      else if c = CHR 0x0D then [CHR 0x5C, CHR ''r'']
      else if is_printable c then [c]
      else [CHR 0x5C, CHR ''x'', hex_digit (of_char c div 16), hex_digit (of_char c mod 16)])"

definition repr_str :: "string \<Rightarrow> string" where
  "repr_str s =
     (let q = (if CHR 0x27 \<in> set s \<and> CHR 0x22 \<notin> set s then CHR 0x22 else CHR 0x27)
      in [q] @ concat (map (repr_char q) s) @ [q])"

fun py_repr :: "json \<Rightarrow> string" where
  "py_repr JNull = ''None''"
| "py_repr (JBool b) = (if b then ''True'' else ''False'')"
| "py_repr (JInt n) = str_int n"
| "py_repr (JStr s) = repr_str s"
| "py_repr (JList vs) = ''['' @ join_str '', '' (map py_repr vs) @ '']''"
| "py_repr (JObj kvs) = ''{'' @ join_str '', '' (map (\<lambda>(k, v). repr_str k @ '': '' @ py_repr v) kvs) @ ''}''"

definition py_str :: "json \<Rightarrow> string" where
  "py_str v = (case v of JStr s \<Rightarrow> s | _ \<Rightarrow> py_repr v)"

section \<open>Enumerations and records\<close>

definition PP327_BLOCKED_PATHS :: "string list" where
  "PP327_BLOCKED_PATHS =
     [''jira/tasks/PP-TASK-000327.json'', ''src/project_pipeline/domain/state.py'',
      ''src/project_pipeline/jira_steward/reconciliation.py'', ''tests/test_domain_models.py'',
      ''tests/test_jira_steward_domain.py'']"

datatype SessionIdentity = AUTONOMY_COORDINATOR | PROGRAMMATIC_CURSOR_CLI_WORKER | CURSOR_CLOUD_WORKER

datatype LaneState = L_ACTIVE | L_BLOCKED | L_BLOCKED_EXTERNAL

datatype AttestationState = A_MISSING | A_INVALID | A_MISMATCHED | A_STALE | A_VALID

datatype ProviderQualificationState = Q_MISSING | Q_INVALID | Q_MISMATCHED | Q_STALE | Q_QUALIFIED

record ReadinessEvidence =
  re_exec_available :: bool
  re_auth_non_secret :: bool
  re_privacy_attested :: bool
  re_representative_qualified :: bool
  re_rollback_verified :: bool
  re_external_write_isolated :: bool
  re_freshness_satisfied :: bool
  re_unattended_qualification_satisfied :: bool

definition activation_ready :: "ReadinessEvidence \<Rightarrow> bool" where
  "activation_ready e = list_all (\<lambda>b. b)
     [re_exec_available e, re_auth_non_secret e, re_privacy_attested e, re_representative_qualified e,
      re_rollback_verified e, re_external_write_isolated e, re_freshness_satisfied e]"

definition unattended_ready :: "ReadinessEvidence \<Rightarrow> bool" where
  "unattended_ready e \<longleftrightarrow> activation_ready e \<and> re_unattended_qualification_satisfied e"

record DurableAttestation =
  da_fingerprint :: string
  da_approved :: bool
  da_project_id :: "string option"
  da_provider_id :: "string option"
  da_scope :: "string option"
  da_approved_at_utc :: "string option"
  da_evidence_ref :: "string option"
  da_evidence_fingerprint :: "string option"

definition attestation_fingerprint_for :: "(string, json) dict \<Rightarrow> string" where
  "attestation_fingerprint_for value = sha256_hex (dumps True (JObj value))"

record AttestationValidation =
  av_valid :: bool
  av_state :: AttestationState
  av_reasons :: "string list"
  av_fingerprint_matches :: bool
  av_identity_matches :: bool
  av_fresh_within_policy :: bool

record DurableProviderQualificationEvidence =
  dq_qualified :: bool
  dq_fingerprint :: "string option"
  dq_project_id :: "string option"
  dq_provider_id :: "string option"
  dq_scope :: "string option"
  dq_verified_at_utc :: "string option"
  dq_evidence_ref :: "string option"
  dq_evidence_fingerprint :: "string option"

definition qualification_fingerprint_for :: "string \<Rightarrow> string \<Rightarrow> string \<Rightarrow> bool \<Rightarrow> string" where
  "qualification_fingerprint_for project_id provider_id scope qualified =
     sha256_hex (dumps True (JObj
       [(''project_id'', JStr project_id), (''provider_id'', JStr provider_id), (''scope'', JStr scope),
        (''qualified'', JBool qualified)]))"

record ProviderQualificationValidation =
  qv_satisfied :: bool
  qv_state :: ProviderQualificationState
  qv_reasons :: "string list"
  qv_fingerprint_matches :: bool
  qv_identity_matches :: bool
  qv_fresh_within_policy :: bool

record CheckpointDecision =
  cd_no_additional_action_needed :: bool
  cd_eligible_unrelated_lanes :: "string list"

definition checkpoint_is_valid :: "CheckpointDecision \<Rightarrow> bool" where
  "checkpoint_is_valid d \<longleftrightarrow> \<not> (cd_no_additional_action_needed d \<and> cd_eligible_unrelated_lanes d \<noteq> [])"

section \<open>Paths, sessions and lanes\<close>

definition normalized_path :: "string \<Rightarrow> string" where
  "normalized_path item = strip_by (\<lambda>c. c = CHR ''/'') (replace_char (CHR 0x5C) (CHR ''/'') item)"

definition has_path_collision :: "string list \<Rightarrow> string list \<Rightarrow> bool" where
  "has_path_collision left_paths right_paths \<longleftrightarrow>
     list_ex (\<lambda>p. p \<in> set (map normalized_path right_paths)) (map normalized_path left_paths)"

definition pp327_collision :: "string list \<Rightarrow> bool" where
  "pp327_collision paths \<longleftrightarrow> list_ex (\<lambda>p. p \<in> set PP327_BLOCKED_PATHS) (map normalized_path paths)"

definition claim_is_admissible :: "string list \<Rightarrow> bool" where
  "claim_is_admissible paths \<longleftrightarrow> \<not> pp327_collision paths"

definition provider_dispatch_blocked :: "SessionIdentity \<Rightarrow> string \<Rightarrow> bool \<Rightarrow> bool" where
  "provider_dispatch_blocked session_identity provider_id provider_qualified \<longleftrightarrow> \<not> provider_qualified"

definition local_integration_allowed :: "SessionIdentity \<Rightarrow> string \<Rightarrow> bool \<Rightarrow> bool" where
  "local_integration_allowed session_identity provider_id provider_qualified =
     (if provider_dispatch_blocked session_identity provider_id provider_qualified then False
      else session_identity = AUTONOMY_COORDINATOR)"

definition scoped_lane_state :: "bool \<Rightarrow> bool \<Rightarrow> bool \<Rightarrow> bool \<Rightarrow> bool \<Rightarrow> LaneState" where
  "scoped_lane_state has_privacy_attestation requires_privacy_attestation missing_external_credentials
       depends_on_external_credentials resource_collision =
     (if resource_collision then L_BLOCKED
      else if missing_external_credentials \<and> depends_on_external_credentials then L_BLOCKED
      else if requires_privacy_attestation \<and> \<not> has_privacy_attestation then L_BLOCKED_EXTERNAL
      else L_ACTIVE)"

definition global_stop_required :: "LaneState list \<Rightarrow> bool" where
  "global_stop_required lane_states =
     (if lane_states = [] then True
      else list_all (\<lambda>s. s \<in> {L_BLOCKED, L_BLOCKED_EXTERNAL}) lane_states)"

section \<open>Validation\<close>

text \<open>\<open>value.replace("Z", "+00:00")\<close>: every letter Z, wherever it stands.\<close>

definition replace_z :: "string \<Rightarrow> string" where
  "replace_z s = concat (map (\<lambda>c. if c = CHR ''Z'' then ''+00:00'' else [c]) s)"

definition as_utc :: "(int \<Rightarrow> int) \<Rightarrow> py_datetime \<Rightarrow> int" where
  "as_utc local t = (case t of Naive m \<Rightarrow> local m | Aware m \<Rightarrow> m)"

definition parse_utc_timestamp ::
  "(string \<Rightarrow> py_datetime option) \<Rightarrow> (int \<Rightarrow> int) \<Rightarrow> string option \<Rightarrow> int option" where
  "parse_utc_timestamp fromisoformat local value =
     (if falsy value then None
      else map_option (as_utc local) (fromisoformat (replace_z (the value))))"

definition invalid_attestation :: "AttestationState \<Rightarrow> string \<Rightarrow> bool \<Rightarrow> bool \<Rightarrow> AttestationValidation" where
  "invalid_attestation st reason fingerprint_matches identity_matches =
     \<lparr>av_valid = False, av_state = st, av_reasons = [reason], av_fingerprint_matches = fingerprint_matches,
      av_identity_matches = identity_matches, av_fresh_within_policy = False\<rparr>"

definition input_text :: "(string, json) dict \<Rightarrow> string \<Rightarrow> string" where
  "input_text inputs k = py_str (get_default inputs k (JStr []))"

definition attestation_identity :: "DurableAttestation \<Rightarrow> (string, json) dict \<Rightarrow> bool" where
  "attestation_identity p inputs \<longleftrightarrow>
     da_project_id p = Some (input_text inputs ''project_id'')
     \<and> da_provider_id p = Some (input_text inputs ''provider_id'')
     \<and> da_scope p = Some (input_text inputs ''scope'')"

definition fresh_within :: "int \<Rightarrow> int \<Rightarrow> int \<Rightarrow> bool" where
  "fresh_within max_age_hours now issued_at \<longleftrightarrow>
     0 \<le> hours_between now issued_at \<and> hours_between now issued_at \<le> of_int max_age_hours"

definition validate_durable_attestation ::
  "(string \<Rightarrow> py_datetime option) \<Rightarrow> (int \<Rightarrow> int) \<Rightarrow> DurableAttestation option \<Rightarrow> (string, json) dict
     \<Rightarrow> bool \<Rightarrow> int option \<Rightarrow> int \<Rightarrow> AttestationValidation" where
  "validate_durable_attestation fromisoformat local prior inputs require_identity max_age_hours now =
     (case prior of
        None \<Rightarrow> invalid_attestation A_MISSING ''missing_durable_attestation'' False False
      | Some p \<Rightarrow>
          if \<not> da_approved p then invalid_attestation A_INVALID ''attestation_not_approved'' False False
          else if da_fingerprint p \<noteq> attestation_fingerprint_for inputs
          then invalid_attestation A_MISMATCHED ''fingerprint_mismatch'' False False
          else if require_identity \<and> \<not> attestation_identity p inputs
          then invalid_attestation A_MISMATCHED ''identity_mismatch'' True False
          else
            let ok = \<lparr>av_valid = True, av_state = A_VALID, av_reasons = [], av_fingerprint_matches = True,
                      av_identity_matches = True, av_fresh_within_policy = True\<rparr>
            in case max_age_hours of
                 None \<Rightarrow> ok
               | Some h \<Rightarrow>
                   (case parse_utc_timestamp fromisoformat local (da_approved_at_utc p) of
                      None \<Rightarrow> invalid_attestation A_STALE ''missing_or_invalid_timestamp'' True True
                    | Some t \<Rightarrow>
                        if \<not> fresh_within h now t
                        then invalid_attestation A_STALE ''attestation_stale'' True True
                        else ok))"

definition attestation_recheck_required ::
  "(string \<Rightarrow> py_datetime option) \<Rightarrow> (int \<Rightarrow> int) \<Rightarrow> DurableAttestation option \<Rightarrow> (string, json) dict \<Rightarrow> int \<Rightarrow> bool" where
  "attestation_recheck_required fromisoformat local prior inputs now \<longleftrightarrow>
     \<not> av_valid (validate_durable_attestation fromisoformat local prior inputs False None now)"

definition invalid_qualification ::
  "ProviderQualificationState \<Rightarrow> string \<Rightarrow> bool \<Rightarrow> bool \<Rightarrow> ProviderQualificationValidation" where
  "invalid_qualification st reason fingerprint_matches identity_matches =
     \<lparr>qv_satisfied = False, qv_state = st, qv_reasons = [reason], qv_fingerprint_matches = fingerprint_matches,
      qv_identity_matches = identity_matches, qv_fresh_within_policy = False\<rparr>"

definition qualification_identity ::
  "DurableProviderQualificationEvidence \<Rightarrow> string \<Rightarrow> string \<Rightarrow> string \<Rightarrow> bool" where
  "qualification_identity e project_id provider_id scope \<longleftrightarrow>
     dq_project_id e = Some project_id \<and> dq_provider_id e = Some provider_id \<and> dq_scope e = Some scope"

definition validate_provider_qualification_evidence ::
  "(string \<Rightarrow> py_datetime option) \<Rightarrow> (int \<Rightarrow> int) \<Rightarrow> DurableProviderQualificationEvidence option
     \<Rightarrow> string \<Rightarrow> string \<Rightarrow> string \<Rightarrow> bool \<Rightarrow> bool \<Rightarrow> int option \<Rightarrow> int \<Rightarrow> ProviderQualificationValidation" where
  "validate_provider_qualification_evidence fromisoformat local evidence project_id provider_id scope
       require_identity require_fingerprint max_age_hours now =
     (case evidence of
        None \<Rightarrow> invalid_qualification Q_MISSING ''missing_provider_qualification_evidence'' False False
      | Some e \<Rightarrow>
          if \<not> dq_qualified e then invalid_qualification Q_INVALID ''provider_not_qualified'' False False
          else if require_fingerprint \<and> falsy (dq_fingerprint e)
          then invalid_qualification Q_INVALID ''missing_provider_qualification_fingerprint'' False False
          else if require_fingerprint
               \<and> dq_fingerprint e \<noteq> Some (qualification_fingerprint_for project_id provider_id scope True)
          then invalid_qualification Q_MISMATCHED ''provider_qualification_fingerprint_mismatch'' False False
          else if require_identity \<and> \<not> qualification_identity e project_id provider_id scope
          then invalid_qualification Q_MISMATCHED ''provider_qualification_identity_mismatch'' True False
          else
            let ok = \<lparr>qv_satisfied = True, qv_state = Q_QUALIFIED, qv_reasons = [], qv_fingerprint_matches = True,
                      qv_identity_matches = True, qv_fresh_within_policy = True\<rparr>
            in case max_age_hours of
                 None \<Rightarrow> ok
               | Some h \<Rightarrow>
                   (case parse_utc_timestamp fromisoformat local (dq_verified_at_utc e) of
                      None \<Rightarrow>
                        invalid_qualification Q_STALE ''missing_or_invalid_provider_qualification_timestamp'' True True
                    | Some t \<Rightarrow>
                        if \<not> fresh_within h now t
                        then invalid_qualification Q_STALE ''provider_qualification_stale'' True True
                        else ok))"

section \<open>Properties\<close>

text \<open>Freshness in exact arithmetic.\<close>

lemma fresh_within_exact:
  assumes "0 \<le> h" "h \<le> 2 ^ 16"
  shows "fresh_within h now t \<longleftrightarrow> 0 \<le> now - t \<and> now - t \<le> h * 3600000000"
  using hours_between_le [OF assms, of now t] hours_between_nonneg [of t now] hours_between_neg [of now t]
  by (cases "now < t") (auto simp: fresh_within_def)

definition recent :: "(string \<Rightarrow> py_datetime option) \<Rightarrow> (int \<Rightarrow> int) \<Rightarrow> int option \<Rightarrow> int \<Rightarrow> string option \<Rightarrow> bool" where
  "recent fromisoformat local max_age_hours now stamp \<longleftrightarrow>
     (case max_age_hours of
        None \<Rightarrow> True
      | Some h \<Rightarrow> \<exists>t. parse_utc_timestamp fromisoformat local stamp = Some t \<and> 0 \<le> now - t \<and> now - t \<le> h * 3600000000)"

text \<open>
  C28. An attestation is accepted exactly when it exists, was approved, carries the fingerprint
  of the current inputs, names the same project, provider and scope where identity is required,
  and, where an age limit is set, its time stamp parses, is not in the future and is no older than
  the limit to the microsecond.  The verdict, its state and its reasons agree.
\<close>
theorem attestation_valid_iff:
  assumes "\<And>h. max_age = Some h \<Longrightarrow> 0 \<le> h \<and> h \<le> 2 ^ 16"
    and "v = validate_durable_attestation fromisoformat local prior inputs ident max_age now"
  shows "(av_valid v \<longleftrightarrow>
       (\<exists>p. prior = Some p \<and> da_approved p \<and> da_fingerprint p = attestation_fingerprint_for inputs
          \<and> (ident \<longrightarrow> attestation_identity p inputs) \<and> recent fromisoformat local max_age now (da_approved_at_utc p)))
     \<and> (av_valid v \<longleftrightarrow> av_state v = A_VALID) \<and> (av_valid v \<longleftrightarrow> av_reasons v = [])"
  using assms
  by (auto simp: validate_durable_attestation_def invalid_attestation_def recent_def fresh_within_exact Let_def
      split: option.splits)

definition example_attestation :: DurableAttestation where
  "example_attestation =
     \<lparr>da_fingerprint = attestation_fingerprint_for [(''project_id'', JStr ''PROJECT-X'')], da_approved = True,
      da_project_id = Some ''PROJECT-X'', da_provider_id = Some [], da_scope = Some [],
      da_approved_at_utc = Some ''2026-01-01T00:00:00Z'', da_evidence_ref = None, da_evidence_fingerprint = None\<rparr>"

theorem attestation_valid_iff_witness:
  "av_valid (validate_durable_attestation (\<lambda>_. Some (Aware 0)) id (Some example_attestation)
       [(''project_id'', JStr ''PROJECT-X'')] True (Some 24) 86400000000)
   \<and> \<not> av_valid (validate_durable_attestation (\<lambda>_. Some (Aware 0)) id (Some example_attestation)
       [(''project_id'', JStr ''PROJECT-X'')] True (Some 24) 86400000001)"
proof -
  have h: "0 \<le> h \<and> h \<le> 2 ^ 16" if "Some 24 = Some h" for h :: int using that by simp
  have "input_text [(''project_id'', JStr ''PROJECT-X'')] ''project_id'' = ''PROJECT-X''"
    "input_text [(''project_id'', JStr ''PROJECT-X'')] ''provider_id'' = []"
    "input_text [(''project_id'', JStr ''PROJECT-X'')] ''scope'' = []"
    by code_simp+
  then have "attestation_identity example_attestation [(''project_id'', JStr ''PROJECT-X'')]"
    by (simp add: attestation_identity_def example_attestation_def)
  then show ?thesis
    using attestation_valid_iff [where max_age = "Some 24" and fromisoformat = "\<lambda>_. Some (Aware 0)" and local = id
        and prior = "Some example_attestation" and inputs = "[(''project_id'', JStr ''PROJECT-X'')]" and ident = True,
        OF h refl]
    by (simp add: example_attestation_def recent_def parse_utc_timestamp_def falsy_def as_utc_def)
qed

text \<open>
  A provider counts as qualified exactly when its evidence exists, says so, carries the
  fingerprint of the project, provider and scope where one is required, names them where identity
  is required, and, where an age limit is set, is no older than the limit to the microsecond and
  not in the future.  The verdict, its state and its reasons agree.
\<close>
theorem qualification_satisfied_iff:
  assumes "\<And>h. max_age = Some h \<Longrightarrow> 0 \<le> h \<and> h \<le> 2 ^ 16"
    and "v = validate_provider_qualification_evidence fromisoformat local evidence project provider scope ident fp max_age now"
  shows "(qv_satisfied v \<longleftrightarrow>
       (\<exists>e. evidence = Some e \<and> dq_qualified e
          \<and> (fp \<longrightarrow> dq_fingerprint e = Some (qualification_fingerprint_for project provider scope True))
          \<and> (ident \<longrightarrow> qualification_identity e project provider scope)
          \<and> recent fromisoformat local max_age now (dq_verified_at_utc e)))
     \<and> (qv_satisfied v \<longleftrightarrow> qv_state v = Q_QUALIFIED) \<and> (qv_satisfied v \<longleftrightarrow> qv_reasons v = [])"
proof -
  have "qualification_fingerprint_for project provider scope True \<noteq> []"
    using length_sha256_hex by (metis list.size(3) qualification_fingerprint_for_def zero_neq_numeral)
  then show ?thesis
    using assms
    by (auto simp: validate_provider_qualification_evidence_def invalid_qualification_def recent_def
        fresh_within_exact falsy_def Let_def split: option.splits)
qed

theorem qualification_satisfied_iff_witness:
  "qv_satisfied (validate_provider_qualification_evidence (\<lambda>_. None) id
     (Some \<lparr>dq_qualified = True, dq_fingerprint = Some (qualification_fingerprint_for ''P'' ''Q'' ''S'' True),
            dq_project_id = Some ''P'', dq_provider_id = Some ''Q'', dq_scope = Some ''S'', dq_verified_at_utc = None,
            dq_evidence_ref = None, dq_evidence_fingerprint = None\<rparr>) ''P'' ''Q'' ''S'' True True None 0)"
  using qualification_satisfied_iff [OF _ refl, where max_age = None and fromisoformat = "\<lambda>_. None" and local = id
      and project = "''P''" and provider = "''Q''" and scope = "''S''" and ident = True and fp = True and now = 0]
  by (simp add: qualification_identity_def recent_def)

text \<open>
  The guard of the reserved files compares whole paths, so a claim on a directory that contains a
  reserved file is admitted, and so is a path with a dot segment.
\<close>

lemma reserved_directory_admitted:
  "claim_is_admissible [''src/project_pipeline/domain''] \<and> claim_is_admissible [''./tests/test_domain_models.py'']
   \<and> \<not> claim_is_admissible [''tests/test_domain_models.py'']"
  by code_simp

lemma global_stop_iff: "global_stop_required lanes \<longleftrightarrow> L_ACTIVE \<notin> set lanes"
proof -
  have "s \<in> {L_BLOCKED, L_BLOCKED_EXTERNAL} \<longleftrightarrow> s \<noteq> L_ACTIVE" for s by (cases s) simp_all
  then show ?thesis by (auto simp: global_stop_required_def list_all_iff)
qed

end
