(* ===== verification/SchedulerEngine.thy ===== *)
theory SchedulerEngine
  imports OrToolsOptimizer Takeover ControlDomain
begin

text \<open>
  \<open>src/project_pipeline/scheduler/engine.py\<close>: the class \<open>DynamicLaneScheduler\<close>.  A plan takes the
  ready work of a control snapshot, admits or refuses every candidate, selects a set of lanes by
  exhaustive search, by CP-SAT with revalidation or greedily, and numbers the lanes.
\<close>

section \<open>Selection\<close>

record DynamicLaneScheduler =
  ds_exact_candidate_limit :: int
  ds_ortools_optimizer :: "cp_solver option"

definition init_DynamicLaneScheduler :: "int \<Rightarrow> cp_solver option \<Rightarrow> DynamicLaneScheduler result" where
  "init_DynamicLaneScheduler exact_candidate_limit cp =
     (if exact_candidate_limit < 1 then Inl (ValueError ''exact candidate limit must be positive'')
      else Inr \<lparr>ds_exact_candidate_limit = exact_candidate_limit, ds_ortools_optimizer = cp\<rparr>)"

definition compatible ::
  "'g nx_ops \<Rightarrow> SchedulerTaskProfile \<Rightarrow> SchedulerTaskProfile list \<Rightarrow> 'g \<Rightarrow> bool" where
  "compatible nx candidate selected graph =
     list_all (\<lambda>item. \<not> nx_has_edge nx graph (tp_task_id candidate) (tp_task_id item)) selected"

definition fits_capacity ::
  "SchedulerTaskProfile \<Rightarrow> SchedulerTaskProfile list \<Rightarrow> (string, ResourcePool) dict \<Rightarrow> (string, int) dict \<Rightarrow> bool" where
  "fits_capacity candidate selected pools base_usage =
     (let usage = fold (\<lambda>item u. add_claim_usage u (tp_claims item) pools) selected base_usage
      in list_all (\<lambda>c. case map_of pools (rc_resource_key c) of
                         None \<Rightarrow> True
                       | Some pool \<Rightarrow> get_default usage (rc_resource_key c) 0 + rc_quantity c \<le> allocatable_units pool)
           (tp_claims candidate))"

text \<open>
  The accumulating capacity check that \<open>_selection_is_valid\<close> and \<open>_exact_select\<close> share: \<open>None\<close>
  when a claim does not fit what the earlier ones left.
\<close>

fun charge_claims ::
  "(string, ResourcePool) dict \<Rightarrow> (string, int) dict \<Rightarrow> ResourceClaim list \<Rightarrow> (string, int) dict option" where
  "charge_claims pools usage [] = Some usage"
| "charge_claims pools usage (c # cs) =
     (case map_of pools (rc_resource_key c) of
        None \<Rightarrow> charge_claims pools usage cs
      | Some pool \<Rightarrow>
          if allocatable_units pool < get_default usage (rc_resource_key c) 0 + rc_quantity c then None
          else charge_claims pools (add_usage usage (rc_resource_key c) (rc_quantity c)) cs)"

fun charge_items ::
  "(string, ResourcePool) dict \<Rightarrow> (string, int) dict \<Rightarrow> SchedulerTaskProfile list \<Rightarrow> (string, int) dict option" where
  "charge_items pools usage [] = Some usage"
| "charge_items pools usage (p # ps) =
     (case charge_claims pools usage (tp_claims p) of
        None \<Rightarrow> None
      | Some usage' \<Rightarrow> charge_items pools usage' ps)"

definition conflict_free :: "'g nx_ops \<Rightarrow> 'g \<Rightarrow> SchedulerTaskProfile list \<Rightarrow> bool" where
  "conflict_free nx graph items =
     list_all (\<lambda>(a, b). \<not> nx_has_edge nx graph (tp_task_id a) (tp_task_id b)) (pairs items)"

definition selection_is_valid ::
  "'g nx_ops \<Rightarrow> SchedulerTaskProfile list \<Rightarrow> 'g \<Rightarrow> (string, ResourcePool) dict \<Rightarrow> (string, int) dict \<Rightarrow> int \<Rightarrow> bool" where
  "selection_is_valid nx selected graph pools base_usage lane_limit =
     (if lane_limit < int (length selected) then False
      else if \<not> conflict_free nx graph selected then False
      else charge_items pools base_usage selected \<noteq> None)"

text \<open>\<open>itertools.combinations\<close>: the sublists of a length, in lexicographic order of positions.\<close>

fun combinations :: "nat \<Rightarrow> 'a list \<Rightarrow> 'a list list" where
  "combinations 0 xs = [[]]"
| "combinations (Suc n) [] = []"
| "combinations (Suc n) (x # xs) = map (Cons x) (combinations n xs) @ combinations (Suc n) xs"

type_synonym exact_key = "int \<times> int \<times> string list"

definition exact_key :: "SchedulerTaskProfile list \<Rightarrow> exact_key" where
  "exact_key combo = (sum_list (map tp_utility_score combo), int (length combo), rev (map tp_task_id combo))"

definition exact_step ::
  "'g nx_ops \<Rightarrow> 'g \<Rightarrow> (string, ResourcePool) dict \<Rightarrow> (string, int) dict \<Rightarrow> SchedulerTaskProfile list
     \<Rightarrow> exact_key \<times> SchedulerTaskProfile list \<Rightarrow> exact_key \<times> SchedulerTaskProfile list" where
  "exact_step nx graph pools base_usage combo = (\<lambda>(best_key, best).
     if \<not> conflict_free nx graph combo then (best_key, best)
     else if charge_items pools base_usage combo = None then (best_key, best)
     else if best_key < exact_key combo then (exact_key combo, combo) else (best_key, best))"

definition exact_select ::
  "'g nx_ops \<Rightarrow> SchedulerTaskProfile list \<Rightarrow> 'g \<Rightarrow> (string, ResourcePool) dict \<Rightarrow> (string, int) dict \<Rightarrow> int
     \<Rightarrow> SchedulerTaskProfile list" where
  "exact_select nx candidates graph pools base_usage lane_limit =
     (let ordered = sort_key by_rank candidates;
          sizes = [1..<nat (min lane_limit (int (length ordered))) + 1]
      in snd (fold (exact_step nx graph pools base_usage)
                (concat (map (\<lambda>size. combinations size ordered) sizes)) ((- 1, - 1, []), [])))"

fun greedy_loop ::
  "'g nx_ops \<Rightarrow> 'g \<Rightarrow> (string, ResourcePool) dict \<Rightarrow> (string, int) dict \<Rightarrow> int
     \<Rightarrow> SchedulerTaskProfile list \<Rightarrow> SchedulerTaskProfile list \<Rightarrow> SchedulerTaskProfile list" where
  "greedy_loop nx graph pools base_usage lane_limit selected [] = selected"
| "greedy_loop nx graph pools base_usage lane_limit selected (candidate # rest) =
     (if lane_limit \<le> int (length selected) then selected
      else if compatible nx candidate selected graph \<and> fits_capacity candidate selected pools base_usage
      then greedy_loop nx graph pools base_usage lane_limit (selected @ [candidate]) rest
      else greedy_loop nx graph pools base_usage lane_limit selected rest)"

definition greedy_key :: "SchedulerTaskProfile \<Rightarrow> int \<times> int \<times> string" where
  "greedy_key p = (- tp_utility_score p, tp_sequence_rank p, tp_task_id p)"

definition greedy_select ::
  "'g nx_ops \<Rightarrow> SchedulerTaskProfile list \<Rightarrow> 'g \<Rightarrow> (string, ResourcePool) dict \<Rightarrow> (string, int) dict \<Rightarrow> int
     \<Rightarrow> SchedulerTaskProfile list" where
  "greedy_select nx candidates graph pools base_usage lane_limit =
     greedy_loop nx graph pools base_usage lane_limit [] (sort_key greedy_key candidates)"

section \<open>The plan\<close>

definition lane_limit_of :: "int option \<Rightarrow> nat \<Rightarrow> BackpressureDecision \<Rightarrow> int" where
  "lane_limit_of max_lanes n decision =
     (let natural_limit = (case max_lanes of None \<Rightarrow> int n | Some m \<Rightarrow> max 0 (min m (int n)));
          lane_limit = min natural_limit \<lfloor>fl (of_int natural_limit * bd_lane_fraction decision)\<rfloor>
      in if 0 < natural_limit \<and> bd_admit_new_work decision \<and> 0 < bd_lane_fraction decision \<and> lane_limit = 0
         then 1 else lane_limit)"

text \<open>The refusals of the first loop; \<open>None\<close> for a candidate that goes on to the selection.\<close>

definition preliminary ::
  "BackpressureDecision \<Rightarrow> ResourceRegistrySnapshot \<Rightarrow> int \<Rightarrow> SchedulerTaskProfile \<Rightarrow> (AdmissionState \<times> string list) option" where
  "preliminary decision registry now candidate =
     (if \<not> bd_admit_new_work decision
      then Some (BACKPRESSURE, [''backpressure:'' @ backpressure_mode_value (bd_mode decision)])
      else if \<not> tp_policy_eligible candidate then Some (POLICY_DENIED, [''policy_denied''])
      else if \<not> tp_workspace_isolated candidate then Some (WORKSPACE_UNSAFE, [''workspace_not_isolated''])
      else
        let path_claims = map rc_resource_key (filter (\<lambda>c. rc_resource_type c = PATH) (tp_claims candidate))
        in if path_claims \<noteq> [] \<and> \<not> claim_is_admissible path_claims
           then Some (POLICY_DENIED, [''pp327_owned_path_collision''])
           else
             let reasons = admission_reasons (tp_claims candidate) registry now []
             in if reasons \<noteq> []
                then Some (if list_ex (\<lambda>r. startswith r ''capacity:'') reasons then CAPACITY_EXHAUSTED
                           else LEASE_UNAVAILABLE, reasons)
                else None)"

definition refuse :: "string \<Rightarrow> AdmissionState \<Rightarrow> string list \<Rightarrow> AdmissionDecision result" where
  "refuse task_id st reasons =
     make_AdmissionDecision \<lparr>ad_task_id = task_id, ad_state = st, ad_admitted = False, ad_reasons = reasons\<rparr>"

definition preliminary_step ::
  "BackpressureDecision \<Rightarrow> ResourceRegistrySnapshot \<Rightarrow> int
     \<Rightarrow> (string, AdmissionDecision) dict \<times> SchedulerTaskProfile list \<Rightarrow> SchedulerTaskProfile
     \<Rightarrow> ((string, AdmissionDecision) dict \<times> SchedulerTaskProfile list) result" where
  "preliminary_step decision registry now = (\<lambda>(admissions, prelim) candidate.
     case preliminary decision registry now candidate of
       None \<Rightarrow> Inr (admissions, prelim @ [candidate])
     | Some (st, reasons) \<Rightarrow>
         res_bind (refuse (tp_task_id candidate) st reasons) (\<lambda>d.
           Inr (AList.update (tp_task_id candidate) d admissions, prelim)))"

definition select_lanes ::
  "DynamicLaneScheduler \<Rightarrow> 'g nx_ops \<Rightarrow> SchedulerTaskProfile list \<Rightarrow> 'g \<Rightarrow> (string, ResourcePool) dict
     \<Rightarrow> (string, int) dict \<Rightarrow> int \<Rightarrow> SchedulerTaskProfile list \<times> selection_method" where
  "select_lanes ds nx prelim graph pools base_usage lane_limit =
     (let small = int (length prelim) \<le> ds_exact_candidate_limit ds;
          greedy = (greedy_select nx prelim graph pools base_usage lane_limit, DETERMINISTIC_GREEDY)
      in if lane_limit \<le> 0 \<or> prelim = []
         then ([], if small then EXACT_BOUNDED else DETERMINISTIC_GREEDY)
         else if small then (exact_select nx prelim graph pools base_usage lane_limit, EXACT_BOUNDED)
         else if os_available (optimizer_status (ds_ortools_optimizer ds))
         then case optimizer_select (ds_ortools_optimizer ds) nx prelim graph pools base_usage lane_limit of
                Inl e \<Rightarrow> greedy
              | Inr ids \<Rightarrow>
                  let selected = filter (\<lambda>p. tp_task_id p \<in> set ids) prelim
                  in if \<not> selection_is_valid nx selected graph pools base_usage lane_limit then greedy
                     else (selected, ORTOOLS_CP_SAT)
         else greedy)"

definition final_decision ::
  "'g nx_ops \<Rightarrow> 'g \<Rightarrow> string list \<Rightarrow> SchedulerTaskProfile \<Rightarrow> AdmissionDecision result" where
  "final_decision nx graph selected_ids candidate =
     (if tp_task_id candidate \<in> set selected_ids
      then make_AdmissionDecision
             \<lparr>ad_task_id = tp_task_id candidate, ad_state = ADMITTED, ad_admitted = True, ad_reasons = []\<rparr>
      else
        let conflict_selected =
              sort (filter (\<lambda>i. i \<in> set selected_ids) (nx_neighbors nx graph (tp_task_id candidate)))
        in if conflict_selected \<noteq> []
           then refuse (tp_task_id candidate) CONFLICT (map (\<lambda>i. ''conflicts_with:'' @ i) conflict_selected)
           else refuse (tp_task_id candidate) CAPACITY_EXHAUSTED [''lane_or_capacity_limit''])"

definition lane_assignment :: "string \<Rightarrow> nat \<times> SchedulerTaskProfile \<Rightarrow> LaneAssignment result" where
  "lane_assignment snapshot_id = (\<lambda>(index, item).
     res_bind (scheduler_identifier ''LANE'' [snapshot_id, tp_task_id item, str_int (int index)]) (\<lambda>lane_id.
       make_LaneAssignment
         \<lparr>la_lane_id = lane_id, la_task_id = tp_task_id item, la_rank = int index,
          la_utility_score = tp_utility_score item, la_claims = tp_claims item\<rparr>))"

definition candidates_of :: "ControlSnapshot \<Rightarrow> SchedulerTaskProfile list \<Rightarrow> SchedulerTaskProfile list" where
  "candidates_of control profiles =
     (let profile_by_id = dict_of (map (\<lambda>p. (tp_task_id p, p)) profiles)
      in List.map_filter (map_of profile_by_id) (map si_task_id (bq_ordered_ready_work (cs_sequence control))))"

definition plan ::
  "DynamicLaneScheduler \<Rightarrow> 'g nx_ops \<Rightarrow> ControlSnapshot \<Rightarrow> SchedulerTaskProfile list \<Rightarrow> ResourceRegistrySnapshot
     \<Rightarrow> BackpressureSignals option \<Rightarrow> BackpressurePolicy option \<Rightarrow> int option \<Rightarrow> int \<Rightarrow> SchedulerPlan result" where
  "plan ds nx control profiles registry signals policy max_lanes now =
     (let candidates = candidates_of control profiles
      in
     res_bind (evaluate_backpressure
         (case signals of None \<Rightarrow> default_signals (int (length candidates)) | Some s \<Rightarrow> s) policy) (\<lambda>decision.
       let lane_limit = lane_limit_of max_lanes (length candidates) decision
       in
     res_bind (build_conflict_graph nx candidates) (\<lambda>(graph, conflicts).
       let pools = pools_by_key (rr_pools registry);
           base_usage = capacity_usage registry now
       in
     res_bind (fold_res (preliminary_step decision registry now) ([], []) candidates) (\<lambda>(admissions, prelim).
       let (selected, method) = select_lanes ds nx prelim graph pools base_usage lane_limit;
           selected_ids = map tp_task_id selected
       in
     res_bind (fold_res (\<lambda>admissions candidate.
                 res_bind (final_decision nx graph selected_ids candidate) (\<lambda>d.
                   Inr (AList.update (tp_task_id candidate) d admissions))) admissions prelim) (\<lambda>admissions.
     res_bind (map_res (lane_assignment (cs_snapshot_id control)) (enumerate 1 (sort_key by_rank selected))) (\<lambda>lanes.
       let lane_ids = join_str '','' (map la_task_id lanes)
       in
     res_bind (scheduler_identifier ''SCHED''
         [cs_snapshot_id control, rr_registry_id registry, backpressure_mode_value (bd_mode decision),
          str_int lane_limit, if lane_ids = [] then ''none'' else lane_ids]) (\<lambda>plan_id.
     res_bind (map_res (\<lambda>item. dict_get id admissions (tp_task_id item)) (sort_key tp_task_id candidates)) (\<lambda>ordered.
       make_SchedulerPlan
         \<lparr>sp_plan_id = plan_id, sp_project_id = cs_project_id control, sp_control_snapshot_id = cs_snapshot_id control,
          sp_registry_id = rr_registry_id registry, sp_backpressure = decision, sp_selection_method = method,
          sp_candidate_count = int (length candidates), sp_lane_limit = lane_limit, sp_lanes = lanes,
          sp_conflicts = conflicts, sp_admissions = ordered, sp_generated_at_utc = Aware now\<rparr>))))))))"

end
