(* ===== verification/LaneSelection.thy ===== *)
theory LaneSelection
  imports SchedulerEngine
begin

text \<open>
  What the three selections of \<open>src/project_pipeline/scheduler/engine.py\<close> guarantee: the
  accumulating capacity check against a declarative one, optimality of the exhaustive search and
  of an optimal CP-SAT answer, and safety and maximality of the greedy choice.
\<close>

section \<open>Safe selections\<close>

abbreviation all_claims :: "SchedulerTaskProfile list \<Rightarrow> ResourceClaim list" where
  "all_claims ps \<equiv> concat (map tp_claims ps)"

text \<open>No pool that the selection claims from is asked for more than it can give.\<close>

definition within_capacity ::
  "(string, ResourcePool) dict \<Rightarrow> (string, int) dict \<Rightarrow> SchedulerTaskProfile list \<Rightarrow> bool" where
  "within_capacity pools base ps \<longleftrightarrow>
     (\<forall>c \<in> set (all_claims ps). \<forall>pool. map_of pools (rc_resource_key c) = Some pool \<longrightarrow>
        get_default base (rc_resource_key c) 0 + claimed (rc_resource_key c) (all_claims ps) \<le> allocatable_units pool)"

definition no_edges :: "'g nx_ops \<Rightarrow> 'g \<Rightarrow> SchedulerTaskProfile list \<Rightarrow> bool" where
  "no_edges nx g ps \<longleftrightarrow>
     (\<forall>p \<in> set ps. \<forall>q \<in> set ps. p \<noteq> q \<longrightarrow> \<not> nx_has_edge nx g (tp_task_id p) (tp_task_id q))"

definition safe_selection ::
  "'g nx_ops \<Rightarrow> 'g \<Rightarrow> (string, ResourcePool) dict \<Rightarrow> (string, int) dict \<Rightarrow> int \<Rightarrow> SchedulerTaskProfile list \<Rightarrow> bool" where
  "safe_selection nx g pools base limit ps \<longleftrightarrow>
     distinct ps \<and> int (length ps) \<le> limit \<and> no_edges nx g ps \<and> within_capacity pools base ps"

definition positive_claims :: "SchedulerTaskProfile \<Rightarrow> bool" where
  "positive_claims p \<longleftrightarrow> list_all (\<lambda>c. 1 \<le> rc_quantity c) (tp_claims p)"

abbreviation total_utility :: "SchedulerTaskProfile list \<Rightarrow> int" where
  "total_utility ps \<equiv> sum_list (map tp_utility_score ps)"

lemma charge_claims_append:
  "charge_claims pools u (cs @ ds) =
     (case charge_claims pools u cs of None \<Rightarrow> None | Some v \<Rightarrow> charge_claims pools v ds)"
  by (induction cs arbitrary: u) (simp_all split: option.split)

lemma charge_items_eq: "charge_items pools u ps = charge_claims pools u (all_claims ps)"
  by (induction ps arbitrary: u) (simp_all add: charge_claims_append split: option.split)

lemma charge_claims_fits:
  assumes "\<forall>c \<in> set cs. 0 \<le> rc_quantity c"
  shows "charge_claims pools u cs \<noteq> None \<longleftrightarrow>
     (\<forall>c \<in> set cs. \<forall>pool. map_of pools (rc_resource_key c) = Some pool \<longrightarrow>
        get_default u (rc_resource_key c) 0 + claimed (rc_resource_key c) cs \<le> allocatable_units pool)"
  using assms
proof (induction cs arbitrary: u)
  case (Cons c cs)
  let ?k = "rc_resource_key c"
  have q: "0 \<le> rc_quantity c" "\<forall>d \<in> set cs. 0 \<le> rc_quantity d" using Cons.prems by auto
  note IH = Cons.IH [OF q(2)]
  have nn: "0 \<le> claimed ?k cs" using claimed_nonneg [OF q(2)] .
  show ?case
  proof (cases "map_of pools ?k")
    case None
    then have "get_default u (rc_resource_key d) 0 + claimed (rc_resource_key d) (c # cs) =
        get_default u (rc_resource_key d) 0 + claimed (rc_resource_key d) cs"
      if "map_of pools (rc_resource_key d) = Some pool" for d pool using that by auto
    then show ?thesis using None IH [of u] by auto
  next
    case (Some pool)
    let ?u = "add_usage u ?k (rc_quantity c)"
    have shift: "get_default ?u j 0 + claimed j cs = get_default u j 0 + claimed j (c # cs)" for j by simp
    show ?thesis
    proof (cases "allocatable_units pool < get_default u ?k 0 + rc_quantity c")
      case True
      then show ?thesis using Some nn by auto
    next
      case False
      let ?fits = "\<lambda>j p. get_default u j 0 + claimed j (c # cs) \<le> allocatable_units p"
      have "?fits ?k pool"
        if *: "\<forall>d \<in> set cs. \<forall>p. map_of pools (rc_resource_key d) = Some p \<longrightarrow> ?fits (rc_resource_key d) p"
      proof (cases "\<exists>d \<in> set cs. rc_resource_key d = ?k")
        case True
        then obtain d where "d \<in> set cs" "rc_resource_key d = ?k" by blast
        then show ?thesis using * Some by (auto dest!: bspec [of _ _ d])
      next
        case no: False
        then have "claimed ?k cs = 0" by (induction cs) auto
        then show ?thesis using False by simp
      qed
      then have all: "(\<forall>d \<in> set cs. \<forall>p. map_of pools (rc_resource_key d) = Some p \<longrightarrow> ?fits (rc_resource_key d) p)
          \<longleftrightarrow> (\<forall>d \<in> set (c # cs). \<forall>p. map_of pools (rc_resource_key d) = Some p \<longrightarrow> ?fits (rc_resource_key d) p)"
        using Some by (auto simp del: claimed_simps)
      have "charge_claims pools u (c # cs) = charge_claims pools ?u cs" using Some False by simp
      then show ?thesis using IH [of ?u] unfolding shift all by simp
    qed
  qed
qed simp

lemma charge_items_within:
  assumes "\<forall>p \<in> set ps. positive_claims p"
  shows "charge_items pools base ps \<noteq> None \<longleftrightarrow> within_capacity pools base ps"
proof -
  have "\<forall>c \<in> set (all_claims ps). 0 \<le> rc_quantity c"
    using assms by (auto simp: positive_claims_def list_all_iff dest!: bspec)
  then show ?thesis unfolding charge_items_eq within_capacity_def by (rule charge_claims_fits)
qed

lemma within_capacity_mset:
  assumes "mset ps = mset qs"
  shows "within_capacity pools base ps = within_capacity pools base qs"
proof -
  have "mset (map mset (map tp_claims ps)) = mset (map mset (map tp_claims qs))" using assms by simp
  then have m: "mset (all_claims ps) = mset (all_claims qs)" by (simp add: mset_concat flip: sum_mset_sum_list)
  show ?thesis unfolding within_capacity_def claimed_mset [OF m] mset_eq_setD [OF m] ..
qed

lemma pairs_all:
  assumes "\<And>a b. R a b = R b a" "distinct xs"
  shows "list_all (\<lambda>(a, b). R a b) (pairs xs) \<longleftrightarrow> (\<forall>a \<in> set xs. \<forall>b \<in> set xs. a \<noteq> b \<longrightarrow> R a b)"
  using assms(2)
proof (induction xs)
  case (Cons x xs)
  then have "x \<notin> set xs" by simp
  moreover have "list_all (\<lambda>(a, b). R a b) (pairs (x # xs)) \<longleftrightarrow>
      (\<forall>b \<in> set xs. R x b) \<and> (\<forall>a \<in> set xs. \<forall>b \<in> set xs. a \<noteq> b \<longrightarrow> R a b)"
    using Cons by (auto simp: list_all_iff)
  ultimately show ?case using assms(1) by auto
qed simp

context nx_graph
begin

lemma has_edge_sym: "nx_has_edge nx g u v = nx_has_edge nx g v u"
  using edges by blast

lemma conflict_free_iff: "distinct ps \<Longrightarrow> conflict_free nx g ps \<longleftrightarrow> no_edges nx g ps"
  unfolding conflict_free_def no_edges_def by (intro pairs_all) (simp add: has_edge_sym)

lemma selection_is_valid_iff:
  assumes "distinct ps" "\<forall>p \<in> set ps. positive_claims p"
  shows "selection_is_valid nx ps g pools base limit \<longleftrightarrow> safe_selection nx g pools base limit ps"
  using conflict_free_iff [OF assms(1)] charge_items_within [OF assms(2)] assms(1)
  by (auto simp: selection_is_valid_def safe_selection_def)

end

lemma safe_selection_mset:
  assumes "mset ps = mset qs"
  shows "safe_selection nx g pools base limit ps = safe_selection nx g pools base limit qs"
  unfolding safe_selection_def no_edges_def within_capacity_mset [OF assms] mset_eq_setD [OF assms]
    mset_eq_length [OF assms] mset_eq_imp_distinct_iff [OF assms] ..

section \<open>Exhaustive search\<close>

lemma subseq_set: "subseq xs ys \<Longrightarrow> set xs \<subseteq> set ys"
  by (induction rule: list_emb.induct) auto

lemma subseq_distinct: "subseq xs ys \<Longrightarrow> distinct ys \<Longrightarrow> distinct xs"
  by (induction rule: list_emb.induct) (auto dest: subseq_set)

lemma set_combinations: "set (combinations n xs) = {ys. subseq ys xs \<and> length ys = n}"
proof (induction n xs rule: combinations.induct)
  case (3 n x xs)
  have "subseq ys (x # xs) \<and> length ys = Suc n \<longleftrightarrow>
      ys \<in> Cons x ` {ys. subseq ys xs \<and> length ys = n} \<or> subseq ys xs \<and> length ys = Suc n" for ys
    by (cases ys) (auto simp: subseq_Cons' image_iff)
  then show ?case using 3 by auto
qed auto

text \<open>The loop keeps a valid combination with the largest key, if one beats the initial key.\<close>

definition combo_ok ::
  "'g nx_ops \<Rightarrow> 'g \<Rightarrow> (string, ResourcePool) dict \<Rightarrow> (string, int) dict \<Rightarrow> SchedulerTaskProfile list \<Rightarrow> bool" where
  "combo_ok nx g pools base c \<longleftrightarrow> conflict_free nx g c \<and> charge_items pools base c \<noteq> None"

lemma exact_step_eq:
  "exact_step nx g pools base c (k0, b0) =
     (if combo_ok nx g pools base c \<and> k0 < exact_key c then (exact_key c, c) else (k0, b0))"
  by (auto simp: exact_step_def combo_ok_def)

lemma exact_loop:
  assumes "fold (exact_step nx g pools base) combos (k0, b0) = (k, b)"
  shows "k0 \<le> k \<and> (\<forall>c \<in> set combos. combo_ok nx g pools base c \<longrightarrow> exact_key c \<le> k)
     \<and> (k = k0 \<and> b = b0 \<or> k = exact_key b \<and> b \<in> set combos \<and> combo_ok nx g pools base b)"
  using assms
proof (induction combos arbitrary: k0 b0)
  case (Cons c cs)
  show ?case
  proof (cases "combo_ok nx g pools base c \<and> k0 < exact_key c")
    case True
    then have "fold (exact_step nx g pools base) cs (exact_key c, c) = (k, b)"
      using Cons.prems by (simp add: exact_step_eq)
    from Cons.IH [OF this] True show ?thesis by auto
  next
    case False
    then have "fold (exact_step nx g pools base) cs (k0, b0) = (k, b)"
      using Cons.prems by (simp only: fold_simps exact_step_eq if_False)
    from Cons.IH [OF this] False show ?thesis by auto
  qed
qed simp

context nx_graph
begin

lemma combo_ok_iff:
  assumes "distinct c" "\<forall>p \<in> set c. positive_claims p" "int (length c) \<le> limit"
  shows "combo_ok nx g pools base c \<longleftrightarrow> safe_selection nx g pools base limit c"
  using conflict_free_iff [OF assms(1)] charge_items_within [OF assms(2)] assms
  by (auto simp: combo_ok_def safe_selection_def)

lemma exact_select_run:
  assumes "0 \<le> limit" and best: "best = exact_select nx candidates g pools base limit"
    and visited: "visited = (\<lambda>c. subseq c (sort_key by_rank candidates) \<and> c \<noteq> [] \<and> int (length c) \<le> limit
       \<and> combo_ok nx g pools base c)"
  shows "\<exists>k. (\<forall>c. visited c \<longrightarrow> exact_key c \<le> k)
     \<and> (k = (- 1, - 1, []) \<and> best = [] \<or> k = exact_key best \<and> visited best)"
proof -
  let ?o = "sort_key by_rank candidates"
  define cs where "cs = concat (map (\<lambda>size. combinations size ?o) [1..<nat (min limit (int (length ?o))) + 1])"
  obtain k where run: "fold (exact_step nx g pools base) cs ((- 1, - 1, []), []) = (k, best)"
    unfolding best exact_select_def Let_def cs_def by (metis prod.collapse)
  have cs: "c \<in> set cs \<longleftrightarrow> subseq c ?o \<and> c \<noteq> [] \<and> int (length c) \<le> limit" for c
  proof -
    have "c \<in> set cs \<longleftrightarrow> subseq c ?o \<and> 1 \<le> length c \<and> length c \<le> nat (min limit (int (length ?o)))"
      by (auto simp: cs_def set_combinations simp del: upt_Suc)
    then show ?thesis using assms(1) list_emb_length [of "(=)" c ?o] by (cases c) (auto simp: le_nat_iff)
  qed
  from exact_loop [OF run] show ?thesis by (intro exI [of _ k]) (auto simp: visited cs)
qed

text \<open>
  Every safe selection of candidates is a permutation of one the search visits, and the search
  ends with a safe selection whose key is the largest.
\<close>

lemma exact_select_best:
  assumes dist: "distinct candidates" and pos: "\<forall>p \<in> set candidates. positive_claims p"
    and util: "\<forall>p \<in> set candidates. 0 \<le> tp_utility_score p" and limit: "0 \<le> limit"
    and best: "best = exact_select nx candidates g pools base limit"
  shows "set best \<subseteq> set candidates \<and> safe_selection nx g pools base limit best"
    "set ps \<subseteq> set candidates \<Longrightarrow> safe_selection nx g pools base limit ps \<Longrightarrow>
       (total_utility ps, int (length ps)) \<le> (total_utility best, int (length best))"
proof -
  let ?o = "sort_key by_rank candidates"
  let ?visited = "\<lambda>c. subseq c ?o \<and> c \<noteq> [] \<and> int (length c) \<le> limit \<and> combo_ok nx g pools base c"
  obtain k where up: "\<forall>c. ?visited c \<longrightarrow> exact_key c \<le> k"
    and end_: "k = (- 1, - 1, []) \<and> best = [] \<or> k = exact_key best \<and> ?visited best"
    using exact_select_run [OF limit best refl] by (elim exE conjE)
  have sub: "distinct c" "set c \<subseteq> set candidates" if c: "subseq c ?o" for c
    using subseq_distinct [OF c] subseq_set [OF c] dist by simp_all
  have ok: "combo_ok nx g pools base c \<longleftrightarrow> safe_selection nx g pools base limit c"
    if "subseq c ?o" "int (length c) \<le> limit" for c
    using sub [OF that(1)] pos that(2) by (intro combo_ok_iff) auto
  have empty: "safe_selection nx g pools base limit []"
    using limit by (simp add: safe_selection_def no_edges_def within_capacity_def)
  show in_best: "set best \<subseteq> set candidates \<and> safe_selection nx g pools base limit best"
    using end_ sub(2) [of best] ok [of best] empty by auto
  assume ps: "set ps \<subseteq> set candidates" "safe_selection nx g pools base limit ps"
  define c where "c = filter (\<lambda>p. p \<in> set ps) ?o"
  have "distinct ps" "distinct c" using ps(2) dist by (simp_all add: safe_selection_def c_def)
  moreover have "set c = set ps" using ps(1) by (auto simp: c_def)
  ultimately have m: "mset c = mset ps" using set_eq_iff_mset_eq_distinct by blast
  have key: "total_utility c = total_utility ps" "length c = length ps"
    using m mset_eq_length [OF m] by (simp_all flip: sum_mset_sum_list)
  have c: "subseq c ?o" "safe_selection nx g pools base limit c"
    using safe_selection_mset [OF m, of nx g pools base limit] ps(2) by (simp_all add: c_def)
  have nonneg: "0 \<le> total_utility qs" if "set qs \<subseteq> set candidates" for qs
    using util that by (intro sum_list_nonneg) auto
  show "(total_utility ps, int (length ps)) \<le> (total_utility best, int (length best))"
  proof (cases "c = []")
    case True
    then show ?thesis using key nonneg [of best] in_best by auto
  next
    case False
    have len: "int (length c) \<le> limit" using c(2) by (simp add: safe_selection_def)
    have "combo_ok nx g pools base c" using ok [OF c(1) len] c(2) by simp
    then have le: "exact_key c \<le> k" using up c(1) len False by blast
    moreover have "(- 1, - 1, []) < exact_key c" using nonneg [OF sub(2) [OF c(1)]] by (simp add: exact_key_def)
    ultimately have "k = exact_key best" using end_ by auto
    then show ?thesis using le unfolding exact_key_def key by auto
  qed
qed

end

section \<open>CP-SAT\<close>

lemma linear_value_map: "linear_value v (map (\<lambda>p. (f p, x p)) ps) = sum_list (map f (filter (\<lambda>p. v (x p)) ps))"
  by (induction ps) (simp_all add: linear_value_def)

abbreviation lane_of :: "SchedulerTaskProfile list \<Rightarrow> SchedulerTaskProfile \<Rightarrow> nat" where
  "lane_of ordered p \<equiv> lane_var (lane_variables ordered) (tp_task_id p)"

abbreviation chosen :: "(nat \<Rightarrow> bool) \<Rightarrow> SchedulerTaskProfile list \<Rightarrow> SchedulerTaskProfile list" where
  "chosen v ordered \<equiv> filter (\<lambda>p. v (lane_of ordered p)) ordered"

lemma lane_variables_nth:
  assumes "distinct (map tp_task_id ordered)" "i < length ordered"
  shows "map_of (lane_variables ordered) (tp_task_id (ordered ! i)) = Some i"
proof -
  let ?ps = "map (\<lambda>(i, p). (tp_task_id p, i)) (enumerate 0 ordered)"
  have "map fst ?ps = map (\<lambda>q. tp_task_id (snd q)) (enumerate 0 ordered)" by (simp add: split_beta)
  also have "\<dots> = map tp_task_id ordered" by (rule map_enumerate_snd)
  finally have d: "distinct (map fst ?ps)" using assms(1) by simp
  then have "lane_variables ordered = ?ps" unfolding lane_variables_def by (rule dict_of_distinct)
  moreover have "(i, ordered ! i) \<in> set (enumerate 0 ordered)" using assms(2) by (simp add: in_set_enumerate_eq)
  then have "(tp_task_id (ordered ! i), i) \<in> set ?ps" by force
  ultimately show ?thesis using d by (simp add: map_of_eq_Some_iff)
qed

lemma lane_of_nth:
  "distinct (map tp_task_id ordered) \<Longrightarrow> i < length ordered \<Longrightarrow> lane_of ordered (ordered ! i) = i"
  by (simp add: lane_var_def get_default_def lane_variables_nth)

lemma lane_variables_eq:
  assumes "distinct (map tp_task_id ordered)"
  shows "lane_variables ordered = map (\<lambda>p. (tp_task_id p, lane_of ordered p)) ordered"
proof -
  let ?ps = "map (\<lambda>(i, p). (tp_task_id p, i)) (enumerate 0 ordered)"
  have "map fst ?ps = map tp_task_id ordered"
    using map_enumerate_snd [of tp_task_id 0 ordered] by (simp add: split_beta comp_def)
  then have "lane_variables ordered = ?ps" unfolding lane_variables_def using assms by (intro dict_of_distinct) simp
  also have "\<dots> = map (\<lambda>p. (tp_task_id p, lane_of ordered p)) ordered"
    using lane_of_nth [OF assms] by (intro nth_equalityI) (simp_all add: nth_enumerate_eq)
  finally show ?thesis .
qed

lemma lane_variables_keys:
  assumes "distinct (map tp_task_id ordered)"
  shows "dom (map_of (lane_variables ordered)) = tp_task_id ` set ordered"
proof -
  have "map fst (lane_variables ordered) = map fst (map (\<lambda>p. (tp_task_id p, lane_of ordered p)) ordered)"
    by (rule arg_cong [OF lane_variables_eq [OF assms]])
  then have "set (map fst (lane_variables ordered)) = tp_task_id ` set ordered" by (simp add: comp_def)
  then show ?thesis by (simp add: dom_map_of_conv_image_fst)
qed

lemma lane_of_inject:
  assumes "distinct (map tp_task_id ordered)" "p \<in> set ordered" "q \<in> set ordered" "lane_of ordered p = lane_of ordered q"
  shows "p = q"
  using assms lane_of_nth [OF assms(1)] by (metis in_set_conv_nth)

lemma claimed_ge_one:
  "c \<in> set cs \<Longrightarrow> \<forall>d \<in> set cs. 1 \<le> rc_quantity d \<Longrightarrow> 1 \<le> claimed (rc_resource_key c) cs"
proof (induction cs)
  case (Cons d cs)
  have "0 \<le> rc_quantity e" if "e \<in> set cs" for e using Cons.prems(2) that by force
  then have "0 \<le> claimed (rc_resource_key c) cs" by (intro claimed_nonneg) blast
  then show ?case using Cons by auto
qed simp

lemma claimed_filter:
  "sum_list (map (\<lambda>p. claimed key (tp_claims p)) (filter P (filter (\<lambda>p. claimed key (tp_claims p) \<noteq> 0) ps))) =
     claimed key (all_claims (filter P ps))"
  by (induction ps) auto

text \<open>Feasible assignments of the constraint model are the safe selections.\<close>

lemma capacity_feasible:
  assumes pools: "distinct (map fst pools)" and pos: "\<forall>p \<in> set ordered. positive_claims p"
  shows "list_all (\<lambda>(l, b). linear_value v l \<le> b) (capacity_constraints (lane_variables ordered) ordered pools base) \<longleftrightarrow>
     within_capacity pools base (chosen v ordered)"
proof -
  let ?ps = "chosen v ordered"
  have val: "linear_value v (capacity_terms (lane_variables ordered) ordered key) = claimed key (all_claims ?ps)" for key
  proof -
    have "linear_value v (capacity_terms (lane_variables ordered) ordered key) =
        sum_list (map (\<lambda>p. claimed key (tp_claims p))
          (filter (\<lambda>p. v (lane_of ordered p)) (filter (\<lambda>p. claimed key (tp_claims p) \<noteq> 0) ordered)))"
      unfolding capacity_terms_def by (rule linear_value_map)
    also have "\<dots> = claimed key (all_claims ?ps)" by (rule claimed_filter)
    finally show ?thesis .
  qed
  have q: "1 \<le> rc_quantity c" if "c \<in> set (all_claims ?ps)" for c
    using that pos by (auto simp: positive_claims_def list_all_iff)
  have claims: "1 \<le> claimed (rc_resource_key c) (all_claims ?ps)" if "c \<in> set (all_claims ?ps)" for c
    using that q by (intro claimed_ge_one) blast+
  have none: "claimed key (all_claims ?ps) = 0" if "\<forall>c \<in> set (all_claims ?ps). rc_resource_key c \<noteq> key" for key
    using that by (auto simp: claimed_def filter_False)
  have "list_all (\<lambda>(l, b). linear_value v l \<le> b) (capacity_constraints (lane_variables ordered) ordered pools base) \<longleftrightarrow>
      (\<forall>(key, pool) \<in> set pools. capacity_terms (lane_variables ordered) ordered key \<noteq> [] \<longrightarrow>
         claimed key (all_claims ?ps) \<le> max 0 (allocatable_units pool - get_default base key 0))"
    by (auto simp: capacity_constraints_def list_all_iff val)
  also have "\<dots> \<longleftrightarrow> within_capacity pools base ?ps" (is "?L \<longleftrightarrow> ?R")
  proof
    assume l: ?L
    show ?R unfolding within_capacity_def
    proof (intro ballI allI impI)
      fix c pool assume c: "c \<in> set (all_claims ?ps)" and "map_of pools (rc_resource_key c) = Some pool"
      then have "(rc_resource_key c, pool) \<in> set pools" by (simp add: map_of_SomeD)
      moreover have "capacity_terms (lane_variables ordered) ordered (rc_resource_key c) \<noteq> []"
        using claims [OF c] val [of "rc_resource_key c"] by (auto simp: linear_value_def)
      ultimately have "claimed (rc_resource_key c) (all_claims ?ps) \<le>
          max 0 (allocatable_units pool - get_default base (rc_resource_key c) 0)" using l by blast
      then show "get_default base (rc_resource_key c) 0 + claimed (rc_resource_key c) (all_claims ?ps) \<le> allocatable_units pool"
        using claims [OF c] by linarith
    qed
  next
    assume r: ?R
    have "claimed key (all_claims ?ps) \<le> max 0 (allocatable_units pool - get_default base key 0)"
      if "(key, pool) \<in> set pools" for key pool
    proof (cases "\<exists>c \<in> set (all_claims ?ps). rc_resource_key c = key")
      case True
      then obtain c where c: "c \<in> set (all_claims ?ps)" "rc_resource_key c = key" by (elim bexE)
      have "map_of pools key = Some pool" using pools that by (rule map_of_is_SomeI)
      then show ?thesis using r c unfolding within_capacity_def by force
    next
      case False
      then have "claimed key (all_claims ?ps) = 0" by (intro none) blast
      then show ?thesis by simp
    qed
    then show ?L by blast
  qed
  finally show ?thesis .
qed

context nx_graph
begin

lemma lane_problem_feasible:
  assumes dist: "distinct (map tp_task_id ordered)" and pools: "distinct (map fst pools)"
    and pos: "\<forall>p \<in> set ordered. positive_claims p" and loops: "\<And>u. \<not> nx_has_edge nx g u u"
  shows "cp_feasible (lane_problem nx ordered g pools base limit) v \<longleftrightarrow>
     safe_selection nx g pools base limit (chosen v ordered)"
proof -
  let ?vars = "lane_variables ordered" and ?ps = "chosen v ordered"
  have "map (\<lambda>(k, x). (1 :: int, x)) ?vars = map (\<lambda>(k, x). (1, x)) (map (\<lambda>p. (tp_task_id p, lane_of ordered p)) ordered)"
    by (rule arg_cong [OF lane_variables_eq [OF dist]])
  then have "map (\<lambda>(k, x). (1 :: int, x)) ?vars = map (\<lambda>p. (1, lane_of ordered p)) ordered" by (simp add: comp_def)
  then have lanes: "linear_value v (map (\<lambda>(k, x). (1, x)) ?vars) = int (length ?ps)"
    using linear_value_map [of v "\<lambda>_. 1" "lane_of ordered" ordered] by (simp add: sum_list_triv)
  have two: "linear_value v [(1, a), (1, b)] \<le> 1 \<longleftrightarrow> \<not> (v a \<and> v b)" for a b by (simp add: linear_value_def)
  have conflicts: "list_all (\<lambda>(l, b). linear_value v l \<le> b) (conflict_constraints ?vars (nx_edges nx g)) \<longleftrightarrow> no_edges nx g ?ps"
    (is "?L \<longleftrightarrow> ?R")
  proof -
    have key: "map_of ?vars k \<noteq> None \<longleftrightarrow> k \<in> tp_task_id ` set ordered" for k
      using lane_variables_keys [OF dist] by blast
    have "?L \<longleftrightarrow> (\<forall>l r. (l, r) \<in> set (nx_edges nx g) \<and> l \<in> tp_task_id ` set ordered \<and> r \<in> tp_task_id ` set ordered
        \<longrightarrow> \<not> (v (lane_var ?vars l) \<and> v (lane_var ?vars r)))"
      unfolding conflict_constraints_def key by (auto simp: list_all_iff two)
    also have "\<dots> \<longleftrightarrow> (\<forall>p \<in> set ?ps. \<forall>q \<in> set ?ps. (tp_task_id p, tp_task_id q) \<notin> set (nx_edges nx g))" by auto
    also have "\<dots> \<longleftrightarrow> ?R"
      unfolding no_edges_def using loops edges [of g] by metis
    finally show ?thesis .
  qed
  have "distinct ?ps" using dist by (simp add: distinct_map)
  then show ?thesis
    using lanes conflicts capacity_feasible [OF pools pos, of v base]
    by (simp add: cp_feasible_def lane_problem_def Let_def safe_selection_def)
qed

end

text \<open>One unit of utility outweighs all bonuses of the objective.\<close>

lemma objective_bounds:
  assumes "\<forall>(i, p) \<in> set ips. i \<le> n"
  shows "let val = linear_value v (map (\<lambda>(i, p). (tp_utility_score p * 1000 * 1000000 + 1000 + (int n - int i), x p)) ips);
             u = total_utility (filter (\<lambda>p. v (x p)) (map snd ips))
         in u * 1000000000 \<le> val \<and> val \<le> u * 1000000000 + int (length ips) * (1000 + int n)"
  using assms
proof (induction ips)
  case (Cons ip ips)
  obtain i p where "ip = (i, p)" by (cases ip)
  with Cons show ?case by (simp add: linear_value_def Let_def algebra_simps)
qed (simp add: linear_value_def)

lemma objective_dominates:
  assumes "length ordered < 31000"
    and "linear_value w (cm_objective (lane_problem nx ordered g pools base limit))
       \<le> linear_value v (cm_objective (lane_problem nx ordered g pools base limit))"
  shows "total_utility (chosen w ordered) \<le> total_utility (chosen v ordered)"
proof -
  let ?n = "length ordered" and ?ips = "enumerate 0 ordered"
  have i: "\<forall>(i, p) \<in> set ?ips. i \<le> ?n" by (auto simp: in_set_enumerate_eq)
  let ?obj = "\<lambda>v. linear_value v (map (\<lambda>(i, p). (tp_utility_score p * 1000 * 1000000 + 1000 + (int ?n - int i),
      lane_of ordered p)) ?ips)"
  have "total_utility (chosen w ordered) * 1000000000 \<le> ?obj w"
    "?obj v \<le> total_utility (chosen v ordered) * 1000000000 + int ?n * (1000 + int ?n)"
    using objective_bounds [OF i, of w "lane_of ordered"] objective_bounds [OF i, of v "lane_of ordered"]
    by (simp_all add: Let_def)
  moreover have "?obj w \<le> ?obj v" using assms(2) by (simp add: lane_problem_def Let_def)
  moreover have "int ?n * (1000 + int ?n) < 1000000000"
  proof -
    have "int ?n * (1000 + int ?n) \<le> 31000 * (1000 + 31000)" using assms(1) by (intro mult_mono) simp_all
    then show ?thesis by simp
  qed
  ultimately show ?thesis by linarith
qed

lemma mset_filter_set:
  assumes "distinct xs" "distinct ys" "set ys \<subseteq> set xs" "\<And>x. x \<in> set xs \<Longrightarrow> P x \<longleftrightarrow> x \<in> set ys"
  shows "mset (filter P xs) = mset ys"
  using assms by (intro set_eq_iff_mset_eq_distinct [THEN iffD1]) auto

lemma total_utility_mset: "mset ps = mset qs \<Longrightarrow> total_utility ps = total_utility qs"
  by (simp flip: sum_mset_sum_list)

context nx_graph
begin

text \<open>The answer of a correct solver passes the revalidation, and an optimal answer has the largest utility.\<close>

lemma optimizer_select_ok:
  assumes cp: "cp_sat solve" and dist: "distinct (map tp_task_id candidates)" and pools: "distinct (map fst pools)"
    and pos: "\<forall>p \<in> set candidates. positive_claims p" and loops: "\<And>u. \<not> nx_has_edge nx g u u"
    and limit: "0 < limit" "candidates \<noteq> []"
    and sel: "optimizer_select (Some solve) nx candidates g pools base limit = Inr ids"
  defines "selected \<equiv> filter (\<lambda>p. tp_task_id p \<in> set ids) candidates"
  shows "safe_selection nx g pools base limit selected"
    and "fst (solve (lane_problem nx (sort_key by_rank candidates) g pools base limit)) = CP_OPTIMAL \<Longrightarrow>
       length candidates < 31000 \<Longrightarrow> set ps \<subseteq> set candidates \<Longrightarrow> safe_selection nx g pools base limit ps \<Longrightarrow>
       total_utility ps \<le> total_utility selected"
proof -
  let ?o = "sort_key by_rank candidates"
  let ?prob = "lane_problem nx ?o g pools base limit"
  have o: "distinct (map tp_task_id ?o)" "\<forall>p \<in> set ?o. positive_claims p" "set ?o = set candidates"
    using dist pos by (simp_all add: distinct_map_sort_key)
  have dc: "distinct candidates" "inj_on tp_task_id (set candidates)" using dist by (simp_all add: distinct_map)
  obtain st v where run: "solve ?prob = (st, v)" by (cases "solve ?prob")
  have st: "st = CP_OPTIMAL \<or> st = CP_FEASIBLE" and ids: "ids = map tp_task_id (chosen v ?o)"
    using sel limit run by (auto simp: optimizer_select_def optimizer_module_def Let_def simp flip: set_empty split: cp_status.splits)
  have "tp_task_id p \<in> set ids \<longleftrightarrow> p \<in> set (chosen v ?o)" if "p \<in> set candidates" for p
    using inj_on_image_mem_iff [OF dc(2) that, of "set (chosen v ?o)"] by (auto simp: ids)
  then have m: "mset selected = mset (chosen v ?o)"
    unfolding selected_def using dc(1) o(3) by (intro mset_filter_set) auto
  note iff = lane_problem_feasible [OF o(1) pools o(2) loops]
  show "safe_selection nx g pools base limit selected"
    using cp_sat.solution [OF cp run st] unfolding iff safe_selection_mset [OF m] .
  assume opt: "fst (solve ?prob) = CP_OPTIMAL" "length candidates < 31000"
    and ps: "set ps \<subseteq> set candidates" "safe_selection nx g pools base limit ps"
  define w where "w x \<longleftrightarrow> (\<exists>p \<in> set ps. x = lane_of ?o p)" for x
  have "w (lane_of ?o p) \<longleftrightarrow> p \<in> set ps" if "p \<in> set ?o" for p
    using that ps(1) lane_of_inject [OF o(1)] o(3) unfolding w_def by blast
  moreover have "distinct ps" using ps(2) by (simp add: safe_selection_def)
  ultimately have mw: "mset (chosen w ?o) = mset ps" using dc(1) ps(1) o(3) by (intro mset_filter_set) auto
  then have "cp_feasible ?prob w" unfolding iff safe_selection_mset [OF mw] using ps(2) by simp
  then have "linear_value w (cm_objective ?prob) \<le> linear_value v (cm_objective ?prob)"
    using cp_sat.optimum [OF cp] run opt(1) by simp
  then have "total_utility (chosen w ?o) \<le> total_utility (chosen v ?o)" using opt(2) by (intro objective_dominates) simp_all
  then show "total_utility ps \<le> total_utility selected"
    unfolding total_utility_mset [OF m] total_utility_mset [OF mw] .
qed

end

section \<open>Greedy choice\<close>

text \<open>At most one claim of a task on each registered pool.\<close>

definition single_claims :: "(string, ResourcePool) dict \<Rightarrow> SchedulerTaskProfile \<Rightarrow> bool" where
  "single_claims pools p \<longleftrightarrow>
     distinct (filter (\<lambda>k. map_of pools k \<noteq> None) (map rc_resource_key (tp_claims p)))"

lemma usage_of_selected:
  "get_default (fold (\<lambda>item u. add_claim_usage u (tp_claims item) pools) sel base) key 0 =
     get_default base key 0 + (if map_of pools key \<noteq> None then claimed key (all_claims sel) else 0)"
  by (induction sel arbitrary: base) (simp_all add: add_claim_usage_get)

lemma claimed_single:
  assumes "distinct (filter Q (map rc_resource_key cs))" "c \<in> set cs" "Q (rc_resource_key c)"
  shows "claimed (rc_resource_key c) cs = rc_quantity c"
  using assms
proof (induction cs)
  case (Cons d cs)
  have none: "claimed k cs = 0" if "k \<notin> set (map rc_resource_key cs)" for k
    using that by (induction cs) auto
  show ?case
  proof (cases "rc_resource_key d = rc_resource_key c")
    case True
    then have "rc_resource_key c \<notin> set (map rc_resource_key cs)" using Cons.prems by auto
    then have "d = c" "claimed (rc_resource_key c) cs = 0" using Cons.prems(2) none by auto
    then show ?thesis by simp
  next
    case False
    then have "claimed (rc_resource_key c) cs = rc_quantity c"
      using Cons.prems by (intro Cons.IH) (auto split: if_splits)
    then show ?thesis using False by simp
  qed
qed simp

lemma fits_extends:
  assumes fits: "fits_capacity c sel pools base" and one: "single_claims pools c" and cap: "within_capacity pools base sel"
  shows "within_capacity pools base (sel @ [c])"
  unfolding within_capacity_def
proof (intro ballI allI impI)
  fix d pool assume d: "d \<in> set (all_claims (sel @ [c]))" and pool: "map_of pools (rc_resource_key d) = Some pool"
  let ?k = "rc_resource_key d"
  show "get_default base ?k 0 + claimed ?k (all_claims (sel @ [c])) \<le> allocatable_units pool"
  proof (cases "\<exists>e \<in> set (tp_claims c). rc_resource_key e = ?k")
    case True
    then obtain e where e: "e \<in> set (tp_claims c)" "rc_resource_key e = ?k" by blast
    have "claimed ?k (tp_claims c) = rc_quantity e"
      using claimed_single [of "\<lambda>k. map_of pools k \<noteq> None" "tp_claims c" e] one e pool by (simp add: single_claims_def)
    moreover have "get_default base ?k 0 + claimed ?k (all_claims sel) + rc_quantity e \<le> allocatable_units pool"
      using fits e pool unfolding fits_capacity_def Let_def list_all_iff usage_of_selected by force
    ultimately show ?thesis by simp
  next
    case False
    then have "claimed ?k (tp_claims c) = 0" by (auto simp: claimed_def filter_False)
    moreover have "d \<in> set (all_claims sel)" using d False by auto
    then have "get_default base ?k 0 + claimed ?k (all_claims sel) \<le> allocatable_units pool"
      using cap pool unfolding within_capacity_def by (auto simp only:)
    ultimately show ?thesis by simp
  qed
qed

lemma no_edges_snoc:
  assumes "\<And>u v. nx_has_edge nx g u v = nx_has_edge nx g v u" "no_edges nx g sel" "compatible nx c sel g"
  shows "no_edges nx g (sel @ [c])"
  using assms by (auto simp: no_edges_def compatible_def list_all_iff)

lemma greedy_loop_safe:
  assumes sym: "\<And>u v. nx_has_edge nx g u v = nx_has_edge nx g v u"
    and "distinct (sel @ cs)" "no_edges nx g sel" "int (length sel) \<le> limit"
  shows "let res = greedy_loop nx g pools base limit sel cs
     in distinct res \<and> set res \<subseteq> set (sel @ cs) \<and> no_edges nx g res \<and> int (length res) \<le> limit
        \<and> ((\<forall>c \<in> set cs. single_claims pools c) \<and> within_capacity pools base sel \<longrightarrow> within_capacity pools base res)"
  using assms(2-)
proof (induction cs arbitrary: sel)
  case (Cons c cs)
  show ?case
  proof (cases "limit \<le> int (length sel)")
    case True
    then show ?thesis using Cons.prems by (auto simp: Let_def)
  next
    case False
    show ?thesis
    proof (cases "compatible nx c sel g \<and> fits_capacity c sel pools base")
      case True
      have "no_edges nx g (sel @ [c])" using no_edges_snoc [OF sym] Cons.prems(2) True by blast
      then show ?thesis
        using Cons.IH [of "sel @ [c]"] Cons.prems False True fits_extends [of c sel pools base] by (auto simp: Let_def)
    next
      case no: False
      then show ?thesis using Cons.IH [of sel] Cons.prems False by (auto simp: Let_def)
    qed
  qed
qed (auto simp: Let_def)

text \<open>What was refused stays refused when more lanes are taken.\<close>

lemma greedy_loop_prefix:
  "\<exists>extra. greedy_loop nx g pools base limit sel cs = sel @ extra \<and> set extra \<subseteq> set cs"
proof (induction cs arbitrary: sel)
  case (Cons c cs)
  from Cons.IH [of "sel @ [c]"] Cons.IH [of sel] show ?case by auto
qed simp

lemma fits_capacity_antimono:
  assumes "fits_capacity c (sel @ extra) pools base" "\<forall>p \<in> set extra. positive_claims p"
  shows "fits_capacity c sel pools base"
proof -
  have "0 \<le> rc_quantity d" if "d \<in> set (all_claims extra)" for d
    using assms(2) that by (force simp: positive_claims_def list_all_iff)
  then have "0 \<le> claimed key (all_claims extra)" for key by (intro claimed_nonneg) blast
  then have "claimed key (all_claims sel) \<le> claimed key (all_claims (sel @ extra))" for key by simp
  then show ?thesis
    using assms(1) unfolding fits_capacity_def Let_def usage_of_selected list_all_iff
    by (fastforce split: option.splits intro: order.trans [rotated])
qed

lemma greedy_loop_maximal:
  assumes "c \<in> set cs" "c \<notin> set (greedy_loop nx g pools base limit sel cs)" "\<forall>p \<in> set cs. positive_claims p"
  shows "let res = greedy_loop nx g pools base limit sel cs
     in limit \<le> int (length res) \<or> \<not> compatible nx c res g \<or> \<not> fits_capacity c res pools base"
  using assms
proof (induction cs arbitrary: sel)
  case (Cons d cs)
  show ?case
  proof (cases "limit \<le> int (length sel)")
    case False
    show ?thesis
    proof (cases "compatible nx d sel g \<and> fits_capacity d sel pools base")
      case True
      obtain extra where "greedy_loop nx g pools base limit (sel @ [d]) cs = sel @ [d] @ extra"
        using greedy_loop_prefix [of nx g pools base limit "sel @ [d]" cs] by auto
      then have "c \<noteq> d" using Cons.prems(2) False True by auto
      then show ?thesis using Cons.IH [of "sel @ [d]"] Cons.prems False True by simp
    next
      case no: False
      obtain extra where extra: "greedy_loop nx g pools base limit sel cs = sel @ extra" "set extra \<subseteq> set cs"
        using greedy_loop_prefix [of nx g pools base limit sel cs] by auto
      show ?thesis
      proof (cases "c = d")
        case True
        have "\<forall>p \<in> set extra. positive_claims p" using extra(2) Cons.prems(3) by auto
        then have "\<not> (compatible nx d (sel @ extra) g \<and> fits_capacity d (sel @ extra) pools base)"
          using no fits_capacity_antimono [of d sel extra pools base] by (auto simp: compatible_def)
        then show ?thesis using no False True extra(1) by (auto simp: Let_def)
      next
        case other: False
        then show ?thesis using Cons.IH [of sel] Cons.prems False no by (auto simp: Let_def)
      qed
    qed
  qed (simp add: Let_def)
qed simp

section \<open>Properties\<close>

text \<open>
  C10. The exhaustive selection is safe and optimal: it returns candidates that are pairwise free
  of conflicts, fit the free capacity of every pool together and respect the lane limit; and no
  other such selection has a larger total utility, nor the same utility with more lanes.
\<close>
theorem exact_select_optimal:
  assumes "nx_graph nx" "distinct (map tp_task_id candidates)" "0 \<le> limit"
    and "\<forall>p \<in> set candidates. valid_SchedulerTaskProfile p \<and> positive_claims p"
    and "best = exact_select nx candidates g pools base limit"
  shows "set best \<subseteq> set candidates \<and> safe_selection nx g pools base limit best
     \<and> (\<forall>ps. set ps \<subseteq> set candidates \<and> safe_selection nx g pools base limit ps \<longrightarrow>
          (total_utility ps, int (length ps)) \<le> (total_utility best, int (length best)))"
proof -
  have "distinct candidates" "\<forall>p \<in> set candidates. positive_claims p" "\<forall>p \<in> set candidates. 0 \<le> tp_utility_score p"
    using assms(2,4) by (auto simp: distinct_map valid_SchedulerTaskProfile_def)
  from nx_graph.exact_select_best [OF assms(1) this assms(3,5)] show ?thesis by blast
qed

definition slot_claim :: "ResourceType \<Rightarrow> string \<Rightarrow> int \<Rightarrow> ResourceClaim" where
  "slot_claim ty key n =
     \<lparr>rc_resource_key = key, rc_resource_type = ty, rc_access_mode = SHARED, rc_quantity = n,
      rc_machine_id = None, rc_purpose = None\<rparr>"

definition slot_pools :: "int \<Rightarrow> (string, ResourcePool) dict" where
  "slot_pools n =
     [(''slots'', \<lparr>rp_resource_key = ''slots'', rp_resource_type = CPU_SLOT, rp_capacity_units = n + 1,
        rp_reserved_units = 1, rp_machine_id = None, rp_observed = True\<rparr>)]"

definition example_candidates :: "SchedulerTaskProfile list" where
  "example_candidates =
     [example_profile ''PP-TASK-000001'' 1 5 [slot_claim CPU_SLOT ''slots'' 2],
      example_profile ''PP-TASK-000002'' 2 4 [slot_claim CPU_SLOT ''slots'' 1],
      example_profile ''PP-TASK-000003'' 3 3 [slot_claim CPU_SLOT ''slots'' 1]]"

lemma example_candidates_ok:
  "list_all (\<lambda>p. valid_SchedulerTaskProfile p \<and> positive_claims p) example_candidates"
  "distinct (map tp_task_id example_candidates)"
  by code_simp+

theorem exact_select_optimal_witness:
  "exact_select adjacency_ops example_candidates [] (slot_pools 2) [] 2 =
     [example_candidates ! 1, example_candidates ! 2]
   \<and> (total_utility [example_candidates ! 0], 1) \<le>
       (total_utility (exact_select adjacency_ops example_candidates [] (slot_pools 2) [] 2),
        int (length (exact_select adjacency_ops example_candidates [] (slot_pools 2) [] 2)))"
proof -
  have v: "\<forall>p \<in> set example_candidates. valid_SchedulerTaskProfile p \<and> positive_claims p"
    using example_candidates_ok(1) by (simp only: list_all_iff)
  have e: "exact_select adjacency_ops example_candidates [] (slot_pools 2) [] 2 =
      [example_candidates ! 1, example_candidates ! 2]" by code_simp
  have c: "charge_items (slot_pools 2) [] [example_candidates ! 0] \<noteq> None" "positive_claims (example_candidates ! 0)"
    by code_simp+
  have "safe_selection adjacency_ops [] (slot_pools 2) [] 2 [example_candidates ! 0]"
    using c charge_items_within [of "[example_candidates ! 0]"] by (simp add: safe_selection_def no_edges_def)
  moreover have "set [example_candidates ! 0] \<subseteq> set example_candidates" by (simp add: example_candidates_def)
  ultimately have "(total_utility [example_candidates ! 0], int (length [example_candidates ! 0])) \<le>
       (total_utility (exact_select adjacency_ops example_candidates [] (slot_pools 2) [] 2),
        int (length (exact_select adjacency_ops example_candidates [] (slot_pools 2) [] 2)))"
    using exact_select_optimal [OF adjacency.nx_graph_axioms example_candidates_ok(2) zero_le_numeral v refl,
        of "[]" "slot_pools 2" "[]"] by blast
  then show ?thesis using e by simp
qed

text \<open>
  C17. An answer of the constraint solver is never better trusted than checked, and a correct
  solver always passes the check: the selection it proposes satisfies the scheduler's own
  revalidation, and when the solver reports an optimum no safe selection has a larger utility.
\<close>
theorem ortools_selection_accepted:
  assumes "nx_graph nx" "cp_sat solve" "build_conflict_graph nx all = Inr (g, es)"
    and "distinct (map tp_task_id candidates)" "distinct (map fst pools)" "\<forall>p \<in> set candidates. positive_claims p"
    and "0 < limit" "candidates \<noteq> []" "length candidates < 31000"
    and "optimizer_select (Some solve) nx candidates g pools base limit = Inr ids"
    and "selected = filter (\<lambda>p. tp_task_id p \<in> set ids) candidates"
  shows "selection_is_valid nx selected g pools base limit
     \<and> (fst (solve (lane_problem nx (sort_key by_rank candidates) g pools base limit)) = CP_OPTIMAL \<longrightarrow>
          (\<forall>ps. set ps \<subseteq> set candidates \<and> safe_selection nx g pools base limit ps \<longrightarrow>
             total_utility ps \<le> total_utility selected))"
proof -
  have loops: "\<And>u. \<not> nx_has_edge nx g u u" using nx_graph.build_conflict_graph_edge [OF assms(1,3)] by blast
  note ok = nx_graph.optimizer_select_ok [OF assms(1,2,4-6) loops assms(7,8,10), folded assms(11)]
  have "distinct selected" "\<forall>p \<in> set selected. positive_claims p" using assms(4,6,11) by (simp_all add: distinct_map)
  from nx_graph.selection_is_valid_iff [OF assms(1) this] ok(1)
  have "selection_is_valid nx selected g pools base limit" by blast
  then show ?thesis using ok(2) assms(9) by blast
qed

theorem ortools_selection_accepted_witness:
  "\<exists>g es ids. build_conflict_graph adjacency_ops example_candidates = Inr (g, es)
     \<and> optimizer_select (Some exhaustive_search) adjacency_ops example_candidates g (slot_pools 2) [] 2 = Inr ids
     \<and> selection_is_valid adjacency_ops (filter (\<lambda>p. tp_task_id p \<in> set ids) example_candidates) g (slot_pools 2) [] 2"
proof -
  have b: "build_conflict_graph adjacency_ops example_candidates = Inr ([], [])" by code_simp
  have "\<not> isl (optimizer_select (Some exhaustive_search) adjacency_ops example_candidates [] (slot_pools 2) [] 2)"
    by code_simp
  then obtain ids where ids: "optimizer_select (Some exhaustive_search) adjacency_ops example_candidates [] (slot_pools 2) [] 2 = Inr ids"
    by (cases "optimizer_select (Some exhaustive_search) adjacency_ops example_candidates [] (slot_pools 2) [] 2") auto
  have pos: "\<forall>p \<in> set example_candidates. positive_claims p"
    using example_candidates_ok(1) by (simp add: list_all_iff)
  have "distinct (map fst (slot_pools 2))" "example_candidates \<noteq> []" "length example_candidates < 31000"
    by (simp_all add: slot_pools_def example_candidates_def)
  from ortools_selection_accepted [OF adjacency.nx_graph_axioms search.cp_sat_axioms b example_candidates_ok(2)
      this(1) pos _ this(2,3) ids refl] b ids show ?thesis by auto
qed

text \<open>
  C24. The greedy selection never selects conflicting tasks or more tasks than lanes, stays
  within capacity as long as no task claims the same pool twice, and is maximal: a candidate left
  out conflicts with a selected one, does not fit next to them, or finds all lanes taken.
\<close>
theorem greedy_select_safe:
  assumes "nx_graph nx" "distinct candidates" "0 \<le> limit" "\<forall>p \<in> set candidates. positive_claims p"
    and "res = greedy_select nx candidates g pools base limit"
  shows "distinct res \<and> set res \<subseteq> set candidates \<and> no_edges nx g res \<and> int (length res) \<le> limit
     \<and> ((\<forall>p \<in> set candidates. single_claims pools p) \<longrightarrow> within_capacity pools base res)
     \<and> (\<forall>p \<in> set candidates. p \<notin> set res \<longrightarrow>
          limit \<le> int (length res) \<or> \<not> compatible nx p res g \<or> \<not> fits_capacity p res pools base)"
proof -
  have s: "res = greedy_loop nx g pools base limit [] (sort_key greedy_key candidates)"
    using assms(5) by (simp add: greedy_select_def)
  have "no_edges nx g []" "within_capacity pools base []" by (simp_all add: no_edges_def within_capacity_def)
  then have "distinct res \<and> set res \<subseteq> set candidates \<and> no_edges nx g res \<and> int (length res) \<le> limit
     \<and> ((\<forall>p \<in> set candidates. single_claims pools p) \<longrightarrow> within_capacity pools base res)"
    using greedy_loop_safe [where sel = "[]" and cs = "sort_key greedy_key candidates" and pools = pools and base = base,
        OF nx_graph.has_edge_sym [OF assms(1)]] assms(2,3)
    by (simp add: Let_def s)
  moreover have "limit \<le> int (length res) \<or> \<not> compatible nx p res g \<or> \<not> fits_capacity p res pools base"
    if "p \<in> set candidates" "p \<notin> set res" for p
    using greedy_loop_maximal [of p "sort_key greedy_key candidates" nx g pools base limit "[]"] that assms(4)
    by (simp add: Let_def s)
  ultimately show ?thesis by blast
qed

theorem greedy_select_safe_witness:
  "greedy_select adjacency_ops example_candidates [] (slot_pools 2) [] 2 = [example_candidates ! 0]
   \<and> within_capacity (slot_pools 2) [] (greedy_select adjacency_ops example_candidates [] (slot_pools 2) [] 2)"
proof -
  have "list_all (single_claims (slot_pools 2)) example_candidates" by code_simp
  moreover have "\<forall>p \<in> set example_candidates. positive_claims p"
    using example_candidates_ok(1) by (simp add: list_all_iff)
  moreover have "distinct example_candidates" using example_candidates_ok(2) by (simp add: distinct_map)
  moreover have "greedy_select adjacency_ops example_candidates [] (slot_pools 2) [] 2 = [example_candidates ! 0]" by code_simp
  ultimately show ?thesis
    using greedy_select_safe [OF adjacency.nx_graph_axioms _ _ _ refl, of example_candidates 2 "[]" "slot_pools 2" "[]"]
    by (simp add: list_all_iff)
qed


end
