(* ===== verification/SchedulerPlanning.thy ===== *)
theory SchedulerPlanning
  imports LaneSelection
begin

text \<open>
  The whole \<open>plan\<close> function of \<open>src/project_pipeline/scheduler/engine.py\<close>: it returns for every valid
  input, decides every candidate once, and its lanes are safe whatever the constraint solver
  answers.
\<close>

section \<open>Decisions\<close>

lemma refuse_ok:
  assumes "is_issue_id t" "st \<noteq> ADMITTED" "rs \<noteq> []"
  shows "\<exists>d. refuse t st rs = Inr d \<and> ad_task_id d = t \<and> \<not> ad_admitted d"
  using assms by (simp add: refuse_def make_AdmissionDecision_def valid_AdmissionDecision_def)

lemma preliminary_refusal:
  "preliminary D R now c = Some (st, rs) \<Longrightarrow> st \<noteq> ADMITTED \<and> rs \<noteq> []"
  by (auto simp: preliminary_def Let_def split: if_splits)

lemma preliminary_loop:
  assumes "distinct (map tp_task_id cs)" "\<forall>c \<in> set cs. is_issue_id (tp_task_id c)"
  shows "\<exists>adm'. fold_res (preliminary_step D R now) (adm, pre) cs =
       Inr (adm', pre @ filter (\<lambda>c. preliminary D R now c = None) cs)
     \<and> (\<forall>c \<in> set cs. preliminary D R now c \<noteq> None \<longrightarrow>
          (\<exists>d. map_of adm' (tp_task_id c) = Some d \<and> ad_task_id d = tp_task_id c \<and> \<not> ad_admitted d))
     \<and> (\<forall>k. k \<notin> tp_task_id ` set cs \<longrightarrow> map_of adm' k = map_of adm k)"
  using assms
proof (induction cs arbitrary: adm pre)
  case (Cons c cs)
  let ?P = "preliminary D R now"
  have rest: "distinct (map tp_task_id cs)" "\<forall>c \<in> set cs. is_issue_id (tp_task_id c)"
    "tp_task_id c \<notin> tp_task_id ` set cs" "is_issue_id (tp_task_id c)" using Cons.prems by auto
  show ?case
  proof (cases "?P c")
    case None
    obtain adm' where "fold_res (preliminary_step D R now) (adm, pre @ [c]) cs =
         Inr (adm', (pre @ [c]) @ filter (\<lambda>c. ?P c = None) cs)"
      "\<forall>c \<in> set cs. ?P c \<noteq> None \<longrightarrow>
          (\<exists>d. map_of adm' (tp_task_id c) = Some d \<and> ad_task_id d = tp_task_id c \<and> \<not> ad_admitted d)"
      "\<forall>k. k \<notin> tp_task_id ` set cs \<longrightarrow> map_of adm' k = map_of adm k"
      using Cons.IH [OF rest(1,2), of adm "pre @ [c]"] by (elim exE conjE)
    then show ?thesis using None by (intro exI [of _ adm']) (simp add: preliminary_step_def)
  next
    case (Some sr)
    obtain st rs where sr: "sr = (st, rs)" by (cases sr)
    obtain d where d: "refuse (tp_task_id c) st rs = Inr d" "ad_task_id d = tp_task_id c" "\<not> ad_admitted d"
      using refuse_ok rest(4) preliminary_refusal Some sr by blast
    let ?adm = "AList.update (tp_task_id c) d adm"
    obtain adm' where "fold_res (preliminary_step D R now) (?adm, pre) cs =
         Inr (adm', pre @ filter (\<lambda>c. ?P c = None) cs)"
      "\<forall>c \<in> set cs. ?P c \<noteq> None \<longrightarrow>
          (\<exists>d. map_of adm' (tp_task_id c) = Some d \<and> ad_task_id d = tp_task_id c \<and> \<not> ad_admitted d)"
      "\<forall>k. k \<notin> tp_task_id ` set cs \<longrightarrow> map_of adm' k = map_of ?adm k"
      using Cons.IH [OF rest(1,2), of ?adm pre] by (elim exE conjE)
    then show ?thesis using Some sr d rest(3)
      by (intro exI [of _ adm']) (simp add: preliminary_step_def update_conv')
  qed
qed simp

lemma final_decision_ok:
  assumes "is_issue_id (tp_task_id c)"
  shows "\<exists>d. final_decision nx g ids c = Inr d \<and> ad_task_id d = tp_task_id c
     \<and> (ad_admitted d \<longleftrightarrow> tp_task_id c \<in> set ids)"
proof (cases "tp_task_id c \<in> set ids")
  case True
  then show ?thesis using assms
    by (simp add: final_decision_def make_AdmissionDecision_def valid_AdmissionDecision_def)
next
  case False
  let ?cs = "sort (filter (\<lambda>i. i \<in> set ids) (nx_neighbors nx g (tp_task_id c)))"
  have "\<exists>st rs. final_decision nx g ids c = refuse (tp_task_id c) st rs \<and> st \<noteq> ADMITTED \<and> rs \<noteq> []"
    using False by (cases "?cs = []") (auto simp: final_decision_def Let_def)
  then show ?thesis using refuse_ok [OF assms] False by fastforce
qed

lemma decision_loop:
  assumes "distinct (map tp_task_id cs)"
    and "\<forall>c \<in> set cs. \<exists>d. f c = Inr d \<and> ad_task_id d = tp_task_id c \<and> (ad_admitted d \<longleftrightarrow> Q c)"
  shows "\<exists>adm'. fold_res (\<lambda>adm c. res_bind (f c) (\<lambda>d. Inr (AList.update (tp_task_id c) d adm))) adm cs = Inr adm'
     \<and> (\<forall>c \<in> set cs. \<exists>d. map_of adm' (tp_task_id c) = Some d \<and> ad_task_id d = tp_task_id c \<and> (ad_admitted d \<longleftrightarrow> Q c))
     \<and> (\<forall>k. k \<notin> tp_task_id ` set cs \<longrightarrow> map_of adm' k = map_of adm k)"
  using assms
proof (induction cs arbitrary: adm)
  case (Cons c cs)
  obtain d where d: "f c = Inr d" "ad_task_id d = tp_task_id c" "ad_admitted d \<longleftrightarrow> Q c" using Cons.prems(2) by auto
  let ?adm = "AList.update (tp_task_id c) d adm"
  have rest: "distinct (map tp_task_id cs)" "tp_task_id c \<notin> tp_task_id ` set cs"
    "\<forall>c \<in> set cs. \<exists>d. f c = Inr d \<and> ad_task_id d = tp_task_id c \<and> (ad_admitted d \<longleftrightarrow> Q c)" using Cons.prems by auto
  obtain adm' where "fold_res (\<lambda>adm c. res_bind (f c) (\<lambda>d. Inr (AList.update (tp_task_id c) d adm))) ?adm cs = Inr adm'"
    "\<forall>c \<in> set cs. \<exists>d. map_of adm' (tp_task_id c) = Some d \<and> ad_task_id d = tp_task_id c \<and> (ad_admitted d \<longleftrightarrow> Q c)"
    "\<forall>k. k \<notin> tp_task_id ` set cs \<longrightarrow> map_of adm' k = map_of ?adm k"
    using Cons.IH [OF rest(1,3), of ?adm] by (elim exE conjE)
  then show ?case using d rest(2) by (intro exI [of _ adm']) (simp add: update_conv')
qed simp

section \<open>Selection and lanes\<close>

lemma lane_limit_bounds:
  assumes "0 \<le> bd_lane_fraction D"
  shows "0 \<le> lane_limit_of m n D" "lane_limit_of m n D \<le> int n"
proof -
  define nat_limit where "nat_limit = (case m of None \<Rightarrow> int n | Some k \<Rightarrow> max 0 (min k (int n)))"
  have b: "0 \<le> nat_limit" "nat_limit \<le> int n" by (auto simp: nat_limit_def split: option.split)
  have "0 \<le> fl (of_int nat_limit * bd_lane_fraction D)" using b assms by (intro fl_nonneg mult_nonneg_nonneg) simp_all
  then have "0 \<le> \<lfloor>fl (of_int nat_limit * bd_lane_fraction D)\<rfloor>" by simp
  then show "0 \<le> lane_limit_of m n D" "lane_limit_of m n D \<le> int n"
    using b unfolding lane_limit_of_def nat_limit_def [symmetric] Let_def by (auto split: if_splits)
qed

text \<open>Whatever the solver answers, the chosen lanes are safe; only the greedy choice may overcommit a pool.\<close>

lemma select_lanes_safe:
  assumes "nx_graph nx" "distinct prelim" "\<forall>p \<in> set prelim. positive_claims p \<and> 0 \<le> tp_utility_score p" "0 \<le> limit"
    and sel: "select_lanes ds nx prelim g pools base limit = (selected, method)"
  shows "distinct selected \<and> set selected \<subseteq> set prelim \<and> no_edges nx g selected \<and> int (length selected) \<le> limit
     \<and> (method \<noteq> DETERMINISTIC_GREEDY \<or> (\<forall>p \<in> set prelim. single_claims pools p) \<longrightarrow> within_capacity pools base selected)"
proof -
  have pos: "\<forall>p \<in> set prelim. positive_claims p" "\<forall>p \<in> set prelim. 0 \<le> tp_utility_score p" using assms(3) by auto
  define greedy where "greedy = greedy_select nx prelim g pools base limit"
  define best where "best = exact_select nx prelim g pools base limit"
  have e: "set best \<subseteq> set prelim \<and> safe_selection nx g pools base limit best"
    by (rule nx_graph.exact_select_best(1) [OF assms(1,2) pos assms(4) best_def])
  have "no_edges nx g []" "within_capacity pools base []" by (simp_all add: no_edges_def within_capacity_def)
  then have gr: "distinct greedy \<and> set greedy \<subseteq> set prelim \<and> no_edges nx g greedy \<and> int (length greedy) \<le> limit
     \<and> ((\<forall>p \<in> set prelim. single_claims pools p) \<longrightarrow> within_capacity pools base greedy)"
    using greedy_loop_safe [where sel = "[]" and cs = "sort_key greedy_key prelim" and pools = pools and base = base,
        OF nx_graph.has_edge_sym [OF assms(1)]] assms(2,4)
    by (simp add: Let_def greedy_def greedy_select_def)
  consider "selected = []" | "selected = best" | "selected = greedy" "method = DETERMINISTIC_GREEDY"
    | ids where "selected = filter (\<lambda>p. tp_task_id p \<in> set ids) prelim" "selection_is_valid nx selected g pools base limit"
    using sel unfolding select_lanes_def Let_def greedy_def [symmetric] best_def [symmetric]
    by (auto split: if_splits sum.splits)
  then show ?thesis
  proof cases
    case 1
    then show ?thesis using assms(4) by (simp add: no_edges_def within_capacity_def)
  next
    case 2
    then show ?thesis using e by (simp add: safe_selection_def)
  next
    case 3
    then show ?thesis using gr by simp
  next
    case (4 ids)
    have "distinct selected" "\<forall>p \<in> set selected. positive_claims p" using assms(2) pos(1) 4(1) by simp_all
    from nx_graph.selection_is_valid_iff [OF assms(1) this, of g pools base limit] 4(2)
    have "safe_selection nx g pools base limit selected" by simp
    then show ?thesis using 4(1) by (auto simp: safe_selection_def)
  qed
qed

lemma lane_assignment_ok:
  assumes "py_strip sid \<noteq> []" "is_issue_id (tp_task_id p)" "0 \<le> tp_utility_score p" "1 \<le> i"
  shows "\<exists>l. lane_assignment sid (i, p) = Inr l \<and> la_task_id l = tp_task_id p \<and> la_rank l = int i \<and> la_claims l = tp_claims p"
proof -
  have "list_all (\<lambda>s. py_strip s \<noteq> []) [sid, tp_task_id p, str_int (int i)]"
    using assms(1) pattern_not_blank [OF assms(2)] by simp
  then obtain v where "scheduler_identifier ''LANE'' [sid, tp_task_id p, str_int (int i)] = Inr v"
    "fullmatch scheduler_id_rx v" "startswith v ''LANE-''"
    using scheduler_identifier_valid [of "''LANE''" "[sid, tp_task_id p, str_int (int i)]"] by auto
  then show ?thesis using assms by (simp add: lane_assignment_def make_LaneAssignment_def valid_LaneAssignment_def)
qed

lemma lanes_total:
  assumes "py_strip sid \<noteq> []" "\<forall>p \<in> set ps. is_issue_id (tp_task_id p) \<and> 0 \<le> tp_utility_score p"
  shows "\<exists>ls. map_res (lane_assignment sid) (enumerate 1 ps) = Inr ls \<and> map la_task_id ls = map tp_task_id ps
     \<and> map la_claims ls = map tp_claims ps \<and> map la_rank ls = map int [1..<Suc (length ps)]"
proof -
  define lane where "lane ip = projr (lane_assignment sid ip)" for ip
  have l: "lane_assignment sid ip = Inr (lane ip)" "la_task_id (lane ip) = tp_task_id (snd ip)"
    "la_rank (lane ip) = int (fst ip)" "la_claims (lane ip) = tp_claims (snd ip)"
    if "ip \<in> set (enumerate 1 ps)" for ip
    using lane_assignment_ok [OF assms(1), of "snd ip" "fst ip"] assms(2) that
    by (cases ip; auto simp: lane_def dest!: enumerateD)+
  have "map_res (lane_assignment sid) (enumerate 1 ps) = Inr (map lane (enumerate 1 ps))"
    using l(1) by (rule map_res_total)
  moreover have "map la_task_id (map lane (enumerate 1 ps)) = map tp_task_id ps"
    using map_enumerate_snd [of tp_task_id 1 ps] l(2) by (simp cong: map_cong)
  moreover have "map la_claims (map lane (enumerate 1 ps)) = map tp_claims ps"
    using map_enumerate_snd [of tp_claims 1 ps] l(4) by (simp cong: map_cong)
  moreover have "map la_rank (map lane (enumerate 1 ps)) = map int [1..<Suc (length ps)]"
    using map_enumerate_fst [of int 1 ps] l(3) by (simp cong: map_cong del: upt_Suc)
  ultimately show ?thesis by blast
qed

section \<open>The run of a plan\<close>

text \<open>What the callers hand over: a validated snapshot with distinct ready tasks, validated profiles, a validated registry and policy.\<close>

definition plan_inputs_ok ::
  "ControlSnapshot \<Rightarrow> SchedulerTaskProfile list \<Rightarrow> ResourceRegistrySnapshot \<Rightarrow> BackpressurePolicy option \<Rightarrow> bool" where
  "plan_inputs_ok control profiles registry policy \<longleftrightarrow>
     make_ControlSnapshot control = Inr control
     \<and> distinct (map si_task_id (bq_ordered_ready_work (cs_sequence control)))
     \<and> list_all (\<lambda>p. valid_SchedulerTaskProfile p \<and> positive_claims p) profiles
     \<and> valid_ResourceRegistrySnapshot registry
     \<and> (case policy of None \<Rightarrow> True | Some p \<Rightarrow> valid_BackpressurePolicy p)"

lemma candidates_facts:
  assumes "distinct (map si_task_id (bq_ordered_ready_work (cs_sequence control)))"
  shows "distinct (map tp_task_id (candidates_of control profiles))" "set (candidates_of control profiles) \<subseteq> set profiles"
proof -
  let ?by_id = "dict_of (map (\<lambda>p. (tp_task_id p, p)) profiles)"
  have get: "p \<in> set profiles \<and> tp_task_id p = i" if "map_of ?by_id i = Some p" for i p
  proof -
    have "map_of (rev (map (\<lambda>p. (tp_task_id p, p)) profiles)) i = Some p" using that by (simp add: dict_of_map_of)
    from map_of_SomeD [OF this] show ?thesis by auto
  qed
  have "map tp_task_id (List.map_filter (map_of ?by_id) ids) = filter (\<lambda>i. map_of ?by_id i \<noteq> None) ids
      \<and> set (List.map_filter (map_of ?by_id) ids) \<subseteq> set profiles" for ids
  proof (induction ids)
    case (Cons i ids)
    show ?case
    proof (cases "map_of ?by_id i")
      case None
      then show ?thesis using Cons by (simp add: List.map_filter_simps)
    next
      case (Some p)
      then show ?thesis using Cons get [OF Some] by (simp add: List.map_filter_simps)
    qed
  qed (simp add: List.map_filter_simps)
  then show "distinct (map tp_task_id (candidates_of control profiles))" "set (candidates_of control profiles) \<subseteq> set profiles"
    using assms by (simp_all add: candidates_of_def)
qed

lemma evaluate_backpressure_ok:
  assumes "case policy of None \<Rightarrow> True | Some p \<Rightarrow> valid_BackpressurePolicy p"
  shows "\<exists>D. evaluate_backpressure s policy = Inr D \<and> 0 \<le> bd_lane_fraction D \<and> bd_lane_fraction D \<le> 1"
proof -
  obtain p where p: "valid_BackpressurePolicy p" "evaluate_backpressure s policy = evaluate_backpressure s (Some p)"
    using assms default_policy_valid by (cases policy) (auto simp: evaluate_backpressure_def)
  obtain D where D: "evaluate_backpressure s (Some p) = Inr D"
    "bd_lane_fraction D = (if bd_mode D = NORMAL then 1 else if bd_mode D = CONGESTED then bp_congested_lane_fraction p else 0)"
    using evaluate_backpressure_fields [OF p(1), of s] by blast
  have "0 \<le> bp_congested_lane_fraction p" "bp_congested_lane_fraction p \<le> 1"
    using p(1) by (simp_all add: valid_BackpressurePolicy_def)
  then show ?thesis using D p(2) by auto
qed

lemma snapshot_id_not_blank: "make_ControlSnapshot c = Inr c \<Longrightarrow> py_strip (cs_snapshot_id c) \<noteq> []"
proof -
  assume "make_ControlSnapshot c = Inr c"
  then obtain t where "cs_snapshot_id c = ''CTRL-'' @ t"
    by (auto simp: make_ControlSnapshot_def startswith_iff split: if_splits)
  moreover have "\<not> is_space (CHR ''C'')" by code_simp
  ultimately show ?thesis by (simp add: py_strip_def strip_by_Nil)
qed

definition plan_run ::
  "DynamicLaneScheduler \<Rightarrow> 'g nx_ops \<Rightarrow> SchedulerTaskProfile list \<Rightarrow> ResourceRegistrySnapshot
     \<Rightarrow> BackpressureSignals option \<Rightarrow> BackpressurePolicy option \<Rightarrow> int option \<Rightarrow> int
     \<Rightarrow> SchedulerPlan \<Rightarrow> 'g \<Rightarrow> SchedulerTaskProfile list \<Rightarrow> bool" where
  "plan_run ds nx cs registry signals policy max_lanes now p g selected \<longleftrightarrow>
     (\<exists>es. build_conflict_graph nx cs = Inr (g, es))
     \<and> 0 \<le> bd_lane_fraction (sp_backpressure p)
     \<and> sp_lane_limit p = lane_limit_of max_lanes (length cs) (sp_backpressure p)
     \<and> sp_candidate_count p = int (length cs)
     \<and> select_lanes ds nx (filter (\<lambda>c. preliminary (sp_backpressure p) registry now c = None) cs) g
         (pools_by_key (rr_pools registry)) (capacity_usage registry now) (sp_lane_limit p) = (selected, sp_selection_method p)
     \<and> map la_task_id (sp_lanes p) = map tp_task_id (sort_key by_rank selected)
     \<and> map la_claims (sp_lanes p) = map tp_claims (sort_key by_rank selected)
     \<and> map la_rank (sp_lanes p) = map int [1..<Suc (length selected)]
     \<and> map ad_task_id (sp_admissions p) = map tp_task_id (sort_key tp_task_id cs)
     \<and> (\<forall>d \<in> set (sp_admissions p). ad_admitted d \<longleftrightarrow> ad_task_id d \<in> tp_task_id ` set selected)
     \<and> evaluate_backpressure (case signals of None \<Rightarrow> default_signals (int (length cs)) | Some s \<Rightarrow> s) policy =
         Inr (sp_backpressure p)"

lemmas plan_runD =
  plan_run_def [THEN iffD1, THEN conjunct1]
  plan_run_def [THEN iffD1, THEN conjunct2, THEN conjunct1]
  plan_run_def [THEN iffD1, THEN conjunct2, THEN conjunct2, THEN conjunct1]
  plan_run_def [THEN iffD1, THEN conjunct2, THEN conjunct2, THEN conjunct2, THEN conjunct1]
  plan_run_def [THEN iffD1, THEN conjunct2, THEN conjunct2, THEN conjunct2, THEN conjunct2, THEN conjunct1]
  plan_run_def [THEN iffD1, THEN conjunct2, THEN conjunct2, THEN conjunct2, THEN conjunct2, THEN conjunct2, THEN conjunct1]
  plan_run_def [THEN iffD1, THEN conjunct2, THEN conjunct2, THEN conjunct2, THEN conjunct2, THEN conjunct2, THEN conjunct2, THEN conjunct1]
  plan_run_def [THEN iffD1, THEN conjunct2, THEN conjunct2, THEN conjunct2, THEN conjunct2, THEN conjunct2, THEN conjunct2, THEN conjunct2, THEN conjunct1]
  plan_run_def [THEN iffD1, THEN conjunct2, THEN conjunct2, THEN conjunct2, THEN conjunct2, THEN conjunct2, THEN conjunct2, THEN conjunct2, THEN conjunct2, THEN conjunct1]
  plan_run_def [THEN iffD1, THEN conjunct2, THEN conjunct2, THEN conjunct2, THEN conjunct2, THEN conjunct2, THEN conjunct2, THEN conjunct2, THEN conjunct2, THEN conjunct2, THEN conjunct1]
  plan_run_def [THEN iffD1, THEN conjunct2, THEN conjunct2, THEN conjunct2, THEN conjunct2, THEN conjunct2, THEN conjunct2, THEN conjunct2, THEN conjunct2, THEN conjunct2, THEN conjunct2]

text \<open>The two loops over the candidates leave one decision for each of them.\<close>

lemma admissions_total:
  assumes dist: "distinct (map tp_task_id cs)" and ids: "\<forall>c \<in> set cs. is_issue_id (tp_task_id c)"
    and prelim: "prelim = filter (\<lambda>c. preliminary D registry now c = None) cs"
    and sids: "set sids \<subseteq> tp_task_id ` set prelim"
  shows "\<exists>adm adm'. fold_res (preliminary_step D registry now) ([], []) cs = Inr (adm, prelim)
     \<and> fold_res (\<lambda>admissions candidate. res_bind (final_decision nx g sids candidate) (\<lambda>d.
          Inr (AList.update (tp_task_id candidate) d admissions))) adm prelim = Inr adm'
     \<and> (\<forall>c \<in> set cs. \<exists>d. map_of adm' (tp_task_id c) = Some d \<and> ad_task_id d = tp_task_id c
          \<and> (ad_admitted d \<longleftrightarrow> tp_task_id c \<in> set sids))"
proof -
  obtain adm where adm: "fold_res (preliminary_step D registry now) ([], []) cs = Inr (adm, prelim)"
    and refused: "\<forall>c \<in> set cs. preliminary D registry now c \<noteq> None \<longrightarrow>
       (\<exists>d. map_of adm (tp_task_id c) = Some d \<and> ad_task_id d = tp_task_id c \<and> \<not> ad_admitted d)"
    using preliminary_loop [OF dist ids, of D registry now "[]" "[]"] unfolding prelim append_Nil by (elim exE conjE)
  have pre: "distinct (map tp_task_id prelim)" "set prelim \<subseteq> set cs"
    using dist by (auto simp: prelim distinct_map intro: inj_on_subset)
  have "\<forall>c \<in> set prelim. \<exists>d. final_decision nx g sids c = Inr d \<and> ad_task_id d = tp_task_id c
      \<and> (ad_admitted d \<longleftrightarrow> tp_task_id c \<in> set sids)"
    using ids pre(2) by (intro ballI final_decision_ok) auto
  from decision_loop [OF pre(1) this, of adm] obtain adm' where
    adm': "fold_res (\<lambda>admissions candidate. res_bind (final_decision nx g sids candidate) (\<lambda>d.
        Inr (AList.update (tp_task_id candidate) d admissions))) adm prelim = Inr adm'"
    and final: "\<forall>c \<in> set prelim. \<exists>d. map_of adm' (tp_task_id c) = Some d \<and> ad_task_id d = tp_task_id c
       \<and> (ad_admitted d \<longleftrightarrow> tp_task_id c \<in> set sids)"
    and same: "\<forall>k. k \<notin> tp_task_id ` set prelim \<longrightarrow> map_of adm' k = map_of adm k" by (elim exE conjE)
  have "\<exists>d. map_of adm' (tp_task_id c) = Some d \<and> ad_task_id d = tp_task_id c
      \<and> (ad_admitted d \<longleftrightarrow> tp_task_id c \<in> set sids)" if c: "c \<in> set cs" for c
  proof (cases "c \<in> set prelim")
    case True
    then show ?thesis using bspec [OF final True] by simp
  next
    case False
    then have "tp_task_id c \<notin> tp_task_id ` set prelim"
      using dist c pre(2) by (auto simp: distinct_map dest: inj_onD)
    moreover have "preliminary D registry now c \<noteq> None" using False c by (simp add: prelim)
    ultimately show ?thesis using bspec [OF refused c] same sids by auto
  qed
  then show ?thesis using adm adm' by (intro exI [of _ adm] exI [of _ adm']) simp
qed

lemma sha256_format_not_blank: "is_sha256_hex s \<Longrightarrow> py_strip s \<noteq> []"
  using hex_lower_not_space by (cases s) (auto simp: is_sha256_hex_def py_strip_def strip_by_Nil)

lemma join_str_set: "s \<in> set ss \<Longrightarrow> set s \<subseteq> set (join_str sep ss)"
  by (induction sep ss rule: join_str.induct) auto

lemma plan_id_ok:
  assumes snap: "make_ControlSnapshot control = Inr control" and reg: "is_sha256_hex (rr_registry_id registry)"
    and ids: "\<forall>t \<in> set ids. is_issue_id t"
  shows "\<exists>v. scheduler_identifier ''SCHED''
      [cs_snapshot_id control, rr_registry_id registry, backpressure_mode_value (bd_mode D), str_int limit,
       if join_str '','' ids = [] then ''none'' else join_str '','' ids] = Inr v
     \<and> fullmatch scheduler_id_rx v \<and> startswith v ''SCHED-''"
proof -
  have "py_strip ''none'' \<noteq> []" by code_simp
  moreover have "py_strip (join_str '','' ids) \<noteq> []" if ne: "join_str '','' ids \<noteq> []"
  proof -
    obtain t where t: "t \<in> set ids" using ne by (cases ids) auto
    then have "py_strip t \<noteq> []" using pattern_not_blank ids by blast
    then show ?thesis using join_str_set [OF t, of "'',''"] by (auto simp: py_strip_def strip_by_Nil list_all_iff)
  qed
  moreover have "py_strip (backpressure_mode_value m) \<noteq> []" for m by (cases m; hypsubst; code_simp)
  ultimately have "list_all (\<lambda>s. py_strip s \<noteq> [])
      [cs_snapshot_id control, rr_registry_id registry, backpressure_mode_value (bd_mode D), str_int limit,
       if join_str '','' ids = [] then ''none'' else join_str '','' ids]"
    using snapshot_id_not_blank [OF snap] sha256_format_not_blank [OF reg] by simp
  from scheduler_identifier_valid [of "''SCHED''", OF _ _ this] show ?thesis by simp
qed

lemma plan_total:
  assumes nx: "nx_graph nx" and ok: "plan_inputs_ok control profiles registry policy"
  shows "\<exists>p g selected. plan ds nx control profiles registry signals policy max_lanes now = Inr p
     \<and> plan_run ds nx (candidates_of control profiles) registry signals policy max_lanes now p g selected"
proof -
  define cs where "cs = candidates_of control profiles"
  have profiles: "\<forall>p \<in> set cs. is_issue_id (tp_task_id p) \<and> 0 \<le> tp_utility_score p \<and> positive_claims p"
    and dist: "distinct (map tp_task_id cs)"
    using ok candidates_facts [of control profiles]
    by (auto simp: plan_inputs_ok_def list_all_iff cs_def valid_SchedulerTaskProfile_def)
  have ids: "\<forall>c \<in> set cs. is_issue_id (tp_task_id c)" using profiles by blast
  have pol: "case policy of None \<Rightarrow> True | Some p \<Rightarrow> valid_BackpressurePolicy p"
    and snap: "make_ControlSnapshot control = Inr control" and reg: "is_sha256_hex (rr_registry_id registry)"
    using ok by (simp_all add: plan_inputs_ok_def valid_ResourceRegistrySnapshot_def)
  obtain D where D: "evaluate_backpressure (case signals of None \<Rightarrow> default_signals (int (length cs)) | Some s \<Rightarrow> s) policy = Inr D"
    "0 \<le> bd_lane_fraction D" using evaluate_backpressure_ok [OF pol] by blast
  define limit where "limit = lane_limit_of max_lanes (length cs) D"
  have limit: "0 \<le> limit" using lane_limit_bounds [OF D(2)] by (simp add: limit_def)
  obtain g es where g: "build_conflict_graph nx cs = Inr (g, es)"
    using build_conflict_graph_total [OF dist ids, of nx] by blast
  define prelim where "prelim = filter (\<lambda>c. preliminary D registry now c = None) cs"
  obtain selected mth where sel: "select_lanes ds nx prelim g (pools_by_key (rr_pools registry))
      (capacity_usage registry now) limit = (selected, mth)" by fastforce
  have pre: "distinct prelim" "set prelim \<subseteq> set cs" using dist by (auto simp: prelim_def distinct_map)
  have safe: "distinct selected" "set selected \<subseteq> set prelim" "int (length selected) \<le> limit"
    using select_lanes_safe [OF nx pre(1) _ limit sel] pre(2) profiles by blast+
  let ?sids = "map tp_task_id selected"
  have "set ?sids \<subseteq> tp_task_id ` set prelim" using safe(2) by auto
  from admissions_total [OF dist ids prelim_def this, of nx g] obtain adm adm' where
    adm: "fold_res (preliminary_step D registry now) ([], []) cs = Inr (adm, prelim)"
      "fold_res (\<lambda>admissions candidate. res_bind (final_decision nx g ?sids candidate) (\<lambda>d.
          Inr (AList.update (tp_task_id candidate) d admissions))) adm prelim = Inr adm'"
    and dec: "\<forall>c \<in> set cs. \<exists>d. map_of adm' (tp_task_id c) = Some d \<and> ad_task_id d = tp_task_id c
          \<and> (ad_admitted d \<longleftrightarrow> tp_task_id c \<in> set ?sids)" by (elim exE conjE)
  have "\<forall>p \<in> set (sort_key by_rank selected). is_issue_id (tp_task_id p) \<and> 0 \<le> tp_utility_score p"
    using safe(2) pre(2) profiles by auto
  from lanes_total [OF snapshot_id_not_blank [OF snap] this] obtain ls where
    ls: "map_res (lane_assignment (cs_snapshot_id control)) (enumerate 1 (sort_key by_rank selected)) = Inr ls"
    and lf: "map la_task_id ls = map tp_task_id (sort_key by_rank selected)"
      "map la_claims ls = map tp_claims (sort_key by_rank selected)" "map la_rank ls = map int [1..<Suc (length selected)]"
    by (auto simp del: upt_Suc)
  have lids: "\<forall>t \<in> set (map la_task_id ls). is_issue_id t" unfolding lf(1) using safe(2) pre(2) profiles by auto
  from plan_id_ok [OF snap reg lids, of D limit] obtain pid where
    pid: "scheduler_identifier ''SCHED''
      [cs_snapshot_id control, rr_registry_id registry, backpressure_mode_value (bd_mode D), str_int limit,
       if join_str '','' (map la_task_id ls) = [] then ''none'' else join_str '','' (map la_task_id ls)] = Inr pid"
      "fullmatch scheduler_id_rx pid" "startswith pid ''SCHED-''" by blast
  let ?adms = "map (\<lambda>c. the (map_of adm' (tp_task_id c))) (sort_key tp_task_id cs)"
  have d: "dict_get id adm' (tp_task_id c) = Inr (the (map_of adm' (tp_task_id c)))"
    "ad_task_id (the (map_of adm' (tp_task_id c))) = tp_task_id c"
    "ad_admitted (the (map_of adm' (tp_task_id c))) \<longleftrightarrow> tp_task_id c \<in> set ?sids" if "c \<in> set cs" for c
    using bspec [OF dec that] by (auto simp: dict_get_def)
  have ordered: "map_res (\<lambda>item. dict_get id adm' (tp_task_id item)) (sort_key tp_task_id cs) = Inr ?adms"
    using d(1) by (intro map_res_total) simp
  have "distinct (map tp_task_id selected)" "length ls = length selected"
    using safe(1,2) pre(2) dist arg_cong [OF lf(1), of length] by (auto simp: distinct_map intro: inj_on_subset)
  then have dl: "distinct (map la_task_id ls)" "int (length ls) \<le> limit"
    unfolding lf(1) using safe(3) by (simp_all add: distinct_map_sort_key)
  let ?p = "\<lparr>sp_plan_id = pid, sp_project_id = cs_project_id control, sp_control_snapshot_id = cs_snapshot_id control,
          sp_registry_id = rr_registry_id registry, sp_backpressure = D, sp_selection_method = mth,
          sp_candidate_count = int (length cs), sp_lane_limit = limit, sp_lanes = ls,
          sp_conflicts = es, sp_admissions = ?adms, sp_generated_at_utc = Aware now\<rparr>"
  have valid: "make_SchedulerPlan ?p = Inr ?p"
    using pid(2,3) reg snap dl limit
    by (simp add: make_SchedulerPlan_def valid_SchedulerPlan_def make_ControlSnapshot_def split: if_splits)
  have "plan ds nx control profiles registry signals policy max_lanes now = Inr ?p"
    unfolding plan_def cs_def [symmetric] Let_def D(1) g res_bind_simps prod.case adm(1) limit_def [symmetric]
      sel adm(2) ls pid(1) ordered valid ..
  moreover have "plan_run ds nx cs registry signals policy max_lanes now ?p g selected"
    using g D limit_def sel lf d(2,3) by (simp add: plan_run_def prelim_def del: upt_Suc)
  ultimately show ?thesis unfolding cs_def by blast
qed

section \<open>Properties\<close>

lemma lane_origin:
  assumes "map la_task_id ls = map tp_task_id ps" "map la_claims ls = map tp_claims ps" "l \<in> set ls"
  shows "\<exists>p \<in> set ps. tp_task_id p = la_task_id l \<and> tp_claims p = la_claims l"
proof -
  obtain i where i: "i < length ls" "ls ! i = l" using assms(3) by (metis in_set_conv_nth)
  have "length ls = length ps" using arg_cong [OF assms(1), of length] by simp
  moreover have "la_task_id (ls ! i) = tp_task_id (ps ! i)" "la_claims (ls ! i) = tp_claims (ps ! i)"
    using arg_cong [OF assms(1), of "\<lambda>xs. xs ! i"] arg_cong [OF assms(2), of "\<lambda>xs. xs ! i"] i(1) calculation by simp_all
  ultimately show ?thesis using i by (metis nth_mem)
qed

text \<open>What the candidates and the run give of the selected lanes.\<close>

lemma plan_run_selected:
  assumes nx: "nx_graph nx" and ok: "plan_inputs_ok control profiles registry policy"
    and run: "plan_run ds nx (candidates_of control profiles) registry signals policy max_lanes now p g selected"
  shows "distinct selected" "set selected \<subseteq> set profiles" "set selected \<subseteq> set (candidates_of control profiles)"
    "no_edges nx g selected" "int (length selected) \<le> sp_lane_limit p"
    "\<forall>q \<in> set selected. preliminary (sp_backpressure p) registry now q = None"
    "sp_selection_method p \<noteq> DETERMINISTIC_GREEDY
      \<or> (\<forall>q \<in> set profiles. single_claims (pools_by_key (rr_pools registry)) q) \<longrightarrow>
      within_capacity (pools_by_key (rr_pools registry)) (capacity_usage registry now) selected"
proof -
  let ?cs = "candidates_of control profiles"
  define prelim where "prelim = filter (\<lambda>c. preliminary (sp_backpressure p) registry now c = None) ?cs"
  have cs: "distinct (map tp_task_id ?cs)" "set ?cs \<subseteq> set profiles"
    using candidates_facts ok by (simp_all add: plan_inputs_ok_def)
  have valid: "\<forall>q \<in> set profiles. positive_claims q \<and> 0 \<le> tp_utility_score q"
    using ok by (simp add: plan_inputs_ok_def list_all_iff valid_SchedulerTaskProfile_def)
  have limit: "0 \<le> sp_lane_limit p" using lane_limit_bounds [OF plan_runD(2) [OF run]] plan_runD(3) [OF run] by simp
  have sel: "select_lanes ds nx prelim g (pools_by_key (rr_pools registry)) (capacity_usage registry now) (sp_lane_limit p)
      = (selected, sp_selection_method p)" using plan_runD(5) [OF run] by (simp only: prelim_def)
  have pre: "distinct prelim" "set prelim \<subseteq> set ?cs" "\<forall>q \<in> set prelim. positive_claims q \<and> 0 \<le> tp_utility_score q"
    using cs valid by (auto simp: prelim_def distinct_map)
  note safe = select_lanes_safe [OF nx pre(1,3) limit sel]
  then show "distinct selected" "no_edges nx g selected" "int (length selected) \<le> sp_lane_limit p"
    "set selected \<subseteq> set profiles" "set selected \<subseteq> set ?cs" using pre(2) cs(2) by auto
  show "\<forall>q \<in> set selected. preliminary (sp_backpressure p) registry now q = None" using safe by (auto simp: prelim_def)
  show "sp_selection_method p \<noteq> DETERMINISTIC_GREEDY
      \<or> (\<forall>q \<in> set profiles. single_claims (pools_by_key (rr_pools registry)) q) \<longrightarrow>
      within_capacity (pools_by_key (rr_pools registry)) (capacity_usage registry now) selected"
    using safe pre(2) cs(2) by blast
qed

text \<open>
  C14. Planning always answers and decides everything once: for every validated snapshot, profile
  set, registry and policy a plan is returned, whatever the constraint solver does; it holds
  exactly one decision per candidate, in the order of the identifiers; a candidate is admitted if
  and only if it has a lane; and the lanes are ranked from 1.
\<close>
theorem plan_decides_all:
  assumes "nx_graph nx" "plan_inputs_ok control profiles registry policy"
  shows "\<exists>p. plan ds nx control profiles registry signals policy max_lanes now = Inr p
     \<and> map ad_task_id (sp_admissions p) = sort (map tp_task_id (candidates_of control profiles))
     \<and> {ad_task_id d | d. d \<in> set (sp_admissions p) \<and> ad_admitted d} = set (map la_task_id (sp_lanes p))
     \<and> map la_rank (sp_lanes p) = map int [1..<Suc (length (sp_lanes p))]"
proof -
  let ?cs = "candidates_of control profiles"
  obtain p g selected where p: "plan ds nx control profiles registry signals policy max_lanes now = Inr p"
    and run: "plan_run ds nx ?cs registry signals policy max_lanes now p g selected"
    using plan_total [OF assms, of ds signals max_lanes now] by blast
  note adm = plan_runD(9) [OF run] and iff = plan_runD(10) [OF run] and lanes = plan_runD(6,8) [OF run]
  have "map tp_task_id (sort_key tp_task_id ?cs) = sort (map tp_task_id ?cs)"
    using sort_key_map [of "\<lambda>x. x" tp_task_id ?cs] by simp
  moreover have "set (map la_task_id (sp_lanes p)) = tp_task_id ` set selected" unfolding lanes(1) by simp
  moreover have "{ad_task_id d | d. d \<in> set (sp_admissions p) \<and> ad_admitted d} = tp_task_id ` set selected"
  proof -
    have "set (map ad_task_id (sp_admissions p)) = tp_task_id ` set ?cs" unfolding adm by simp
    then have sub: "tp_task_id ` set selected \<subseteq> ad_task_id ` set (sp_admissions p)"
      using image_mono [OF plan_run_selected(3) [OF assms run], of tp_task_id] by simp
    show ?thesis
    proof
      show "{ad_task_id d | d. d \<in> set (sp_admissions p) \<and> ad_admitted d} \<subseteq> tp_task_id ` set selected"
        using iff by auto
      show "tp_task_id ` set selected \<subseteq> {ad_task_id d | d. d \<in> set (sp_admissions p) \<and> ad_admitted d}"
      proof
        fix t assume t: "t \<in> tp_task_id ` set selected"
        then obtain d where "d \<in> set (sp_admissions p)" "t = ad_task_id d" using sub by (meson imageE subsetD)
        then show "t \<in> {ad_task_id d | d. d \<in> set (sp_admissions p) \<and> ad_admitted d}" using iff t by auto
      qed
    qed
  qed
  moreover have "length (sp_lanes p) = length selected" using arg_cong [OF lanes(1), of length] by simp
  ultimately show ?thesis using p adm lanes(2) by (simp del: upt_Suc)
qed

lemma preliminary_admits:
  assumes "preliminary D registry now q = None"
  shows "tp_policy_eligible q \<and> tp_workspace_isolated q
     \<and> claim_is_admissible (map rc_resource_key (filter (\<lambda>c. rc_resource_type c = PATH) (tp_claims q)))
     \<and> admission_reasons (tp_claims q) registry now [] = [] \<and> bd_admit_new_work D"
proof -
  have "claim_is_admissible []" by (simp add: claim_is_admissible_def pp327_collision_def)
  then show ?thesis using assms by (auto simp: preliminary_def Let_def split: if_splits)
qed

lemma lane_profile:
  assumes "plan_run ds nx cs registry signals policy max_lanes now p g selected" "l \<in> set (sp_lanes p)"
  shows "\<exists>q \<in> set selected. tp_task_id q = la_task_id l \<and> tp_claims q = la_claims l"
  using lane_origin [OF plan_runD(6,7) [OF assms(1)] assms(2)] by simp

lemma lanes_length:
  "plan_run ds nx cs registry signals policy max_lanes now p g selected \<Longrightarrow> length (sp_lanes p) = length selected"
  using arg_cong [OF plan_runD(6), of ds nx cs registry signals policy max_lanes now p g selected length] by simp

lemma lanes_distinct:
  assumes "nx_graph nx" "plan_inputs_ok control profiles registry policy"
    and run: "plan_run ds nx (candidates_of control profiles) registry signals policy max_lanes now p g selected"
  shows "distinct (map la_task_id (sp_lanes p))"
proof -
  have "distinct (map tp_task_id (candidates_of control profiles))"
    using candidates_facts(1) assms(2) by (simp add: plan_inputs_ok_def)
  then have "distinct (map tp_task_id selected)"
    using plan_run_selected(1,3) [OF assms] by (auto simp: distinct_map intro: inj_on_subset)
  then show ?thesis unfolding plan_runD(6) [OF run] by (simp only: distinct_map_sort_key)
qed

lemma lanes_conflict_free:
  assumes nx: "nx_graph nx" and ok: "plan_inputs_ok control profiles registry policy"
    and run: "plan_run ds nx (candidates_of control profiles) registry signals policy max_lanes now p g selected"
  shows "\<forall>l \<in> set (sp_lanes p). \<forall>m \<in> set (sp_lanes p). la_task_id l \<noteq> la_task_id m \<longrightarrow>
     (\<forall>c \<in> set (la_claims l). \<forall>d \<in> set (la_claims m). \<not> conflicts_with c d)"
proof (intro ballI impI)
  note sel = plan_run_selected [OF nx ok run]
  fix l m c d assume lm: "l \<in> set (sp_lanes p)" "m \<in> set (sp_lanes p)" "la_task_id l \<noteq> la_task_id m"
    and cd: "c \<in> set (la_claims l)" "d \<in> set (la_claims m)"
  obtain q r where qr: "q \<in> set selected" "tp_task_id q = la_task_id l" "tp_claims q = la_claims l"
    "r \<in> set selected" "tp_task_id r = la_task_id m" "tp_claims r = la_claims m"
    using lane_profile [OF run lm(1)] lane_profile [OF run lm(2)] by blast
  then have "q \<in> set (candidates_of control profiles)" "r \<in> set (candidates_of control profiles)" using sel(3) by auto
  moreover have "\<not> nx_has_edge nx g (tp_task_id q) (tp_task_id r)" using sel(4) qr lm(3) unfolding no_edges_def by metis
  ultimately have "\<not> tasks_conflict q r"
    using plan_runD(1) [OF run] nx_graph.build_conflict_graph_edge [OF nx] qr lm(3) by metis
  then show "\<not> conflicts_with c d" using qr cd by (auto simp: tasks_conflict_def)
qed

text \<open>
  C3. The lanes of a plan are safe whatever the constraint solver answers: every lane belongs to
  a given profile that is eligible, isolated, keeps off the reserved paths and was admissible
  against the registry; no two lanes hold conflicting claims; there are at most as many lanes as
  the limit, which backpressure and the caller can only lower below the number of candidates; and
  under backpressure that stops new work there is no lane at all.
\<close>
theorem plan_lanes_safe:
  assumes "nx_graph nx" "plan_inputs_ok control profiles registry policy"
    and "plan ds nx control profiles registry signals policy max_lanes now = Inr p"
  shows "(\<forall>l \<in> set (sp_lanes p). \<exists>q \<in> set profiles. tp_task_id q = la_task_id l \<and> tp_claims q = la_claims l
        \<and> tp_policy_eligible q \<and> tp_workspace_isolated q
        \<and> claim_is_admissible (map rc_resource_key (filter (\<lambda>c. rc_resource_type c = PATH) (tp_claims q)))
        \<and> admission_reasons (tp_claims q) registry now [] = [])
     \<and> (\<forall>l \<in> set (sp_lanes p). \<forall>m \<in> set (sp_lanes p). la_task_id l \<noteq> la_task_id m \<longrightarrow>
          (\<forall>c \<in> set (la_claims l). \<forall>d \<in> set (la_claims m). \<not> conflicts_with c d))
     \<and> distinct (map la_task_id (sp_lanes p)) \<and> int (length (sp_lanes p)) \<le> sp_lane_limit p
     \<and> sp_lane_limit p \<le> sp_candidate_count p
     \<and> (\<not> bd_admit_new_work (sp_backpressure p) \<longrightarrow> sp_lanes p = [])"
proof -
  obtain g selected where run: "plan_run ds nx (candidates_of control profiles) registry signals policy max_lanes now p g selected"
    using plan_total [OF assms(1,2), of ds signals max_lanes now] assms(3) by auto
  note sel = plan_run_selected [OF assms(1,2) run] and len = lanes_length [OF run]
  have ok: "tp_policy_eligible q \<and> tp_workspace_isolated q
        \<and> claim_is_admissible (map rc_resource_key (filter (\<lambda>c. rc_resource_type c = PATH) (tp_claims q)))
        \<and> admission_reasons (tp_claims q) registry now [] = [] \<and> bd_admit_new_work (sp_backpressure p)" if "q \<in> set selected" for q
    using preliminary_admits sel(6) that by blast
  have eligible: "\<forall>l \<in> set (sp_lanes p). \<exists>q \<in> set profiles. tp_task_id q = la_task_id l \<and> tp_claims q = la_claims l
        \<and> tp_policy_eligible q \<and> tp_workspace_isolated q
        \<and> claim_is_admissible (map rc_resource_key (filter (\<lambda>c. rc_resource_type c = PATH) (tp_claims q)))
        \<and> admission_reasons (tp_claims q) registry now [] = []"
    using lane_profile [OF run] ok sel(2) by blast
  have lim: "int (length (sp_lanes p)) \<le> sp_lane_limit p" "sp_lane_limit p \<le> sp_candidate_count p"
    using lane_limit_bounds(2) [OF plan_runD(2) [OF run]] plan_runD(3,4) [OF run] sel(5) len by simp_all
  have halt: "\<not> bd_admit_new_work (sp_backpressure p) \<longrightarrow> sp_lanes p = []" using ok len by (cases selected) auto
  from eligible lanes_conflict_free [OF assms(1,2) run] lanes_distinct [OF assms(1,2) run] lim halt show ?thesis by (intro conjI)
qed

text \<open>
  C4. A plan never overbooks a pool it selects for exhaustively or through the constraint
  solver: for every pool a lane claims from, the units held by active leases and the units claimed
  by all lanes together stay within what the pool can allocate.  The greedy selection keeps this
  too when no task claims the same pool twice.
\<close>
theorem plan_capacity_safe:
  assumes "nx_graph nx" "plan_inputs_ok control profiles registry policy"
    and "plan ds nx control profiles registry signals policy max_lanes now = Inr p"
    and "sp_selection_method p \<noteq> DETERMINISTIC_GREEDY
      \<or> (\<forall>q \<in> set profiles. single_claims (pools_by_key (rr_pools registry)) q)"
    and "pool \<in> set (rr_pools registry)" "l \<in> set (sp_lanes p)" "c \<in> set (la_claims l)"
    and "rc_resource_key c = rp_resource_key pool"
  shows "claimed (rp_resource_key pool) (map rl_claim (active_leases registry now))
     + claimed (rp_resource_key pool) (concat (map la_claims (sp_lanes p))) \<le> allocatable_units pool"
proof -
  let ?cs = "candidates_of control profiles" and ?pools = "pools_by_key (rr_pools registry)"
  obtain g selected where run: "plan_run ds nx ?cs registry signals policy max_lanes now p g selected"
    using plan_total [OF assms(1,2), of ds signals max_lanes now] assms(3) by auto
  have cap: "within_capacity ?pools (capacity_usage registry now) selected"
    using plan_run_selected(7) [OF assms(1,2) run] assms(4) by blast
  note lanes = plan_runD(6,7) [OF run]
  have "mset (sort_key by_rank selected) = mset selected" by simp
  then have cap': "within_capacity ?pools (capacity_usage registry now) (sort_key by_rank selected)"
    using cap within_capacity_mset by blast
  have "c \<in> set (concat (map la_claims (sp_lanes p)))" using assms(6,7) by auto
  then have c: "c \<in> set (all_claims (sort_key by_rank selected))" unfolding lanes(2) .
  have "distinct (map rp_resource_key (rr_pools registry))"
    using assms(2) by (simp add: plan_inputs_ok_def valid_ResourceRegistrySnapshot_def)
  then have d: "distinct (map fst (map (\<lambda>p. (rp_resource_key p, p)) (rr_pools registry)))" by (simp add: comp_def)
  have "map_of ?pools (rp_resource_key pool) = Some pool"
    unfolding pools_by_key_def dict_of_distinct [OF d] using assms(5) d by (intro map_of_is_SomeI) auto
  then have "get_default (capacity_usage registry now) (rc_resource_key c) 0
      + claimed (rc_resource_key c) (all_claims (sort_key by_rank selected)) \<le> allocatable_units pool"
    using bspec [OF cap' [unfolded within_capacity_def] c] assms(8) by simp
  then show ?thesis unfolding capacity_usage_get assms(8) lanes(2) .
qed

section \<open>An example\<close>

definition example_control :: "string list \<Rightarrow> ControlSnapshot" where
  "example_control ids =
     \<lparr>cs_snapshot_id = ''CTRL-00000000000000000000'', cs_project_id = ''PROJECT-X'',
      cs_sequence =
        \<lparr>bq_sequence_id = ''SEQ-00000000000000000000'', bq_project_id = ''PROJECT-X'',
         bq_graph_fingerprint = replicate 64 (CHR ''0''), bq_task_count = int (length ids), bq_edge_count = 0,
         bq_ready_count = int (length ids), bq_active_count = 0, bq_blocked_count = 0,
         bq_critical_path = \<lparr>ca_path = [], ca_total_duration_minutes = 0, ca_duration_source = ''EMPTY'',
           ca_earliest_finish_minutes = [], ca_slack_minutes = []\<rparr>,
         bq_ordered_ready_work =
           map (\<lambda>t. \<lparr>si_rank = 1, si_task_id = t, si_readiness = R_READY,
                     si_score = \<lparr>sc_task_id = t, sc_priority_score = 0, sc_critical_path_score = 0, sc_deadline_score = 0,
                       sc_risk_score = 0, sc_unblock_score = 0, sc_duration_score = 0, sc_total_score = 0\<rparr>,
                     si_dependency_depth = 0, si_downstream_count = 0, si_on_critical_path = False\<rparr>) ids,
         bq_generated_at_utc = Aware 0\<rparr>,
      cs_scope = \<lparr>sx_report_id = ''SCOPE-00000000000000000000'', sx_project_id = ''PROJECT-X'', sx_requirement_count = 0,
         sx_work_item_count = 0, sx_findings = [], sx_fingerprint = replicate 64 (CHR ''0'')\<rparr>,
      cs_completion = \<lparr>cp_projection_id = ''COMPLETE-00000000000000000000'', cp_project_id = ''PROJECT-X'',
         cp_state = CP_INCOMPLETE, cp_total_work_items = 0, cp_completed_work_items = 0, cp_active_work_items = 0,
         cp_blocked_work_items = 0, cp_failed_work_items = 0, cp_accepted_requirements = 0,
         cp_implemented_or_external_blocked_requirements = 0, cp_ready_work_items = 0, cp_verification_eligible = False,
         cp_final_completion_gate_satisfied = False, cp_reasons = [],
         cp_cohorts = \<lparr>cc_total_work_items = 0, cc_reconciliation_facts = 0, cc_structural_container_facts = 0,
           cc_leaf_reconciliation_facts = 0, cc_eligibility_reconciliation = 0, cc_eligibility_eligible = 0,
           cc_eligibility_policy_denied = 0, cc_eligibility_product_scope_paused = 0, cc_eligibility_terminal = 0,
           cc_eligibility_already_active = 0, cc_eligibility_blocked = 0, cc_eligibility_blocked_external = 0,
           cc_dependency_ready = 0\<rparr>\<rparr>,
      cs_eligibility = [], cs_readiness = [], cs_snapshot_fingerprint = replicate 64 (CHR ''0'')\<rparr>"

definition example_registry :: ResourceRegistrySnapshot where
  "example_registry =
     \<lparr>rr_registry_id = replicate 64 (CHR ''0''), rr_pools = map snd (slot_pools 3), rr_active_leases = [],
      rr_observed_at_utc = Aware 0\<rparr>"

abbreviation example_plan :: "SchedulerPlan result" where
  "example_plan \<equiv> plan \<lparr>ds_exact_candidate_limit = 18, ds_ortools_optimizer = None\<rparr> adjacency_ops
     (example_control (map tp_task_id example_candidates)) example_candidates example_registry None None None 0"

lemma example_inputs_ok:
  "plan_inputs_ok (example_control (map tp_task_id example_candidates)) example_candidates example_registry None"
proof -
  have "fullmatch control_id_rx ''CTRL-00000000000000000000''" "is_project_id ''PROJECT-X''" by code_simp+
  moreover have "is_sha256_hex (replicate 64 (CHR ''0''))" "startswith ''CTRL-00000000000000000000'' ''CTRL-''" by code_simp+
  ultimately have "make_ControlSnapshot (example_control (map tp_task_id example_candidates)) =
      Inr (example_control (map tp_task_id example_candidates))"
    by (simp add: make_ControlSnapshot_def example_control_def)
  moreover have "valid_ResourceRegistrySnapshot example_registry" by code_simp
  moreover have "map si_task_id (bq_ordered_ready_work (cs_sequence (example_control ids))) = ids" for ids
    by (simp add: example_control_def comp_def)
  ultimately show ?thesis
    using example_candidates_ok by (simp only: plan_inputs_ok_def option.case simp_thms)
qed

theorem plan_decides_all_witness:
  "\<exists>p. example_plan = Inr p \<and> map ad_task_id (sp_admissions p) =
     sort (map tp_task_id (candidates_of (example_control (map tp_task_id example_candidates)) example_candidates))"
  using plan_decides_all [OF adjacency.nx_graph_axioms example_inputs_ok,
      of "\<lparr>ds_exact_candidate_limit = 18, ds_ortools_optimizer = None\<rparr>" None None 0] by blast

lemma example_plan_ok: "\<exists>p. example_plan = Inr p"
  using plan_total [OF adjacency.nx_graph_axioms example_inputs_ok,
      of "\<lparr>ds_exact_candidate_limit = 18, ds_ortools_optimizer = None\<rparr>" None None 0] by blast

theorem plan_lanes_safe_witness:
  "\<exists>p. example_plan = Inr p \<and> distinct (map la_task_id (sp_lanes p)) \<and> int (length (sp_lanes p)) \<le> sp_lane_limit p"
proof -
  obtain p where p: "example_plan = Inr p" using example_plan_ok by blast
  from plan_lanes_safe [OF adjacency.nx_graph_axioms example_inputs_ok p] p show ?thesis by blast
qed

theorem plan_capacity_safe_witness:
  "\<exists>p. example_plan = Inr p \<and> claimed ''slots'' (concat (map la_claims (sp_lanes p))) \<le> 3"
proof -
  let ?control = "example_control (map tp_task_id example_candidates)"
  let ?ds = "\<lparr>ds_exact_candidate_limit = 18, ds_ortools_optimizer = None\<rparr>"
  obtain p g selected where p: "example_plan = Inr p"
    and run: "plan_run ?ds adjacency_ops (candidates_of ?control example_candidates) example_registry None None None 0 p g selected"
    using plan_total [OF adjacency.nx_graph_axioms example_inputs_ok, of ?ds None None 0] by blast
  have cs: "candidates_of ?control example_candidates = example_candidates" by code_simp
  let ?D = "\<lparr>bd_mode = NORMAL, bd_lane_fraction = 1, bd_admit_new_work = True, bd_reasons = []\<rparr>"
  have "evaluate_backpressure (default_signals (int (length example_candidates))) None = Inr ?D" by code_simp
  then have D: "sp_backpressure p = ?D" using plan_runD(11) [OF run] by (simp add: cs)
  have "build_conflict_graph adjacency_ops example_candidates = Inr ([], [])" by code_simp
  then have g: "g = []" using plan_runD(1) [OF run] by (simp add: cs)
  have "lane_limit_of None (length example_candidates) ?D = 3" by code_simp
  then have limit: "sp_lane_limit p = 3" using plan_runD(3) [OF run] by (simp add: D cs)
  have "select_lanes ?ds adjacency_ops (filter (\<lambda>c. preliminary ?D example_registry 0 c = None) example_candidates) []
      (pools_by_key (rr_pools example_registry)) (capacity_usage example_registry 0) 3
      = ([example_candidates ! 0, example_candidates ! 1], EXACT_BOUNDED)" by code_simp
  then have sel: "selected = [example_candidates ! 0, example_candidates ! 1]" "sp_selection_method p = EXACT_BOUNDED"
    using plan_runD(5) [OF run] by (simp_all add: D cs g limit)
  have "sort_key by_rank selected = selected" unfolding sel by code_simp
  then have lanes: "map la_claims (sp_lanes p) = map tp_claims [example_candidates ! 0, example_candidates ! 1]"
    using plan_runD(7) [OF run] sel(1) by simp
  then obtain l ls where ls: "sp_lanes p = l # ls" "la_claims l = tp_claims (example_candidates ! 0)" by auto
  let ?pool = "snd (hd (slot_pools 3))"
  have "claimed (rp_resource_key ?pool) (map rl_claim (active_leases example_registry 0))
     + claimed (rp_resource_key ?pool) (concat (map la_claims (sp_lanes p))) \<le> allocatable_units ?pool"
    by (rule plan_capacity_safe [OF adjacency.nx_graph_axioms example_inputs_ok p _ _ _ _,
          of _ l "slot_claim CPU_SLOT ''slots'' 2"])
       (use sel ls in \<open>simp_all add: example_registry_def slot_pools_def example_candidates_def example_profile_def slot_claim_def\<close>)
  moreover have "rp_resource_key ?pool = ''slots''" "allocatable_units ?pool = 3" by code_simp+
  moreover have "active_leases example_registry 0 = []" by code_simp
  ultimately show ?thesis using p by simp
qed

end
