(* ===== verification/SchedulerBridge.thy ===== *)
theory SchedulerBridge
  imports SchedulerEngine "HOL-Library.Sublist"
begin

text \<open>
  What connects the control kernel with the lane scheduler: \<open>scheduler/bridge.py\<close> derives the task
  profiles and resource claims of a snapshot from the issue documents, \<open>scheduler/simulation.py\<close> plans
  a scenario, and \<open>scheduler/productive_idle.py\<close> picks unrelated work while another lane waits.

  The issue documents are an argument, \<open>IssueContract\<close>, with the fields the bridge reads; an optional
  field is \<open>None\<close> where its key is missing.
\<close>

section \<open>Paths\<close>

text \<open>\<open>str(PurePosixPath(s))\<close>: empty and \<open>.\<close> segments vanish, and two leading slashes are kept.\<close>

definition posix_path :: "string \<Rightarrow> string" where
  "posix_path s =
     (let root = (if startswith s ''//'' \<and> \<not> startswith s ''///'' then ''//'' else if startswith s ''/'' then ''/'' else []);
          path = root @ join_str ''/'' (filter (\<lambda>p. p \<noteq> [] \<and> p \<noteq> ''.'') (split_on (CHR ''/'') s))
      in if path = [] then ''.'' else path)"

text \<open>\<open>s.replace(old, new)\<close> for a non-empty \<open>old\<close>.\<close>

function replace_str :: "string \<Rightarrow> string \<Rightarrow> string \<Rightarrow> string" where
  "replace_str old new s =
     (if old = [] \<or> s = [] then s
      else if startswith s old then new @ replace_str old new (drop (length old) s)
      else hd s # replace_str old new (tl s))"
  by pat_completeness auto
termination
  by (relation "measure (\<lambda>(old, new, s). length s)") auto

declare replace_str.simps [simp del]

section \<open>Claims and profiles\<close>

record IssueContract =
  ic_local_id :: string
  ic_expected_file_locations :: "string list"
  ic_labels :: "string list"
  ic_scope :: "string list"
  ic_priority :: "string option"
  ic_owner_required_capability :: "string option"

definition EXCLUDED_PREFIXES :: "string list" where
  "EXCLUDED_PREFIXES = [''plans/'', ''jira/'', ''evidence/'', ''provenance/'', ''docs/'']"

definition slot_claim_of :: "string \<Rightarrow> ResourceType \<Rightarrow> string \<Rightarrow> ResourceClaim" where
  "slot_claim_of key ty purpose =
     \<lparr>rc_resource_key = key, rc_resource_type = ty, rc_access_mode = SHARED, rc_quantity = 1,
      rc_machine_id = Some ''machine:local'', rc_purpose = Some purpose\<rparr>"

definition exclusive_claim :: "string \<Rightarrow> ResourceType \<Rightarrow> string option \<Rightarrow> ResourceClaim" where
  "exclusive_claim key ty purpose =
     \<lparr>rc_resource_key = key, rc_resource_type = ty, rc_access_mode = EXCLUSIVE, rc_quantity = 1,
      rc_machine_id = None, rc_purpose = purpose\<rparr>"

definition declared_paths :: "IssueContract \<Rightarrow> string list" where
  "declared_paths issue =
     filter (\<lambda>path. \<not> (path = ''.'' \<or> list_ex (startswith path) EXCLUDED_PREFIXES))
       (map (\<lambda>raw. posix_path (replace_char (CHR 0x5C) (CHR ''/'') raw)) (ic_expected_file_locations issue))"

text \<open>The claims of an issue; the document of a task without an issue is empty.\<close>

definition no_issue :: IssueContract where
  "no_issue = \<lparr>ic_local_id = [], ic_expected_file_locations = [], ic_labels = [], ic_scope = [], ic_priority = None,
     ic_owner_required_capability = None\<rparr>"

definition issue_claims :: "IssueContract \<Rightarrow> ResourceClaim list result" where
  "issue_claims issue =
     map_res make_ResourceClaim
       ([slot_claim_of ''machine:local/cpu_slots'' CPU_SLOT ''default worker CPU admission'',
         slot_claim_of ''machine:local/process_slots'' PROCESS_SLOT ''worker process admission'']
        @ map (\<lambda>path. exclusive_claim path PATH (Some ''declared implementation path'')) (declared_paths issue)
        @ (if ''migration'' \<in> set (ic_labels issue) \<or> list_ex (\<lambda>x. sublist ''migration'' (map lower_char x)) (ic_scope issue)
           then [exclusive_claim ''database:migration-sequence'' DATABASE None] else [])
        @ (if ''aws'' \<in> set (ic_labels issue) \<or> ''infrastructure'' \<in> set (ic_labels issue)
           then [exclusive_claim ''environment:infrastructure'' INFRASTRUCTURE None] else []))"

definition WAITING_STATES :: "ReadinessState list" where
  "WAITING_STATES = [R_WAITING_DEPENDENCIES, R_BLOCKED, R_WAITING_APPROVAL, R_WAITING_CONTEXT, R_WAITING_RESOURCES,
     R_WAITING_ENVIRONMENT]"

definition contracts_by_id :: "IssueContract list \<Rightarrow> (string, IssueContract) dict" where
  "contracts_by_id issues = dict_of (map (\<lambda>i. (ic_local_id i, i)) issues)"

definition profile_of ::
  "IssueContract list \<Rightarrow> ControlSnapshot \<Rightarrow> string list \<Rightarrow> SequenceItem \<Rightarrow> SchedulerTaskProfile result" where
  "profile_of issues control waiting item =
     (let issue = get_default (contracts_by_id issues) (si_task_id item) no_issue
      in res_bind (issue_claims issue) (\<lambda>claims.
           make_SchedulerTaskProfile
             \<lparr>tp_task_id = si_task_id item, tp_project_id = cs_project_id control, tp_sequence_rank = si_rank item,
              tp_utility_score = max 0 (sc_total_score (si_score item)),
              tp_priority = (case ic_priority issue of None \<Rightarrow> ''P1'' | Some p \<Rightarrow> p),
              tp_critical_path = si_on_critical_path item, tp_claims = claims,
              tp_owner_id = ic_owner_required_capability issue, tp_workspace_isolated = True, tp_policy_eligible = True,
              tp_productive_idle = (waiting \<noteq> [] \<and> si_task_id item \<notin> set waiting),
              tp_protected_capacity_consumption = False\<rparr>))"

definition profiles_from_repository ::
  "IssueContract list \<Rightarrow> ControlSnapshot \<Rightarrow> SchedulerTaskProfile list result" where
  "profiles_from_repository issues control =
     (let waiting = map td_task_id (filter (\<lambda>r. td_state r \<in> set WAITING_STATES) (cs_readiness control))
      in map_res (profile_of issues control waiting) (bq_ordered_ready_work (cs_sequence control)))"

section \<open>Recovered claims\<close>

definition claim_dedup_key :: "ResourceClaim \<Rightarrow> string \<times> string \<times> string \<times> int" where
  "claim_dedup_key c =
     (resource_type_value (rc_resource_type c), rc_resource_key c, access_mode_value (rc_access_mode c), rc_quantity c)"

fun dedup_claims :: "(string \<times> string \<times> string \<times> int) list \<Rightarrow> ResourceClaim list \<Rightarrow> ResourceClaim list" where
  "dedup_claims seen [] = []"
| "dedup_claims seen (c # cs) =
     (if claim_dedup_key c \<in> set seen then dedup_claims seen cs
      else c # dedup_claims (claim_dedup_key c # seen) cs)"

definition move_claim :: "string \<Rightarrow> ResourceClaim \<Rightarrow> ResourceClaim" where
  "move_claim machine_id c =
     (if rc_machine_id c \<in> {None, Some ''machine:local''}
         \<and> rc_resource_type c \<in> {CPU_SLOT, MEMORY_MB, DISK_MB, PROCESS_SLOT, GPU, GPU_MEMORY_MB}
      then c\<lparr>rc_resource_key := replace_str ''machine:local'' machine_id (rc_resource_key c), rc_machine_id := Some machine_id\<rparr>
      else c)"

definition claims_for_task :: "IssueContract list \<Rightarrow> string \<Rightarrow> string option \<Rightarrow> ResourceClaim list result" where
  "claims_for_task issues task_id machine_id =
     (case map_of (contracts_by_id issues) task_id of
        None \<Rightarrow> Inr []
      | Some issue \<Rightarrow>
          res_bind (issue_claims issue) (\<lambda>claims.
            let deduped = dedup_claims [] claims
            in case machine_id of
                 None \<Rightarrow> Inr deduped
               | Some m \<Rightarrow> if m \<noteq> [] \<and> m \<noteq> ''machine:local'' then Inr (map (move_claim m) deduped) else Inr deduped))"

section \<open>Simulated scenarios\<close>

definition simulate_scenario ::
  "cp_solver option \<Rightarrow> 'g nx_ops \<Rightarrow> string \<Rightarrow> ControlSnapshot \<Rightarrow> SchedulerTaskProfile list \<Rightarrow> ResourceRegistrySnapshot
     \<Rightarrow> BackpressureSignals option \<Rightarrow> int option \<Rightarrow> int \<Rightarrow> SchedulerSimulationResult result" where
  "simulate_scenario cp nx name control profiles registry signals expected_lane_count now =
     res_bind (init_DynamicLaneScheduler 18 cp) (\<lambda>ds.
     res_bind (plan ds nx control profiles registry signals None None now) (\<lambda>p.
       let observed = int (length (sp_lanes p));
           (passed, findings) =
             (case expected_lane_count of
                None \<Rightarrow> (True, [])
              | Some n \<Rightarrow>
                  if observed \<noteq> n
                  then (False, [''expected '' @ str_int n @ '' lanes but observed '' @ str_int observed])
                  else (True, []))
       in res_bind (scheduler_identifier ''SIM'' [name, sp_plan_id p]) (\<lambda>simulation_id.
            make_SchedulerSimulationResult
              \<lparr>sr_simulation_id = simulation_id, sr_scenario_name = name, sr_plan = p,
               sr_expected_lane_count = expected_lane_count, sr_assertions_passed = passed, sr_findings = findings\<rparr>)))"

section \<open>Productive idle\<close>

definition waiting_lane_ids :: "ControlSnapshot \<Rightarrow> string list" where
  "waiting_lane_ids control =
     map td_task_id
       (filter (\<lambda>r. td_state r \<in> set WAITING_STATES \<or> (td_state r = R_ACTIVE \<and> \<not> td_ready r)) (cs_readiness control))"

definition path_keys :: "ResourceClaim list \<Rightarrow> string list" where
  "path_keys claims = map rc_resource_key (filter (\<lambda>c. rc_resource_type c = PATH) claims)"

definition shares_implementation_scope :: "ResourceClaim list \<Rightarrow> ResourceClaim list \<Rightarrow> bool" where
  "shares_implementation_scope waiting_claims candidate_claims =
     list_ex (\<lambda>left. list_ex (\<lambda>right. left = right \<or> startswith left (right @ ''/'') \<or> startswith right (left @ ''/''))
                       (path_keys candidate_claims)) (path_keys waiting_claims)"

record ProductiveIdleDecision =
  pi_waiting_task_ids :: "string list"
  pi_selected_task_id :: "string option"
  pi_progressed :: bool
  pi_progress_count :: int
  pi_reasons :: "string list"
  pi_receipt_path :: "string option"

text \<open>One round of the loop over the admitted lanes: a reason why the lane is passed over, or its profile.\<close>

definition idle_candidate ::
  "(string, SchedulerTaskProfile) dict \<Rightarrow> string list \<Rightarrow> ResourceClaim list \<Rightarrow> string \<Rightarrow> string + SchedulerTaskProfile" where
  "idle_candidate by_id waiting waiting_claim_union task_id =
     (case map_of by_id task_id of
        None \<Rightarrow> Inl (''missing_profile:'' @ task_id)
      | Some profile \<Rightarrow>
          if task_id \<in> set waiting then Inl (''selected_lane_is_waiting:'' @ task_id)
          else if tp_protected_capacity_consumption profile then Inl (''protected_capacity:'' @ task_id)
          else if shares_implementation_scope waiting_claim_union (tp_claims profile) then Inl (''shared_scope:'' @ task_id)
          else Inr profile)"

definition evaluate_productive_idle ::
  "ControlSnapshot \<Rightarrow> SchedulerPlan \<Rightarrow> SchedulerTaskProfile list \<Rightarrow> (string, ResourceClaim list) dict option
     \<Rightarrow> ProductiveIdleDecision" where
  "evaluate_productive_idle control p profiles waiting_claims =
     (let waiting = waiting_lane_ids control
      in if waiting = []
         then \<lparr>pi_waiting_task_ids = [], pi_selected_task_id = None, pi_progressed = False, pi_progress_count = 0,
               pi_reasons = [''no_waiting_lane''], pi_receipt_path = None\<rparr>
         else
           let by_id = dict_of (map (\<lambda>q. (tp_task_id q, q)) profiles);
               claims = (case waiting_claims of None \<Rightarrow> [] | Some d \<Rightarrow> d);
               waiting_claim_union = concat (map (\<lambda>i. get_default claims i []) waiting);
               judged = map (idle_candidate by_id waiting waiting_claim_union) (sorted_set (map la_task_id (sp_lanes p)));
               reasons = (''waiting:'' @ join_str '','' waiting)
                         # concat (map (\<lambda>j. case j of Inl r \<Rightarrow> [r] | Inr q \<Rightarrow> []) judged);
               candidates = concat (map (\<lambda>j. case j of Inl r \<Rightarrow> [] | Inr q \<Rightarrow> [q]) judged)
           in case sort_key (\<lambda>q. (tp_sequence_rank q, tp_task_id q)) candidates of
                [] \<Rightarrow>
                  \<lparr>pi_waiting_task_ids = waiting, pi_selected_task_id = None, pi_progressed = False, pi_progress_count = 0,
                   pi_reasons = reasons, pi_receipt_path = None\<rparr>
              | selected # _ \<Rightarrow>
                  \<lparr>pi_waiting_task_ids = waiting, pi_selected_task_id = Some (tp_task_id selected), pi_progressed = False,
                   pi_progress_count = 0, pi_reasons = reasons @ [''selected:'' @ tp_task_id selected],
                   pi_receipt_path = None\<rparr>)"

text \<open>
  The receipts of a directory by file name; a receipt is the typed view of its JSON object, with the
  count 0 where the key is missing.  \<open>path_of\<close> gives the text of the path of a file in the directory.
\<close>

record IdleReceipt =
  ir_task_id :: string
  ir_waiting_task_ids :: "string list"
  ir_progress_count :: int
  ir_previous_progress_count :: int
  ir_updated_at_utc :: string
  ir_reasons :: "string list"

definition apply_productive_idle_progress ::
  "(string \<Rightarrow> string) \<Rightarrow> int \<Rightarrow> ProductiveIdleDecision \<Rightarrow> (string, IdleReceipt) dict
     \<Rightarrow> (string, IdleReceipt) dict \<times> ProductiveIdleDecision" where
  "apply_productive_idle_progress path_of now decision files =
     (case pi_selected_task_id decision of
        None \<Rightarrow> (files, decision)
      | Some task_id \<Rightarrow>
          let file = task_id @ ''.json'';
              previous = (case map_of files file of None \<Rightarrow> 0 | Some r \<Rightarrow> ir_progress_count r);
              count = previous + 1
          in (AList.update file
                \<lparr>ir_task_id = task_id, ir_waiting_task_ids = pi_waiting_task_ids decision, ir_progress_count = count,
                 ir_previous_progress_count = previous, ir_updated_at_utc = utc_isoformat now,
                 ir_reasons = pi_reasons decision\<rparr> files,
              decision\<lparr>pi_progressed := True, pi_progress_count := count, pi_receipt_path := Some (path_of file)\<rparr>))"

end
