(* ===== verification/PipelineProperties.thy ===== *)
theory PipelineProperties
  imports ControlProperties SchedulerPlanning SchedulerBridge
begin

text \<open>
  The path from the stored tasks to the lanes: the snapshot of the control kernel, the profiles the bridge
  derives from it, the plan of the lane scheduler and the work chosen while a lane waits.
\<close>

section \<open>Profiles\<close>

lemma map_res_nth: "map_res f xs = Inr ys \<Longrightarrow> list_all2 (\<lambda>x y. f x = Inr y) xs ys"
  by (induction xs arbitrary: ys) auto

lemma map_res_Inl: "map_res f xs = Inl e \<Longrightarrow> \<exists>x \<in> set xs. f x = Inl e"
  by (induction xs) (auto simp: res_bind_def split: sum.splits)

lemma map_res_in: "map_res f xs = Inr ys \<Longrightarrow> x \<in> set xs \<Longrightarrow> \<exists>y \<in> set ys. f x = Inr y"
  by (induction xs arbitrary: ys) auto

lemma map_res_distinct: "map_res f xs = Inr ys \<Longrightarrow> distinct ys \<Longrightarrow> distinct xs"
proof (induction xs arbitrary: ys)
  case (Cons x xs)
  then obtain y zs where "f x = Inr y" "map_res f xs = Inr zs" "ys = y # zs" by auto
  then show ?case using Cons map_res_in [of f xs zs x] by auto
qed simp

lemma issue_claims_positive:
  assumes "issue_claims issue = Inr claims" "c \<in> set claims"
  shows "1 \<le> rc_quantity c"
proof -
  obtain x where "make_ResourceClaim x = Inr c" using map_res_set [OF assms(1) [unfolded issue_claims_def] assms(2)] by blast
  then show ?thesis by (auto simp: make_ResourceClaim_def split: if_splits sum.splits)
qed

lemma profile_of_fields:
  assumes "profile_of issues control waiting item = Inr q"
  shows "tp_task_id q = si_task_id item" "valid_SchedulerTaskProfile q" "positive_claims q"
    "issue_claims (get_default (contracts_by_id issues) (si_task_id item) no_issue) = Inr (tp_claims q)"
proof -
  show *: "issue_claims (get_default (contracts_by_id issues) (si_task_id item) no_issue) = Inr (tp_claims q)"
    and "tp_task_id q = si_task_id item" "valid_SchedulerTaskProfile q"
    using assms by (auto simp: profile_of_def Let_def make_SchedulerTaskProfile_def split: if_splits)
  show "positive_claims q" using issue_claims_positive [OF *] by (simp add: positive_claims_def list_all_iff)
qed

lemma profiles_fields:
  assumes "profiles_from_repository issues control = Inr profiles"
  shows "map tp_task_id profiles = map si_task_id (bq_ordered_ready_work (cs_sequence control))"
    "\<forall>q \<in> set profiles. valid_SchedulerTaskProfile q \<and> positive_claims q
       \<and> issue_claims (get_default (contracts_by_id issues) (tp_task_id q) no_issue) = Inr (tp_claims q)"
proof -
  let ?waiting = "map td_task_id (filter (\<lambda>r. td_state r \<in> set WAITING_STATES) (cs_readiness control))"
  have run: "map_res (profile_of issues control ?waiting) (bq_ordered_ready_work (cs_sequence control)) = Inr profiles"
    using assms by (simp add: profiles_from_repository_def)
  show "map tp_task_id profiles = map si_task_id (bq_ordered_ready_work (cs_sequence control))"
    using map_res_nth [OF run]
    by (induction rule: list_all2_induct) (auto dest: profile_of_fields(1))
  show "\<forall>q \<in> set profiles. valid_SchedulerTaskProfile q \<and> positive_claims q
       \<and> issue_claims (get_default (contracts_by_id issues) (tp_task_id q) no_issue) = Inr (tp_claims q)"
    using map_res_set [OF run] profile_of_fields by metis
qed

text \<open>A document from which a profile can be built.\<close>

definition contract_ok :: "IssueContract \<Rightarrow> bool" where
  "contract_ok issue \<longleftrightarrow>
     (case issue_claims issue of Inl _ \<Rightarrow> False | Inr cs \<Rightarrow> distinct (map claim_identity cs))
     \<and> (case ic_priority issue of None \<Rightarrow> True | Some v \<Rightarrow> v \<in> {''P0'', ''P1'', ''P2'', ''P3''})
     \<and> max_length 191 (ic_owner_required_capability issue)"

lemma no_issue_ok: "contract_ok no_issue"
  by code_simp

lemma contract_of:
  "get_default (contracts_by_id issues) i no_issue \<in> insert no_issue (set issues)"
  by (auto simp: get_default_def contracts_by_id_def dict_of_map_of split: option.splits dest!: map_of_SomeD)

lemma profiles_total:
  assumes "\<forall>i \<in> set issues. contract_ok i" "is_project_id (cs_project_id control)"
    and "\<forall>item \<in> set (bq_ordered_ready_work (cs_sequence control)). 1 \<le> si_rank item \<and> is_issue_id (si_task_id item)"
  shows "\<exists>profiles. profiles_from_repository issues control = Inr profiles"
proof -
  let ?w = "map td_task_id (filter (\<lambda>r. td_state r \<in> set WAITING_STATES) (cs_readiness control))"
  have "\<exists>q. profile_of issues control ?w item = Inr q" if "item \<in> set (bq_ordered_ready_work (cs_sequence control))" for item
  proof -
    define issue where "issue = get_default (contracts_by_id issues) (si_task_id item) no_issue"
    have "contract_ok issue" using contract_of [of issues "si_task_id item"] assms(1) no_issue_ok by (auto simp: issue_def)
    then show ?thesis using assms(2,3) that
      by (auto simp: profile_of_def issue_def [symmetric] contract_ok_def make_SchedulerTaskProfile_def valid_SchedulerTaskProfile_def
          split: sum.splits option.splits)
  qed
  then have "map_res (profile_of issues control ?w) (bq_ordered_ready_work (cs_sequence control)) =
      Inr (map (\<lambda>item. projr (profile_of issues control ?w item)) (bq_ordered_ready_work (cs_sequence control)))"
    by (intro map_res_total) (metis sum.sel(2))
  then show ?thesis by (simp add: profiles_from_repository_def)
qed

lemma candidates_all:
  assumes "map tp_task_id profiles = map si_task_id (bq_ordered_ready_work (cs_sequence control))" "distinct (map tp_task_id profiles)"
  shows "candidates_of control profiles = profiles"
proof -
  have "dict_of (map (\<lambda>q. (tp_task_id q, q)) profiles) = map (\<lambda>q. (tp_task_id q, q)) profiles"
    using assms(2) by (intro dict_of_distinct) (simp add: comp_def)
  moreover have found: "List.map_filter (map_of (map (\<lambda>q. (tp_task_id q, q)) qs)) (map tp_task_id ps) = ps"
    if "distinct (map tp_task_id qs)" "set ps \<subseteq> set qs" for ps qs
    using that
  proof (induction ps)
    case (Cons q ps)
    have "map_of (map (\<lambda>q. (tp_task_id q, q)) qs) (tp_task_id q) = Some q"
      using Cons.prems by (intro map_of_is_SomeI) (auto simp: comp_def)
    then show ?case using Cons by (simp add: List.map_filter_simps)
  qed (simp add: List.map_filter_simps)
  ultimately show ?thesis using found [OF assms(2) subset_refl] by (simp only: candidates_of_def Let_def flip: assms(1))
qed

section \<open>Recovered claims\<close>

lemma dedup_distinct:
  "distinct (map claim_dedup_key cs) \<Longrightarrow> set (map claim_dedup_key cs) \<inter> set seen = {} \<Longrightarrow> dedup_claims seen cs = cs"
  by (induction cs arbitrary: seen) auto

lemma dedup_keys:
  "distinct (map claim_dedup_key (dedup_claims seen cs))"
  "set (map claim_dedup_key (dedup_claims seen cs)) = set (map claim_dedup_key cs) - set seen"
proof (induction cs arbitrary: seen)
  case (Cons c cs)
  case 1 show ?case using Cons(1,2) by (auto simp: image_iff)
  case 2 show ?case using Cons(2) by auto
qed simp_all

lemma distinct_identities:
  assumes "distinct (map claim_identity cs)"
  shows "distinct (map claim_dedup_key cs)"
  using assms by (auto simp: distinct_map inj_on_def claim_identity_def claim_dedup_key_def)

lemma move_slot:
  "replace_str ''machine:local'' m ''machine:local/cpu_slots'' = m @ ''/cpu_slots''"
  "replace_str ''machine:local'' m ''machine:local/process_slots'' = m @ ''/process_slots''"
  by (simp_all add: replace_str.simps startswith_def)

text \<open>The claims of an issue: the two worker slots, then exclusive claims that belong to no machine.\<close>

lemma normal_key: "normalize_resource_key ''machine:local/cpu_slots'' = Inr ''machine:local/cpu_slots''"
  "normalize_resource_key ''machine:local/process_slots'' = Inr ''machine:local/process_slots''"
  by code_simp+

lemma issue_claims_shape:
  assumes "issue_claims issue = Inr claims"
  obtains rest where "claims = slot_claim_of ''machine:local/cpu_slots'' CPU_SLOT ''default worker CPU admission''
      # slot_claim_of ''machine:local/process_slots'' PROCESS_SLOT ''worker process admission'' # rest"
    "\<forall>c \<in> set rest. rc_access_mode c = EXCLUSIVE \<and> rc_resource_type c \<in> {PATH, DATABASE, INFRASTRUCTURE}"
proof -
  have slot: "make_ResourceClaim (slot_claim_of ''machine:local/cpu_slots'' CPU_SLOT ''default worker CPU admission'') =
      Inr (slot_claim_of ''machine:local/cpu_slots'' CPU_SLOT ''default worker CPU admission'')"
    "make_ResourceClaim (slot_claim_of ''machine:local/process_slots'' PROCESS_SLOT ''worker process admission'') =
      Inr (slot_claim_of ''machine:local/process_slots'' PROCESS_SLOT ''worker process admission'')"
    by (simp_all add: make_ResourceClaim_def slot_claim_of_def max_length_def normal_key)
  let ?raw = "map (\<lambda>path. exclusive_claim path PATH (Some ''declared implementation path'')) (declared_paths issue)
        @ (if ''migration'' \<in> set (ic_labels issue) \<or> list_ex (\<lambda>x. sublist ''migration'' (map lower_char x)) (ic_scope issue)
           then [exclusive_claim ''database:migration-sequence'' DATABASE None] else [])
        @ (if ''aws'' \<in> set (ic_labels issue) \<or> ''infrastructure'' \<in> set (ic_labels issue)
           then [exclusive_claim ''environment:infrastructure'' INFRASTRUCTURE None] else [])"
  obtain rest where rest: "map_res make_ResourceClaim ?raw = Inr rest"
    and claims: "claims = slot_claim_of ''machine:local/cpu_slots'' CPU_SLOT ''default worker CPU admission''
      # slot_claim_of ''machine:local/process_slots'' PROCESS_SLOT ''worker process admission'' # rest"
    using assms unfolding issue_claims_def append_Cons append_Nil map_res.simps slot res_bind_simps by (cases "map_res make_ResourceClaim ?raw") auto
  have "rc_access_mode c = EXCLUSIVE \<and> rc_resource_type c \<in> {PATH, DATABASE, INFRASTRUCTURE}" if c: "c \<in> set rest" for c
  proof -
    obtain x where x: "x \<in> set ?raw" "make_ResourceClaim x = Inr c" using map_res_set [OF rest c] by blast
    then have "rc_access_mode c = rc_access_mode x" "rc_resource_type c = rc_resource_type x"
      by (auto simp: make_ResourceClaim_def split: if_splits sum.splits)
    moreover have "rc_access_mode x = EXCLUSIVE \<and> rc_resource_type x \<in> {PATH, DATABASE, INFRASTRUCTURE}"
      using x(1) by (auto simp: exclusive_claim_def split: if_splits)
    ultimately show ?thesis by simp
  qed
  then show thesis using that [OF claims] by blast
qed

lemma move_claim_exclusive: "rc_resource_type c \<in> {PATH, DATABASE, INFRASTRUCTURE} \<Longrightarrow> move_claim m c = c"
  by (auto simp: move_claim_def)

section \<open>Productive idle\<close>

text \<open>
  A profile that may run while others wait: admitted to a lane, not waiting itself, not on protected
  capacity, and with no path that would conflict with a path of a waiting task, were that held exclusively.
\<close>

definition may_run_idle ::
  "ControlSnapshot \<Rightarrow> SchedulerPlan \<Rightarrow> SchedulerTaskProfile list \<Rightarrow> (string, ResourceClaim list) dict option
     \<Rightarrow> SchedulerTaskProfile \<Rightarrow> bool" where
  "may_run_idle control p profiles waiting_claims q \<longleftrightarrow>
     q \<in> set profiles \<and> tp_task_id q \<in> la_task_id ` set (sp_lanes p) \<and> tp_task_id q \<notin> set (waiting_lane_ids control)
     \<and> \<not> tp_protected_capacity_consumption q
     \<and> (\<forall>i \<in> set (waiting_lane_ids control). \<forall>c \<in> set (get_default (case waiting_claims of None \<Rightarrow> [] | Some d \<Rightarrow> d) i []).
          \<forall>d \<in> set (tp_claims q). rc_resource_type c = PATH \<and> rc_resource_type d = PATH \<longrightarrow>
            \<not> conflicts_with (c\<lparr>rc_access_mode := EXCLUSIVE\<rparr>) d)"

lemma shares_scope_iff:
  "shares_implementation_scope cs ds \<longleftrightarrow>
     (\<exists>c \<in> set cs. \<exists>d \<in> set ds. rc_resource_type c = PATH \<and> rc_resource_type d = PATH
        \<and> conflicts_with (c\<lparr>rc_access_mode := EXCLUSIVE\<rparr>) d)"
proof -
  have "conflicts_with (c\<lparr>rc_access_mode := EXCLUSIVE\<rparr>) d \<longleftrightarrow> rc_resource_key c = rc_resource_key d
      \<or> startswith (rc_resource_key c) (rc_resource_key d @ ''/'') \<or> startswith (rc_resource_key d) (rc_resource_key c @ ''/'')"
    if "rc_resource_type c = PATH" "rc_resource_type d = PATH" for c d
    using that by (simp add: conflicts_with_def Let_def)
  then show ?thesis unfolding shares_implementation_scope_def path_keys_def list_ex_iff by simp blast
qed

lemma idle_candidates:
  assumes "distinct (map tp_task_id profiles)"
    and by_id_def: "by_id = dict_of (map (\<lambda>q. (tp_task_id q, q)) profiles)"
    and held_def: "held = concat (map (\<lambda>i. get_default (case wc of None \<Rightarrow> [] | Some d \<Rightarrow> d) i []) (waiting_lane_ids control))"
  shows "set (concat (map (\<lambda>j. case j of Inl r \<Rightarrow> [] | Inr q \<Rightarrow> [q])
       (map (idle_candidate by_id (waiting_lane_ids control) held) (sorted_set (map la_task_id (sp_lanes p))))))
     = {q. may_run_idle control p profiles wc q}"
proof -
  have by_id: "map_of by_id i = Some q \<longleftrightarrow> q \<in> set profiles \<and> tp_task_id q = i" for i q
  proof -
    have "by_id = map (\<lambda>q. (tp_task_id q, q)) profiles"
      using assms(1) unfolding by_id_def by (intro dict_of_distinct) (simp add: comp_def)
    moreover have "distinct (map fst (map (\<lambda>q. (tp_task_id q, q)) profiles))" using assms(1) by (simp add: comp_def)
    ultimately show ?thesis using map_of_eq_Some_iff [of "map (\<lambda>q. (tp_task_id q, q)) profiles" i q] by auto
  qed
  have one: "idle_candidate by_id (waiting_lane_ids control) held i = Inr q \<longleftrightarrow>
      map_of by_id i = Some q \<and> i \<notin> set (waiting_lane_ids control) \<and> \<not> tp_protected_capacity_consumption q
      \<and> \<not> shares_implementation_scope held (tp_claims q)" for i q
    by (auto simp: idle_candidate_def split: option.splits if_splits)
  have all: "set (concat (map (\<lambda>j. case j of Inl r \<Rightarrow> [] | Inr q \<Rightarrow> [q]) (map (idle_candidate by_id (waiting_lane_ids control) held) is)))
      = {q. \<exists>i \<in> set is. idle_candidate by_id (waiting_lane_ids control) held i = Inr q}" for "is"
    by (auto split: sum.splits)
  show ?thesis unfolding all set_sorted_set one by_id shares_scope_iff by (auto simp: may_run_idle_def held_def)
qed

lemma sort_key_hd:
  assumes "sort_key k xs = x # ys"
  shows "x \<in> set xs" "\<forall>y \<in> set xs. k x \<le> k y"
proof -
  have "set (x # ys) = set xs" using assms by (metis set_sort)
  moreover have "sorted (map k (x # ys))" using assms by (metis sorted_sort_key)
  ultimately show "x \<in> set xs" "\<forall>y \<in> set xs. k x \<le> k y" by auto
qed

lemma ready_ids_card:
  assumes "distinct (map tf_task_id facts)"
  shows "card {tf_task_id f | f. f \<in> set facts \<and> P f} = length (filter P facts)"
proof -
  have "{tf_task_id f | f. f \<in> set facts \<and> P f} = set (map tf_task_id (filter P facts))" by auto
  moreover have "distinct (map tf_task_id (filter P facts))" using assms by (auto simp: distinct_map intro: inj_on_subset)
  ultimately show ?thesis using distinct_card by (metis length_map)
qed

lemma ready_items:
  assumes "map si_rank items = map int [1..<Suc (length items)]"
    "set (map si_task_id items) = {tf_task_id f | f. f \<in> set facts \<and> P f}" "\<forall>f \<in> set facts. valid_TaskControlFact f"
  shows "\<forall>item \<in> set items. 1 \<le> si_rank item \<and> is_issue_id (si_task_id item)"
proof
  fix item assume i: "item \<in> set items"
  then have "si_rank item \<in> set (map int [1..<Suc (length items)])" using assms(1) by (metis image_eqI list.set_map)
  moreover have "si_task_id item \<in> {tf_task_id f | f. f \<in> set facts \<and> P f}" using i assms(2) by (metis image_eqI list.set_map)
  ultimately show "1 \<le> si_rank item \<and> is_issue_id (si_task_id item)"
    using assms(3) by (auto simp: valid_TaskControlFact_def simp del: upt_Suc)
qed

lemma profile_of_error:
  assumes "profile_of issues control waiting item = Inl e"
  shows "e = ValidationError"
proof (cases "issue_claims (get_default (contracts_by_id issues) (si_task_id item) no_issue)")
  case (Inl e')
  then obtain x where "make_ResourceClaim x = Inl e'" using map_res_Inl unfolding issue_claims_def by blast
  then have "e' = ValidationError" by (auto simp: make_ResourceClaim_def split: if_splits sum.splits)
  then show ?thesis using assms Inl by (simp add: profile_of_def)
next
  case (Inr cs)
  then show ?thesis using assms by (simp add: profile_of_def Let_def make_SchedulerTaskProfile_def split: if_splits)
qed

lemma repeated_claims:
  assumes "issue_claims issue = Inr claims" "\<not> distinct (declared_paths issue)"
  shows "\<not> distinct (map claim_identity claims)"
proof
  assume "distinct (map claim_identity claims)"
  then have "distinct claims" by (simp add: distinct_map)
  from map_res_distinct [OF assms(1) [unfolded issue_claims_def] this]
  have "distinct (map (\<lambda>path. exclusive_claim path PATH (Some ''declared implementation path'')) (declared_paths issue))"
    by (simp only: distinct_append)
  then show False using assms(2) by (simp add: distinct_map)
qed

section \<open>A small example\<close>

definition example_contract :: IssueContract where
  "example_contract = no_issue\<lparr>ic_local_id := ''PP-TASK-000001'', ic_expected_file_locations := [''src/a.py'', ''./docs/a.md'']\<rparr>"

definition repeated_contract :: IssueContract where
  "repeated_contract = example_contract\<lparr>ic_expected_file_locations := [''src/a.py'', ''./src//a.py'']\<rparr>"

lemma example_contract_ok: "contract_ok example_contract"
  by code_simp

text \<open>A snapshot in which one task waits, a plan with one lane and the profile of its task.\<close>

definition waiting_control :: ControlSnapshot where
  "waiting_control = (example_control [''PP-TASK-000001''])\<lparr>cs_readiness :=
     [\<lparr>td_task_id = ''PP-TASK-000002'', td_state = R_WAITING_DEPENDENCIES, td_ready = False,
       td_unresolved_dependencies = [''PP-TASK-000001''], td_unresolved_blockers = [], td_reasons = [''waiting'']\<rparr>]\<rparr>"

definition idle_profiles :: "SchedulerTaskProfile list" where
  "idle_profiles = [hd example_candidates\<lparr>tp_task_id := ''PP-TASK-000001''\<rparr>]"

definition idle_plan :: SchedulerPlan where
  "idle_plan =
     \<lparr>sp_plan_id = ''SCHED-00000000000000000000'', sp_project_id = ''PROJECT-X'', sp_control_snapshot_id = ''CTRL-00000000000000000000'',
      sp_registry_id = replicate 64 (CHR ''0''),
      sp_backpressure = \<lparr>bd_mode = NORMAL, bd_lane_fraction = 1, bd_admit_new_work = True, bd_reasons = []\<rparr>,
      sp_selection_method = EXACT_BOUNDED, sp_candidate_count = 1, sp_lane_limit = 1,
      sp_lanes = [\<lparr>la_lane_id = ''LANE-00000000000000000000'', la_task_id = ''PP-TASK-000001'', la_rank = 1, la_utility_score = 0,
        la_claims = []\<rparr>],
      sp_conflicts = [], sp_admissions = [], sp_generated_at_utc = Aware 0\<rparr>"

section \<open>Properties\<close>

text \<open>
  C12. From stored tasks to lanes: whenever the facts and their graph are accepted and the issue
  documents are well formed, the kernel returns a snapshot, the bridge returns its profiles and, for
  every valid registry and policy, the scheduler returns a plan.  Its candidates are exactly the ready
  tasks.  Every lane runs a task that is ready in the snapshot, admitted by the
  selection of the repository, with exactly the claims derived from its issue; the tasks it depends on
  are done; and no two lanes hold conflicting claims.
\<close>
theorem snapshot_to_lanes:
  assumes "nx_digraph dg" "nx_graph nx" "is_project_id pid" "task_facts repo s pid = Inr facts"
    "init_BuildSequencer dg facts = Inr sq" "\<forall>i \<in> set issues. contract_ok i" "valid_ResourceRegistrySnapshot registry"
    "case policy of None \<Rightarrow> True | Some b \<Rightarrow> valid_BackpressurePolicy b"
  shows "\<exists>snap profiles p. evaluate isoformat dg repo s pid now = Inr snap \<and> profiles_from_repository issues snap = Inr profiles
     \<and> plan ds nx snap profiles registry signals policy max_lanes later = Inr p
     \<and> sp_candidate_count p = count_if (task_ready facts) facts
     \<and> (\<forall>l \<in> set (sp_lanes p). \<exists>f \<in> set facts. tf_task_id f = la_task_id l \<and> task_ready facts f
          \<and> selected repo (la_task_id l)
          \<and> (\<forall>g \<in> set facts. tf_task_id g \<in> set (tf_dependency_ids f) \<longrightarrow> tf_state g = T_DONE)
          \<and> issue_claims (get_default (contracts_by_id issues) (la_task_id l) no_issue) = Inr (la_claims l))
     \<and> (\<forall>l \<in> set (sp_lanes p). \<forall>m \<in> set (sp_lanes p). la_task_id l \<noteq> la_task_id m \<longrightarrow>
          (\<forall>c \<in> set (la_claims l). \<forall>d \<in> set (la_claims m). \<not> conflicts_with c d))"
proof -
  obtain states where states: "list_task_states s pid = Inr states" using task_facts_states [OF assms(4)] by blast
  note fok = task_facts_ok(1) [OF assms(4) states]
  then have valid: "\<forall>f \<in> set facts. valid_TaskControlFact f" using fact_ok_valid by blast
  obtain snap where snap: "make_ControlSnapshot snap = Inr snap" "build_sequence isoformat dg sq now = Inr (cs_sequence snap)"
    and ev: "evaluate isoformat dg repo s pid now = Inr snap" "cs_project_id snap = pid"
    by (rule evaluate_run [OF assms(1,3,4) states assms(5)])
  have ready: "set (map si_task_id (bq_ordered_ready_work (cs_sequence snap))) = {tf_task_id f | f. f \<in> set facts \<and> task_ready facts f}"
    "distinct (map si_task_id (bq_ordered_ready_work (cs_sequence snap)))"
    and ranks: "map si_rank (bq_ordered_ready_work (cs_sequence snap)) = map int [1..<Suc (length (bq_ordered_ready_work (cs_sequence snap)))]"
    using build_sequence_ready [OF assms(1,5) valid, of isoformat now] snap(2) by (auto simp del: upt_Suc)
  have "\<forall>item \<in> set (bq_ordered_ready_work (cs_sequence snap)). 1 \<le> si_rank item \<and> is_issue_id (si_task_id item)"
    by (rule ready_items [OF ranks ready(1) valid])
  then obtain profiles where pr: "profiles_from_repository issues snap = Inr profiles"
    using profiles_total [OF assms(6)] assms(3) ev(2) by blast
  note prof = profiles_fields [OF pr]
  have cs: "candidates_of snap profiles = profiles" using prof(1) ready(2) by (intro candidates_all) simp_all
  have ok: "plan_inputs_ok snap profiles registry policy"
    using snap(1) ready(2) prof(2) assms(7,8) by (simp add: plan_inputs_ok_def list_all_iff)
  obtain p g sel where p: "plan ds nx snap profiles registry signals policy max_lanes later = Inr p"
    and run: "plan_run ds nx (candidates_of snap profiles) registry signals policy max_lanes later p g sel"
    using plan_total [OF assms(2) ok] by blast
  have "card (set (map si_task_id (bq_ordered_ready_work (cs_sequence snap)))) = length profiles"
    using distinct_card [OF ready(2)] arg_cong [OF prof(1), of length] by simp
  moreover have "card {tf_task_id f | f. f \<in> set facts \<and> task_ready facts f} = length (filter (task_ready facts) facts)"
    using ready_ids_card [OF nx_digraph.init_ok(3) [OF assms(1,5)]] .
  ultimately have count: "sp_candidate_count p = count_if (task_ready facts) facts"
    using plan_runD(4) [OF run] ready(1) by (simp add: cs count_if_def)
  have lane: "\<exists>f \<in> set facts. tf_task_id f = la_task_id l \<and> task_ready facts f \<and> selected repo (la_task_id l)
        \<and> (\<forall>g \<in> set facts. tf_task_id g \<in> set (tf_dependency_ids f) \<longrightarrow> tf_state g = T_DONE)
        \<and> issue_claims (get_default (contracts_by_id issues) (la_task_id l) no_issue) = Inr (la_claims l)"
    if l: "l \<in> set (sp_lanes p)" for l
  proof -
    obtain q where q: "q \<in> set profiles" "tp_task_id q = la_task_id l" "tp_claims q = la_claims l"
      using lane_profile [OF run l] plan_run_selected(2) [OF assms(2) ok run] by blast
    then have "la_task_id l \<in> set (map tp_task_id profiles)" by (metis image_eqI list.set_map)
    then obtain f where f: "f \<in> set facts" "task_ready facts f" "tf_task_id f = la_task_id l" unfolding prof(1) ready(1) by auto
    then have "selected repo (la_task_id l)" using fok by (auto simp: fact_ok_def task_ready_def admissible_def)
    moreover have "\<forall>g \<in> set facts. tf_task_id g \<in> set (tf_dependency_ids f) \<longrightarrow> tf_state g = T_DONE"
      using f(2) by (auto simp: task_ready_def waits_for_def)
    ultimately show ?thesis using f q prof(2) by metis
  qed
  show ?thesis using ev(1) pr p count lane lanes_conflict_free [OF assms(2) ok run] by blast
qed

theorem snapshot_to_lanes_witness:
  "\<exists>snap profiles p. evaluate str_int list_digraph example_repo (example_store T_BACKLOG) ''PROJECT-X'' 0 = Inr snap
     \<and> profiles_from_repository [example_contract] snap = Inr profiles
     \<and> plan \<lparr>ds_exact_candidate_limit = 18, ds_ortools_optimizer = None\<rparr> adjacency_ops snap profiles example_registry None None None 1 = Inr p
     \<and> sp_candidate_count p = 1 \<and> (\<forall>l \<in> set (sp_lanes p). la_task_id l = ''PP-TASK-000001'')"
proof -
  obtain sq where sq: "init_BuildSequencer list_digraph [example_task_fact] = Inr sq" using example_sequencer(1) by blast
  have id: "tf_task_id example_task_fact = ''PP-TASK-000001''" by (simp add: example_task_fact_def example_fact_def)
  have reg: "valid_ResourceRegistrySnapshot example_registry" by code_simp
  have contracts: "\<forall>i \<in> set [example_contract]. contract_ok i" using example_contract_ok by simp
  have policy: "case None of None \<Rightarrow> True | Some b \<Rightarrow> valid_BackpressurePolicy b" by simp
  have count: "count_if (task_ready [example_task_fact]) [example_task_fact] = 1" using example_task_ready by (simp add: count_if_def)
  from snapshot_to_lanes [OF lists.nx_digraph_axioms adjacency.nx_graph_axioms example_project example_task_facts sq contracts reg policy,
      of str_int 0 "\<lparr>ds_exact_candidate_limit = 18, ds_ortools_optimizer = None\<rparr>" None None 1, unfolded count]
  show ?thesis
    apply (elim exE conjE)
    subgoal for snap profiles p
      using id by (intro exI [of _ snap] exI [of _ profiles] exI [of _ p] conjI) auto
    done
qed

text \<open>
  C26. Work done while a lane waits is safe.  A task is chosen exactly when some lane waits and some
  admitted lane is not waiting itself, is not on protected capacity and shares no path with the claims
  of a waiting task; the chosen task is such a lane, the first by rank and identifier.  Recording
  progress raises the count of that task by one and leaves every other receipt as it was.
\<close>
theorem productive_idle_safe:
  assumes "distinct (map tp_task_id profiles)"
    and d: "d = evaluate_productive_idle control p profiles waiting_claims"
    and progress: "apply_productive_idle_progress path_of t d files = (files', d')"
  shows "(pi_selected_task_id d = None \<longleftrightarrow>
        waiting_lane_ids control = [] \<or> (\<forall>q. \<not> may_run_idle control p profiles waiting_claims q))
     \<and> (\<forall>i. pi_selected_task_id d = Some i \<longrightarrow>
          (\<exists>q. may_run_idle control p profiles waiting_claims q \<and> tp_task_id q = i
             \<and> (\<forall>r. may_run_idle control p profiles waiting_claims r \<longrightarrow>
                  (tp_sequence_rank q, i) \<le> (tp_sequence_rank r, tp_task_id r)))
          \<and> pi_progress_count d' = (case map_of files (i @ ''.json'') of None \<Rightarrow> 0 | Some r \<Rightarrow> ir_progress_count r) + 1
          \<and> map_option ir_progress_count (map_of files' (i @ ''.json'')) = Some (pi_progress_count d')
          \<and> (\<forall>f. f \<noteq> i @ ''.json'' \<longrightarrow> map_of files' f = map_of files f))
     \<and> (pi_selected_task_id d = None \<longrightarrow> files' = files \<and> d' = d)"
proof -
  define held where "held = concat (map (\<lambda>i. get_default (case waiting_claims of None \<Rightarrow> [] | Some d \<Rightarrow> d) i []) (waiting_lane_ids control))"
  define cs where "cs = concat (map (\<lambda>j. case j of Inl r \<Rightarrow> [] | Inr q \<Rightarrow> [q])
      (map (idle_candidate (dict_of (map (\<lambda>q. (tp_task_id q, q)) profiles)) (waiting_lane_ids control) held)
        (sorted_set (map la_task_id (sp_lanes p)))))"
  have cs: "set cs = {q. may_run_idle control p profiles waiting_claims q}"
    unfolding cs_def by (rule idle_candidates [OF assms(1) refl held_def])
  let ?k = "\<lambda>q. (tp_sequence_rank q, tp_task_id q)"
  have sel: "pi_selected_task_id d = (if waiting_lane_ids control = [] then None
      else case sort_key ?k cs of [] \<Rightarrow> None | q # _ \<Rightarrow> Some (tp_task_id q))"
    unfolding d evaluate_productive_idle_def Let_def cs_def held_def by (simp split: list.split)
  have none: "pi_selected_task_id d = None \<longleftrightarrow> waiting_lane_ids control = [] \<or> set cs = {}"
    using set_sort [of ?k cs] unfolding sel by (cases "sort_key ?k cs") auto
  have some: "\<exists>q \<in> set cs. tp_task_id q = i \<and> (\<forall>r \<in> set cs. ?k q \<le> ?k r)" if "pi_selected_task_id d = Some i" for i
    using that sort_key_hd [of ?k cs] unfolding sel by (cases "sort_key ?k cs") (auto split: if_splits)
  have rec: "pi_progress_count d' = (case map_of files (i @ ''.json'') of None \<Rightarrow> 0 | Some r \<Rightarrow> ir_progress_count r) + 1
      \<and> map_option ir_progress_count (map_of files' (i @ ''.json'')) = Some (pi_progress_count d')
      \<and> (\<forall>f. f \<noteq> i @ ''.json'' \<longrightarrow> map_of files' f = map_of files f)" if "pi_selected_task_id d = Some i" for i
    using progress that by (auto simp: apply_productive_idle_progress_def Let_def update_conv')
  have keep: "files' = files \<and> d' = d" if "pi_selected_task_id d = None"
    using progress that by (simp add: apply_productive_idle_progress_def)
  show ?thesis using none some rec keep unfolding cs by blast
qed

theorem productive_idle_safe_witness:
  "\<exists>files d. apply_productive_idle_progress id 0 (evaluate_productive_idle waiting_control idle_plan idle_profiles None) [] = (files, d)
     \<and> pi_selected_task_id (evaluate_productive_idle waiting_control idle_plan idle_profiles None) = Some ''PP-TASK-000001''
     \<and> pi_progress_count d = 1"
proof -
  have dist: "distinct (map tp_task_id idle_profiles)" by code_simp
  have sel: "pi_selected_task_id (evaluate_productive_idle waiting_control idle_plan idle_profiles None) = Some ''PP-TASK-000001''"
    by code_simp
  obtain files d where call: "apply_productive_idle_progress id 0 (evaluate_productive_idle waiting_control idle_plan idle_profiles None) []
      = (files, d)" by fastforce
  from productive_idle_safe [OF dist refl call] sel have "pi_progress_count d = 1" by simp
  with call sel show ?thesis by blast
qed

text \<open>
  C25. The claims recovered for a task are those it was planned with: for a profile of a task with an
  issue, recovering the claims gives exactly the claims of the profile.  For a named remote machine
  the two worker slots move to the pools of that machine and every other claim stays the same.
\<close>
theorem recovered_claims_equal:
  assumes "profiles_from_repository issues control = Inr profiles" "q \<in> set profiles"
    "map_of (contracts_by_id issues) (tp_task_id q) = Some issue" "m \<noteq> []" "m \<noteq> ''machine:local''"
  shows "claims_for_task issues (tp_task_id q) None = Inr (tp_claims q)
     \<and> claims_for_task issues (tp_task_id q) (Some ''machine:local'') = Inr (tp_claims q)
     \<and> (\<exists>cpu process. claims_for_task issues (tp_task_id q) (Some m) = Inr (cpu # process # drop 2 (tp_claims q))
          \<and> rc_resource_key cpu = m @ ''/cpu_slots'' \<and> rc_resource_key process = m @ ''/process_slots''
          \<and> rc_machine_id cpu = Some m \<and> rc_machine_id process = Some m)"
proof -
  have q: "valid_SchedulerTaskProfile q" "issue_claims issue = Inr (tp_claims q)"
    using profiles_fields(2) [OF assms(1)] assms(2,3) by (auto simp: get_default_def)
  then have dedup: "dedup_claims [] (tp_claims q) = tp_claims q"
    using distinct_identities by (intro dedup_distinct) (auto simp: valid_SchedulerTaskProfile_def)
  obtain rest where rest: "tp_claims q = slot_claim_of ''machine:local/cpu_slots'' CPU_SLOT ''default worker CPU admission''
      # slot_claim_of ''machine:local/process_slots'' PROCESS_SLOT ''worker process admission'' # rest"
    "\<forall>c \<in> set rest. rc_access_mode c = EXCLUSIVE \<and> rc_resource_type c \<in> {PATH, DATABASE, INFRASTRUCTURE}"
    using issue_claims_shape [OF q(2)] .
  have "map (move_claim m) rest = rest" using rest(2) by (intro map_idI move_claim_exclusive) blast
  then show ?thesis using assms(3-5) q(2) dedup move_slot rest(1)
    by (simp add: claims_for_task_def Let_def move_claim_def slot_claim_of_def)
qed

theorem recovered_claims_equal_witness:
  "\<exists>q. profiles_from_repository [example_contract] (example_control [''PP-TASK-000001'']) = Inr [q]
     \<and> claims_for_task [example_contract] ''PP-TASK-000001'' None = Inr (tp_claims q)"
proof -
  have "list_all (\<lambda>item. 1 \<le> si_rank item \<and> is_issue_id (si_task_id item))
      (bq_ordered_ready_work (cs_sequence (example_control [''PP-TASK-000001''])))" by code_simp
  then obtain qs where qs: "profiles_from_repository [example_contract] (example_control [''PP-TASK-000001'']) = Inr qs"
    using profiles_total [of "[example_contract]" "example_control [''PP-TASK-000001'']"] example_contract_ok example_project
    by (auto simp: list_all_iff example_control_def)
  have "map tp_task_id qs = [''PP-TASK-000001'']" using profiles_fields(1) [OF qs] by (simp add: example_control_def)
  then obtain q where q: "qs = [q]" "tp_task_id q = ''PP-TASK-000001''" by auto
  have c: "map_of (contracts_by_id [example_contract]) (tp_task_id q) = Some example_contract"
    by (simp add: q(2) contracts_by_id_def dict_of_def example_contract_def)
  have "q \<in> set qs" by (simp add: q(1))
  from recovered_claims_equal [OF qs this c, of "''machine:xeon''"] show ?thesis using qs q by simp
qed

text \<open>
  C35. One repeated path stops all scheduling: if the issue of a single ready task names the same file
  location twice, in whatever spelling, no profile is derived for any task of the snapshot, although
  recovering the claims of that very task works and gives each claim once.
\<close>
theorem repeated_location_stops_scheduling:
  assumes "item \<in> set (bq_ordered_ready_work (cs_sequence control))"
    "map_of (contracts_by_id issues) (si_task_id item) = Some issue" "\<not> distinct (declared_paths issue)"
    "issue_claims issue = Inr claims"
  shows "profiles_from_repository issues control = Inl ValidationError
     \<and> (\<exists>cs. claims_for_task issues (si_task_id item) None = Inr cs \<and> distinct (map claim_dedup_key cs)
          \<and> set (map claim_dedup_key cs) = set (map claim_dedup_key claims))"
proof -
  let ?w = "map td_task_id (filter (\<lambda>r. td_state r \<in> set WAITING_STATES) (cs_readiness control))"
  have "profile_of issues control ?w item = Inl ValidationError"
    using assms(2,4) repeated_claims [OF assms(4,3)]
    by (simp add: profile_of_def get_default_def make_SchedulerTaskProfile_def valid_SchedulerTaskProfile_def)
  then obtain e where e: "map_res (profile_of issues control ?w) (bq_ordered_ready_work (cs_sequence control)) = Inl e"
    using map_res_element [OF assms(1)] by blast
  then have "e = ValidationError" using map_res_Inl [OF e] profile_of_error by blast
  moreover have "claims_for_task issues (si_task_id item) None = Inr (dedup_claims [] claims)"
    using assms(2,4) by (simp add: claims_for_task_def)
  ultimately show ?thesis using e dedup_keys [of "[]" claims] by (simp add: profiles_from_repository_def)
qed

theorem repeated_location_stops_scheduling_witness:
  "profiles_from_repository [repeated_contract] (example_control [''PP-TASK-000001'']) = Inl ValidationError
   \<and> (\<exists>cs. claims_for_task [repeated_contract] ''PP-TASK-000001'' None = Inr cs \<and> distinct (map claim_dedup_key cs))"
proof -
  let ?item = "hd (bq_ordered_ready_work (cs_sequence (example_control [''PP-TASK-000001''])))"
  have item: "?item \<in> set (bq_ordered_ready_work (cs_sequence (example_control [''PP-TASK-000001''])))" "si_task_id ?item = ''PP-TASK-000001''"
    by (simp_all add: example_control_def)
  have c: "map_of (contracts_by_id [repeated_contract]) (si_task_id ?item) = Some repeated_contract"
    by (simp add: item(2) contracts_by_id_def dict_of_def repeated_contract_def example_contract_def)
  have rep: "\<not> distinct (declared_paths repeated_contract)" by code_simp
  have "\<not> isl (issue_claims repeated_contract)" by code_simp
  then obtain claims where "issue_claims repeated_contract = Inr claims" by (cases "issue_claims repeated_contract") auto
  from repeated_location_stops_scheduling [OF item(1) c rep this] show ?thesis unfolding item(2) by blast
qed

end
