(* ===== verification/LeaseStore.thy ===== *)
theory LeaseStore
  imports SchedulerResources PyDatetime
begin

text \<open>
  \<open>src/project_pipeline/scheduler/persistence.py\<close>: resource pools, fencing tokens, leases, plans and
  simulations in SQLite.  A table is a list of rows in insertion order (pools and tokens, whose rows
  are only read by primary key, are dictionaries).  A \<open>payload_json\<close> column holds the value that was
  serialised; reading it back validates again (\<open>load_lease\<close>, \<open>load_plan\<close>), so a value that
  \<open>model_copy\<close> made invalid cannot be read.  The time columns are texts and the queries compare
  texts.  The clock is the argument \<open>now\<close>.  \<open>renew_lease\<close> and \<open>release_lease\<close> read outside of the
  transaction that writes; their reading half is a definition of its own.

  The steps of the store form \<open>lease_step\<close>.  In every reachable state no two active leases conflict,
  fencing tokens grow, and pools are not overdrawn.
\<close>

section \<open>Tables\<close>

record LeaseRow =
  lr_lease_id :: string
  lr_task_id :: string
  lr_holder_id :: string
  lr_resource_key :: string
  lr_access_mode :: string
  lr_quantity :: int
  lr_fencing_token :: int
  lr_acquired_at_utc :: string
  lr_expires_at_utc :: string
  lr_released_at_utc :: "string option"
  lr_payload :: ResourceLease

record PlanRow =
  pr_plan_id :: string
  pr_project_id :: string
  pr_control_snapshot_id :: string
  pr_registry_id :: string
  pr_backpressure_mode :: string
  pr_lane_count :: int
  pr_candidate_count :: int
  pr_payload :: SchedulerPlan
  pr_created_at_utc :: string

record SimulationRow =
  sm_simulation_id :: string
  sm_scenario_name :: string
  sm_plan_id :: string
  sm_assertions_passed :: bool
  sm_payload :: SchedulerSimulationResult
  sm_created_at_utc :: string

record SchedulerStore =
  ss_pools :: "(string, ResourcePool) dict"
  ss_tokens :: "(string, int) dict"
  ss_leases :: "LeaseRow list"
  ss_plans :: "PlanRow list"
  ss_simulations :: "SimulationRow list"

definition empty_scheduler_store :: SchedulerStore where
  "empty_scheduler_store = \<lparr>ss_pools = [], ss_tokens = [], ss_leases = [], ss_plans = [], ss_simulations = []\<rparr>"

section \<open>Pools\<close>

definition register_pools :: "ResourcePool list \<Rightarrow> SchedulerStore \<Rightarrow> SchedulerStore" where
  "register_pools pools s =
     s\<lparr>ss_pools := fold (\<lambda>p. AList.update (rp_resource_key p) p) pools (ss_pools s)\<rparr>"

definition ensure_local_pools :: "host_facts \<Rightarrow> SchedulerStore \<Rightarrow> SchedulerStore \<times> ResourcePool list result" where
  "ensure_local_pools host s =
     (case local_resource_pools host of
        Inl e \<Rightarrow> (s, Inl e)
      | Inr pools \<Rightarrow> (register_pools pools s, Inr pools))"

definition ensure_machine_pools :: "ResourcePool list \<Rightarrow> SchedulerStore \<Rightarrow> SchedulerStore \<times> ResourcePool list" where
  "ensure_machine_pools pools s = (register_pools pools s, pools)"

definition list_pools :: "SchedulerStore \<Rightarrow> ResourcePool list result" where
  "list_pools s = map_res (\<lambda>(k, p). make_ResourcePool p) (sort_key fst (ss_pools s))"

section \<open>Reading leases\<close>

definition load_lease :: "ResourceLease \<Rightarrow> ResourceLease result" where
  "load_lease l = res_bind (make_ResourceClaim (rl_claim l)) (\<lambda>c. make_ResourceLease (l\<lparr>rl_claim := c\<rparr>))"

definition active_lease_rows :: "SchedulerStore \<Rightarrow> int \<Rightarrow> LeaseRow list" where
  "active_lease_rows s when =
     sort_key (\<lambda>r. (lr_resource_key r, lr_fencing_token r, lr_lease_id r))
       (filter (\<lambda>r. lr_released_at_utc r = None \<and> utc_isoformat when < lr_expires_at_utc r) (ss_leases s))"

definition list_active_leases :: "SchedulerStore \<Rightarrow> int \<Rightarrow> ResourceLease list result" where
  "list_active_leases s when = map_res (load_lease \<circ> lr_payload) (active_lease_rows s when)"

text \<open>The loop over the leases, with the set of keys seen so far; \<open>ORDER BY ... DESC\<close> is a stable sort.\<close>

definition claim_key :: "ResourceLease \<Rightarrow> string \<times> string \<times> string \<times> int" where
  "claim_key l =
     (resource_type_value (rc_resource_type (rl_claim l)), rc_resource_key (rl_claim l),
      access_mode_value (rc_access_mode (rl_claim l)), rc_quantity (rl_claim l))"

primrec collect_claims ::
  "(string \<times> string \<times> string \<times> int) set \<Rightarrow> ResourceClaim list \<Rightarrow> ResourceLease list \<Rightarrow> ResourceClaim list" where
  "collect_claims seen claims [] = claims"
| "collect_claims seen claims (l # ls) =
     (if claim_key l \<in> seen then collect_claims seen claims ls
      else collect_claims (insert (claim_key l) seen) (claims @ [rl_claim l]) ls)"

definition recover_claims_for_task :: "SchedulerStore \<Rightarrow> string \<Rightarrow> string option \<Rightarrow> ResourceClaim list result" where
  "recover_claims_for_task s task_id holder_id =
     (let rows = rev (sort_key lr_acquired_at_utc (rev (filter (\<lambda>r. lr_task_id r = task_id) (ss_leases s))))
      in if rows = [] then Inr []
         else res_bind (map_res (load_lease \<circ> lr_payload) rows) (\<lambda>leases.
           let same_holder = filter (\<lambda>l. Some (rl_holder_id l) = holder_id) leases
           in Inr (collect_claims {} [] (if \<not> falsy holder_id \<and> same_holder \<noteq> [] then same_holder else leases))))"

definition registry_snapshot ::
  "(int \<Rightarrow> string) \<Rightarrow> host_facts \<Rightarrow> int \<Rightarrow> SchedulerStore \<Rightarrow> SchedulerStore \<times> ResourceRegistrySnapshot result" where
  "registry_snapshot isoformat host when s =
     (case list_pools s of
        Inl e \<Rightarrow> (s, Inl e)
      | Inr pools \<Rightarrow>
          (case (if pools = [] then ensure_local_pools host s else (s, Inr pools)) of
             (s', Inl e) \<Rightarrow> (s', Inl e)
           | (s', Inr pools') \<Rightarrow>
               (s', res_bind (list_active_leases s' when) (\<lambda>leases.
                      registry_create isoformat pools' leases when))))"

section \<open>Acquiring\<close>

definition next_fencing_token :: "string \<Rightarrow> SchedulerStore \<Rightarrow> int \<times> SchedulerStore" where
  "next_fencing_token resource_key s =
     (let token = (case map_of (ss_tokens s) resource_key of None \<Rightarrow> 1 | Some n \<Rightarrow> n + 1)
      in (token, s\<lparr>ss_tokens := AList.update resource_key token (ss_tokens s)\<rparr>))"

definition lease_row :: "ResourceLease \<Rightarrow> LeaseRow" where
  "lease_row l =
     \<lparr>lr_lease_id = rl_lease_id l, lr_task_id = rl_task_id l, lr_holder_id = rl_holder_id l,
      lr_resource_key = rc_resource_key (rl_claim l), lr_access_mode = access_mode_value (rc_access_mode (rl_claim l)),
      lr_quantity = rc_quantity (rl_claim l), lr_fencing_token = rl_fencing_token l,
      lr_acquired_at_utc = utc_isoformat (instant (rl_acquired_at_utc l)),
      lr_expires_at_utc = utc_isoformat (instant (rl_expires_at_utc l)), lr_released_at_utc = None, lr_payload = l\<rparr>"

definition insert_lease :: "ResourceLease \<Rightarrow> SchedulerStore \<Rightarrow> SchedulerStore result" where
  "insert_lease l s =
     (if rl_lease_id l \<in> lr_lease_id ` set (ss_leases s)
      then Inl (IntegrityError ''UNIQUE scheduler_resource_leases.lease_id'')
      else Inr (s\<lparr>ss_leases := ss_leases s @ [lease_row l]\<rparr>))"

definition grant ::
  "string \<Rightarrow> string \<Rightarrow> int \<Rightarrow> int \<Rightarrow> ResourceClaim \<Rightarrow> SchedulerStore \<Rightarrow> (SchedulerStore \<times> ResourceLease) result" where
  "grant task_id holder_id ttl_seconds now claim s =
     (let (token, s') = next_fencing_token (rc_resource_key claim) s
      in res_bind (scheduler_identifier ''LEASE'' [task_id, holder_id, rc_resource_key claim, str_int token]) (\<lambda>lease_id.
         res_bind (lease_expiry now ttl_seconds) (\<lambda>expires.
         res_bind (make_ResourceLease
           \<lparr>rl_lease_id = lease_id, rl_task_id = task_id, rl_holder_id = holder_id, rl_claim = claim,
            rl_fencing_token = token, rl_acquired_at_utc = Aware now, rl_expires_at_utc = Aware expires,
            rl_renewed_at_utc = None, rl_released_at_utc = None\<rparr>) (\<lambda>lease.
         res_bind (insert_lease lease s') (\<lambda>s''. Inr (s'', lease))))))"

definition key_usage :: "string \<Rightarrow> ResourceLease list \<Rightarrow> int" where
  "key_usage key ls = sum_list (map (rc_quantity \<circ> rl_claim) (filter (\<lambda>l. rc_resource_key (rl_claim l) = key) ls))"

definition refusal :: "(string, ResourcePool) dict \<Rightarrow> ResourceLease list \<Rightarrow> ResourceClaim \<Rightarrow> string option" where
  "refusal pools held claim =
     (case map_of pools (rc_resource_key claim) of
        Some pool \<Rightarrow>
          (let used = key_usage (rc_resource_key claim) held
           in if used + rc_quantity claim > allocatable_units pool
              then Some (''capacity:'' @ rc_resource_key claim @ '':'' @ str_int (rc_quantity claim) @ ''>''
                         @ str_int (max 0 (allocatable_units pool - used)))
              else None)
      | None \<Rightarrow>
          (case find (\<lambda>l. conflicts_with claim (rl_claim l)) held of
             Some l \<Rightarrow> Some (''lease:'' @ rc_resource_key claim @ '':held_by:'' @ rl_holder_id l)
           | None \<Rightarrow> None))"

definition same_lease :: "string \<Rightarrow> string \<Rightarrow> ResourceClaim \<Rightarrow> ResourceLease \<Rightarrow> bool" where
  "same_lease task_id holder_id claim l \<longleftrightarrow>
     rl_task_id l = task_id \<and> rl_holder_id l = holder_id \<and> rl_claim l = claim"

fun acquire_loop ::
  "string \<Rightarrow> string \<Rightarrow> int \<Rightarrow> int \<Rightarrow> (string, ResourcePool) dict \<Rightarrow> ResourceLease list
     \<Rightarrow> SchedulerStore \<Rightarrow> ResourceLease list \<Rightarrow> ResourceClaim list
     \<Rightarrow> (SchedulerStore \<times> ResourceLease list \<times> string list) result" where
  "acquire_loop task_id holder_id ttl now pools active s created [] = Inr (s, created, [])"
| "acquire_loop task_id holder_id ttl now pools active s created (claim # claims) =
     (case find (same_lease task_id holder_id claim) active of
        Some l \<Rightarrow> acquire_loop task_id holder_id ttl now pools active s (created @ [l]) claims
      | None \<Rightarrow>
          (case refusal pools (active @ created) claim of
             Some reason \<Rightarrow> Inr (s, created, [reason])
           | None \<Rightarrow>
               res_bind (grant task_id holder_id ttl now claim s) (\<lambda>(s', lease).
                 acquire_loop task_id holder_id ttl now pools active s' (created @ [lease]) claims)))"

definition acquire_body ::
  "string \<Rightarrow> string \<Rightarrow> ResourceClaim list \<Rightarrow> int \<Rightarrow> int \<Rightarrow> SchedulerStore
     \<Rightarrow> (SchedulerStore \<times> ResourceLease list \<times> string list) result" where
  "acquire_body task_id holder_id claims ttl_seconds now s =
     res_bind (list_pools s) (\<lambda>pools.
     res_bind (list_active_leases s now) (\<lambda>active.
       acquire_loop task_id holder_id ttl_seconds now (pools_by_key pools) active s [] claims))"

definition acquire_bundle ::
  "string \<Rightarrow> string \<Rightarrow> ResourceClaim list \<Rightarrow> int \<Rightarrow> int \<Rightarrow> SchedulerStore \<Rightarrow> SchedulerStore \<times> LeaseBundle result" where
  "acquire_bundle task_id holder_id claims ttl_seconds now s =
     (let bundle = (\<lambda>leases acquired reasons. make_LeaseBundle
            \<lparr>lb_task_id = task_id, lb_holder_id = holder_id, lb_leases = leases, lb_acquired = acquired,
             lb_reasons = reasons\<rparr>)
      in if claims = [] then (s, bundle [] False [''no_resource_claims''])
         else case acquire_body task_id holder_id claims ttl_seconds now s of
                Inl e \<Rightarrow> (s, Inl e)
              | Inr (s', created, reasons) \<Rightarrow>
                  if reasons \<noteq> [] then (s, bundle [] False reasons) else (s', bundle created True []))"

section \<open>Renewing and releasing\<close>

definition find_lease :: "string \<Rightarrow> SchedulerStore \<Rightarrow> ResourceLease result" where
  "find_lease lease_id s =
     (case find (\<lambda>r. lr_lease_id r = lease_id) (ss_leases s) of
        None \<Rightarrow> Inl (KeyError (''unknown lease: '' @ lease_id))
      | Some r \<Rightarrow> load_lease (lr_payload r))"

definition update_row :: "string \<Rightarrow> (LeaseRow \<Rightarrow> LeaseRow) \<Rightarrow> SchedulerStore \<Rightarrow> SchedulerStore" where
  "update_row lease_id f s =
     s\<lparr>ss_leases := map (\<lambda>r. if lr_lease_id r = lease_id then f r else r) (ss_leases s)\<rparr>"

definition renew_read :: "string \<Rightarrow> string \<Rightarrow> int \<Rightarrow> int \<Rightarrow> int \<Rightarrow> SchedulerStore \<Rightarrow> ResourceLease result" where
  "renew_read lease_id holder_id fencing_token ttl_seconds now s =
     res_bind (find_lease lease_id s) (\<lambda>lease.
       if rl_released_at_utc lease \<noteq> None \<or> instant (rl_expires_at_utc lease) \<le> now
       then Inl (ValueError ''expired or released lease cannot be renewed'')
       else if rl_holder_id lease \<noteq> holder_id \<or> rl_fencing_token lease \<noteq> fencing_token
       then Inl (ValueError ''lease renewal rejected by holder/fencing-token check'')
       else res_bind (add_seconds now ttl_seconds) (\<lambda>expires.
         Inr (lease\<lparr>rl_renewed_at_utc := Some (Aware now), rl_expires_at_utc := Aware expires\<rparr>)))"

definition renew_write :: "string \<Rightarrow> ResourceLease \<Rightarrow> SchedulerStore \<Rightarrow> SchedulerStore" where
  "renew_write lease_id renewed =
     update_row lease_id (\<lambda>r. r\<lparr>lr_expires_at_utc := utc_isoformat (instant (rl_expires_at_utc renewed)),
                                lr_payload := renewed\<rparr>)"

definition renew_lease ::
  "string \<Rightarrow> string \<Rightarrow> int \<Rightarrow> int \<Rightarrow> int \<Rightarrow> SchedulerStore \<Rightarrow> SchedulerStore \<times> ResourceLease result" where
  "renew_lease lease_id holder_id fencing_token ttl_seconds now s =
     (case renew_read lease_id holder_id fencing_token ttl_seconds now s of
        Inl e \<Rightarrow> (s, Inl e)
      | Inr renewed \<Rightarrow> (renew_write lease_id renewed s, Inr renewed))"

definition release_read :: "string \<Rightarrow> string \<Rightarrow> int \<Rightarrow> SchedulerStore \<Rightarrow> ResourceLease result" where
  "release_read lease_id holder_id fencing_token s =
     res_bind (find_lease lease_id s) (\<lambda>lease.
       if rl_holder_id lease \<noteq> holder_id \<or> rl_fencing_token lease \<noteq> fencing_token
       then Inl (ValueError ''lease release rejected by holder/fencing-token check'')
       else Inr lease)"

definition release_write :: "string \<Rightarrow> int \<Rightarrow> ResourceLease \<Rightarrow> SchedulerStore \<Rightarrow> SchedulerStore" where
  "release_write lease_id now released =
     update_row lease_id (\<lambda>r. r\<lparr>lr_released_at_utc := Some (utc_isoformat now), lr_payload := released\<rparr>)"

definition release_lease ::
  "string \<Rightarrow> string \<Rightarrow> int \<Rightarrow> int \<Rightarrow> SchedulerStore \<Rightarrow> SchedulerStore \<times> ResourceLease result" where
  "release_lease lease_id holder_id fencing_token now s =
     (case release_read lease_id holder_id fencing_token s of
        Inl e \<Rightarrow> (s, Inl e)
      | Inr lease \<Rightarrow>
          if rl_released_at_utc lease \<noteq> None then (s, Inr lease)
          else let released = lease\<lparr>rl_released_at_utc := Some (Aware now)\<rparr>
               in (release_write lease_id now released s, Inr released))"

section \<open>Plans and simulations\<close>

definition plan_row :: "SchedulerPlan \<Rightarrow> PlanRow" where
  "plan_row p =
     \<lparr>pr_plan_id = sp_plan_id p, pr_project_id = sp_project_id p,
      pr_control_snapshot_id = sp_control_snapshot_id p, pr_registry_id = sp_registry_id p,
      pr_backpressure_mode = backpressure_mode_value (bd_mode (sp_backpressure p)),
      pr_lane_count = int (length (sp_lanes p)), pr_candidate_count = sp_candidate_count p, pr_payload = p,
      pr_created_at_utc = utc_isoformat (instant (sp_generated_at_utc p))\<rparr>"

definition save_plan :: "SchedulerPlan \<Rightarrow> SchedulerStore \<Rightarrow> SchedulerStore" where
  "save_plan p s =
     s\<lparr>ss_plans := filter (\<lambda>r. pr_plan_id r \<noteq> sp_plan_id p) (ss_plans s) @ [plan_row p]\<rparr>"

definition load_lane :: "LaneAssignment \<Rightarrow> LaneAssignment result" where
  "load_lane l = res_bind (map_res make_ResourceClaim (la_claims l)) (\<lambda>cs. make_LaneAssignment (l\<lparr>la_claims := cs\<rparr>))"

definition load_plan :: "SchedulerPlan \<Rightarrow> SchedulerPlan result" where
  "load_plan p =
     res_bind (make_BackpressureDecision (sp_backpressure p)) (\<lambda>b.
     res_bind (map_res load_lane (sp_lanes p)) (\<lambda>ls.
     res_bind (map_res make_ConflictEdge (sp_conflicts p)) (\<lambda>es.
     res_bind (map_res make_AdmissionDecision (sp_admissions p)) (\<lambda>ds.
       make_SchedulerPlan (p\<lparr>sp_backpressure := b, sp_lanes := ls, sp_conflicts := es, sp_admissions := ds\<rparr>)))))"

definition latest_plan :: "SchedulerStore \<Rightarrow> string \<Rightarrow> SchedulerPlan option result" where
  "latest_plan s project_id =
     (case rev (sort_key (\<lambda>r. (pr_created_at_utc r, pr_plan_id r))
                  (filter (\<lambda>r. pr_project_id r = project_id) (ss_plans s))) of
        [] \<Rightarrow> Inr None
      | r # _ \<Rightarrow> res_bind (load_plan (pr_payload r)) (\<lambda>p. Inr (Some p)))"

definition save_simulation :: "SchedulerSimulationResult \<Rightarrow> SchedulerStore \<Rightarrow> SchedulerStore" where
  "save_simulation r s =
     s\<lparr>ss_simulations := filter (\<lambda>q. sm_simulation_id q \<noteq> sr_simulation_id r) (ss_simulations s)
        @ [\<lparr>sm_simulation_id = sr_simulation_id r, sm_scenario_name = sr_scenario_name r,
            sm_plan_id = sp_plan_id (sr_plan r), sm_assertions_passed = sr_assertions_passed r, sm_payload = r,
            sm_created_at_utc = utc_isoformat (instant (sp_generated_at_utc (sr_plan r)))\<rparr>]\<rparr>"

record store_status =
  sy_project_id :: string
  sy_plan_count :: int
  sy_latest_plan_id :: "string option"
  sy_latest_lane_count :: int
  sy_backpressure_mode :: "string option"
  sy_resource_pool_count :: int
  sy_active_lease_count :: int

definition scheduler_status :: "SchedulerStore \<Rightarrow> string \<Rightarrow> int \<Rightarrow> store_status result" where
  "scheduler_status s project_id now =
     res_bind (list_active_leases s now) (\<lambda>active.
     res_bind (latest_plan s project_id) (\<lambda>latest.
     res_bind (list_pools s) (\<lambda>pools.
       Inr \<lparr>sy_project_id = project_id,
            sy_plan_count = int (length (filter (\<lambda>r. pr_project_id r = project_id) (ss_plans s))),
            sy_latest_plan_id = map_option sp_plan_id latest,
            sy_latest_lane_count = (case latest of None \<Rightarrow> 0 | Some p \<Rightarrow> int (length (sp_lanes p))),
            sy_backpressure_mode = map_option (backpressure_mode_value \<circ> bd_mode \<circ> sp_backpressure) latest,
            sy_resource_pool_count = int (length pools), sy_active_lease_count = int (length active)\<rparr>)))"

end
