(* ===== verification/LeaseSafety.thy ===== *)
theory LeaseSafety
  imports LeaseStore
begin

text \<open>
  Safety of the lease store.  \<open>lease_step\<close> has a rule for every operation that writes; a state is the
  time of the last operation together with the store, and clocks do not run backwards.  The invariant
  \<open>lease_inv\<close> relates the text columns to the stored payloads, orders the fencing tokens and keeps
  the claims of the active leases apart; the properties follow from it by rule induction.
\<close>

section \<open>What is held\<close>

definition row_active :: "int \<Rightarrow> LeaseRow \<Rightarrow> bool" where
  "row_active t r \<longleftrightarrow> lr_released_at_utc r = None \<and> utc_isoformat t < lr_expires_at_utc r"

abbreviation row_claim :: "LeaseRow \<Rightarrow> ResourceClaim" where
  "row_claim r \<equiv> rl_claim (lr_payload r)"

definition held_claims :: "int \<Rightarrow> SchedulerStore \<Rightarrow> ResourceClaim list" where
  "held_claims t s = map row_claim (filter (row_active t) (ss_leases s))"

definition stable_claim :: "ResourceClaim \<Rightarrow> bool" where
  "stable_claim c \<longleftrightarrow> make_ResourceClaim c = Inr c"

definition pooled :: "SchedulerStore \<Rightarrow> ResourceClaim \<Rightarrow> bool" where
  "pooled s c \<longleftrightarrow> map_of (ss_pools s) (rc_resource_key c) \<noteq> None"

definition compatible_in :: "SchedulerStore \<Rightarrow> ResourceClaim \<Rightarrow> ResourceClaim \<Rightarrow> bool" where
  "compatible_in s c d \<longleftrightarrow> pooled s c \<or> pooled s d \<or> \<not> conflicts_with c d"

definition within_pools :: "SchedulerStore \<Rightarrow> ResourceClaim list \<Rightarrow> bool" where
  "within_pools s cs \<longleftrightarrow>
     (\<forall>key pool. map_of (ss_pools s) key = Some pool \<longrightarrow> claimed key cs \<le> allocatable_units pool)"

section \<open>Steps\<close>

inductive lease_step :: "bool \<Rightarrow> int \<times> SchedulerStore \<Rightarrow> int \<times> SchedulerStore \<Rightarrow> bool" for roomy where
  acquire: "lease_step roomy (t, s) (now, fst (acquire_bundle task_id holder_id claims ttl now s))"
  if "t \<le> now" "valid_instant now" "list_all stable_claim claims"
| renew: "lease_step roomy (t, s) (now, fst (renew_lease lease_id holder_id token ttl now s))"
  if "t \<le> now" "valid_instant now" "0 < ttl"
| release: "lease_step roomy (t, s) (now, fst (release_lease lease_id holder_id token now s))"
  if "t \<le> now" "valid_instant now"
| register: "lease_step roomy (t, s) (t, register_pools pools s)"
  if "list_all valid_ResourcePool pools" "roomy \<Longrightarrow> within_pools (register_pools pools s) (held_claims t s)"
| snapshot: "lease_step roomy (t, s) (now, fst (registry_snapshot isoformat host now s))"
  if "t \<le> now" "valid_instant now"
    "roomy \<Longrightarrow> within_pools (fst (registry_snapshot isoformat host now s)) (held_claims t s)"
| plan: "lease_step roomy (t, s) (t, save_plan p s)"
| simulation: "lease_step roomy (t, s) (t, save_simulation r s)"

section \<open>The invariant\<close>

definition row_ok :: "int \<Rightarrow> LeaseRow \<Rightarrow> bool" where
  "row_ok t r \<longleftrightarrow>
     lr_lease_id r = rl_lease_id (lr_payload r) \<and> lr_task_id r = rl_task_id (lr_payload r)
     \<and> lr_holder_id r = rl_holder_id (lr_payload r) \<and> lr_resource_key r = rc_resource_key (row_claim r)
     \<and> lr_fencing_token r = rl_fencing_token (lr_payload r)
     \<and> stable_claim (row_claim r) \<and> valid_ResourceLease (lr_payload r)
     \<and> instant (rl_acquired_at_utc (lr_payload r)) \<le> t
     \<and> valid_instant (instant (rl_expires_at_utc (lr_payload r)))
     \<and> lr_expires_at_utc r = utc_isoformat (instant (rl_expires_at_utc (lr_payload r)))
     \<and> (lr_released_at_utc r = None \<longleftrightarrow> rl_released_at_utc (lr_payload r) = None)"

definition pools_ok :: "SchedulerStore \<Rightarrow> bool" where
  "pools_ok s \<longleftrightarrow> distinct (map fst (ss_pools s))
     \<and> (\<forall>(k, p) \<in> set (ss_pools s). rp_resource_key p = k \<and> valid_ResourcePool p)"

definition tokens_ok :: "SchedulerStore \<Rightarrow> bool" where
  "tokens_ok s \<longleftrightarrow>
     sorted_wrt (\<lambda>r q. lr_resource_key r = lr_resource_key q \<longrightarrow> lr_fencing_token r < lr_fencing_token q) (ss_leases s)
     \<and> (\<forall>r \<in> set (ss_leases s). \<exists>n. map_of (ss_tokens s) (lr_resource_key r) = Some n \<and> lr_fencing_token r \<le> n)
     \<and> (\<forall>n \<in> snd ` set (ss_tokens s). 1 \<le> n)"

definition rows_inv :: "int \<Rightarrow> SchedulerStore \<Rightarrow> bool" where
  "rows_inv t s \<longleftrightarrow> valid_instant t \<and> list_all (row_ok t) (ss_leases s)
     \<and> distinct (map lr_lease_id (ss_leases s)) \<and> pools_ok s \<and> tokens_ok s"

definition lease_inv :: "int \<Rightarrow> SchedulerStore \<Rightarrow> bool" where
  "lease_inv t s \<longleftrightarrow> rows_inv t s \<and> sorted_wrt (compatible_in s) (held_claims t s)"

lemma load_lease_stable: "stable_claim (rl_claim l) \<Longrightarrow> valid_ResourceLease l \<Longrightarrow> load_lease l = Inr l"
  by (simp add: load_lease_def stable_claim_def make_ResourceLease_def)

lemma load_lease_valid:
  assumes "load_lease l = Inr l'" "stable_claim (rl_claim l)" shows "l' = l" "valid_ResourceLease l"
  using assms by (auto simp: load_lease_def stable_claim_def make_ResourceLease_def split: if_splits)

lemma row_active_iff:
  assumes "row_ok t r" "valid_instant u"
  shows "row_active u r \<longleftrightarrow> active_at (lr_payload r) u"
  using assms isoformat_less [of u "instant (rl_expires_at_utc (lr_payload r))"]
  by (auto simp: row_ok_def row_active_def active_at_def)

lemma list_active_leases_eq:
  assumes "rows_inv t s"
  shows "\<exists>ls. list_active_leases s now = Inr ls \<and> mset ls = mset (map lr_payload (filter (row_active now) (ss_leases s)))"
proof -
  let ?rows = "active_lease_rows s now"
  have rows: "mset ?rows = mset (filter (row_active now) (ss_leases s))"
    by (simp add: active_lease_rows_def row_active_def [abs_def])
  have "set ?rows \<subseteq> set (ss_leases s)" using mset_eq_setD [OF rows] by auto
  then have "map_res (load_lease \<circ> lr_payload) ?rows = Inr (map lr_payload ?rows)"
    using assms by (intro map_res_total) (auto simp: rows_inv_def list_all_iff row_ok_def intro!: load_lease_stable)
  then show ?thesis using rows by (simp add: list_active_leases_def)
qed

lemma list_pools_eq:
  assumes "pools_ok s"
  shows "\<exists>ps. list_pools s = Inr ps \<and> (\<forall>key. map_of (pools_by_key ps) key = map_of (ss_pools s) key)"
proof -
  let ?ps = "sort_key fst (ss_pools s)"
  have "list_pools s = Inr (map snd ?ps)" unfolding list_pools_def
    using assms by (intro map_res_total) (auto simp: pools_ok_def make_ResourcePool_def)
  moreover have "map (\<lambda>p. (rp_resource_key p, p)) (map snd ?ps) = ?ps"
    using assms by (auto simp: pools_ok_def intro!: map_idI)
  moreover have "map_of (dict_of ?ps) = map_of (ss_pools s)"
    using assms by (simp add: dict_of_distinct pools_ok_def distinct_map_sort_key map_of_inject_set)
  ultimately show ?thesis by (auto simp: pools_by_key_def)
qed

text \<open>Changing rows so that claims stay and no row becomes active leaves less held.\<close>

lemma held_shrinks:
  assumes "\<forall>r \<in> set rows. g (f r) = g r \<and> (P' (f r) \<longrightarrow> P r)"
  shows "subseq (map g (filter P' (map f rows))) (map g (filter P rows))"
  using assms by (induction rows) auto

lemma claimed_subseq: "subseq cs ds \<Longrightarrow> \<forall>c \<in> set ds. 0 \<le> rc_quantity c \<Longrightarrow> claimed key cs \<le> claimed key ds"
  by (induction rule: list_emb.induct) (auto intro: claimed_nonneg)

lemma stable_claim_quantity: "stable_claim c \<Longrightarrow> 0 \<le> rc_quantity c"
  by (auto simp: stable_claim_def make_ResourceClaim_def split: if_splits)

lemma claimed_submset:
  assumes "mset cs \<subseteq># mset ds" "\<forall>c \<in> set ds. 0 \<le> rc_quantity c"
  shows "claimed key cs \<le> claimed key ds"
proof -
  obtain C where "mset ds = mset cs + C" using assms(1) by (auto simp: mset_subset_eq_exists_conv)
  moreover obtain ys where "mset ys = C" using ex_mset by blast
  ultimately have m: "mset ds = mset (cs @ ys)" by simp
  have "0 \<le> claimed key ys" using assms(2) mset_eq_setD [OF m] by (intro claimed_nonneg) auto
  then show ?thesis using claimed_mset [OF m] by simp
qed

lemma rows_inv_later: "rows_inv t s \<Longrightarrow> t \<le> now \<Longrightarrow> valid_instant now \<Longrightarrow> rows_inv now s"
  by (auto simp: rows_inv_def list_all_iff row_ok_def)

lemma held_later:
  assumes "rows_inv t s" "t \<le> now" "valid_instant now"
  shows "subseq (held_claims now s) (held_claims t s)"
proof -
  have "row_active t r" if "r \<in> set (ss_leases s)" "row_active now r" for r
    using assms that row_active_iff [of t r t] row_active_iff [of t r now]
    by (auto simp: rows_inv_def list_all_iff active_at_def)
  then show ?thesis using held_shrinks [of "ss_leases s" row_claim id "row_active now" "row_active t"]
    by (simp add: held_claims_def)
qed

section \<open>Granting\<close>

lemma grantD:
  assumes "grant task_id holder_id ttl now claim s = Inr (s', l)"
  obtains expires where
    "rl_claim l = claim" "rl_task_id l = task_id" "rl_holder_id l = holder_id" "rl_acquired_at_utc l = Aware now"
    "rl_expires_at_utc l = Aware expires" "valid_instant expires" "now < expires" "rl_released_at_utc l = None"
    "rl_fencing_token l = (case map_of (ss_tokens s) (rc_resource_key claim) of None \<Rightarrow> 1 | Some n \<Rightarrow> n + 1)"
    "valid_ResourceLease l" "rl_lease_id l \<notin> lr_lease_id ` set (ss_leases s)"
    "s' = s\<lparr>ss_tokens := AList.update (rc_resource_key claim) (rl_fencing_token l) (ss_tokens s),
            ss_leases := ss_leases s @ [lease_row l]\<rparr>"
proof -
  let ?token = "case map_of (ss_tokens s) (rc_resource_key claim) of None \<Rightarrow> 1 | Some n \<Rightarrow> n + 1"
  obtain lid e where "lease_expiry now ttl = Inr e" and l: "valid_ResourceLease l"
    "l = \<lparr>rl_lease_id = lid, rl_task_id = task_id, rl_holder_id = holder_id, rl_claim = claim,
            rl_fencing_token = ?token, rl_acquired_at_utc = Aware now, rl_expires_at_utc = Aware e,
            rl_renewed_at_utc = None, rl_released_at_utc = None\<rparr>"
    and ins: "insert_lease l (s\<lparr>ss_tokens := AList.update (rc_resource_key claim) ?token (ss_tokens s)\<rparr>) = Inr s'"
    using assms
    by (auto simp: grant_def next_fencing_token_def Let_def make_ResourceLease_def split: if_splits)
  then have "valid_instant e" by (auto simp: lease_expiry_def add_seconds_def split: if_splits)
  moreover have "now < e" using l by (simp add: valid_ResourceLease_def)
  ultimately show ?thesis using that [of e] l ins by (auto simp: insert_lease_def split: if_splits)
qed

lemma grant_rows_inv:
  assumes g: "grant task_id holder_id ttl now claim s = Inr (s', l)" and inv: "rows_inv now s" and st: "stable_claim claim"
  shows "rows_inv now s'"
    and "held_claims now s' = held_claims now s @ [claim]"
    and "ss_pools s' = ss_pools s"
proof -
  obtain e where l: "rl_claim l = claim" "rl_acquired_at_utc l = Aware now" "rl_expires_at_utc l = Aware e"
    "valid_instant e" "now < e" "rl_released_at_utc l = None"
    "rl_fencing_token l = (case map_of (ss_tokens s) (rc_resource_key claim) of None \<Rightarrow> 1 | Some n \<Rightarrow> n + 1)"
    "valid_ResourceLease l" "rl_lease_id l \<notin> lr_lease_id ` set (ss_leases s)"
    "s' = s\<lparr>ss_tokens := AList.update (rc_resource_key claim) (rl_fencing_token l) (ss_tokens s),
            ss_leases := ss_leases s @ [lease_row l]\<rparr>" using grantD [OF g] by metis
  have row: "row_ok now (lease_row l)" "lr_resource_key (lease_row l) = rc_resource_key claim"
    "lr_fencing_token (lease_row l) = rl_fencing_token l"
    using l st by (simp_all add: row_ok_def lease_row_def)
  have tok: "tokens_ok s" using inv by (simp add: rows_inv_def)
  have "1 \<le> rl_fencing_token l" using l(8) by (simp add: valid_ResourceLease_def)
  moreover have "snd ` set (AList.update k v ts) \<subseteq> insert v (snd ` set ts)" for k v and ts :: "(string, int) dict"
    by (induction ts) auto
  ultimately have "tokens_ok s'"
    using tok l(7) row(2,3) unfolding tokens_ok_def l(10)
    by (fastforce simp: sorted_wrt_append update_conv' split: option.splits)
  then show "rows_inv now s'"
    using inv l(9,10) row(1) by (auto simp: rows_inv_def pools_ok_def lease_row_def)
  have "row_active now (lease_row l)"
    using row_active_iff [OF row(1)] inv l(3,5,6) by (simp add: rows_inv_def active_at_def lease_row_def)
  then show "held_claims now s' = held_claims now s @ [claim]"
    using l(1) by (simp add: held_claims_def l(10) lease_row_def)
  show "ss_pools s' = ss_pools s" by (simp add: l(10))
qed

lemma key_usage_claimed: "key_usage key ls = claimed key (map rl_claim ls)"
  by (induction ls) (simp_all add: key_usage_def)

text \<open>A claim that is not refused fits beside everything held.\<close>

lemma refusal_None:
  assumes none: "refusal pools ls claim = None" and pools: "\<forall>key. map_of pools key = map_of (ss_pools s) key"
    and sub: "mset held \<subseteq># mset (map rl_claim ls)" and st: "\<forall>l \<in> set ls. stable_claim (rl_claim l)"
  shows "sorted_wrt (compatible_in s) held \<Longrightarrow> sorted_wrt (compatible_in s) (held @ [claim])"
    and "within_pools s held \<Longrightarrow> within_pools s (held @ [claim])"
proof -
  have in_ls: "\<exists>l \<in> set ls. c = rl_claim l" if "c \<in> set held" for c
    using set_mset_mono [OF sub] that by auto
  have "compatible_in s c claim" if c: "c \<in> set held" for c
  proof (cases "pooled s claim")
    case False
    then have "\<not> conflicts_with claim c"
      using none pools in_ls [OF c]
      by (auto simp: refusal_def pooled_def find_None_iff split: option.splits)
    then show ?thesis by (simp add: compatible_in_def conflicts_with_sym)
  qed (simp add: compatible_in_def)
  then show "sorted_wrt (compatible_in s) held \<Longrightarrow> sorted_wrt (compatible_in s) (held @ [claim])"
    by (simp add: sorted_wrt_append)
  show "within_pools s (held @ [claim])" if w: "within_pools s held"
    unfolding within_pools_def
  proof (intro allI impI)
    fix key pool assume p: "map_of (ss_pools s) key = Some pool"
    have "claimed key held \<le> key_usage key ls"
      unfolding key_usage_claimed using st stable_claim_quantity by (intro claimed_submset [OF sub]) auto
    then have "claimed key held + rc_quantity claim \<le> allocatable_units pool" if "rc_resource_key claim = key"
      using none pools p that by (auto simp: refusal_def Let_def split: if_splits)
    then show "claimed key (held @ [claim]) \<le> allocatable_units pool"
      using w p by (auto simp: within_pools_def)
  qed
qed

lemma acquire_loop_inv:
  assumes "acquire_loop task_id holder_id ttl now pools active s created claims = Inr (s', created', reasons)"
    and "\<forall>key. map_of pools key = map_of (ss_pools s) key" and "list_all stable_claim claims"
    and "rows_inv now s" and "mset (held_claims now s) \<subseteq># mset (map rl_claim (active @ created))"
    and "\<forall>l \<in> set (active @ created). stable_claim (rl_claim l)"
  shows "rows_inv now s' \<and> ss_pools s' = ss_pools s
     \<and> (sorted_wrt (compatible_in s) (held_claims now s) \<longrightarrow> sorted_wrt (compatible_in s') (held_claims now s'))
     \<and> (within_pools s (held_claims now s) \<longrightarrow> within_pools s' (held_claims now s'))"
  using assms
proof (induction claims arbitrary: s created)
  case (Cons claim claims)
  show ?case
  proof (cases "find (same_lease task_id holder_id claim) active")
    case (Some l)
    then have l: "l \<in> set active" by (auto simp: find_Some_iff)
    have loop: "acquire_loop task_id holder_id ttl now pools active s (created @ [l]) claims = Inr (s', created', reasons)"
      using Cons.prems(1) Some by simp
    show ?thesis using Cons.prems(2-6) l
      by (intro Cons.IH [OF loop]) (auto intro: subset_mset.order_trans)
  next
    case None
    show ?thesis
    proof (cases "refusal pools (active @ created) claim")
      case (Some r)
      then show ?thesis using Cons.prems None by simp
    next
      case noref: None
      then obtain s1 l where g: "grant task_id holder_id ttl now claim s = Inr (s1, l)"
        and loop: "acquire_loop task_id holder_id ttl now pools active s1 (created @ [l]) claims = Inr (s', created', reasons)"
        using Cons.prems(1) None by auto
      have st: "stable_claim claim" using Cons.prems(3) by simp
      note g1 = grant_rows_inv [OF g Cons.prems(4) st]
      have lc: "rl_claim l = claim" using grantD [OF g] by metis
      have same: "compatible_in s1 = compatible_in s" "within_pools s1 = within_pools s"
        using g1(3) by (auto simp: compatible_in_def pooled_def within_pools_def fun_eq_iff)
      note ref = refusal_None [OF noref Cons.prems(2) Cons.prems(5) Cons.prems(6)]
      have "rows_inv now s' \<and> ss_pools s' = ss_pools s1
        \<and> (sorted_wrt (compatible_in s1) (held_claims now s1) \<longrightarrow> sorted_wrt (compatible_in s') (held_claims now s'))
        \<and> (within_pools s1 (held_claims now s1) \<longrightarrow> within_pools s' (held_claims now s'))"
        using Cons.prems(2,3,5,6) g1 lc st by (intro Cons.IH [OF loop]) auto
      then show ?thesis using ref g1(2,3) unfolding same by auto
    qed
  qed
qed simp

section \<open>Every step keeps the invariant\<close>

lemma acquire_bundle_inv:
  assumes inv: "rows_inv now s" and st: "list_all stable_claim claims"
    and s': "s' = fst (acquire_bundle task_id holder_id claims ttl now s)"
  shows "rows_inv now s' \<and> ss_pools s' = ss_pools s
     \<and> (sorted_wrt (compatible_in s) (held_claims now s) \<longrightarrow> sorted_wrt (compatible_in s') (held_claims now s'))
     \<and> (within_pools s (held_claims now s) \<longrightarrow> within_pools s' (held_claims now s'))"
proof -
  obtain ps where ps: "list_pools s = Inr ps" "\<forall>key. map_of (pools_by_key ps) key = map_of (ss_pools s) key"
    using list_pools_eq inv unfolding rows_inv_def by blast
  obtain ls where ls: "list_active_leases s now = Inr ls"
    "mset ls = mset (map lr_payload (filter (row_active now) (ss_leases s)))" using list_active_leases_eq [OF inv] by blast
  have held: "mset (held_claims now s) \<subseteq># mset (map rl_claim (ls @ []))"
    using ls(2) by (simp add: held_claims_def multiset.map_comp comp_def)
  have "\<forall>l \<in> set (ls @ []). stable_claim (rl_claim l)"
    using mset_eq_setD [OF ls(2)] inv by (auto simp: rows_inv_def list_all_iff row_ok_def)
  note loop = acquire_loop_inv [OF _ ps(2) st inv held this]
  consider "s' = s" | s1 created where
    "acquire_loop task_id holder_id ttl now (pools_by_key ps) ls s [] claims = Inr (s1, created, [])" "s' = s1"
    using s' ps(1) ls(1)
    by (auto simp: acquire_bundle_def acquire_body_def Let_def split: if_splits sum.splits)
  then show ?thesis
  proof cases
    case 1
    then show ?thesis using inv by simp
  next
    case 2
    then show ?thesis using loop [OF 2(1)] by simp
  qed
qed

lemma find_leaseD:
  assumes "find_lease lid s = Inr l" "rows_inv t s"
  obtains r where "r \<in> set (ss_leases s)" "lr_lease_id r = lid" "l = lr_payload r"
proof -
  obtain r where r: "find (\<lambda>r. lr_lease_id r = lid) (ss_leases s) = Some r" "load_lease (lr_payload r) = Inr l"
    using assms(1) by (auto simp: find_lease_def split: option.splits)
  have "r \<in> set (ss_leases s)" "lr_lease_id r = lid" using r(1) by (auto simp: find_Some_iff)
  moreover have "load_lease (lr_payload r) = Inr (lr_payload r)"
    using calculation(1) assms(2) by (intro load_lease_stable) (auto simp: rows_inv_def list_all_iff row_ok_def)
  ultimately show ?thesis using that r(2) by simp
qed

text \<open>
  An update of one row that keeps its identity and its claim, leaves it well-formed and does not make
  it active.
\<close>

lemma update_row_inv:
  assumes inv: "rows_inv now s" and r: "r \<in> set (ss_leases s)" "lr_lease_id r = lid"
    and ok: "row_ok now (f r)" "lr_lease_id (f r) = lid" "row_claim (f r) = row_claim r"
      "lr_fencing_token (f r) = lr_fencing_token r" "row_active now (f r) \<Longrightarrow> row_active now r"
  shows "rows_inv now (update_row lid f s)"
    and "subseq (held_claims now (update_row lid f s)) (held_claims now s)"
    and "ss_pools (update_row lid f s) = ss_pools s"
proof -
  define h where "h = (\<lambda>q. if lr_lease_id q = lid then f q else q)"
  have rows: "ss_leases (update_row lid f s) = map h (ss_leases s)" by (simp add: update_row_def h_def)
  have h: "q = r \<and> h q = f r \<or> h q = q" if "q \<in> set (ss_leases s)" for q
    using that inv r by (auto simp: rows_inv_def h_def distinct_map dest: inj_onD)
  have row: "row_ok now q" if "q \<in> set (ss_leases s)" for q using that inv by (auto simp: rows_inv_def list_all_iff)
  have keep: "row_ok now (h q)" "lr_lease_id (h q) = lr_lease_id q" "row_claim (h q) = row_claim q"
    "lr_fencing_token (h q) = lr_fencing_token q" "lr_resource_key (h q) = lr_resource_key q"
    "row_active now (h q) \<longrightarrow> row_active now q"
    if q: "q \<in> set (ss_leases s)" for q
  proof -
    have "lr_resource_key (f r) = lr_resource_key r" using ok(1,3) row [OF r(1)] by (simp add: row_ok_def)
    then show "row_ok now (h q)" "lr_lease_id (h q) = lr_lease_id q" "row_claim (h q) = row_claim q"
      "lr_fencing_token (h q) = lr_fencing_token q" "lr_resource_key (h q) = lr_resource_key q"
      "row_active now (h q) \<longrightarrow> row_active now q"
      using h [OF q] ok r(2) row [OF q] by auto
  qed
  have ids: "map lr_lease_id (map h (ss_leases s)) = map lr_lease_id (ss_leases s)" using keep(2) by simp
  have tok: "tokens_ok s" using inv by (simp add: rows_inv_def)
  then have "sorted_wrt (\<lambda>r q. lr_resource_key r = lr_resource_key q \<longrightarrow> lr_fencing_token r < lr_fencing_token q)
      (map h (ss_leases s))"
    unfolding sorted_wrt_map tokens_ok_def using keep(4,5)
    by (elim conjE) (rule sorted_wrt_mono_rel [rotated], assumption, simp)
  then have "tokens_ok (update_row lid f s)"
    unfolding tokens_ok_def rows using tok keep(4,5) by (auto simp: tokens_ok_def update_row_def)
  moreover have "distinct (map lr_lease_id (map h (ss_leases s)))" unfolding ids using inv by (simp add: rows_inv_def)
  moreover have "pools_ok (update_row lid f s)" "valid_instant now"
    using inv by (simp_all add: rows_inv_def pools_ok_def update_row_def)
  moreover have "list_all (row_ok now) (map h (ss_leases s))" using keep(1) by (simp add: list_all_iff)
  ultimately show "rows_inv now (update_row lid f s)" unfolding rows_inv_def rows by blast
  show "subseq (held_claims now (update_row lid f s)) (held_claims now s)"
    unfolding held_claims_def rows using keep(3,6) by (intro held_shrinks) auto
  show "ss_pools (update_row lid f s) = ss_pools s" by (simp add: update_row_def)
qed

lemma renew_lease_inv:
  assumes inv: "rows_inv now s" and ttl: "0 < ttl"
    and s': "s' = fst (renew_lease lid holder_id token ttl now s)"
  shows "rows_inv now s' \<and> ss_pools s' = ss_pools s \<and> subseq (held_claims now s') (held_claims now s)"
proof (cases "renew_read lid holder_id token ttl now s")
  case (Inr renewed)
  then obtain l e where l: "find_lease lid s = Inr l" "rl_released_at_utc l = None" "now < instant (rl_expires_at_utc l)"
    and e: "add_seconds now ttl = Inr e"
    and renewed: "renewed = l\<lparr>rl_renewed_at_utc := Some (Aware now), rl_expires_at_utc := Aware e\<rparr>"
    by (auto simp: renew_read_def split: if_splits)
  obtain r where r: "r \<in> set (ss_leases s)" "lr_lease_id r = lid" "l = lr_payload r" using find_leaseD [OF l(1) inv] .
  have ok: "row_ok now r" using inv r(1) by (simp add: rows_inv_def list_all_iff)
  let ?f = "\<lambda>r. r\<lparr>lr_expires_at_utc := utc_isoformat (instant (rl_expires_at_utc renewed)), lr_payload := renewed\<rparr>"
  have "e = now + ttl * microseconds" "valid_instant e" using e by (auto simp: add_seconds_def split: if_splits)
  then have "now < e" using ttl by (simp add: microseconds_def)
  then have "row_ok now (?f r)" using ok \<open>valid_instant e\<close> l(2)
    by (auto simp: row_ok_def renewed r(3) valid_ResourceLease_def)
  moreover have "lr_lease_id (?f r) = lid" "row_claim (?f r) = row_claim r" "lr_fencing_token (?f r) = lr_fencing_token r"
    using r by (simp_all add: renewed)
  moreover have "row_active now r"
    using row_active_iff [OF ok] inv l(2,3) r(3) by (simp add: rows_inv_def active_at_def)
  ultimately show ?thesis using update_row_inv [OF inv r(1,2), of ?f]
    by (simp add: s' renew_lease_def renew_write_def Inr)
qed (use inv s' in \<open>simp add: renew_lease_def\<close>)

lemma release_lease_inv:
  assumes inv: "rows_inv now s" and s': "s' = fst (release_lease lid holder_id token now s)"
  shows "rows_inv now s' \<and> ss_pools s' = ss_pools s \<and> subseq (held_claims now s') (held_claims now s)"
proof (cases "release_read lid holder_id token s")
  case (Inr l)
  then have l: "find_lease lid s = Inr l" by (auto simp: release_read_def split: if_splits)
  obtain r where r: "r \<in> set (ss_leases s)" "lr_lease_id r = lid" "l = lr_payload r" using find_leaseD [OF l inv] .
  have ok: "row_ok now r" using inv r(1) by (simp add: rows_inv_def list_all_iff)
  define released where "released = l\<lparr>rl_released_at_utc := Some (Aware now)\<rparr>"
  let ?f = "\<lambda>r. r\<lparr>lr_released_at_utc := Some (utc_isoformat now), lr_payload := released\<rparr>"
  have "row_ok now (?f r)" using ok by (auto simp: row_ok_def released_def r(3) valid_ResourceLease_def)
  moreover have "lr_lease_id (?f r) = lid" "row_claim (?f r) = row_claim r" "lr_fencing_token (?f r) = lr_fencing_token r"
    "\<not> row_active now (?f r)"
    using r by (simp_all add: released_def row_active_def)
  ultimately show ?thesis using inv update_row_inv [OF inv r(1,2), of ?f]
    by (simp add: s' release_lease_def release_write_def Inr released_def [symmetric] Let_def)
qed (use inv s' in \<open>simp add: release_lease_def\<close>)

lemma fold_pools:
  assumes "distinct (map fst d)" "\<forall>(k, p) \<in> set d. rp_resource_key p = k \<and> valid_ResourcePool p"
    "list_all valid_ResourcePool pools"
  shows "distinct (map fst (fold (\<lambda>p. AList.update (rp_resource_key p) p) pools d))
    \<and> (\<forall>(k, p) \<in> set (fold (\<lambda>p. AList.update (rp_resource_key p) p) pools d). rp_resource_key p = k \<and> valid_ResourcePool p)
    \<and> fst ` set d \<subseteq> fst ` set (fold (\<lambda>p. AList.update (rp_resource_key p) p) pools d)"
  using assms
proof (induction pools arbitrary: d)
  case (Cons p pools)
  have upd: "set (AList.update k v d) \<subseteq> insert (k, v) (set d)" for k and v :: ResourcePool
    by (induction d) auto
  have "distinct (map fst (AList.update (rp_resource_key p) p d))" using Cons.prems(1) by (rule distinct_update)
  moreover have "\<forall>(k, q) \<in> set (AList.update (rp_resource_key p) p d). rp_resource_key q = k \<and> valid_ResourcePool q"
    using Cons.prems(2,3) upd by auto
  moreover have "list_all valid_ResourcePool pools" using Cons.prems(3) by simp
  moreover have "fst ` set d \<subseteq> fst ` set (AList.update (rp_resource_key p) p d)" by (auto simp: dom_update)
  ultimately show ?case using Cons.IH unfolding fold_Cons comp_apply by blast
qed auto

lemma register_pools_inv:
  assumes "rows_inv t s" "list_all valid_ResourcePool pools"
  shows "rows_inv t (register_pools pools s) \<and> held_claims u (register_pools pools s) = held_claims u s
    \<and> (\<forall>c d. compatible_in s c d \<longrightarrow> compatible_in (register_pools pools s) c d)"
proof -
  have "pools_ok s" using assms(1) by (simp add: rows_inv_def)
  then have "pools_ok (register_pools pools s)"
    "fst ` set (ss_pools s) \<subseteq> fst ` set (ss_pools (register_pools pools s))"
    using fold_pools [of "ss_pools s" pools] assms(2) by (auto simp: pools_ok_def register_pools_def)
  then show ?thesis using assms(1)
    by (auto simp: rows_inv_def tokens_ok_def register_pools_def held_claims_def compatible_in_def pooled_def
        map_of_eq_None_iff)
qed

lemma made_pools:
  assumes "map_res id ([make_ResourcePool a, make_ResourcePool b, make_ResourcePool c]
      @ (case m of None \<Rightarrow> [] | Some k \<Rightarrow> if P k then [make_ResourcePool (f k)] else [])) = Inr pools"
  shows "list_all valid_ResourcePool pools"
proof -
  have "valid_ResourcePool q" if "make_ResourcePool p = Inr q" for p q
    using that by (auto simp: make_ResourcePool_def split: if_splits)
  then show ?thesis using assms by (auto split: option.splits if_splits)
qed

lemma local_pools_valid: "local_resource_pools host = Inr pools \<Longrightarrow> list_all valid_ResourcePool pools"
  unfolding local_resource_pools_def Let_def by (rule made_pools)

lemma registry_snapshot_cases:
  assumes "rows_inv t s"
  obtains "fst (registry_snapshot isoformat host now s) = s"
  | pools where "list_all valid_ResourcePool pools" "fst (registry_snapshot isoformat host now s) = register_pools pools s"
proof -
  obtain ps where ps: "list_pools s = Inr ps" using list_pools_eq assms unfolding rows_inv_def by blast
  show ?thesis
  proof (cases "local_resource_pools host")
    case (Inr pools)
    then show ?thesis using that ps local_pools_valid [OF Inr]
      by (cases "ps = []") (auto simp: registry_snapshot_def ensure_local_pools_def)
  qed (use that(1) ps in \<open>auto simp: registry_snapshot_def ensure_local_pools_def\<close>)
qed

lemma held_nonneg: "rows_inv t s \<Longrightarrow> \<forall>c \<in> set (held_claims u s). 0 \<le> rc_quantity c"
  by (auto simp: held_claims_def rows_inv_def list_all_iff row_ok_def intro: stable_claim_quantity)

lemma within_subseq:
  assumes "rows_inv t s" "subseq cs (held_claims t s)" "within_pools s' (held_claims t s)"
  shows "within_pools s' cs"
  using assms(3) claimed_subseq [OF assms(2) held_nonneg [OF assms(1)]] unfolding within_pools_def
  by (meson order_trans)

lemma within_later:
  assumes "rows_inv t s" "t \<le> now" "valid_instant now" "within_pools s (held_claims t s)"
  shows "within_pools s (held_claims now s)"
  using within_subseq [OF assms(1) held_later [OF assms(1-3)] assms(4)] .

lemma shrink_keeps:
  assumes "rows_inv t s" "sorted_wrt (compatible_in s) (held_claims t s)" "t \<le> now" "valid_instant now"
    and "ss_pools s' = ss_pools s" "subseq (held_claims now s') (held_claims now s)"
  shows "sorted_wrt (compatible_in s') (held_claims now s')
    \<and> (within_pools s (held_claims t s) \<longrightarrow> within_pools s' (held_claims now s'))"
proof -
  have sub: "subseq (held_claims now s') (held_claims t s)"
    using assms(6) held_later [OF assms(1,3,4)] by (rule subseq_order.order_trans)
  have same: "compatible_in s' = compatible_in s" "within_pools s' = within_pools s"
    using assms(5) by (auto simp: compatible_in_def pooled_def within_pools_def fun_eq_iff)
  show ?thesis unfolding same using sorted_wrt_subseq [OF sub assms(2)] within_subseq [OF assms(1) sub] by blast
qed

lemma frame_store:
  "lease_inv t (s\<lparr>ss_plans := ps\<rparr>) = lease_inv t s" "lease_inv t (s\<lparr>ss_simulations := qs\<rparr>) = lease_inv t s"
  "held_claims t (s\<lparr>ss_plans := ps\<rparr>) = held_claims t s" "held_claims t (s\<lparr>ss_simulations := qs\<rparr>) = held_claims t s"
  "within_pools (s\<lparr>ss_plans := ps\<rparr>) = within_pools s" "within_pools (s\<lparr>ss_simulations := qs\<rparr>) = within_pools s"
  by (simp_all add: lease_inv_def rows_inv_def pools_ok_def tokens_ok_def held_claims_def within_pools_def
      compatible_in_def [abs_def] pooled_def [abs_def] fun_eq_iff)

lemma lease_step_inv:
  assumes "lease_step roomy c c'" "lease_inv (fst c) (snd c)"
  shows "lease_inv (fst c') (snd c')
    \<and> (roomy \<longrightarrow> within_pools (snd c) (held_claims (fst c) (snd c)) \<longrightarrow> within_pools (snd c') (held_claims (fst c') (snd c')))"
  using assms
proof (cases rule: lease_step.cases)
  case (acquire t now claims s task_id holder_id ttl)
  note inv = rows_inv_later [OF _ acquire(3,4)] and sub = held_later [OF _ acquire(3,4)]
  have r: "rows_inv t s" "sorted_wrt (compatible_in s) (held_claims t s)"
    using assms(2) by (simp_all add: acquire lease_inv_def)
  have "sorted_wrt (compatible_in s) (held_claims now s)" using sorted_wrt_subseq [OF sub [OF r(1)] r(2)] .
  then show ?thesis
    using acquire_bundle_inv [OF inv [OF r(1)] acquire(5) refl, of task_id holder_id ttl] within_later [OF r(1) acquire(3,4)]
    by (simp add: acquire lease_inv_def)
next
  case (renew t now ttl s lease_id holder_id token)
  have r: "rows_inv t s" "sorted_wrt (compatible_in s) (held_claims t s)"
    using assms(2) by (simp_all add: renew lease_inv_def)
  note n = renew_lease_inv [OF rows_inv_later [OF r(1) renew(3,4)] renew(5) refl, of lease_id holder_id token]
  show ?thesis using shrink_keeps [OF r renew(3,4)] n by (simp add: renew lease_inv_def)
next
  case (release t now s lease_id holder_id token)
  have r: "rows_inv t s" "sorted_wrt (compatible_in s) (held_claims t s)"
    using assms(2) by (simp_all add: release lease_inv_def)
  note n = release_lease_inv [OF rows_inv_later [OF r(1) release(3,4)] refl, of lease_id holder_id token]
  show ?thesis using shrink_keeps [OF r release(3,4)] n by (simp add: release lease_inv_def)
next
  case (register pools s t)
  then show ?thesis using assms(2) register_pools_inv [of t s pools t] sorted_wrt_mono_rel [of "held_claims t s"]
    by (auto simp: lease_inv_def)
next
  case (snapshot t now isoformat host s)
  have r: "rows_inv t s" "sorted_wrt (compatible_in s) (held_claims t s)"
    using assms(2) by (simp_all add: snapshot lease_inv_def)
  note later = rows_inv_later [OF r(1) snapshot(3,4)] and sub = held_later [OF r(1) snapshot(3,4)]
  show ?thesis
  proof (cases rule: registry_snapshot_cases [OF r(1), of isoformat host now])
    case 1
    then show ?thesis using shrink_keeps [OF r snapshot(3,4), of s] later sub by (simp add: snapshot lease_inv_def)
  next
    case (2 pools)
    have "sorted_wrt (compatible_in (register_pools pools s)) (held_claims t s)"
      using register_pools_inv [OF r(1) 2(1)] sorted_wrt_mono_rel [OF _ r(2)] by blast
    then show ?thesis
      using register_pools_inv [OF later 2(1), of now] sorted_wrt_subseq [OF sub] within_subseq [OF r(1) sub] snapshot(5)
      by (simp add: snapshot(1,2) lease_inv_def 2(2))
  qed
next
  case (plan t s p)
  then show ?thesis using assms(2) by (simp add: save_plan_def frame_store)
next
  case (simulation t s r)
  then show ?thesis using assms(2) by (simp add: save_simulation_def frame_store)
qed

end
