(* ===== verification/LeaseProperties.thy ===== *)
theory LeaseProperties
  imports LeaseSafety
begin

text \<open>
  What callers of the lease store can rely on: active leases exclude each other and respect the pools,
  fencing tokens grow, a bundle is granted completely or not at all, and a saved plan is read back.
  Two theorems show where the guarantees end: a renewal reads before its transaction, and it does not
  check its time to live.
\<close>

section \<open>Reachable stores\<close>

definition lease_reachable :: "bool \<Rightarrow> int \<Rightarrow> SchedulerStore \<Rightarrow> bool" where
  "lease_reachable roomy t s \<longleftrightarrow> (\<exists>t0. valid_instant t0 \<and> (lease_step roomy)\<^sup>*\<^sup>* (t0, empty_scheduler_store) (t, s))"

lemma empty_inv: "valid_instant t \<Longrightarrow> lease_inv t empty_scheduler_store"
  by (simp add: lease_inv_def rows_inv_def pools_ok_def tokens_ok_def held_claims_def empty_scheduler_store_def)



lemma lease_reachable_step:
  "lease_reachable roomy t s \<Longrightarrow> lease_step roomy (t, s) (t', s') \<Longrightarrow> lease_reachable roomy t' s'"
  unfolding lease_reachable_def by (meson rtranclp.rtrancl_into_rtrancl)

lemma compatible_in_sym: "compatible_in s c d \<Longrightarrow> compatible_in s d c"
  by (auto simp: compatible_in_def conflicts_with_sym)

lemma active_claims:
  assumes "lease_inv t s" "t \<le> now" "valid_instant now"
  obtains ls where "list_active_leases s now = Inr ls" "mset (map rl_claim ls) = mset (held_claims now s)"
    "sorted_wrt (compatible_in s) (map rl_claim ls)" "\<forall>l \<in> set ls. active_at l now"
    "\<forall>l \<in> set ls. valid_ResourceLease l \<and> (\<exists>r \<in> set (ss_leases s). lr_payload r = l)"
proof -
  have inv: "rows_inv t s" "sorted_wrt (compatible_in s) (held_claims t s)"
    using assms(1) by (simp_all add: lease_inv_def)
  note later = rows_inv_later [OF inv(1) assms(2,3)]
  obtain ls where ls: "list_active_leases s now = Inr ls"
    "mset ls = mset (map lr_payload (filter (row_active now) (ss_leases s)))" using list_active_leases_eq [OF later] by blast
  have m: "mset (held_claims now s) = mset (map rl_claim ls)"
    using ls(2) by (simp add: held_claims_def multiset.map_comp comp_def)
  have "sorted_wrt (compatible_in s) (held_claims now s)"
    using sorted_wrt_subseq [OF held_later [OF inv(1) assms(2,3)] inv(2)] .
  from sorted_wrt_perm [OF compatible_in_sym m this] have "sorted_wrt (compatible_in s) (map rl_claim ls)" .
  moreover have "\<forall>l \<in> set ls. active_at l now"
    using mset_eq_setD [OF ls(2)] later row_active_iff [of now _ now] assms(3) by (auto simp: rows_inv_def list_all_iff)
  moreover have "\<forall>l \<in> set ls. valid_ResourceLease l \<and> (\<exists>r \<in> set (ss_leases s). lr_payload r = l)"
    using mset_eq_setD [OF ls(2)] later by (auto simp: rows_inv_def list_all_iff row_ok_def)
  ultimately show ?thesis using that ls(1) m by simp
qed

section \<open>A bundle\<close>

lemma acquire_loop_shape:
  assumes "acquire_loop task_id holder_id ttl now pools active s created claims = Inr (s', created', [])"
  shows "\<exists>ls new. created' = created @ ls \<and> list_all2 (same_lease task_id holder_id) claims ls
     \<and> ss_leases s' = ss_leases s @ map lease_row new \<and> set new \<subseteq> set ls \<and> set ls \<subseteq> set active \<union> set new
     \<and> list_all (\<lambda>l. active_at l now \<and> valid_ResourceLease l) new"
  using assms
proof (induction claims arbitrary: s created)
  case (Cons claim claims)
  show ?case
  proof (cases "find (same_lease task_id holder_id claim) active")
    case (Some l)
    then have l: "l \<in> set active" "same_lease task_id holder_id claim l" by (auto simp: find_Some_iff)
    have "acquire_loop task_id holder_id ttl now pools active s (created @ [l]) claims = Inr (s', created', [])"
      using Cons.prems Some by simp
    from Cons.IH [OF this] obtain ls new where "created' = (created @ [l]) @ ls"
      "list_all2 (same_lease task_id holder_id) claims ls"
      "ss_leases s' = ss_leases s @ map lease_row new" "set new \<subseteq> set ls" "set ls \<subseteq> set active \<union> set new"
      "list_all (\<lambda>l. active_at l now \<and> valid_ResourceLease l) new" by (elim exE conjE)
    then show ?thesis using l by (intro exI [of _ "l # ls"] exI [of _ new]) auto
  next
    case None
    then obtain s1 l where g: "grant task_id holder_id ttl now claim s = Inr (s1, l)"
      and loop: "acquire_loop task_id holder_id ttl now pools active s1 (created @ [l]) claims = Inr (s', created', [])"
      using Cons.prems by (auto split: option.splits)
    have l: "same_lease task_id holder_id claim l" "active_at l now \<and> valid_ResourceLease l"
      "ss_leases s1 = ss_leases s @ [lease_row l]"
      by (rule grantD [OF g], simp add: same_lease_def active_at_def)+
    from Cons.IH [OF loop] obtain ls new where "created' = (created @ [l]) @ ls"
      "list_all2 (same_lease task_id holder_id) claims ls"
      "ss_leases s' = ss_leases s1 @ map lease_row new" "set new \<subseteq> set ls" "set ls \<subseteq> set active \<union> set new"
      "list_all (\<lambda>l. active_at l now \<and> valid_ResourceLease l) new" by (elim exE conjE)
    then show ?thesis using l by (intro exI [of _ "l # ls"] exI [of _ "l # new"]) auto
  qed
qed simp

lemma acquire_bundle_cases:
  assumes "acquire_bundle task_id holder_id claims ttl now s = (s', res)"
  obtains (refused) "s' = s" "(\<exists>e. res = Inl e) \<or> (\<exists>b. res = Inr b \<and> \<not> lb_acquired b \<and> lb_reasons b \<noteq> [])"
  | (granted) ps active ls where "list_pools s = Inr ps" "list_active_leases s now = Inr active"
      "acquire_loop task_id holder_id ttl now (pools_by_key ps) active s [] claims = Inr (s', ls, [])"
      "res = make_LeaseBundle \<lparr>lb_task_id = task_id, lb_holder_id = holder_id, lb_leases = ls, lb_acquired = True,
             lb_reasons = []\<rparr>" "claims \<noteq> []"
  using assms
  by (auto simp: acquire_bundle_def acquire_body_def Let_def make_LeaseBundle_def split: if_splits sum.splits)

section \<open>Properties\<close>



text \<open>
  C15. Fencing.  A lease that a bundle newly creates carries a larger fencing token than every lease
  that was ever granted on the same resource, released or expired ones included.  The invariant of the
  store holds in every reachable one.
\<close>

theorem fencing_tokens_grow:
  assumes "lease_inv t s" "t \<le> now" "valid_instant now" "list_all stable_claim claims"
    and "acquire_bundle task_id holder_id claims ttl now s = (s', Inr b)" "lb_acquired b"
    and "l \<in> set (lb_leases b)" "l \<notin> lr_payload ` set (ss_leases s)"
    and "r \<in> set (ss_leases s)" "lr_resource_key r = rc_resource_key (rl_claim l)"
  shows "lr_fencing_token r < rl_fencing_token l"
proof -
  have inv: "rows_inv now s"
    using assms(1) rows_inv_later [OF _ assms(2,3)] by (simp add: lease_inv_def)
  from assms(5) show ?thesis
  proof (cases rule: acquire_bundle_cases)
    case refused
    then show ?thesis using assms(6) by simp
  next
    case (granted ps active ls)
    have b: "lb_leases b = ls" using granted(4) by (auto simp: make_LeaseBundle_def split: if_splits)
    from acquire_loop_shape [OF granted(3)] obtain new where new: "ss_leases s' = ss_leases s @ map lease_row new"
      "set ls \<subseteq> set active \<union> set new" by auto
    have "set active \<subseteq> lr_payload ` set (ss_leases s)"
      by (rule active_claims [OF assms(1-3)]) (use granted(2) in auto)
    then have l: "l \<in> set new" using assms(7,8) new(2) b by auto
    have "tokens_ok s'"
      using acquire_bundle_inv [OF inv assms(4), of s' task_id holder_id ttl] assms(5) by (simp add: rows_inv_def)
    then show ?thesis using assms(9,10) l
      by (auto simp: tokens_ok_def new(1) sorted_wrt_append lease_row_def dest!: bspec)
  qed
qed

text \<open>
  C16. All or nothing.  Either the store is unchanged and the caller gets an error or a refusal with
  reasons, or every claim has its lease: held by this task and holder, active, stored, and the only rows
  added are those leases.
\<close>

theorem acquire_bundle_atomic:
  assumes "lease_inv t s" "t \<le> now" "valid_instant now"
    and "acquire_bundle task_id holder_id claims ttl now s = (s', res)"
  shows "s' = s \<and> ((\<exists>e. res = Inl e) \<or> (\<exists>b. res = Inr b \<and> \<not> lb_acquired b \<and> lb_reasons b \<noteq> []))
     \<or> (\<exists>b new. res = Inr b \<and> lb_acquired b
          \<and> list_all2 (\<lambda>c l. rl_claim l = c \<and> rl_task_id l = task_id \<and> rl_holder_id l = holder_id \<and> active_at l now
               \<and> l \<in> lr_payload ` set (ss_leases s')) claims (lb_leases b)
          \<and> ss_leases s' = ss_leases s @ map lease_row new \<and> set new \<subseteq> set (lb_leases b))"
  using assms(4)
proof (cases rule: acquire_bundle_cases)
  case (granted ps active ls)
  from acquire_loop_shape [OF granted(3)] obtain new where new: "list_all2 (same_lease task_id holder_id) claims ls"
    "ss_leases s' = ss_leases s @ map lease_row new" "set new \<subseteq> set ls" "set ls \<subseteq> set active \<union> set new"
    "list_all (\<lambda>l. active_at l now \<and> valid_ResourceLease l) new" unfolding append_Nil by (elim exE conjE) simp
  have active: "\<forall>l \<in> set active. active_at l now"
    "\<forall>l \<in> set active. valid_ResourceLease l \<and> (\<exists>r \<in> set (ss_leases s). lr_payload r = l)"
    by (rule active_claims [OF assms(1-3)], use granted(2) in simp)+
  have l: "active_at l now \<and> valid_ResourceLease l \<and> l \<in> lr_payload ` set (ss_leases s')" if "l \<in> set ls" for l
  proof (cases "l \<in> set active")
    case True
    then show ?thesis using bspec [OF active(1) True] bspec [OF active(2) True] by (auto simp: new(2))
  next
    case False
    then have "l \<in> set new" using that new(4) by auto
    moreover have "lr_payload (lease_row l) = l" by (simp add: lease_row_def)
    ultimately show ?thesis using new(5) by (auto simp: new(2) list_all_iff image_image intro: rev_image_eqI)
  qed
  then have "list_all2 (\<lambda>c l. rl_claim l = c \<and> rl_task_id l = task_id \<and> rl_holder_id l = holder_id \<and> active_at l now
               \<and> l \<in> lr_payload ` set (ss_leases s')) claims ls"
    using new(1) by (auto simp: list_all2_conv_all_nth same_lease_def)
  moreover have "ls \<noteq> []" using new(1) granted(5) by auto
  moreover have "is_issue_id task_id"
    using calculation l by (cases claims; cases ls) (auto simp: valid_ResourceLease_def)
  ultimately show ?thesis using new(2,3) granted(4) by (auto simp: make_LeaseBundle_def)
qed blast

section \<open>Examples\<close>

definition example_claim :: "string \<Rightarrow> ResourceClaim" where
  "example_claim key = \<lparr>rc_resource_key = key, rc_resource_type = PATH, rc_access_mode = EXCLUSIVE, rc_quantity = 1,
     rc_machine_id = None, rc_purpose = None\<rparr>"

lemma example_stable: "stable_claim (example_claim ''src/app'')"
  unfolding stable_claim_def by code_simp

lemma grant_ok:
  assumes ids: "is_issue_id task_id" "py_strip holder_id \<noteq> []" "length holder_id \<le> 191" "py_strip (rc_resource_key claim) \<noteq> []"
    and ttl: "0 < ttl" "valid_instant (now + ttl * microseconds)" and tok: "tokens_ok s"
    and fresh: "\<And>v. scheduler_identifier ''LEASE'' [task_id, holder_id, rc_resource_key claim,
          str_int (fst (next_fencing_token (rc_resource_key claim) s))] = Inr v \<Longrightarrow> v \<notin> lr_lease_id ` set (ss_leases s)"
  shows "\<exists>s' l. grant task_id holder_id ttl now claim s = Inr (s', l)"
proof -
  define token where "token = (case map_of (ss_tokens s) (rc_resource_key claim) of None \<Rightarrow> 1 | Some n \<Rightarrow> n + 1)"
  have "1 \<le> token" using tok by (fastforce simp: token_def tokens_ok_def dest: map_of_SomeD split: option.split)
  have tk: "fst (next_fencing_token (rc_resource_key claim) s) = token" by (simp add: next_fencing_token_def token_def Let_def)
  have "list_all (\<lambda>s. py_strip s \<noteq> []) [task_id, holder_id, rc_resource_key claim, str_int token]"
    using ids pattern_not_blank by simp
  then obtain v where v: "scheduler_identifier ''LEASE'' [task_id, holder_id, rc_resource_key claim, str_int token] = Inr v"
    "fullmatch scheduler_id_rx v" "startswith v ''LEASE-''"
    using scheduler_identifier_valid [of "''LEASE''" "[task_id, holder_id, rc_resource_key claim, str_int token]"] by auto
  have "lease_expiry now ttl = Inr (now + ttl * microseconds)" using ttl by (simp add: lease_expiry_def add_seconds_def)
  moreover have "holder_id \<noteq> []" using ids(2) by (auto simp: py_strip_def strip_by_def)
  ultimately show ?thesis
    using v fresh [unfolded tk, OF v(1)] ids ttl(1) \<open>1 \<le> token\<close>
    by (auto simp: grant_def next_fencing_token_def Let_def token_def [symmetric] make_ResourceLease_def
        valid_ResourceLease_def insert_lease_def microseconds_def Suc_le_eq)
qed

text \<open>A free resource is leased.\<close>

lemma acquire_free:
  assumes inv: "rows_inv now s" and st: "stable_claim claim"
    and ids: "is_issue_id task_id" "py_strip holder_id \<noteq> []" "length holder_id \<le> 191" "py_strip (rc_resource_key claim) \<noteq> []"
    and ttl: "0 < ttl" "valid_instant (now + ttl * microseconds)"
    and fresh: "\<And>v. scheduler_identifier ''LEASE'' [task_id, holder_id, rc_resource_key claim,
          str_int (fst (next_fencing_token (rc_resource_key claim) s))] = Inr v \<Longrightarrow> v \<notin> lr_lease_id ` set (ss_leases s)"
    and free: "held_claims now s = []" "map_of (ss_pools s) (rc_resource_key claim) = None"
  shows "\<exists>s' l. acquire_bundle task_id holder_id [claim] ttl now s
     = (s', Inr \<lparr>lb_task_id = task_id, lb_holder_id = holder_id, lb_leases = [l], lb_acquired = True, lb_reasons = []\<rparr>)
     \<and> rl_claim l = claim \<and> grant task_id holder_id ttl now claim s = Inr (s', l)"
proof -
  obtain ps where ps: "list_pools s = Inr ps" "\<forall>key. map_of (pools_by_key ps) key = map_of (ss_pools s) key"
    using list_pools_eq inv unfolding rows_inv_def by blast
  obtain ls where ls: "list_active_leases s now = Inr ls"
    "mset ls = mset (map lr_payload (filter (row_active now) (ss_leases s)))" using list_active_leases_eq [OF inv] by blast
  have "ls = []" using ls(2) free(1) by (simp add: held_claims_def flip: mset_filter)
  moreover obtain s' l where g: "grant task_id holder_id ttl now claim s = Inr (s', l)"
    using grant_ok [OF ids ttl _ fresh] inv by (auto simp: rows_inv_def)
  moreover have "rl_claim l = claim" by (rule grantD [OF g])
  ultimately show ?thesis using ps ls(1) free(2) ids(1)
    by (auto simp: acquire_bundle_def acquire_body_def refusal_def make_LeaseBundle_def Let_def)
qed

definition example_lease_store :: SchedulerStore where
  "example_lease_store =
     fst (acquire_bundle ''PP-TASK-000001'' ''worker-1'' [example_claim ''src/app''] 900 0 empty_scheduler_store)"

lemma example_acquired:
  "\<exists>l. acquire_bundle ''PP-TASK-000001'' ''worker-1'' [example_claim ''src/app''] 900 0 empty_scheduler_store
     = (example_lease_store, Inr \<lparr>lb_task_id = ''PP-TASK-000001'', lb_holder_id = ''worker-1'', lb_leases = [l],
          lb_acquired = True, lb_reasons = []\<rparr>) \<and> ss_leases example_lease_store = [lease_row l] \<and> active_at l 0"
proof -
  have v: "valid_instant 0" "valid_instant (0 + 900 * microseconds)" by code_simp+
  have i: "is_issue_id ''PP-TASK-000001''" "py_strip ''worker-1'' \<noteq> []" "length ''worker-1'' \<le> 191"
    "py_strip (rc_resource_key (example_claim ''src/app'')) \<noteq> []" by code_simp+
  have inv: "rows_inv 0 empty_scheduler_store" using empty_inv [OF v(1)] by (simp add: lease_inv_def)
  obtain s' l where a: "acquire_bundle ''PP-TASK-000001'' ''worker-1'' [example_claim ''src/app''] 900 0 empty_scheduler_store
      = (s', Inr \<lparr>lb_task_id = ''PP-TASK-000001'', lb_holder_id = ''worker-1'', lb_leases = [l],
          lb_acquired = True, lb_reasons = []\<rparr>)"
    and g: "grant ''PP-TASK-000001'' ''worker-1'' 900 0 (example_claim ''src/app'') empty_scheduler_store = Inr (s', l)"
    using acquire_free [OF inv example_stable i _ v(2)] by (auto simp: empty_scheduler_store_def held_claims_def)
  have "ss_leases s' = [lease_row l]" "active_at l 0"
    by (rule grantD [OF g], simp add: empty_scheduler_store_def active_at_def)+
  then show ?thesis using a by (simp add: example_lease_store_def)
qed


text \<open>A store with one lease that expired after ten seconds, and another worker that takes over.\<close>

definition old_lease :: "string \<Rightarrow> ResourceLease" where
  "old_lease lid = \<lparr>rl_lease_id = lid, rl_task_id = ''PP-TASK-000001'', rl_holder_id = ''worker-1'',
     rl_claim = example_claim ''src/app'', rl_fencing_token = 1, rl_acquired_at_utc = Aware 0,
     rl_expires_at_utc = Aware 10000000, rl_renewed_at_utc = None, rl_released_at_utc = None\<rparr>"

definition old_store :: "string \<Rightarrow> SchedulerStore" where
  "old_store lid = \<lparr>ss_pools = [], ss_tokens = [(''src/app'', 1)], ss_leases = [lease_row (old_lease lid)],
     ss_plans = [], ss_simulations = []\<rparr>"

definition old_id :: "char \<Rightarrow> string" where
  "old_id d = ''LEASE-'' @ replicate 20 d"

lemma old_store_inv:
  assumes "d \<in> {CHR ''0'', CHR ''1''}"
  shows "lease_inv 0 (old_store (old_id d))" and "valid_ResourceLease (old_lease (old_id d))"
proof -
  have "valid_ResourceLease (old_lease (old_id (CHR ''0'')))" "valid_ResourceLease (old_lease (old_id (CHR ''1'')))"
    by code_simp+
  then show v: "valid_ResourceLease (old_lease (old_id d))" using assms by auto
  have "valid_instant 0" "valid_instant 10000000" by code_simp+
  then have "row_ok 0 (lease_row (old_lease (old_id d)))"
    using v example_stable by (simp add: row_ok_def lease_row_def old_lease_def)
  then show "lease_inv 0 (old_store (old_id d))" using \<open>valid_instant 0\<close>
    by (simp add: lease_inv_def rows_inv_def pools_ok_def tokens_ok_def old_store_def held_claims_def)
      (simp add: lease_row_def old_lease_def example_claim_def)
qed

lemma take_over:
  "\<exists>d s' l. d \<in> {CHR ''0'', CHR ''1''}
     \<and> acquire_bundle ''PP-TASK-000002'' ''worker-2'' [example_claim ''src/app''] 900 20000000 (old_store (old_id d))
        = (s', Inr \<lparr>lb_task_id = ''PP-TASK-000002'', lb_holder_id = ''worker-2'', lb_leases = [l],
                    lb_acquired = True, lb_reasons = []\<rparr>)
     \<and> rl_claim l = example_claim ''src/app'' \<and> rl_expires_at_utc l = Aware 920000000
     \<and> ss_leases s' = [lease_row (old_lease (old_id d)), lease_row l] \<and> ss_pools s' = [] \<and> l \<noteq> old_lease (old_id d)
     \<and> stable_claim (rl_claim l) \<and> valid_ResourceLease l \<and> rl_lease_id l \<noteq> old_id d \<and> rl_holder_id l = ''worker-2'' \<and> rl_fencing_token l = 2"
proof -
  define S where "S = scheduler_identifier ''LEASE'' [''PP-TASK-000002'', ''worker-2'', ''src/app'', ''2'']"
  obtain d where d: "d \<in> {CHR ''0'', CHR ''1''}" "S \<noteq> Inr (old_id d)"
  proof (cases "S = Inr (old_id (CHR ''0''))")
    case True
    then have "S \<noteq> Inr (old_id (CHR ''1''))" by (simp add: old_id_def)
    then show ?thesis using that by blast
  qed (use that in blast)
  define s where "s = old_store (old_id d)"
  have v: "valid_instant 20000000" "valid_instant (20000000 + 900 * microseconds)" "valid_instant 10000000" by code_simp+
  have i: "is_issue_id ''PP-TASK-000002''" "py_strip ''worker-2'' \<noteq> []" "length ''worker-2'' \<le> 191"
    "py_strip (rc_resource_key (example_claim ''src/app'')) \<noteq> []" by code_simp+
  have inv: "rows_inv 20000000 s"
    using rows_inv_later [of 0] old_store_inv(1) [OF d(1)] v(1) by (simp add: s_def lease_inv_def)
  have "\<not> row_active 20000000 (lease_row (old_lease (old_id d)))"
    using isoformat_less [OF v(1,3)] by (simp add: row_active_def lease_row_def old_lease_def)
  then have held: "held_claims 20000000 s = []" by (simp add: held_claims_def s_def old_store_def)
  have "str_int 2 = ''2''" by code_simp
  then have fresh: "v \<notin> lr_lease_id ` set (ss_leases s)" if "scheduler_identifier ''LEASE'' [''PP-TASK-000002'', ''worker-2'',
      rc_resource_key (example_claim ''src/app''), str_int (fst (next_fencing_token (rc_resource_key (example_claim ''src/app'')) s))] = Inr v" for v
    using that d(2) by (auto simp: S_def s_def old_store_def lease_row_def old_lease_def example_claim_def next_fencing_token_def)
  obtain s' l where a: "acquire_bundle ''PP-TASK-000002'' ''worker-2'' [example_claim ''src/app''] 900 20000000 s
      = (s', Inr \<lparr>lb_task_id = ''PP-TASK-000002'', lb_holder_id = ''worker-2'', lb_leases = [l],
          lb_acquired = True, lb_reasons = []\<rparr>)"
    and g: "grant ''PP-TASK-000002'' ''worker-2'' 900 20000000 (example_claim ''src/app'') s = Inr (s', l)"
    using acquire_free [OF inv example_stable i _ v(2) fresh held] by (auto simp: s_def old_store_def)
  have l: "rl_claim l = example_claim ''src/app''" "ss_leases s' = ss_leases s @ [lease_row l]"
    "valid_ResourceLease l" "rl_lease_id l \<notin> lr_lease_id ` set (ss_leases s)" "rl_holder_id l = ''worker-2''" "ss_pools s' = ss_pools s"
    by (rule grantD [OF g], simp)+
  have "rl_fencing_token l = 2"
    by (rule grantD [OF g]) (simp add: s_def old_store_def example_claim_def)
  moreover have "rl_expires_at_utc l = Aware 920000000"
    using g v(2) by (auto simp: grant_def next_fencing_token_def Let_def lease_expiry_def add_seconds_def
        make_ResourceLease_def microseconds_def split: if_splits)
  ultimately show ?thesis using a d(1) l example_stable
    by (intro exI [of _ d] exI [of _ s'] exI [of _ l]) (auto simp: s_def old_store_def lease_row_def old_lease_def)
qed



theorem fencing_tokens_grow_witness:
  "\<exists>d s' b l. acquire_bundle ''PP-TASK-000002'' ''worker-2'' [example_claim ''src/app''] 900 20000000 (old_store (old_id d))
     = (s', Inr b) \<and> lb_acquired b \<and> lb_leases b = [l]
     \<and> lr_fencing_token (lease_row (old_lease (old_id d))) < rl_fencing_token l"
proof -
  obtain d s' l where d: "d \<in> {CHR ''0'', CHR ''1''}"
    and a: "acquire_bundle ''PP-TASK-000002'' ''worker-2'' [example_claim ''src/app''] 900 20000000 (old_store (old_id d))
        = (s', Inr \<lparr>lb_task_id = ''PP-TASK-000002'', lb_holder_id = ''worker-2'', lb_leases = [l],
                    lb_acquired = True, lb_reasons = []\<rparr>)"
    and l: "rl_claim l = example_claim ''src/app''" "l \<noteq> old_lease (old_id d)"
    using take_over by (elim exE conjE)
  have "valid_instant 20000000" by code_simp
  then have "lr_fencing_token (lease_row (old_lease (old_id d))) < rl_fencing_token l"
    using fencing_tokens_grow [OF old_store_inv(1) [OF d] _ _ _ a, of l "lease_row (old_lease (old_id d))"] l example_stable
    by (simp add: old_store_def lease_row_def old_lease_def)
  then show ?thesis using a
    by (intro exI [of _ d] exI [of _ s'] exI [of _ "\<lparr>lb_task_id = ''PP-TASK-000002'', lb_holder_id = ''worker-2'',
      lb_leases = [l], lb_acquired = True, lb_reasons = []\<rparr>"] exI [of _ l]) simp
qed

theorem acquire_bundle_atomic_witness:
  "\<exists>res. acquire_bundle ''PP-TASK-000001'' ''worker-1'' [example_claim ''src/app''] 900 0 empty_scheduler_store
       = (example_lease_store, res)
     \<and> (\<exists>b new. res = Inr b \<and> lb_acquired b
          \<and> list_all2 (\<lambda>c l. rl_claim l = c \<and> rl_task_id l = ''PP-TASK-000001'' \<and> rl_holder_id l = ''worker-1'' \<and> active_at l 0
               \<and> l \<in> lr_payload ` set (ss_leases example_lease_store)) [example_claim ''src/app''] (lb_leases b)
          \<and> ss_leases example_lease_store = ss_leases empty_scheduler_store @ map lease_row new
          \<and> set new \<subseteq> set (lb_leases b))"
proof -
  have v: "valid_instant 0" by code_simp
  then have r: "lease_inv 0 empty_scheduler_store" by (rule empty_inv)
  obtain l where a: "acquire_bundle ''PP-TASK-000001'' ''worker-1'' [example_claim ''src/app''] 900 0 empty_scheduler_store
     = (example_lease_store, Inr \<lparr>lb_task_id = ''PP-TASK-000001'', lb_holder_id = ''worker-1'', lb_leases = [l],
          lb_acquired = True, lb_reasons = []\<rparr>)" "ss_leases example_lease_store = [lease_row l]"
    using example_acquired by blast
  moreover have "ss_leases example_lease_store \<noteq> ss_leases empty_scheduler_store"
    using a(2) by (simp add: empty_scheduler_store_def)
  then have "example_lease_store \<noteq> empty_scheduler_store" by metis
  ultimately show ?thesis using acquire_bundle_atomic [OF r order_refl v a(1)] by simp
qed

section \<open>Renewal and release\<close>

lemma find_lease_row:
  assumes "rows_inv t s" "r \<in> set (ss_leases s)"
  shows "find_lease (lr_lease_id r) s = Inr (lr_payload r)"
proof -
  obtain q where q: "find (\<lambda>q. lr_lease_id q = lr_lease_id r) (ss_leases s) = Some q"
    using assms(2) by (cases "find (\<lambda>q. lr_lease_id q = lr_lease_id r) (ss_leases s)") (auto simp: find_None_iff)
  then have "q \<in> set (ss_leases s)" "lr_lease_id q = lr_lease_id r" by (auto simp: find_Some_iff)
  then have "q = r" using assms by (auto simp: rows_inv_def distinct_map dest: inj_onD)
  then show ?thesis using q assms
    by (auto simp: find_lease_def rows_inv_def list_all_iff row_ok_def intro!: load_lease_stable)
qed



text \<open>
  C37. A renewal is not checked before it is written.  If its time to live puts the expiry at or before
  the acquisition, the call reports success, and from then on every reading of the lease raises: it can
  neither be renewed nor released, and the claims of its task cannot be recovered.
\<close>

theorem renewal_poisons_lease:
  assumes "lease_inv t s" "t \<le> now" "valid_instant now" "r \<in> set (ss_leases s)" "active_at (lr_payload r) now"
    and "valid_instant (now + ttl * microseconds)"
    and "now + ttl * microseconds \<le> instant (rl_acquired_at_utc (lr_payload r))"
  shows "\<exists>s' l. renew_lease (lr_lease_id r) (lr_holder_id r) (lr_fencing_token r) ttl now s = (s', Inr l)
     \<and> renew_lease (lr_lease_id r) h k n u s' = (s', Inl ValidationError)
     \<and> release_lease (lr_lease_id r) h k u s' = (s', Inl ValidationError)
     \<and> (\<exists>e. recover_claims_for_task s' (lr_task_id r) g = Inl e)"
proof -
  have inv: "rows_inv t s" using assms(1) by (simp add: lease_inv_def)
  note f = find_lease_row [OF inv assms(4)]
  have ok: "row_ok t r" using inv assms(4) by (simp add: rows_inv_def list_all_iff)
  define l where "l = (lr_payload r)\<lparr>rl_renewed_at_utc := Some (Aware now), rl_expires_at_utc := Aware (now + ttl * microseconds)\<rparr>"
  define s' where "s' = renew_write (lr_lease_id r) l s"
  have "renew_lease (lr_lease_id r) (lr_holder_id r) (lr_fencing_token r) ttl now s = (s', Inr l)"
    using f ok assms(5,6) by (simp add: renew_lease_def renew_read_def row_ok_def active_at_def add_seconds_def l_def s'_def)
  moreover define r' where "r' = r\<lparr>lr_expires_at_utc := utc_isoformat (instant (rl_expires_at_utc l)), lr_payload := l\<rparr>"
  have bad: "load_lease l = Inl ValidationError"
    using ok assms(7) by (simp add: load_lease_def l_def row_ok_def stable_claim_def make_ResourceLease_def valid_ResourceLease_def)
  have rows: "ss_leases s' = map (\<lambda>q. if lr_lease_id q = lr_lease_id r then q\<lparr>lr_expires_at_utc := utc_isoformat (instant (rl_expires_at_utc l)), lr_payload := l\<rparr> else q) (ss_leases s)"
    by (simp add: s'_def renew_write_def update_row_def)
  have r': "r' \<in> set (ss_leases s')" using assms(4) by (force simp: rows r'_def)
  have "find_lease (lr_lease_id r) s' = Inl ValidationError"
  proof -
    obtain q where q: "find (\<lambda>q. lr_lease_id q = lr_lease_id r) (ss_leases s') = Some q"
      using r' by (cases "find (\<lambda>q. lr_lease_id q = lr_lease_id r) (ss_leases s')") (auto simp: find_None_iff r'_def)
    then have "q \<in> set (ss_leases s')" "lr_lease_id q = lr_lease_id r" by (auto simp: find_Some_iff)
    then have "lr_payload q = l" by (auto simp: rows split: if_splits)
    then show ?thesis using q bad by (simp add: find_lease_def)
  qed
  then have "renew_lease (lr_lease_id r) h k n u s' = (s', Inl ValidationError)"
    "release_lease (lr_lease_id r) h k u s' = (s', Inl ValidationError)"
    by (simp_all add: renew_lease_def renew_read_def release_lease_def release_read_def)
  moreover have "\<exists>e. recover_claims_for_task s' (lr_task_id r) g = Inl e"
  proof -
    let ?rows = "rev (sort_key lr_acquired_at_utc (rev (filter (\<lambda>q. lr_task_id q = lr_task_id r) (ss_leases s'))))"
    have "r' \<in> set ?rows" "load_lease (lr_payload r') = Inl ValidationError" using r' bad by (simp_all add: r'_def)
    then have "\<exists>e. map_res (load_lease \<circ> lr_payload) ?rows = Inl e"
      using map_res_element [of r' ?rows "load_lease \<circ> lr_payload"] by simp
    then show ?thesis using \<open>r' \<in> set ?rows\<close> by (auto simp: recover_claims_for_task_def Let_def)
  qed
  ultimately show ?thesis by blast
qed

theorem renewal_poisons_lease_witness:
  "\<exists>s' l. renew_lease (old_id (CHR ''0'')) ''worker-1'' 1 (- 5) 5000000 (old_store (old_id (CHR ''0''))) = (s', Inr l)
     \<and> renew_lease (old_id (CHR ''0'')) ''worker-1'' 1 900 6000000 s' = (s', Inl ValidationError)
     \<and> release_lease (old_id (CHR ''0'')) ''worker-1'' 1 6000000 s' = (s', Inl ValidationError)
     \<and> (\<exists>e. recover_claims_for_task s' ''PP-TASK-000001'' None = Inl e)"
proof -
  have inv: "lease_inv 0 (old_store (old_id (CHR ''0'')))" by (rule old_store_inv) simp
  have v: "valid_instant 5000000" "valid_instant (5000000 + - 5 * microseconds)" by code_simp+
  let ?r = "lease_row (old_lease (old_id (CHR ''0'')))"
  have r: "?r \<in> set (ss_leases (old_store (old_id (CHR ''0''))))" by (simp add: old_store_def)
  have f: "lr_lease_id ?r = old_id (CHR ''0'')" "lr_holder_id ?r = ''worker-1''" "lr_fencing_token ?r = 1"
    "lr_task_id ?r = ''PP-TASK-000001''" "active_at (lr_payload ?r) 5000000" "instant (rl_acquired_at_utc (lr_payload ?r)) = 0"
    by (simp_all add: lease_row_def old_lease_def active_at_def)
  show ?thesis
    using renewal_poisons_lease [OF inv _ v(1) r f(5) v(2), where h = "''worker-1''" and k = 1 and n = 900 and u = 6000000 and g = None]
    unfolding f by (simp add: microseconds_def)
qed


end
