(* ===== verification/PlanPersistence.thy ===== *)
theory PlanPersistence
  imports LeaseSafety SchedulerPlanning
begin

text \<open>
  A plan that the scheduler computes survives the store: \<open>latest_plan\<close> validates the stored payload
  again, including the resource keys of every claim, and gives back the plan that \<open>save_plan\<close> was
  called with.
\<close>

section \<open>Every part of a computed plan is valid\<close>

lemma evaluate_backpressure_valid:
  "evaluate_backpressure signals policy = Inr d \<Longrightarrow> make_BackpressureDecision d = Inr d"
  by (auto simp: evaluate_backpressure_def make_BackpressureDecision_def Let_def split: if_splits)

lemma conflict_edges_valid:
  assumes "build_conflict_graph nx profiles = Inr (g, es)" shows "list_all valid_ConflictEdge es"
proof -
  obtain g0 es0 where f: "fold_res (add_conflict nx)
      (fold (nx_add_node nx) (map fst (dict_of (map (\<lambda>p. (tp_task_id p, p)) (sort_key tp_task_id profiles)))) (nx_Graph nx), [])
      (pairs (sort_key tp_task_id profiles)) = Inr (g0, es0)"
    and es: "es = sort_key (\<lambda>e. (ce_left_task_id e, ce_right_task_id e)) es0"
    using assms by (auto simp: build_conflict_graph_def Let_def split: if_splits)
  have "list_all valid_ConflictEdge (snd (g0, es0))"
    by (rule fold_res_invariant [OF f, where I = "\<lambda>c. list_all valid_ConflictEdge (snd c)"])
      (auto simp: add_conflict_def make_ConflictEdge_def Let_def split: if_splits)
  then show ?thesis by (simp add: es list_all_iff)
qed

lemma make_AdmissionDecision_valid: "make_AdmissionDecision d = Inr d' \<Longrightarrow> valid_AdmissionDecision d'"
  by (auto simp: make_AdmissionDecision_def split: if_splits)

lemma values_update: "(a, b) \<in> set (AList.update k v d) \<Longrightarrow> b = v \<or> (\<exists>j. (j, b) \<in> set d)"
  by (induction d) (auto split: if_splits)

lemma preliminary_valid:
  assumes "fold_res (preliminary_step D registry now) ([], []) cs = Inr (adm, prelim)"
  shows "\<forall>d \<in> snd ` set adm. valid_AdmissionDecision d"
proof -
  have "\<forall>d \<in> snd ` set (fst (adm, prelim)). valid_AdmissionDecision d"
  proof (rule fold_res_invariant [OF assms, where I = "\<lambda>c. \<forall>d \<in> snd ` set (fst c). valid_AdmissionDecision d"])
    fix s c s' assume I: "\<forall>d \<in> snd ` set (fst s). valid_AdmissionDecision d" and "preliminary_step D registry now s c = Inr s'"
    then have "fst s' = fst s \<or> (\<exists>d. fst s' = AList.update (tp_task_id c) d (fst s) \<and> valid_AdmissionDecision d)"
      by (auto simp: preliminary_step_def refuse_def split: prod.splits option.splits dest!: make_AdmissionDecision_valid)
    then show "\<forall>d \<in> snd ` set (fst s'). valid_AdmissionDecision d"
      using I by (fastforce dest!: values_update)
  qed simp
  then show ?thesis by simp
qed

lemma decisions_valid:
  assumes "fold_res (\<lambda>admissions candidate. res_bind (final_decision nx g sids candidate) (\<lambda>d.
      Inr (AList.update (tp_task_id candidate) d admissions))) adm prelim = Inr adm'"
    and "\<forall>d \<in> snd ` set adm. valid_AdmissionDecision d"
  shows "\<forall>d \<in> snd ` set adm'. valid_AdmissionDecision d"
proof (rule fold_res_invariant [OF assms(1), where I = "\<lambda>adm. \<forall>d \<in> snd ` set adm. valid_AdmissionDecision d"])
  fix s c s' assume I: "\<forall>d \<in> snd ` set s. valid_AdmissionDecision d"
    and "res_bind (final_decision nx g sids c) (\<lambda>d. Inr (AList.update (tp_task_id c) d s)) = Inr s'"
  then obtain d where d: "final_decision nx g sids c = Inr d" "s' = AList.update (tp_task_id c) d s" by auto
  have "valid_AdmissionDecision d"
    using d(1) by (auto simp: final_decision_def refuse_def Let_def split: if_splits dest: make_AdmissionDecision_valid)
  then show "\<forall>d \<in> snd ` set s'. valid_AdmissionDecision d" using I d(2) by (fastforce dest!: values_update)
qed (rule assms(2))

lemma plan_parts_valid:
  assumes "plan ds nx control profiles registry signals policy max_lanes now = Inr p"
  shows "make_BackpressureDecision (sp_backpressure p) = Inr (sp_backpressure p)"
    and "list_all valid_LaneAssignment (sp_lanes p)" and "list_all valid_ConflictEdge (sp_conflicts p)"
    and "list_all valid_AdmissionDecision (sp_admissions p)" and "valid_SchedulerPlan p"
    and "sp_project_id p = cs_project_id control" and "sp_generated_at_utc p = Aware now"
proof -
  let ?cs = "candidates_of control profiles"
  obtain D ge ap adm' ls pid ordered where
    D: "evaluate_backpressure (case signals of None \<Rightarrow> default_signals (int (length ?cs)) | Some s \<Rightarrow> s) policy = Inr D"
    and g: "build_conflict_graph nx ?cs = Inr (fst ge, snd ge)"
    and adm: "fold_res (preliminary_step D registry now) ([], []) ?cs = Inr (fst ap, snd ap)"
    and adm': "fold_res (\<lambda>admissions candidate. res_bind (final_decision nx (fst ge)
          (map tp_task_id (fst (select_lanes ds nx (snd ap) (fst ge) (pools_by_key (rr_pools registry))
             (capacity_usage registry now) (lane_limit_of max_lanes (length ?cs) D)))) candidate) (\<lambda>d.
        Inr (AList.update (tp_task_id candidate) d admissions))) (fst ap) (snd ap) = Inr adm'"
    and ls: "map_res (lane_assignment (cs_snapshot_id control)) (enumerate 1 (sort_key by_rank
          (fst (select_lanes ds nx (snd ap) (fst ge) (pools_by_key (rr_pools registry))
             (capacity_usage registry now) (lane_limit_of max_lanes (length ?cs) D))))) = Inr ls"
    and ordered: "map_res (\<lambda>item. dict_get id adm' (tp_task_id item)) (sort_key tp_task_id ?cs) = Inr ordered"
    and p: "make_SchedulerPlan
         \<lparr>sp_plan_id = pid, sp_project_id = cs_project_id control, sp_control_snapshot_id = cs_snapshot_id control,
          sp_registry_id = rr_registry_id registry, sp_backpressure = D, sp_selection_method =
            snd (select_lanes ds nx (snd ap) (fst ge) (pools_by_key (rr_pools registry))
             (capacity_usage registry now) (lane_limit_of max_lanes (length ?cs) D)),
          sp_candidate_count = int (length ?cs), sp_lane_limit = lane_limit_of max_lanes (length ?cs) D, sp_lanes = ls,
          sp_conflicts = snd ge, sp_admissions = ordered, sp_generated_at_utc = Aware now\<rparr> = Inr p"
    using assms unfolding plan_def Let_def res_bind_eq_Inr case_prod_beta prod.collapse by (elim exE conjE)
  have fields: "sp_backpressure p = D" "sp_lanes p = ls" "sp_conflicts p = snd ge" "sp_admissions p = ordered"
    "sp_project_id p = cs_project_id control" "sp_generated_at_utc p = Aware now" "valid_SchedulerPlan p"
    using p by (auto simp: make_SchedulerPlan_def split: if_splits)
  show "make_BackpressureDecision (sp_backpressure p) = Inr (sp_backpressure p)"
    using evaluate_backpressure_valid [OF D] by (simp add: fields)
  show "list_all valid_ConflictEdge (sp_conflicts p)" using conflict_edges_valid [OF g] by (simp add: fields)
  have "valid_LaneAssignment l" if "l \<in> set ls" for l
    using map_res_set [OF ls that] by (auto simp: lane_assignment_def make_LaneAssignment_def split: if_splits)
  then show "list_all valid_LaneAssignment (sp_lanes p)" by (simp add: list_all_iff fields)
  have "valid_AdmissionDecision d" if "d \<in> set ordered" for d
    using map_res_set [OF ordered that] decisions_valid [OF adm' preliminary_valid [OF adm]]
    by (fastforce simp: dict_get_def split: option.splits dest: map_of_SomeD)
  then show "list_all valid_AdmissionDecision (sp_admissions p)" by (simp add: list_all_iff fields)
  show "valid_SchedulerPlan p" "sp_project_id p = cs_project_id control" "sp_generated_at_utc p = Aware now"
    by (fact fields)+
qed

section \<open>Reading a saved plan\<close>

lemma load_plan_valid:
  assumes "make_BackpressureDecision (sp_backpressure p) = Inr (sp_backpressure p)"
    and "list_all valid_LaneAssignment (sp_lanes p)" "list_all (\<lambda>l. list_all stable_claim (la_claims l)) (sp_lanes p)"
    and "list_all valid_ConflictEdge (sp_conflicts p)" "list_all valid_AdmissionDecision (sp_admissions p)" "valid_SchedulerPlan p"
  shows "load_plan p = Inr p"
proof -
  have idem: "map_res f xs = Inr xs" if "\<And>x. x \<in> set xs \<Longrightarrow> f x = Inr x" for f and xs :: "'a list"
    using map_res_total [of xs f id] that by simp
  have "load_lane l = Inr l" if "l \<in> set (sp_lanes p)" for l
    using idem [of "la_claims l" make_ResourceClaim] assms(2,3) that
    by (simp add: load_lane_def list_all_iff stable_claim_def make_LaneAssignment_def)
  then have "map_res load_lane (sp_lanes p) = Inr (sp_lanes p)" by (rule idem)
  moreover have "map_res make_ConflictEdge (sp_conflicts p) = Inr (sp_conflicts p)"
    using assms(4) map_res_total [of "sp_conflicts p" make_ConflictEdge id] by (simp add: list_all_iff make_ConflictEdge_def)
  moreover have "map_res make_AdmissionDecision (sp_admissions p) = Inr (sp_admissions p)"
    using assms(5) map_res_total [of "sp_admissions p" make_AdmissionDecision id]
    by (simp add: list_all_iff make_AdmissionDecision_def)
  ultimately show ?thesis using assms(1,6) by (simp add: load_plan_def make_SchedulerPlan_def)
qed

lemma latest_plan_saved:
  assumes load: "load_plan p = Inr p" and t: "valid_instant (instant (sp_generated_at_utc p))"
    and rows: "\<forall>r \<in> set (ss_plans s). pr_created_at_utc r = utc_isoformat (instant (sp_generated_at_utc (pr_payload r)))
        \<and> valid_instant (instant (sp_generated_at_utc (pr_payload r)))"
    and older: "\<forall>r \<in> set (ss_plans s). pr_project_id r = sp_project_id p \<and> pr_plan_id r \<noteq> sp_plan_id p \<longrightarrow>
        instant (sp_generated_at_utc (pr_payload r)) < instant (sp_generated_at_utc p)"
  shows "latest_plan (save_plan p s) (sp_project_id p) = Inr (Some p)"
proof -
  let ?k = "\<lambda>r. (pr_created_at_utc r, pr_plan_id r)"
  let ?old = "filter (\<lambda>r. pr_project_id r = sp_project_id p) (filter (\<lambda>r. pr_plan_id r \<noteq> sp_plan_id p) (ss_plans s))"
  have "?k r \<le> ?k (plan_row p)" if "r \<in> set ?old" for r
  proof -
    have "utc_isoformat (instant (sp_generated_at_utc (pr_payload r))) < utc_isoformat (instant (sp_generated_at_utc p))"
      using that rows older t isoformat_less by auto
    then show ?thesis using that rows by (simp add: plan_row_def less_eq_prod_def)
  qed
  then have "sort_key ?k (?old @ [plan_row p]) = sort_key ?k ?old @ [plan_row p]" by (intro sort_key_snoc) blast
  moreover have "filter (\<lambda>r. pr_project_id r = sp_project_id p) (ss_plans (save_plan p s)) = ?old @ [plan_row p]"
    by (simp add: save_plan_def plan_row_def)
  moreover have "pr_payload (plan_row p) = p" by (simp add: plan_row_def)
  ultimately show ?thesis using load by (simp add: latest_plan_def)
qed

text \<open>
  C18. A plan that the scheduler computes is read back unchanged: after \<open>save_plan\<close>, \<open>latest_plan\<close>
  of the project validates the stored payload and returns that very plan, provided the stored plans of
  the project are older and the keys of the claims are in normal form.
\<close>

theorem saved_plan_roundtrip:
  assumes "nx_graph nx" "plan_inputs_ok control profiles registry policy"
    and "plan ds nx control profiles registry signals policy max_lanes now = Inr p"
    and "\<forall>q \<in> set profiles. list_all stable_claim (tp_claims q)" "valid_instant now"
    and "\<forall>r \<in> set (ss_plans s). pr_created_at_utc r = utc_isoformat (instant (sp_generated_at_utc (pr_payload r)))
        \<and> valid_instant (instant (sp_generated_at_utc (pr_payload r)))"
    and "\<forall>r \<in> set (ss_plans s). pr_project_id r = cs_project_id control \<and> pr_plan_id r \<noteq> sp_plan_id p \<longrightarrow>
        instant (sp_generated_at_utc (pr_payload r)) < now"
  shows "latest_plan (save_plan p s) (cs_project_id control) = Inr (Some p)"
proof -
  note v = plan_parts_valid [OF assms(3)]
  obtain p' g selected where "plan ds nx control profiles registry signals policy max_lanes now = Inr p'"
    and run': "plan_run ds nx (candidates_of control profiles) registry signals policy max_lanes now p' g selected"
    using plan_total [OF assms(1,2)] by blast
  then have run: "plan_run ds nx (candidates_of control profiles) registry signals policy max_lanes now p g selected"
    using assms(3) by simp
  have "list_all stable_claim (la_claims l)" if "l \<in> set (sp_lanes p)" for l
    using lane_origin [OF plan_runD(6) [OF run] plan_runD(7) [OF run] that] plan_run_selected(2) [OF assms(1,2) run] assms(4)
    by fastforce
  then have "load_plan p = Inr p" using v by (intro load_plan_valid) (simp_all add: list_all_iff)
  from latest_plan_saved [OF this, of s] show ?thesis using v(6,7) assms(5-7) by simp
qed

theorem saved_plan_roundtrip_witness:
  "\<exists>p. example_plan = Inr p \<and> latest_plan (save_plan p empty_scheduler_store) ''PROJECT-X'' = Inr (Some p)"
proof -
  obtain p where p: "example_plan = Inr p" using example_plan_ok by blast
  have "valid_instant 0" by code_simp
  moreover have "\<forall>q \<in> set example_candidates. list_all stable_claim (tp_claims q)"
    unfolding stable_claim_def by code_simp
  ultimately have "latest_plan (save_plan p empty_scheduler_store)
      (cs_project_id (example_control (map tp_task_id example_candidates))) = Inr (Some p)"
    by (intro saved_plan_roundtrip [OF adjacency.nx_graph_axioms example_inputs_ok p]) (simp_all add: empty_scheduler_store_def)
  then show ?thesis using p by (simp add: example_control_def)
qed

end
