(* ===== verification/BudgetDomain.thy ===== *)
theory BudgetDomain
  imports Json Identifiers PyDatetime
begin

text \<open>
  \<open>src/project_pipeline/domain/budget.py\<close>: limits, quotas, ledger entries, spend leases, policy,
  forecasts, snapshots, admission requests and decisions, with their validators.  Money is an integer
  number of micro-units.  The constant fields \<open>schema_version\<close> and \<open>currency\<close> are left out.
\<close>

section \<open>Identifiers and fingerprints\<close>

definition budget_id_rx :: rx where
  "budget_id_rx =
     RSeq (ralts (map rlit [''LIMIT'', ''QUOTA'', ''ENTRY'', ''LEASE'', ''ADMISSION'', ''FORECAST'', ''HISTORY'',
                            ''SIM'', ''ANOMALY'', ''IMPACT'']))
       (RSeq (rlit ''-'') (rtimes 20 is_hex_upper))"

definition budget_identifier :: "string \<Rightarrow> string list \<Rightarrow> string result" where
  "budget_identifier pre parts =
     (if parts = [] \<or> list_ex (\<lambda>s. py_strip s = []) parts
      then Inl (ValueError ''budget identifier parts must be non-empty'')
      else Inr (pre @ ''-'' @ digest20 parts))"

definition budget_fingerprint :: "json \<Rightarrow> string" where
  "budget_fingerprint value = sha256_hex (dumps False value)"

section \<open>Enumerations\<close>

datatype BudgetScopeType = S_GLOBAL | S_PORTFOLIO | S_PROJECT | S_PHASE | S_TASK | S_PROVIDER | S_RESOURCE

fun scope_type_value :: "BudgetScopeType \<Rightarrow> string" where
  "scope_type_value S_GLOBAL = ''GLOBAL''"
| "scope_type_value S_PORTFOLIO = ''PORTFOLIO''"
| "scope_type_value S_PROJECT = ''PROJECT''"
| "scope_type_value S_PHASE = ''PHASE''"
| "scope_type_value S_TASK = ''TASK''"
| "scope_type_value S_PROVIDER = ''PROVIDER''"
| "scope_type_value S_RESOURCE = ''RESOURCE''"

datatype CostClass =
    C_PROVIDER | C_SUBSCRIPTION | C_LOCAL_COMPUTE | C_CLOUD | C_STORAGE | C_NETWORK | C_VERIFICATION
  | C_CONTEXT | C_TOOL | C_OTHER

datatype CostEvidenceState =
  E_OBSERVED | E_PROVIDER_REPORTED | E_ESTIMATED | E_RECONCILED | E_INFRACOST | E_UNKNOWN

datatype LedgerDirection = DEBIT | CREDIT

datatype SpendLeaseState =
  L_RESERVED | L_SETTLED | L_RELEASED | L_EXPIRED | L_CANCELLED | L_UNKNOWN_OUTCOME | L_OVERSPENT

datatype PressureMode = GREEN | YELLOW | ORANGE | RED | HARD_STOP

datatype ReserveReason =
    P0_FAILURE_RECOVERY | CRITICAL_PATH | RELEASE_BLOCKER | SECURITY | PRODUCTION_RECOVERY
  | CRITICAL_ARCHITECTURE | DEADLINE_PROTECTION | REQUIRED_VERIFICATION

fun reserve_reason_value :: "ReserveReason \<Rightarrow> string" where
  "reserve_reason_value P0_FAILURE_RECOVERY = ''P0_FAILURE_RECOVERY''"
| "reserve_reason_value CRITICAL_PATH = ''CRITICAL_PATH''"
| "reserve_reason_value RELEASE_BLOCKER = ''RELEASE_BLOCKER''"
| "reserve_reason_value SECURITY = ''SECURITY''"
| "reserve_reason_value PRODUCTION_RECOVERY = ''PRODUCTION_RECOVERY''"
| "reserve_reason_value CRITICAL_ARCHITECTURE = ''CRITICAL_ARCHITECTURE''"
| "reserve_reason_value DEADLINE_PROTECTION = ''DEADLINE_PROTECTION''"
| "reserve_reason_value REQUIRED_VERIFICATION = ''REQUIRED_VERIFICATION''"

datatype ForecastConfidence = LOW | MEDIUM | HIGH

section \<open>Shared validators\<close>

text \<open>\<open>tuple(sorted(dict.fromkeys(item.strip() for item in value if item.strip())))\<close>\<close>

definition normal_scopes :: "string list \<Rightarrow> string list" where
  "normal_scopes value = sorted_set (map py_strip (filter (\<lambda>s. py_strip s \<noteq> []) value))"

definition dimensions_ok :: "(string, int) dict \<Rightarrow> bool" where
  "dimensions_ok d \<longleftrightarrow> list_all (\<lambda>(k, n). py_strip k \<noteq> [] \<and> 0 \<le> n) d"

definition sorted_items :: "(string, int) dict \<Rightarrow> (string, int) dict" where
  "sorted_items d = sort_key fst d"

definition length_between :: "nat \<Rightarrow> nat \<Rightarrow> string \<Rightarrow> bool" where
  "length_between a b s \<longleftrightarrow> a \<le> length s \<and> length s \<le> b"

section \<open>Limits and quotas\<close>

record BudgetLimit =
  bl_limit_id :: string
  bl_scope_type :: BudgetScopeType
  bl_scope_id :: string
  bl_cycle_id :: string
  bl_hard_cap :: int
  bl_soft_cap :: "int option"
  bl_protected_reserve :: int
  bl_parent_scope_key :: "string option"
  bl_enabled :: bool

definition bl_scope_key :: "BudgetLimit \<Rightarrow> string" where
  "bl_scope_key l = scope_type_value (bl_scope_type l) @ '':'' @ bl_scope_id l"

definition bl_normal_cap :: "BudgetLimit \<Rightarrow> int" where
  "bl_normal_cap l = bl_hard_cap l - bl_protected_reserve l"

definition valid_BudgetLimit :: "BudgetLimit \<Rightarrow> bool" where
  "valid_BudgetLimit l \<longleftrightarrow>
     length_between 1 191 (bl_scope_id l) \<and> length_between 1 100 (bl_cycle_id l) \<and> 0 \<le> bl_hard_cap l
     \<and> (case bl_soft_cap l of None \<Rightarrow> True | Some n \<Rightarrow> 0 \<le> n) \<and> 0 \<le> bl_protected_reserve l
     \<and> fullmatch budget_id_rx (bl_limit_id l)
     \<and> budget_identifier ''LIMIT'' [bl_scope_key l, bl_cycle_id l] = Inr (bl_limit_id l)
     \<and> \<not> (case bl_soft_cap l of None \<Rightarrow> False | Some n \<Rightarrow> bl_hard_cap l < n)
     \<and> \<not> bl_hard_cap l < bl_protected_reserve l"

definition make_BudgetLimit :: "BudgetLimit \<Rightarrow> BudgetLimit result" where
  "make_BudgetLimit l = (if valid_BudgetLimit l then Inr l else Inl ValidationError)"

record QuotaLimit =
  ql_quota_id :: string
  ql_scope_key :: string
  ql_provider_id :: string
  ql_quota_name :: string
  ql_capacity_units :: int
  ql_protected_units :: int
  ql_max_shadow_cost :: int
  ql_enabled :: bool

definition valid_QuotaLimit :: "QuotaLimit \<Rightarrow> bool" where
  "valid_QuotaLimit q \<longleftrightarrow>
     length_between 3 250 (ql_scope_key q) \<and> length_between 1 191 (ql_provider_id q) \<and> length_between 1 100 (ql_quota_name q)
     \<and> 0 < ql_capacity_units q \<and> 0 \<le> ql_protected_units q \<and> 0 \<le> ql_max_shadow_cost q
     \<and> \<not> ql_capacity_units q < ql_protected_units q
     \<and> budget_identifier ''QUOTA'' [ql_scope_key q, ql_provider_id q, ql_quota_name q] = Inr (ql_quota_id q)"

definition make_QuotaLimit :: "QuotaLimit \<Rightarrow> QuotaLimit result" where
  "make_QuotaLimit q = (if valid_QuotaLimit q then Inr q else Inl ValidationError)"

section \<open>Ledger entries and spend leases\<close>

record BudgetLedgerEntry =
  le_entry_id :: string
  le_idempotency_key :: string
  le_project_id :: string
  le_task_id :: "string option"
  le_provider_id :: "string option"
  le_model_id :: "string option"
  le_resource_id :: "string option"
  le_tool_id :: "string option"
  le_outcome_id :: "string option"
  le_cost_class :: CostClass
  le_direction :: LedgerDirection
  le_cash :: int
  le_shadow_cost :: int
  le_quota_units :: "(string, int) dict"
  le_usage_dimensions :: "(string, int) dict"
  le_scope_keys :: "string list"
  le_evidence_state :: CostEvidenceState
  le_verified_outcome :: bool
  le_merged_outcome :: bool
  le_retry_waste :: bool
  le_evidence_references :: "string list"
  le_observed_at_utc :: py_datetime
  le_recorded_at_utc :: py_datetime

definition valid_BudgetLedgerEntry :: "BudgetLedgerEntry \<Rightarrow> bool" where
  "valid_BudgetLedgerEntry e \<longleftrightarrow>
     length_between 1 300 (le_idempotency_key e) \<and> length_between 1 191 (le_project_id e)
     \<and> 0 \<le> le_cash e \<and> 0 \<le> le_shadow_cost e
     \<and> is_aware (le_observed_at_utc e) \<and> is_aware (le_recorded_at_utc e)
     \<and> normal_scopes (le_scope_keys e) \<noteq> []
     \<and> dimensions_ok (le_quota_units e) \<and> dimensions_ok (le_usage_dimensions e)
     \<and> budget_identifier ''ENTRY'' [le_idempotency_key e] = Inr (le_entry_id e)
     \<and> \<not> (le_cash e = 0 \<and> le_quota_units e = [] \<and> le_usage_dimensions e = [])"

definition make_BudgetLedgerEntry :: "BudgetLedgerEntry \<Rightarrow> BudgetLedgerEntry result" where
  "make_BudgetLedgerEntry e =
     (if valid_BudgetLedgerEntry e
      then Inr (e\<lparr>le_scope_keys := normal_scopes (le_scope_keys e), le_quota_units := sorted_items (le_quota_units e),
                  le_usage_dimensions := sorted_items (le_usage_dimensions e)\<rparr>)
      else Inl ValidationError)"

definition signed_cash :: "BudgetLedgerEntry \<Rightarrow> int" where
  "signed_cash e = (if le_direction e = DEBIT then le_cash e else - le_cash e)"

record SpendLease =
  sl_lease_id :: string
  sl_idempotency_key :: string
  sl_project_id :: string
  sl_task_id :: string
  sl_provider_id :: "string option"
  sl_scope_keys :: "string list"
  sl_maximum :: int
  sl_reserved :: int
  sl_consumed :: int
  sl_quota_reservations :: "(string, int) dict"
  sl_state :: SpendLeaseState
  sl_reserve_reason :: "ReserveReason option"
  sl_reservation_evidence :: "string list"
  sl_created_at_utc :: py_datetime
  sl_expires_at_utc :: py_datetime
  sl_updated_at_utc :: py_datetime
  sl_reconciliation_required :: bool

definition valid_SpendLease :: "SpendLease \<Rightarrow> bool" where
  "valid_SpendLease l \<longleftrightarrow>
     length_between 1 300 (sl_idempotency_key l) \<and> length_between 1 191 (sl_project_id l)
     \<and> length_between 1 191 (sl_task_id l) \<and> 0 \<le> sl_maximum l \<and> 0 \<le> sl_reserved l \<and> 0 \<le> sl_consumed l
     \<and> is_aware (sl_created_at_utc l) \<and> is_aware (sl_expires_at_utc l) \<and> is_aware (sl_updated_at_utc l)
     \<and> normal_scopes (sl_scope_keys l) \<noteq> [] \<and> dimensions_ok (sl_quota_reservations l)
     \<and> budget_identifier ''LEASE'' [sl_idempotency_key l] = Inr (sl_lease_id l)
     \<and> \<not> sl_maximum l < sl_reserved l
     \<and> \<not> instant (sl_expires_at_utc l) \<le> instant (sl_created_at_utc l)
     \<and> \<not> (sl_state l = L_UNKNOWN_OUTCOME \<and> \<not> sl_reconciliation_required l)"

definition make_SpendLease :: "SpendLease \<Rightarrow> SpendLease result" where
  "make_SpendLease l =
     (if valid_SpendLease l
      then Inr (l\<lparr>sl_scope_keys := normal_scopes (sl_scope_keys l),
                  sl_quota_reservations := sorted_items (sl_quota_reservations l)\<rparr>)
      else Inl ValidationError)"

definition reservation_held :: "SpendLease \<Rightarrow> bool" where
  "reservation_held l \<longleftrightarrow> sl_state l \<in> {L_RESERVED, L_UNKNOWN_OUTCOME}"

section \<open>Policy\<close>

record BudgetPolicy =
  po_yellow_projected_ratio_milli :: int
  po_orange_projected_ratio_milli :: int
  po_red_projected_ratio_milli :: int
  po_yellow_pace_ratio_milli :: int
  po_orange_pace_ratio_milli :: int
  po_red_pace_ratio_milli :: int
  po_lease_ttl_seconds :: int
  po_reevaluate_at_consumed_milli :: int
  po_default_p90_multiplier_milli :: int
  po_minimum_history_samples_medium :: int
  po_minimum_history_samples_high :: int
  po_anomaly_warn_ratio_milli :: int
  po_anomaly_block_ratio_milli :: int
  po_reserve_reasons :: "ReserveReason list"

definition valid_BudgetPolicy :: "BudgetPolicy \<Rightarrow> bool" where
  "valid_BudgetPolicy p \<longleftrightarrow>
     1 \<le> po_yellow_projected_ratio_milli p \<and> po_yellow_projected_ratio_milli p \<le> 999
     \<and> 1 \<le> po_orange_projected_ratio_milli p \<and> po_orange_projected_ratio_milli p \<le> 999
     \<and> 1 \<le> po_red_projected_ratio_milli p \<and> po_red_projected_ratio_milli p \<le> 999
     \<and> 1000 \<le> po_yellow_pace_ratio_milli p \<and> 1000 \<le> po_orange_pace_ratio_milli p \<and> 1000 \<le> po_red_pace_ratio_milli p
     \<and> 30 \<le> po_lease_ttl_seconds p \<and> po_lease_ttl_seconds p \<le> 604800
     \<and> 1 \<le> po_reevaluate_at_consumed_milli p \<and> po_reevaluate_at_consumed_milli p \<le> 999
     \<and> 1000 \<le> po_default_p90_multiplier_milli p \<and> po_default_p90_multiplier_milli p \<le> 5000
     \<and> 1 \<le> po_minimum_history_samples_medium p \<and> 2 \<le> po_minimum_history_samples_high p
     \<and> 1000 \<le> po_anomaly_warn_ratio_milli p \<and> 1001 \<le> po_anomaly_block_ratio_milli p
     \<and> po_yellow_projected_ratio_milli p < po_orange_projected_ratio_milli p
     \<and> po_orange_projected_ratio_milli p < po_red_projected_ratio_milli p \<and> po_red_projected_ratio_milli p < 1000
     \<and> po_yellow_pace_ratio_milli p < po_orange_pace_ratio_milli p
     \<and> po_orange_pace_ratio_milli p < po_red_pace_ratio_milli p
     \<and> \<not> po_anomaly_block_ratio_milli p \<le> po_anomaly_warn_ratio_milli p"

definition default_budget_policy :: BudgetPolicy where
  "default_budget_policy =
     \<lparr>po_yellow_projected_ratio_milli = 800, po_orange_projected_ratio_milli = 900, po_red_projected_ratio_milli = 975,
      po_yellow_pace_ratio_milli = 1100, po_orange_pace_ratio_milli = 1250, po_red_pace_ratio_milli = 1500,
      po_lease_ttl_seconds = 3600, po_reevaluate_at_consumed_milli = 800, po_default_p90_multiplier_milli = 1500,
      po_minimum_history_samples_medium = 4, po_minimum_history_samples_high = 12,
      po_anomaly_warn_ratio_milli = 1500, po_anomaly_block_ratio_milli = 2500,
      po_reserve_reasons = [P0_FAILURE_RECOVERY, CRITICAL_PATH, RELEASE_BLOCKER, SECURITY, PRODUCTION_RECOVERY,
        CRITICAL_ARCHITECTURE, DEADLINE_PROTECTION, REQUIRED_VERIFICATION]\<rparr>"

section \<open>Forecasts, snapshots, requests and decisions\<close>

record BudgetForecast =
  bf_forecast_id :: string
  bf_project_id :: string
  bf_task_class :: "string option"
  bf_provider_id :: "string option"
  bf_p50 :: int
  bf_p90 :: int
  bf_queued_p50 :: int
  bf_queued_p90 :: int
  bf_burn_rate_per_day :: int
  bf_pace_ratio_milli :: int
  bf_runway_days_milli :: "int option"
  bf_sample_count :: int
  bf_confidence :: ForecastConfidence
  bf_source :: string
  bf_generated_at_utc :: py_datetime

text \<open>\<open>value or "*"\<close>\<close>

definition or_star :: "string option \<Rightarrow> string" where
  "or_star v = (case v of None \<Rightarrow> ''*'' | Some s \<Rightarrow> if s = [] then ''*'' else s)"

definition valid_BudgetForecast :: "BudgetForecast \<Rightarrow> bool" where
  "valid_BudgetForecast f \<longleftrightarrow>
     0 \<le> bf_p50 f \<and> 0 \<le> bf_p90 f \<and> 0 \<le> bf_queued_p50 f \<and> 0 \<le> bf_queued_p90 f \<and> 0 \<le> bf_burn_rate_per_day f
     \<and> 0 \<le> bf_pace_ratio_milli f \<and> (case bf_runway_days_milli f of None \<Rightarrow> True | Some n \<Rightarrow> 0 \<le> n)
     \<and> 0 \<le> bf_sample_count f \<and> length_between 1 100 (bf_source f) \<and> is_aware (bf_generated_at_utc f)
     \<and> \<not> (bf_p90 f < bf_p50 f \<or> bf_queued_p90 f < bf_queued_p50 f)
     \<and> budget_identifier ''FORECAST'' [bf_project_id f, or_star (bf_task_class f), or_star (bf_provider_id f),
         utc_isoformat (instant (bf_generated_at_utc f))] = Inr (bf_forecast_id f)"

definition make_BudgetForecast :: "BudgetForecast \<Rightarrow> BudgetForecast result" where
  "make_BudgetForecast f = (if valid_BudgetForecast f then Inr f else Inl ValidationError)"

record BudgetSnapshot =
  bn_scope_key :: string
  bn_hard_cap :: int
  bn_soft_cap :: int
  bn_protected_reserve :: int
  bn_spent :: int
  bn_credited :: int
  bn_committed :: int
  bn_remaining_normal :: int
  bn_remaining_total :: int
  bn_forecast_p90 :: int
  bn_pace_ratio_milli :: int
  bn_pressure_mode :: PressureMode
  bn_observed_at_utc :: py_datetime

definition valid_BudgetSnapshot :: "BudgetSnapshot \<Rightarrow> bool" where
  "valid_BudgetSnapshot n \<longleftrightarrow>
     0 \<le> bn_hard_cap n \<and> 0 \<le> bn_soft_cap n \<and> 0 \<le> bn_protected_reserve n \<and> 0 \<le> bn_spent n \<and> 0 \<le> bn_credited n
     \<and> 0 \<le> bn_committed n \<and> 0 \<le> bn_remaining_normal n \<and> 0 \<le> bn_remaining_total n \<and> 0 \<le> bn_forecast_p90 n
     \<and> 0 \<le> bn_pace_ratio_milli n \<and> is_aware (bn_observed_at_utc n)"

definition make_BudgetSnapshot :: "BudgetSnapshot \<Rightarrow> BudgetSnapshot result" where
  "make_BudgetSnapshot n = (if valid_BudgetSnapshot n then Inr n else Inl ValidationError)"

record BudgetAdmissionRequest =
  ar_project_id :: string
  ar_task_id :: string
  ar_task_class :: string
  ar_provider_id :: "string option"
  ar_scope_keys :: "string list"
  ar_estimated_p50 :: int
  ar_estimated_p90 :: int
  ar_quota_requirements :: "(string, int) dict"
  ar_priority :: string
  ar_risk :: string
  ar_critical_path :: bool
  ar_required_verification :: bool
  ar_paid_incremental :: bool
  ar_local_or_subscription_alternative :: bool
  ar_reserve_reason :: "ReserveReason option"
  ar_deadline_at_utc :: "py_datetime option"

definition valid_BudgetAdmissionRequest :: "BudgetAdmissionRequest \<Rightarrow> bool" where
  "valid_BudgetAdmissionRequest r \<longleftrightarrow>
     length_between 1 191 (ar_project_id r) \<and> length_between 1 191 (ar_task_id r) \<and> length_between 1 100 (ar_task_class r)
     \<and> 0 \<le> ar_estimated_p50 r \<and> 0 \<le> ar_estimated_p90 r \<and> normal_scopes (ar_scope_keys r) \<noteq> []
     \<and> (case ar_deadline_at_utc r of None \<Rightarrow> True | Some t \<Rightarrow> is_aware t) \<and> dimensions_ok (ar_quota_requirements r)
     \<and> \<not> ar_estimated_p90 r < ar_estimated_p50 r"

definition make_BudgetAdmissionRequest :: "BudgetAdmissionRequest \<Rightarrow> BudgetAdmissionRequest result" where
  "make_BudgetAdmissionRequest r =
     (if valid_BudgetAdmissionRequest r
      then Inr (r\<lparr>ar_scope_keys := normal_scopes (ar_scope_keys r),
                  ar_quota_requirements := sorted_items (ar_quota_requirements r)\<rparr>)
      else Inl ValidationError)"

text \<open>
  \<open>model_dump(mode="json")\<close> of a request; \<open>isoformat\<close> is pydantic's rendering of a UTC time stamp, a
  parameter.
\<close>

definition dump_request :: "(int \<Rightarrow> string) \<Rightarrow> BudgetAdmissionRequest \<Rightarrow> json" where
  "dump_request isoformat r = JObj
     [(''schema_version'', JStr ''1.0.0''), (''project_id'', JStr (ar_project_id r)), (''task_id'', JStr (ar_task_id r)),
      (''task_class'', JStr (ar_task_class r)), (''provider_id'', JOpt (ar_provider_id r)),
      (''scope_keys'', JList (map JStr (ar_scope_keys r))), (''estimated_p50_microunits'', JInt (ar_estimated_p50 r)),
      (''estimated_p90_microunits'', JInt (ar_estimated_p90 r)),
      (''quota_requirements'', JObj (map (\<lambda>(k, n). (k, JInt n)) (ar_quota_requirements r))),
      (''priority'', JStr (ar_priority r)), (''risk'', JStr (ar_risk r)), (''critical_path'', JBool (ar_critical_path r)),
      (''required_verification'', JBool (ar_required_verification r)), (''paid_incremental'', JBool (ar_paid_incremental r)),
      (''local_or_subscription_alternative'', JBool (ar_local_or_subscription_alternative r)),
      (''reserve_reason'', JOpt (map_option reserve_reason_value (ar_reserve_reason r))),
      (''deadline_at_utc'', JOpt (map_option (isoformat \<circ> instant) (ar_deadline_at_utc r)))]"

record BudgetAdmissionDecision =
  ba_decision_id :: string
  ba_task_id :: string
  ba_admitted :: bool
  ba_pressure_mode :: PressureMode
  ba_authorized :: int
  ba_reserve_authorized :: bool
  ba_allowed_paid_incremental :: bool
  ba_quota_shadow_cost :: int
  ba_reasons :: "string list"
  ba_preferred_execution_modes :: "string list"
  ba_generated_at_utc :: py_datetime

definition valid_BudgetAdmissionDecision :: "BudgetAdmissionDecision \<Rightarrow> bool" where
  "valid_BudgetAdmissionDecision d \<longleftrightarrow>
     0 \<le> ba_authorized d \<and> 0 \<le> ba_quota_shadow_cost d \<and> is_aware (ba_generated_at_utc d)"

definition make_BudgetAdmissionDecision :: "BudgetAdmissionDecision \<Rightarrow> BudgetAdmissionDecision result" where
  "make_BudgetAdmissionDecision d = (if valid_BudgetAdmissionDecision d then Inr d else Inl ValidationError)"

section \<open>History, metrics, anomalies and changed limits\<close>

record CostHistoryObservation =
  ho_observation_id :: string
  ho_project_id :: string
  ho_task_id :: string
  ho_task_class :: string
  ho_provider_id :: "string option"
  ho_cash :: int
  ho_shadow_cost :: int
  ho_succeeded :: bool
  ho_verified :: bool
  ho_merged :: bool
  ho_retry_count :: int
  ho_rework_count :: int
  ho_observed_at_utc :: py_datetime

definition valid_CostHistoryObservation :: "CostHistoryObservation \<Rightarrow> bool" where
  "valid_CostHistoryObservation h \<longleftrightarrow>
     0 \<le> ho_cash h \<and> 0 \<le> ho_shadow_cost h \<and> 0 \<le> ho_retry_count h \<and> 0 \<le> ho_rework_count h
     \<and> is_aware (ho_observed_at_utc h)
     \<and> budget_identifier ''HISTORY'' [ho_project_id h, ho_task_id h, or_star (ho_provider_id h),
         utc_isoformat (instant (ho_observed_at_utc h))] = Inr (ho_observation_id h)"

definition make_CostHistoryObservation :: "CostHistoryObservation \<Rightarrow> CostHistoryObservation result" where
  "make_CostHistoryObservation h = (if valid_CostHistoryObservation h then Inr h else Inl ValidationError)"

record CostOutcomeMetrics =
  om_total_cost :: int
  om_verified_outcome_count :: int
  om_merged_outcome_count :: int
  om_wasted_cost :: int
  om_cost_per_verified_outcome :: "int option"
  om_cost_per_merged_outcome :: "int option"

definition valid_CostOutcomeMetrics :: "CostOutcomeMetrics \<Rightarrow> bool" where
  "valid_CostOutcomeMetrics m \<longleftrightarrow>
     0 \<le> om_total_cost m \<and> 0 \<le> om_verified_outcome_count m \<and> 0 \<le> om_merged_outcome_count m \<and> 0 \<le> om_wasted_cost m
     \<and> (case om_cost_per_verified_outcome m of None \<Rightarrow> True | Some n \<Rightarrow> 0 \<le> n)
     \<and> (case om_cost_per_merged_outcome m of None \<Rightarrow> True | Some n \<Rightarrow> 0 \<le> n)"

definition make_CostOutcomeMetrics :: "CostOutcomeMetrics \<Rightarrow> CostOutcomeMetrics result" where
  "make_CostOutcomeMetrics m = (if valid_CostOutcomeMetrics m then Inr m else Inl ValidationError)"

datatype AnomalySeverity = SEV_NORMAL | SEV_WARN | SEV_BLOCK

record BudgetAnomaly =
  an_anomaly_id :: string
  an_project_id :: string
  an_task_id :: "string option"
  an_provider_id :: "string option"
  an_expected_p90 :: int
  an_observed :: int
  an_observed_to_expected_milli :: int
  an_severity :: AnomalySeverity
  an_block_new_paid_work :: bool
  an_reasons :: "string list"
  an_detected_at_utc :: py_datetime

definition valid_BudgetAnomaly :: "BudgetAnomaly \<Rightarrow> bool" where
  "valid_BudgetAnomaly a \<longleftrightarrow>
     0 \<le> an_expected_p90 a \<and> 0 \<le> an_observed a \<and> 0 \<le> an_observed_to_expected_milli a \<and> is_aware (an_detected_at_utc a)"

definition make_BudgetAnomaly :: "BudgetAnomaly \<Rightarrow> BudgetAnomaly result" where
  "make_BudgetAnomaly a = (if valid_BudgetAnomaly a then Inr a else Inl ValidationError)"

record BudgetChangeImpact =
  ci_impact_id :: string
  ci_scope_key :: string
  ci_old_hard_cap :: int
  ci_new_hard_cap :: int
  ci_active_commitment :: int
  ci_committed_over_new_cap :: int
  ci_active_lease_count :: int
  ci_requires_operator_attention :: bool
  ci_generated_at_utc :: py_datetime

definition valid_BudgetChangeImpact :: "BudgetChangeImpact \<Rightarrow> bool" where
  "valid_BudgetChangeImpact c \<longleftrightarrow>
     0 \<le> ci_old_hard_cap c \<and> 0 \<le> ci_new_hard_cap c \<and> 0 \<le> ci_active_commitment c \<and> 0 \<le> ci_committed_over_new_cap c
     \<and> 0 \<le> ci_active_lease_count c \<and> is_aware (ci_generated_at_utc c)"

definition make_BudgetChangeImpact :: "BudgetChangeImpact \<Rightarrow> BudgetChangeImpact result" where
  "make_BudgetChangeImpact c = (if valid_BudgetChangeImpact c then Inr c else Inl ValidationError)"

section \<open>Validation of a validated value changes nothing\<close>

lemma strip_by_idem [simp]: "strip_by P (strip_by P s) = strip_by P s"
proof -
  have d: "dropWhile P (dropWhile P xs) = dropWhile P xs" for xs :: string by (induction xs) auto
  have "dropWhile P (rev (dropWhile P (rev t))) = rev (dropWhile P (rev t))" if "dropWhile P t = t" for t
  proof (cases "rev (dropWhile P (rev t))")
    case (Cons x xs)
    have "\<exists>zs. t = rev (dropWhile P (rev t)) @ zs"
      by (metis rev_append rev_rev_ident takeWhile_dropWhile_id)
    then have "hd t = x" "t \<noteq> []" using Cons by auto
    then have "\<not> P x" using that by (metis dropWhile_eq_self_iff)
    then show ?thesis using Cons by simp
  qed (simp only: dropWhile.simps)
  from this [OF d, of s] show ?thesis by (simp add: strip_by_def d)
qed

lemma py_strip_idem [simp]: "py_strip (py_strip s) = py_strip s"
  by (simp add: py_strip_def)

lemma sorted_set_idem: "sorted_set (sorted_set xs) = sorted_set xs"
  by (simp add: sorted_set_def sort_key_id_if_sorted)

lemma normal_scopes_idem [simp]: "normal_scopes (normal_scopes ss) = normal_scopes ss"
proof -
  have s: "py_strip x = x \<and> x \<noteq> []" if "x \<in> set (normal_scopes ss)" for x using that by (auto simp: normal_scopes_def)
  then have "map py_strip (filter (\<lambda>x. py_strip x \<noteq> []) (normal_scopes ss)) = normal_scopes ss"
    using s by (intro trans [OF arg_cong [of _ _ "map py_strip"] map_idI] filter_True) auto
  then show ?thesis by (simp add: normal_scopes_def sorted_set_idem)
qed

lemma sorted_items_idem [simp]: "sorted_items (sorted_items d) = sorted_items d"
  by (simp add: sorted_items_def sort_key_id_if_sorted)

lemma dimensions_ok_sorted [simp]: "dimensions_ok (sorted_items d) = dimensions_ok d"
  by (simp add: dimensions_ok_def sorted_items_def list_all_iff)

lemma sorted_items_Nil [simp]: "sorted_items d = [] \<longleftrightarrow> d = []"
  by (metis length_0_conv length_sort sorted_items_def)

lemma make_SpendLease_idem: "make_SpendLease l = Inr l' \<Longrightarrow> make_SpendLease l' = Inr l'"
  by (auto simp: make_SpendLease_def valid_SpendLease_def split: if_splits)

lemma make_BudgetLedgerEntry_idem: "make_BudgetLedgerEntry e = Inr e' \<Longrightarrow> make_BudgetLedgerEntry e' = Inr e'"
  by (auto simp: make_BudgetLedgerEntry_def valid_BudgetLedgerEntry_def split: if_splits)

end
