(* ===== verification/BudgetEvaluator.thy ===== *)
theory BudgetEvaluator
  imports BudgetDomain SchedulerDomain
begin

text \<open>
  \<open>src/project_pipeline/budget/policy.py\<close> (pressure, snapshots, the admission decision and soft
  envelopes), \<open>forecast.py\<close>, \<open>anomaly.py\<close> and \<open>integration.py\<close>.  The clock is the argument \<open>now\<close>.
\<close>

section \<open>Pressure and snapshots\<close>

fun pressure_order :: "PressureMode \<Rightarrow> int" where
  "pressure_order GREEN = 0"
| "pressure_order YELLOW = 1"
| "pressure_order ORANGE = 2"
| "pressure_order RED = 3"
| "pressure_order HARD_STOP = 4"

definition quota_shadow_cost :: "QuotaLimit \<Rightarrow> int \<Rightarrow> int" where
  "quota_shadow_cost limit used_or_reserved_units =
     (let used = max 0 (min used_or_reserved_units (ql_capacity_units limit));
          remaining = ql_capacity_units limit - used;
          depletion_milli = 1000 - remaining * 1000 div ql_capacity_units limit
      in ql_max_shadow_cost limit * depletion_milli * depletion_milli div 1000000)"

definition determine_pressure ::
  "BudgetPolicy \<Rightarrow> int \<Rightarrow> int \<Rightarrow> int option \<Rightarrow> int \<Rightarrow> int \<Rightarrow> int \<Rightarrow> int \<Rightarrow> int \<Rightarrow> PressureMode" where
  "determine_pressure policy hard_cap protected_reserve soft_cap spent credited committed forecast_p90 pace_ratio_milli =
     (let effective_spent = max 0 (spent - credited);
          committed_total = effective_spent + committed
      in if hard_cap = 0 then (if committed_total > 0 then HARD_STOP else GREEN)
         else if committed_total \<ge> hard_cap then HARD_STOP
         else
           let normal_cap = max 0 (hard_cap - protected_reserve);
               projected = committed_total + forecast_p90;
               configured_soft = (case soft_cap of None \<Rightarrow> normal_cap | Some soft \<Rightarrow> min normal_cap (max 0 soft));
               denominator = (if configured_soft > 0 then configured_soft else if normal_cap > 0 then normal_cap else hard_cap);
               projected_ratio = projected * 1000 div max 1 denominator;
               mode = (if projected_ratio \<ge> 1000 then RED
                       else if projected_ratio \<ge> po_red_projected_ratio_milli policy then RED
                       else if projected_ratio \<ge> po_orange_projected_ratio_milli policy then ORANGE
                       else if projected_ratio \<ge> po_yellow_projected_ratio_milli policy then YELLOW
                       else GREEN);
               pace_mode = (if pace_ratio_milli \<ge> po_red_pace_ratio_milli policy then RED
                       else if pace_ratio_milli \<ge> po_orange_pace_ratio_milli policy then ORANGE
                       else if pace_ratio_milli \<ge> po_yellow_pace_ratio_milli policy then YELLOW
                       else GREEN)
           in max_by pressure_order mode [pace_mode])"

definition build_snapshot ::
  "string \<Rightarrow> int \<Rightarrow> int \<Rightarrow> int option \<Rightarrow> int \<Rightarrow> int \<Rightarrow> int \<Rightarrow> int \<Rightarrow> int \<Rightarrow> BudgetPolicy \<Rightarrow> int \<Rightarrow> BudgetSnapshot result" where
  "build_snapshot scope_key hard_cap protected_reserve soft_cap spent credited committed forecast_p90 pace_ratio_milli
       policy observed_at_utc =
     (let effective = max 0 (spent - credited);
          used = effective + committed;
          normal_cap = max 0 (hard_cap - protected_reserve)
      in make_BudgetSnapshot
           \<lparr>bn_scope_key = scope_key, bn_hard_cap = hard_cap,
            bn_soft_cap = min (max 0 (hard_cap - protected_reserve))
              (max 0 (case soft_cap of Some soft \<Rightarrow> soft | None \<Rightarrow> hard_cap - protected_reserve)),
            bn_protected_reserve = protected_reserve, bn_spent = spent, bn_credited = credited, bn_committed = committed,
            bn_remaining_normal = max 0 (normal_cap - used), bn_remaining_total = max 0 (hard_cap - used),
            bn_forecast_p90 = forecast_p90, bn_pace_ratio_milli = pace_ratio_milli,
            bn_pressure_mode = determine_pressure policy hard_cap protected_reserve soft_cap spent credited committed
              forecast_p90 pace_ratio_milli,
            bn_observed_at_utc = Aware observed_at_utc\<rparr>)"

section \<open>Admission\<close>

text \<open>Whether the protected reserve may be used, with the reasons against it.\<close>

definition judge_reserve :: "BudgetPolicy \<Rightarrow> BudgetAdmissionRequest \<Rightarrow> bool \<times> string list" where
  "judge_reserve policy request =
     (let authorized = (case ar_reserve_reason request of None \<Rightarrow> False | Some r \<Rightarrow> r \<in> set (po_reserve_reasons policy));
          deadline_protection = (ar_reserve_reason request = Some DEADLINE_PROTECTION \<and> ar_deadline_at_utc request \<noteq> None);
          critical = (ar_critical_path request \<or> ar_required_verification request
                      \<or> ar_priority request \<in> {''P0'', ''P1''} \<or> deadline_protection)
      in (authorized \<and> critical,
          (if ar_reserve_reason request \<noteq> None \<and> \<not> authorized then [''reserve_reason_not_authorized''] else [])
          @ (if authorized \<and> \<not> critical then [''protected_reserve_requires_critical_work''] else [])))"

text \<open>Whether paid work is allowed and how much money is there for it, with the reasons against it.\<close>

definition judge_money ::
  "BudgetAdmissionRequest \<Rightarrow> BudgetSnapshot list \<Rightarrow> PressureMode \<Rightarrow> bool \<Rightarrow> bool \<times> int \<times> string list" where
  "judge_money request snapshots pressure reserve_authorized =
     (let (paid_allowed, monetary_authorized, reasons) =
            (if \<not> ar_paid_incremental request then (False, 0, [])
             else if snapshots = [] then (False, 0, [''budget_limit_missing''])
             else
               let available = map (\<lambda>n. if reserve_authorized then bn_remaining_total n else bn_remaining_normal n) snapshots;
                   money = min_list (ar_estimated_p90 request # available)
               in (pressure \<noteq> HARD_STOP, money,
                   if ar_estimated_p90 request > money then [''insufficient_budget_for_p90''] else []))
      in if pressure = HARD_STOP \<and> ar_paid_incremental request
         then (paid_allowed, monetary_authorized, reasons @ [''hard_stop_blocks_incremental_paid_work''])
         else if pressure = RED \<and> ar_paid_incremental request \<and> \<not> (reserve_authorized \<or> ar_required_verification request)
         then (False, monetary_authorized, reasons @ [''red_pressure_requires_reserve_or_required_verification''])
         else (paid_allowed, monetary_authorized, reasons))"

text \<open>One round of the loop over the required quotas.\<close>

definition quota_step ::
  "(string, QuotaLimit) dict \<Rightarrow> (string, int) dict \<Rightarrow> bool \<Rightarrow> string \<times> int \<Rightarrow> int \<times> bool \<times> string list
     \<Rightarrow> int \<times> bool \<times> string list" where
  "quota_step quota_limits quota_used reserve_authorized = (\<lambda>(quota_id, requested_units) (shadow, ok, reasons).
     case map_of quota_limits quota_id of
       None \<Rightarrow> (shadow, False, reasons @ [''quota_limit_missing:'' @ quota_id])
     | Some limit \<Rightarrow>
         if \<not> ql_enabled limit then (shadow, False, reasons @ [''quota_limit_missing:'' @ quota_id])
         else
           let used = max 0 (get_default quota_used quota_id 0);
               protected = (if reserve_authorized then 0 else ql_protected_units limit);
               allocatable = max 0 (ql_capacity_units limit - protected - used);
               short = (requested_units > allocatable)
           in (shadow + quota_shadow_cost limit (used + requested_units), ok \<and> \<not> short,
               reasons @ (if short then [''quota_insufficient:'' @ quota_id] else [])))"

fun preferred_execution_modes :: "PressureMode \<Rightarrow> string list" where
  "preferred_execution_modes GREEN = [''BEST_CAPABLE'']"
| "preferred_execution_modes YELLOW = [''LOWER_COST_CAPABLE'', ''SUBSCRIPTION'', ''LOCAL'']"
| "preferred_execution_modes ORANGE = [''SUBSCRIPTION'', ''LOCAL'', ''LOWER_COST_CAPABLE'']"
| "preferred_execution_modes _ = [''LOCAL'', ''SUBSCRIPTION'']"

definition worst_pressure :: "BudgetSnapshot list \<Rightarrow> PressureMode" where
  "worst_pressure snapshots =
     (let modes = (if snapshots = [] then [GREEN] else map bn_pressure_mode snapshots)
      in max_by pressure_order (hd modes) (tl modes))"

definition evaluate_budget ::
  "(int \<Rightarrow> string) \<Rightarrow> BudgetPolicy \<Rightarrow> BudgetAdmissionRequest \<Rightarrow> BudgetSnapshot list \<Rightarrow> (string, QuotaLimit) dict
     \<Rightarrow> (string, int) dict \<Rightarrow> int \<Rightarrow> BudgetAdmissionDecision result" where
  "evaluate_budget isoformat policy request snapshots quota_limits quota_used now =
     (let pressure = worst_pressure snapshots;
          (reserve_authorized, reserve_reasons) = judge_reserve policy request;
          (paid_allowed, monetary_authorized, money_reasons) = judge_money request snapshots pressure reserve_authorized;
          (quota_shadow, quota_ok, quota_reasons) =
            fold (quota_step quota_limits quota_used reserve_authorized) (ar_quota_requirements request) (0, True, []);
          reasons = reserve_reasons @ money_reasons @ quota_reasons;
          monetary_ok = (\<not> ar_paid_incremental request \<or> paid_allowed \<and> ar_estimated_p90 request \<le> monetary_authorized);
          admitted = (monetary_ok \<and> quota_ok \<and> ''reserve_reason_not_authorized'' \<notin> set reasons);
          all_reasons = reasons @ (if \<not> admitted \<and> ar_local_or_subscription_alternative request
                                   then [''retry_with_local_or_subscription_alternative''] else []);
          fingerprint = budget_fingerprint (dump_request isoformat request)
      in res_bind (budget_identifier ''ADMISSION'' [ar_task_id request, fingerprint]) (\<lambda>decision_id.
           make_BudgetAdmissionDecision
             \<lparr>ba_decision_id = decision_id, ba_task_id = ar_task_id request, ba_admitted = admitted,
              ba_pressure_mode = pressure,
              ba_authorized = (if admitted \<and> ar_paid_incremental request then monetary_authorized else 0),
              ba_reserve_authorized = (reserve_authorized \<and> admitted),
              ba_allowed_paid_incremental = (paid_allowed \<and> admitted), ba_quota_shadow_cost = quota_shadow,
              ba_reasons = sorted_set all_reasons, ba_preferred_execution_modes = preferred_execution_modes pressure,
              ba_generated_at_utc = Aware now\<rparr>))"

definition reserve_reason_for_required_work :: "string \<Rightarrow> bool \<Rightarrow> bool \<Rightarrow> ReserveReason option" where
  "reserve_reason_for_required_work priority critical_path required_verification =
     (if required_verification then Some REQUIRED_VERIFICATION
      else if priority = ''P0'' then Some P0_FAILURE_RECOVERY
      else if critical_path then Some CRITICAL_PATH
      else None)"

section \<open>Soft envelopes\<close>

text \<open>
  One round of the loop: the shares of the active providers with room left, then the payments in the
  order of the providers while money remains.
\<close>

definition envelope_share ::
  "(string, int) dict \<Rightarrow> (string, int) dict \<Rightarrow> int \<Rightarrow> int \<Rightarrow> (string, int) dict \<Rightarrow> string \<Rightarrow> int" where
  "envelope_share caps demand remaining total_weight allotted provider =
     (let capacity = max 0 (get_default caps provider 0 - get_default allotted provider 0);
          weight = max 1 (get_default demand provider 0);
          share = max 1 (remaining * weight div max 1 total_weight)
      in min capacity share)"

definition envelope_shares ::
  "(string, int) dict \<Rightarrow> (string, int) dict \<Rightarrow> int \<Rightarrow> (string, int) dict \<Rightarrow> string list \<Rightarrow> (string, int) dict" where
  "envelope_shares caps demand remaining allotted active =
     (let total_weight = sum_list (map (\<lambda>p. max 1 (get_default demand p 0)) active)
      in map (\<lambda>p. (p, envelope_share caps demand remaining total_weight allotted p))
           (filter (\<lambda>p. \<not> max 0 (get_default caps p 0 - get_default allotted p 0) \<le> 0) (sort active)))"

fun pay_shares :: "(string, int) dict \<Rightarrow> int \<times> (string, int) dict \<Rightarrow> int \<times> (string, int) dict" where
  "pay_shares [] (remaining, allotted) = (remaining, allotted)"
| "pay_shares ((p, share) # shares) (remaining, allotted) =
     (if remaining \<le> 0 then (remaining, allotted)
      else let amount = min share remaining
           in pay_shares shares (remaining - amount, AList.update p (get_default allotted p 0 + amount) allotted))"

lemma pay_shares_remaining:
  assumes "\<forall>s \<in> set shares. 0 \<le> snd s" "pay_shares shares (remaining, allotted) = (remaining', allotted')"
  shows "remaining' \<le> remaining"
  using assms
  by (induction shares "(remaining, allotted)" arbitrary: remaining allotted rule: pay_shares.induct)
    (auto simp: Let_def min_def split: if_splits)

lemma envelope_shares_positive: "(p, n) \<in> set (envelope_shares caps demand remaining allotted active) \<Longrightarrow> 1 \<le> n"
  by (auto simp: envelope_shares_def envelope_share_def Let_def)

text \<open>\<open>progress\<close> is what a round pays out; a round that pays nothing ends the loop.\<close>

function rebalance_loop ::
  "(string, int) dict \<Rightarrow> (string, int) dict \<Rightarrow> int \<Rightarrow> (string, int) dict \<Rightarrow> string list \<Rightarrow> (string, int) dict" where
  "rebalance_loop caps demand remaining allotted active =
     (if remaining > 0 \<and> active \<noteq> [] then
        let (remaining', allotted') = pay_shares (envelope_shares caps demand remaining allotted active) (remaining, allotted);
            progress = remaining - remaining';
            active' = filter (\<lambda>p. get_default allotted' p 0 < max 0 (get_default caps p 0)) active
        in if progress = 0 then allotted' else rebalance_loop caps demand remaining' allotted' active'
      else allotted)"
  by pat_completeness auto
termination
proof (relation "measure (\<lambda>(caps, demand, remaining, allotted, active). nat remaining)", goal_cases)
  case (2 caps demand remaining allotted active x remaining' allotted' progress active')
  have pos: "\<forall>s \<in> set (envelope_shares caps demand remaining allotted active). 0 \<le> snd s"
    using envelope_shares_positive by fastforce
  have "remaining' \<le> remaining" using pay_shares_remaining [OF pos] 2(2,3) by metis
  then show ?case using 2 by auto
qed simp

declare rebalance_loop.simps [simp del]

definition rebalance_provider_soft_envelopes ::
  "int \<Rightarrow> (string, int) dict \<Rightarrow> (string, int) dict \<Rightarrow> (string, int) dict" where
  "rebalance_provider_soft_envelopes global_limit provider_hard_caps demand =
     (let providers = sort (map fst provider_hard_caps)
      in rebalance_loop provider_hard_caps demand (max 0 global_limit) (map (\<lambda>p. (p, 0)) providers) providers)"

section \<open>Forecasts and outcome metrics\<close>

text \<open>\<open>percentile\<close> is the rational value of the float; the product is rounded as floats are.\<close>

definition nearest_rank :: "int list \<Rightarrow> rat \<Rightarrow> int" where
  "nearest_rank values percentile =
     (if values = [] then 0
      else let ordered = sort values;
               n = int (length ordered);
               rank = max 1 \<lceil>fl (percentile * of_int n)\<rceil>
           in ordered ! nat (min (n - 1) (rank - 1)))"

definition build_cost_forecast ::
  "string \<Rightarrow> CostHistoryObservation list \<Rightarrow> string option \<Rightarrow> string option \<Rightarrow> int \<Rightarrow> int option \<Rightarrow> int \<Rightarrow> int \<Rightarrow> int
     \<Rightarrow> int option \<Rightarrow> BudgetPolicy \<Rightarrow> int \<Rightarrow> BudgetForecast result" where
  "build_cost_forecast project_id history task_class provider_id fallback_p50 fallback_p90 queued_task_count
       burn_rate_per_day pace_ratio_milli remaining_budget policy now =
     (let rows = filter (\<lambda>h. (task_class = None \<or> Some (ho_task_class h) = task_class)
                             \<and> (provider_id = None \<or> ho_provider_id h = provider_id)) history;
          costs = map (\<lambda>h. ho_cash h + ho_shadow_cost h) rows;
          (p50, p90, source) =
            (if costs \<noteq> [] then (nearest_rank costs (1 / 2), nearest_rank costs (fl (9 / 10)), ''HISTORICAL_OBSERVATIONS'')
             else let p50 = max 0 fallback_p50
                  in (p50,
                      max p50 (case fallback_p90 of Some n \<Rightarrow> n
                               | None \<Rightarrow> p50 * po_default_p90_multiplier_milli policy div 1000),
                      ''CALLER_ESTIMATE''));
          sample_count = int (length rows);
          confidence = (if sample_count \<ge> po_minimum_history_samples_high policy then HIGH
                        else if sample_count \<ge> po_minimum_history_samples_medium policy then MEDIUM
                        else LOW);
          runway = (case remaining_budget of
                      Some n \<Rightarrow> if burn_rate_per_day > 0 then Some (n * 1000 div burn_rate_per_day) else None
                    | None \<Rightarrow> None)
      in res_bind (budget_identifier ''FORECAST'' [project_id, or_star task_class, or_star provider_id, utc_isoformat now])
           (\<lambda>forecast_id.
           make_BudgetForecast
             \<lparr>bf_forecast_id = forecast_id, bf_project_id = project_id, bf_task_class = task_class,
              bf_provider_id = provider_id, bf_p50 = p50, bf_p90 = p90, bf_queued_p50 = p50 * max 0 queued_task_count,
              bf_queued_p90 = p90 * max 0 queued_task_count, bf_burn_rate_per_day = max 0 burn_rate_per_day,
              bf_pace_ratio_milli = max 0 pace_ratio_milli, bf_runway_days_milli = runway, bf_sample_count = sample_count,
              bf_confidence = confidence, bf_source = source, bf_generated_at_utc = Aware now\<rparr>))"

definition outcome_metrics :: "BudgetLedgerEntry list \<Rightarrow> CostOutcomeMetrics result" where
  "outcome_metrics rows =
     (let total = sum_list (map signed_cash rows);
          debit_total = max 0 total;
          verified_ids = remdups (map le_outcome_id (filter (\<lambda>e. le_verified_outcome e \<and> \<not> falsy (le_outcome_id e)) rows));
          merged_ids = remdups (map le_outcome_id (filter (\<lambda>e. le_merged_outcome e \<and> \<not> falsy (le_outcome_id e)) rows));
          wasted = sum_list (map le_cash (filter (\<lambda>e. le_direction e = DEBIT \<and> le_retry_waste e) rows))
      in make_CostOutcomeMetrics
           \<lparr>om_total_cost = debit_total, om_verified_outcome_count = int (length verified_ids),
            om_merged_outcome_count = int (length merged_ids), om_wasted_cost = wasted,
            om_cost_per_verified_outcome =
              (if verified_ids \<noteq> [] then Some (debit_total div int (length verified_ids)) else None),
            om_cost_per_merged_outcome =
              (if merged_ids \<noteq> [] then Some (debit_total div int (length merged_ids)) else None)\<rparr>)"

section \<open>Anomalies and changed limits\<close>

definition detect_cost_anomaly ::
  "string \<Rightarrow> int \<Rightarrow> int \<Rightarrow> BudgetPolicy \<Rightarrow> string option \<Rightarrow> string option \<Rightarrow> int \<Rightarrow> BudgetAnomaly result" where
  "detect_cost_anomaly project_id expected_p90 observed policy task_id provider_id now =
     (let (ratio, severity, reasons) =
            (if expected_p90 \<le> 0 then
               (if observed > 0 then (1000000, SEV_BLOCK, [''unexpected_paid_cost_without_estimate'']) else (0, SEV_NORMAL, []))
             else
               let ratio = max 0 observed * 1000 div expected_p90
               in if ratio \<ge> po_anomaly_block_ratio_milli policy
                  then (ratio, SEV_BLOCK, [''observed_cost_exceeds_runaway_threshold''])
                  else if ratio \<ge> po_anomaly_warn_ratio_milli policy
                  then (ratio, SEV_WARN, [''observed_cost_exceeds_expected_p90''])
                  else (ratio, SEV_NORMAL, []))
      in res_bind (budget_identifier ''ANOMALY'' [project_id, or_star task_id, or_star provider_id, str_int expected_p90,
             str_int observed, utc_isoformat now]) (\<lambda>anomaly_id.
           make_BudgetAnomaly
             \<lparr>an_anomaly_id = anomaly_id, an_project_id = project_id, an_task_id = task_id, an_provider_id = provider_id,
              an_expected_p90 = max 0 expected_p90, an_observed = max 0 observed, an_observed_to_expected_milli = ratio,
              an_severity = severity, an_block_new_paid_work = (severity = SEV_BLOCK), an_reasons = reasons,
              an_detected_at_utc = Aware now\<rparr>))"

definition analyze_limit_change ::
  "BudgetLimit \<Rightarrow> BudgetLimit \<Rightarrow> SpendLease list \<Rightarrow> int \<Rightarrow> BudgetChangeImpact result" where
  "analyze_limit_change old_limit new_limit active_leases now =
     (if bl_scope_key old_limit \<noteq> bl_scope_key new_limit \<or> bl_cycle_id old_limit \<noteq> bl_cycle_id new_limit
      then Inl (ValueError ''budget change impact requires the same scope and cycle'')
      else
        let leases = filter (\<lambda>l. bl_scope_key old_limit \<in> set (sl_scope_keys l) \<and> reservation_held l) active_leases;
            committed = sum_list (map sl_reserved leases);
            over = max 0 (committed - bl_hard_cap new_limit)
        in res_bind (budget_identifier ''IMPACT'' [bl_scope_key old_limit, bl_cycle_id old_limit,
               str_int (bl_hard_cap old_limit), str_int (bl_hard_cap new_limit), utc_isoformat now]) (\<lambda>impact_id.
             make_BudgetChangeImpact
               \<lparr>ci_impact_id = impact_id, ci_scope_key = bl_scope_key old_limit, ci_old_hard_cap = bl_hard_cap old_limit,
                ci_new_hard_cap = bl_hard_cap new_limit, ci_active_commitment = committed,
                ci_committed_over_new_cap = over, ci_active_lease_count = int (length leases),
                ci_requires_operator_attention = (over > 0 \<or> bl_hard_cap new_limit < bl_hard_cap old_limit),
                ci_generated_at_utc = Aware now\<rparr>))"

section \<open>The gate in front of the lane scheduler\<close>

definition apply_budget_admission_to_scheduler ::
  "SchedulerTaskProfile list \<Rightarrow> (string, BudgetAdmissionDecision) dict \<Rightarrow> SchedulerTaskProfile list" where
  "apply_budget_admission_to_scheduler profiles decisions =
     map (\<lambda>profile. case map_of decisions (tp_task_id profile) of
            None \<Rightarrow> profile
          | Some decision \<Rightarrow> profile\<lparr>tp_policy_eligible := tp_policy_eligible profile \<and> ba_admitted decision\<rparr>) profiles"

fun paid_lane_ceiling :: "int \<Rightarrow> PressureMode \<Rightarrow> int" where
  "paid_lane_ceiling configured_max_lanes GREEN = max 0 configured_max_lanes"
| "paid_lane_ceiling configured_max_lanes YELLOW =
     (let configured = max 0 configured_max_lanes in if configured \<noteq> 0 then max 1 (configured * 3 div 4) else 0)"
| "paid_lane_ceiling configured_max_lanes ORANGE =
     (let configured = max 0 configured_max_lanes in if configured \<noteq> 0 then max 1 (configured div 2) else 0)"
| "paid_lane_ceiling configured_max_lanes RED = (if max 0 configured_max_lanes \<noteq> 0 then 1 else 0)"
| "paid_lane_ceiling configured_max_lanes HARD_STOP = 0"

end
