(* ===== verification/BudgetStore.thy ===== *)
theory BudgetStore
  imports BudgetEvaluator
begin

text \<open>
  \<open>src/project_pipeline/budget/persistence.py\<close> (limits, quotas, ledger, spend leases, decisions, history,
  anomalies and forecasts in SQLite) and \<open>service.py\<close> (the governor in front of them).

  A table is a list of rows in insertion order; a row is its payload, since every column a query reads
  copies a field of it, except for spend leases, whose payload is updated while the key and creation
  columns stay.  Reading a payload back validates it again.  An integer column holds 64 bits.  An operation
  runs in a transaction: an error result stands for an unchanged store.  \<open>settle_lease\<close> reads the lease
  before its transaction, so its two halves are definitions of their own.
\<close>

section \<open>Tables\<close>

record SpendLeaseRow =
  gr_lease_id :: string
  gr_idempotency_key :: string
  gr_created_at_utc :: string
  gr_payload :: SpendLease

record BudgetStore =
  gs_limits :: "BudgetLimit list"
  gs_quota_limits :: "QuotaLimit list"
  gs_ledger :: "BudgetLedgerEntry list"
  gs_leases :: "SpendLeaseRow list"
  gs_decisions :: "(string, BudgetAdmissionDecision) dict"
  gs_history :: "CostHistoryObservation list"
  gs_anomalies :: "(string, BudgetAnomaly) dict"
  gs_forecasts :: "(string, BudgetForecast) dict"

definition empty_budget_store :: BudgetStore where
  "empty_budget_store = \<lparr>gs_limits = [], gs_quota_limits = [], gs_ledger = [], gs_leases = [], gs_decisions = [],
     gs_history = [], gs_anomalies = [], gs_forecasts = []\<rparr>"

definition sqlite_ints :: "int list \<Rightarrow> unit result" where
  "sqlite_ints ns =
     (if list_all (\<lambda>n. - (2 ^ 63) \<le> n \<and> n < 2 ^ 63) ns then Inr ()
      else Inl (OverflowError ''Python int too large to convert to SQLite INTEGER''))"

section \<open>Limits\<close>

definition put_limit :: "BudgetLimit \<Rightarrow> BudgetStore \<Rightarrow> BudgetStore result" where
  "put_limit limit s =
     res_bind (sqlite_ints [bl_hard_cap limit, bl_protected_reserve limit]) (\<lambda>_.
       let same = (\<lambda>l. bl_scope_key l = bl_scope_key limit \<and> bl_cycle_id l = bl_cycle_id limit)
       in if list_ex (\<lambda>l. \<not> same l \<and> bl_limit_id l = bl_limit_id limit) (gs_limits s)
          then Inl (IntegrityError ''UNIQUE budget_limits.limit_id'')
          else if list_ex same (gs_limits s)
          then Inr (s\<lparr>gs_limits := map (\<lambda>l. if same l then limit else l) (gs_limits s)\<rparr>)
          else Inr (s\<lparr>gs_limits := gs_limits s @ [limit]\<rparr>))"

definition list_limits :: "string option \<Rightarrow> BudgetStore \<Rightarrow> BudgetLimit list result" where
  "list_limits cycle_id s =
     (case cycle_id of
        None \<Rightarrow> map_res make_BudgetLimit (sort_key (\<lambda>l. (bl_scope_key l, bl_cycle_id l)) (gs_limits s))
      | Some c \<Rightarrow> map_res make_BudgetLimit (sort_key bl_scope_key (filter (\<lambda>l. bl_cycle_id l = c) (gs_limits s))))"

definition put_quota_limit :: "QuotaLimit \<Rightarrow> BudgetStore \<Rightarrow> BudgetStore result" where
  "put_quota_limit limit s =
     res_bind (sqlite_ints [ql_capacity_units limit]) (\<lambda>_.
       let same = (\<lambda>q. ql_scope_key q = ql_scope_key limit \<and> ql_provider_id q = ql_provider_id limit
                       \<and> ql_quota_name q = ql_quota_name limit)
       in if list_ex (\<lambda>q. \<not> same q \<and> ql_quota_id q = ql_quota_id limit) (gs_quota_limits s)
          then Inl (IntegrityError ''UNIQUE budget_quota_limits.quota_id'')
          else if list_ex same (gs_quota_limits s)
          then Inr (s\<lparr>gs_quota_limits := map (\<lambda>q. if same q then limit else q) (gs_quota_limits s)\<rparr>)
          else Inr (s\<lparr>gs_quota_limits := gs_quota_limits s @ [limit]\<rparr>))"

definition list_quota_limits :: "BudgetStore \<Rightarrow> QuotaLimit list result" where
  "list_quota_limits s = map_res make_QuotaLimit (sort_key ql_quota_id (gs_quota_limits s))"

section \<open>Ledger\<close>

definition insert_ledger :: "BudgetLedgerEntry \<Rightarrow> BudgetStore \<Rightarrow> (BudgetStore \<times> BudgetLedgerEntry) result" where
  "insert_ledger entry s =
     (case find (\<lambda>e. le_entry_id e = le_entry_id entry) (gs_ledger s) of
        Some row \<Rightarrow>
          res_bind (make_BudgetLedgerEntry row) (\<lambda>existing.
            if existing \<noteq> entry then Inl (ValueError (''budget ledger idempotency collision: '' @ le_entry_id entry))
            else Inr (s, existing))
      | None \<Rightarrow>
          res_bind (sqlite_ints [le_cash entry, le_shadow_cost entry]) (\<lambda>_.
            if list_ex (\<lambda>e. le_idempotency_key e = le_idempotency_key entry) (gs_ledger s)
            then Inl (IntegrityError ''UNIQUE budget_ledger.idempotency_key'')
            else Inr (s\<lparr>gs_ledger := gs_ledger s @ [entry]\<rparr>, entry)))"

definition record_ledger :: "BudgetLedgerEntry \<Rightarrow> BudgetStore \<Rightarrow> (BudgetStore \<times> BudgetLedgerEntry) result" where
  "record_ledger entry s = insert_ledger entry s"

definition list_ledger :: "string option \<Rightarrow> string option \<Rightarrow> BudgetStore \<Rightarrow> BudgetLedgerEntry list result" where
  "list_ledger project_id task_id s =
     map_res make_BudgetLedgerEntry
       (sort_key (\<lambda>e. (utc_isoformat (instant (le_observed_at_utc e)), le_entry_id e))
         (filter (\<lambda>e. (falsy project_id \<or> Some (le_project_id e) = project_id) \<and> (falsy task_id \<or> le_task_id e = task_id))
           (gs_ledger s)))"

section \<open>Reading leases and totals\<close>

definition all_leases :: "BudgetStore \<Rightarrow> SpendLease list result" where
  "all_leases s =
     map_res (make_SpendLease \<circ> gr_payload) (sort_key (\<lambda>r. (gr_created_at_utc r, gr_lease_id r)) (gs_leases s))"

definition holds_budget :: "int \<Rightarrow> SpendLease \<Rightarrow> bool" where
  "holds_budget now lease \<longleftrightarrow>
     sl_state lease = L_UNKNOWN_OUTCOME \<or> (sl_state lease = L_RESERVED \<and> instant (sl_expires_at_utc lease) > now)"

definition list_active_spend_leases :: "int \<Rightarrow> string option \<Rightarrow> BudgetStore \<Rightarrow> SpendLease list result" where
  "list_active_spend_leases now project_id s =
     res_bind (all_leases s) (\<lambda>leases.
       Inr (filter (\<lambda>l. \<not> (\<not> falsy project_id \<and> Some (sl_project_id l) \<noteq> project_id) \<and> holds_budget now l) leases))"

definition get_lease :: "string \<Rightarrow> BudgetStore \<Rightarrow> SpendLease option result" where
  "get_lease lease_id s =
     (case find (\<lambda>r. gr_lease_id r = lease_id) (gs_leases s) of
        None \<Rightarrow> Inr None
      | Some r \<Rightarrow> res_bind (make_SpendLease (gr_payload r)) (\<lambda>l. Inr (Some l)))"

definition cash_total :: "LedgerDirection \<Rightarrow> string \<Rightarrow> BudgetLedgerEntry list \<Rightarrow> int" where
  "cash_total direction scope_key ledger =
     sum_list (map le_cash (filter (\<lambda>e. scope_key \<in> set (le_scope_keys e) \<and> le_direction e = direction) ledger))"

definition cash_totals :: "string \<Rightarrow> BudgetStore \<Rightarrow> (int \<times> int) result" where
  "cash_totals scope_key s =
     res_bind (list_ledger None None s) (\<lambda>ledger. Inr (cash_total DEBIT scope_key ledger, cash_total CREDIT scope_key ledger))"

definition committed_total :: "string \<Rightarrow> SpendLease list \<Rightarrow> int" where
  "committed_total scope_key leases = sum_list (map sl_reserved (filter (\<lambda>l. scope_key \<in> set (sl_scope_keys l)) leases))"

definition committed :: "string \<Rightarrow> int \<Rightarrow> BudgetStore \<Rightarrow> int result" where
  "committed scope_key now s =
     res_bind (list_active_spend_leases now None s) (\<lambda>leases. Inr (committed_total scope_key leases))"

definition quota_total :: "string \<Rightarrow> BudgetLedgerEntry list \<Rightarrow> int" where
  "quota_total quota_id ledger = sum_list (map (\<lambda>e. get_default (le_quota_units e) quota_id 0) ledger)"

definition quota_reserved :: "string \<Rightarrow> SpendLease list \<Rightarrow> int" where
  "quota_reserved quota_id leases = sum_list (map (\<lambda>l. get_default (sl_quota_reservations l) quota_id 0) leases)"

definition quota_used_or_reserved :: "string \<Rightarrow> int \<Rightarrow> BudgetStore \<Rightarrow> int result" where
  "quota_used_or_reserved quota_id now s =
     res_bind (list_ledger None None s) (\<lambda>ledger.
     res_bind (list_active_spend_leases now None s) (\<lambda>leases.
       Inr (quota_total quota_id ledger + quota_reserved quota_id leases)))"

definition snapshot :: "BudgetLimit \<Rightarrow> BudgetPolicy \<Rightarrow> int \<Rightarrow> int \<Rightarrow> int \<Rightarrow> BudgetStore \<Rightarrow> BudgetSnapshot result" where
  "snapshot limit policy forecast_p90 pace_ratio_milli now s =
     res_bind (cash_totals (bl_scope_key limit) s) (\<lambda>(debits, credits).
     res_bind (committed (bl_scope_key limit) now s) (\<lambda>held.
       build_snapshot (bl_scope_key limit) (bl_hard_cap limit) (bl_protected_reserve limit) (bl_soft_cap limit)
         debits credits held forecast_p90 pace_ratio_milli policy now))"

definition applicable_limits :: "string \<Rightarrow> string list \<Rightarrow> BudgetStore \<Rightarrow> BudgetLimit list result" where
  "applicable_limits cycle_id scope_keys s =
     res_bind (list_limits (Some cycle_id) s) (\<lambda>limits.
       Inr (filter (\<lambda>l. bl_enabled l \<and> bl_scope_key l \<in> set scope_keys) limits))"

definition snapshots_for_request ::
  "BudgetAdmissionRequest \<Rightarrow> string \<Rightarrow> BudgetPolicy \<Rightarrow> int \<Rightarrow> int \<Rightarrow> int \<Rightarrow> BudgetStore \<Rightarrow> BudgetSnapshot list result" where
  "snapshots_for_request request cycle_id policy forecast_p90 pace_ratio_milli now s =
     res_bind (applicable_limits cycle_id (ar_scope_keys request) s) (\<lambda>limits.
       map_res (\<lambda>l. snapshot l policy forecast_p90 pace_ratio_milli now s) limits)"

definition save_decision :: "BudgetAdmissionDecision \<Rightarrow> BudgetStore \<Rightarrow> BudgetStore" where
  "save_decision decision s = s\<lparr>gs_decisions := AList.update (ba_decision_id decision) decision (gs_decisions s)\<rparr>"

section \<open>Reserving\<close>

definition cap_of :: "BudgetAdmissionDecision \<Rightarrow> BudgetLimit \<Rightarrow> int" where
  "cap_of decision limit = (if ba_reserve_authorized decision then bl_hard_cap limit else bl_normal_cap limit)"

definition exceeds_limit ::
  "BudgetAdmissionDecision \<Rightarrow> int \<Rightarrow> BudgetLedgerEntry list \<Rightarrow> SpendLease list \<Rightarrow> BudgetLimit \<Rightarrow> bool" where
  "exceeds_limit decision requested ledger active limit \<longleftrightarrow>
     (let debit = cash_total DEBIT (bl_scope_key limit) ledger;
          credit = cash_total CREDIT (bl_scope_key limit) ledger;
          held = committed_total (bl_scope_key limit) active
      in max 0 (debit - credit) + held + requested > cap_of decision limit)"

definition quota_check ::
  "BudgetAdmissionDecision \<Rightarrow> (string, QuotaLimit) dict \<Rightarrow> BudgetLedgerEntry list \<Rightarrow> SpendLease list \<Rightarrow> string \<times> int
     \<Rightarrow> unit result" where
  "quota_check decision quota_limits ledger active = (\<lambda>(quota_id, units).
     case map_of quota_limits quota_id of
       None \<Rightarrow> Inl (ValueError (''quota limit unavailable: '' @ quota_id))
     | Some limit \<Rightarrow>
         let protected = (if ba_reserve_authorized decision then 0 else ql_protected_units limit)
         in if quota_total quota_id ledger + quota_reserved quota_id active + units > ql_capacity_units limit - protected
            then Inl (ValueError (''atomic quota reservation would exceed '' @ quota_id)) else Inr ())"

definition insert_spend_lease :: "SpendLease \<Rightarrow> BudgetStore \<Rightarrow> BudgetStore result" where
  "insert_spend_lease lease s =
     res_bind (sqlite_ints [sl_reserved lease, sl_consumed lease]) (\<lambda>_.
       if list_ex (\<lambda>r. gr_lease_id r = sl_lease_id lease) (gs_leases s)
       then Inl (IntegrityError ''UNIQUE budget_spend_leases.lease_id'')
       else if list_ex (\<lambda>r. gr_idempotency_key r = sl_idempotency_key lease) (gs_leases s)
       then Inl (IntegrityError ''UNIQUE budget_spend_leases.idempotency_key'')
       else Inr (s\<lparr>gs_leases := gs_leases s @
                    [\<lparr>gr_lease_id = sl_lease_id lease, gr_idempotency_key = sl_idempotency_key lease,
                      gr_created_at_utc = utc_isoformat (instant (sl_created_at_utc lease)), gr_payload = lease\<rparr>]\<rparr>))"

definition reserve_body ::
  "BudgetAdmissionRequest \<Rightarrow> BudgetAdmissionDecision \<Rightarrow> string \<Rightarrow> SpendLease \<Rightarrow> int \<Rightarrow> int \<Rightarrow> BudgetStore
     \<Rightarrow> (BudgetStore \<times> SpendLease) result" where
  "reserve_body request decision cycle_id candidate requested now s =
     (case find (\<lambda>r. gr_idempotency_key r = sl_idempotency_key candidate) (gs_leases s) of
        Some row \<Rightarrow>
          res_bind (make_SpendLease (gr_payload row)) (\<lambda>existing.
            if sl_project_id existing \<noteq> ar_project_id request \<or> sl_task_id existing \<noteq> ar_task_id request
            then Inl (ValueError ''budget lease idempotency collision'') else Inr (s, existing))
      | None \<Rightarrow>
          res_bind (applicable_limits cycle_id (ar_scope_keys request) s) (\<lambda>limits.
          if ar_paid_incremental request \<and> limits = [] then Inl (ValueError ''no applicable budget limit is configured'')
          else
            res_bind (list_active_spend_leases now None s) (\<lambda>active.
            res_bind (list_ledger None None s) (\<lambda>ledger.
            case find (exceeds_limit decision requested ledger active) limits of
              Some limit \<Rightarrow> Inl (ValueError (''atomic budget reservation would exceed '' @ bl_scope_key limit))
            | None \<Rightarrow>
                res_bind (list_quota_limits s) (\<lambda>quotas.
                let quota_limits = dict_of (map (\<lambda>q. (ql_quota_id q, q)) (filter ql_enabled quotas))
                in res_bind (map_res (quota_check decision quota_limits ledger active) (ar_quota_requirements request)) (\<lambda>_.
                   res_bind (insert_spend_lease candidate s) (\<lambda>s'. Inr (s', candidate))))))))"

definition reserve ::
  "BudgetPolicy \<Rightarrow> BudgetAdmissionRequest \<Rightarrow> BudgetAdmissionDecision \<Rightarrow> string \<Rightarrow> string \<Rightarrow> int \<Rightarrow> BudgetStore
     \<Rightarrow> (BudgetStore \<times> SpendLease) result" where
  "reserve policy request decision cycle_id idempotency_key now s =
     (if \<not> ba_admitted decision then Inl (ValueError ''cannot reserve spend for a denied budget decision'')
      else
        res_bind (budget_identifier ''LEASE'' [idempotency_key]) (\<lambda>lease_id.
        let requested = (if ar_paid_incremental request then ar_estimated_p90 request else 0)
        in if requested > ba_authorized decision then Inl (ValueError ''decision does not authorize the requested reservation'')
           else
             res_bind (add_seconds now (po_lease_ttl_seconds policy)) (\<lambda>expires.
             res_bind (make_SpendLease
               \<lparr>sl_lease_id = lease_id, sl_idempotency_key = idempotency_key, sl_project_id = ar_project_id request,
                sl_task_id = ar_task_id request, sl_provider_id = ar_provider_id request,
                sl_scope_keys = ar_scope_keys request, sl_maximum = ba_authorized decision, sl_reserved = requested,
                sl_consumed = 0, sl_quota_reservations = ar_quota_requirements request, sl_state = L_RESERVED,
                sl_reserve_reason = (if ba_reserve_authorized decision then ar_reserve_reason request else None),
                sl_reservation_evidence = [ba_decision_id decision], sl_created_at_utc = Aware now,
                sl_expires_at_utc = Aware expires, sl_updated_at_utc = Aware now,
                sl_reconciliation_required = False\<rparr>) (\<lambda>candidate.
             reserve_body request decision cycle_id candidate requested now s))))"

section \<open>Changing leases\<close>

definition update_spend_lease :: "SpendLease \<Rightarrow> BudgetStore \<Rightarrow> BudgetStore result" where
  "update_spend_lease lease s =
     res_bind (sqlite_ints [sl_reserved lease, sl_consumed lease]) (\<lambda>_.
       Inr (s\<lparr>gs_leases := map (\<lambda>r. if gr_lease_id r = sl_lease_id lease then r\<lparr>gr_payload := lease\<rparr> else r) (gs_leases s)\<rparr>))"

definition known_lease :: "string \<Rightarrow> BudgetStore \<Rightarrow> SpendLease result" where
  "known_lease lease_id s =
     res_bind (get_lease lease_id s) (\<lambda>l.
       case l of None \<Rightarrow> Inl (KeyError (''unknown budget lease: '' @ lease_id)) | Some lease \<Rightarrow> Inr lease)"

definition mark_unknown_outcome :: "string \<Rightarrow> int \<Rightarrow> BudgetStore \<Rightarrow> (BudgetStore \<times> SpendLease) result" where
  "mark_unknown_outcome lease_id now s =
     res_bind (known_lease lease_id s) (\<lambda>lease.
       if sl_state lease \<noteq> L_RESERVED then Inl (ValueError ''only a reserved lease can become unknown outcome'')
       else
         let updated = lease\<lparr>sl_state := L_UNKNOWN_OUTCOME, sl_reconciliation_required := True, sl_updated_at_utc := Aware now\<rparr>
         in res_bind (update_spend_lease updated s) (\<lambda>s'. Inr (s', updated)))"

definition resolve_unknown_no_effect :: "string \<Rightarrow> int \<Rightarrow> BudgetStore \<Rightarrow> (BudgetStore \<times> SpendLease) result" where
  "resolve_unknown_no_effect lease_id now s =
     res_bind (known_lease lease_id s) (\<lambda>lease.
       if sl_state lease \<noteq> L_UNKNOWN_OUTCOME then Inl (ValueError ''lease is not awaiting unknown-outcome reconciliation'')
       else
         let resolved = lease\<lparr>sl_state := L_RELEASED, sl_reconciliation_required := False, sl_updated_at_utc := Aware now\<rparr>
         in res_bind (update_spend_lease resolved s) (\<lambda>s'. Inr (s', resolved)))"

definition release_spend_lease :: "string \<Rightarrow> bool \<Rightarrow> int \<Rightarrow> BudgetStore \<Rightarrow> (BudgetStore \<times> SpendLease) result" where
  "release_spend_lease lease_id cancelled now s =
     res_bind (known_lease lease_id s) (\<lambda>lease.
       if sl_state lease = L_UNKNOWN_OUTCOME
       then Inl (ValueError ''unknown-outcome reservation cannot be released before reconciliation'')
       else if sl_state lease \<noteq> L_RESERVED then Inr (s, lease)
       else
         let updated = lease\<lparr>sl_state := (if cancelled then L_CANCELLED else L_RELEASED), sl_updated_at_utc := Aware now\<rparr>
         in res_bind (update_spend_lease updated s) (\<lambda>s'. Inr (s', updated)))"

definition settle_read :: "string \<Rightarrow> BudgetLedgerEntry \<Rightarrow> int \<Rightarrow> BudgetStore \<Rightarrow> SpendLease result" where
  "settle_read lease_id entry now s =
     res_bind (known_lease lease_id s) (\<lambda>lease.
       if sl_state lease \<notin> {L_RESERVED, L_UNKNOWN_OUTCOME} then Inl (ValueError ''lease is not settleable'')
       else if le_project_id entry \<noteq> sl_project_id lease \<or> le_task_id entry \<noteq> Some (sl_task_id lease)
       then Inl (ValueError ''settlement ledger entry does not match lease task/project'')
       else Inr (lease\<lparr>sl_consumed := le_cash entry,
                       sl_state := (if le_cash entry > sl_maximum lease then L_OVERSPENT else L_SETTLED),
                       sl_reconciliation_required := False, sl_updated_at_utc := Aware now\<rparr>))"

definition settle_write :: "BudgetLedgerEntry \<Rightarrow> SpendLease \<Rightarrow> BudgetStore \<Rightarrow> (BudgetStore \<times> SpendLease) result" where
  "settle_write entry updated s =
     res_bind (insert_ledger entry s) (\<lambda>(s', _). res_bind (update_spend_lease updated s') (\<lambda>s''. Inr (s'', updated)))"

definition settle_lease :: "string \<Rightarrow> BudgetLedgerEntry \<Rightarrow> int \<Rightarrow> BudgetStore \<Rightarrow> (BudgetStore \<times> SpendLease) result" where
  "settle_lease lease_id entry now s =
     res_bind (settle_read lease_id entry now s) (\<lambda>updated. settle_write entry updated s)"

definition expire_stale_leases :: "int \<Rightarrow> BudgetStore \<Rightarrow> (BudgetStore \<times> SpendLease list) result" where
  "expire_stale_leases now s =
     res_bind (all_leases s) (\<lambda>leases.
       fold_res (\<lambda>(s, expired) lease.
         if sl_state lease = L_RESERVED \<and> instant (sl_expires_at_utc lease) \<le> now
         then let updated = lease\<lparr>sl_state := L_EXPIRED, sl_updated_at_utc := Aware now\<rparr>
              in res_bind (update_spend_lease updated s) (\<lambda>s'. Inr (s', expired @ [updated]))
         else Inr (s, expired)) (s, []) leases)"

section \<open>History, anomalies, forecasts and status\<close>

definition save_history :: "CostHistoryObservation \<Rightarrow> BudgetStore \<Rightarrow> BudgetStore result" where
  "save_history observation s =
     (case find (\<lambda>h. ho_observation_id h = ho_observation_id observation) (gs_history s) of
        Some row \<Rightarrow>
          res_bind (make_CostHistoryObservation row) (\<lambda>existing.
            if existing \<noteq> observation then Inl (ValueError ''budget history identity collision'') else Inr s)
      | None \<Rightarrow>
          res_bind (sqlite_ints [ho_cash observation]) (\<lambda>_. Inr (s\<lparr>gs_history := gs_history s @ [observation]\<rparr>)))"

definition list_history :: "string option \<Rightarrow> BudgetStore \<Rightarrow> CostHistoryObservation list result" where
  "list_history project_id s =
     map_res make_CostHistoryObservation
       (sort_key (\<lambda>h. utc_isoformat (instant (ho_observed_at_utc h)))
         (filter (\<lambda>h. project_id = None \<or> Some (ho_project_id h) = project_id) (gs_history s)))"

definition save_anomaly :: "BudgetAnomaly \<Rightarrow> BudgetStore \<Rightarrow> BudgetStore" where
  "save_anomaly anomaly s = s\<lparr>gs_anomalies := AList.update (an_anomaly_id anomaly) anomaly (gs_anomalies s)\<rparr>"

definition list_anomalies :: "string \<Rightarrow> BudgetStore \<Rightarrow> BudgetAnomaly list result" where
  "list_anomalies project_id s =
     map_res make_BudgetAnomaly
       (sort_key (\<lambda>a. (utc_isoformat (instant (an_detected_at_utc a)), an_anomaly_id a))
         (filter (\<lambda>a. an_project_id a = project_id) (map snd (gs_anomalies s))))"

definition save_forecast :: "BudgetForecast \<Rightarrow> BudgetStore \<Rightarrow> BudgetStore result" where
  "save_forecast f s =
     res_bind (sqlite_ints [bf_p50 f, bf_p90 f]) (\<lambda>_.
       Inr (s\<lparr>gs_forecasts := AList.update (bf_forecast_id f) f (gs_forecasts s)\<rparr>))"

definition latest_forecast :: "string \<Rightarrow> BudgetStore \<Rightarrow> BudgetForecast option result" where
  "latest_forecast project_id s =
     (case rev (sort_key (\<lambda>f. (utc_isoformat (instant (bf_generated_at_utc f)), bf_forecast_id f))
              (filter (\<lambda>f. bf_project_id f = project_id) (map snd (gs_forecasts s)))) of
        [] \<Rightarrow> Inr None
      | f # _ \<Rightarrow> res_bind (make_BudgetForecast f) (\<lambda>f. Inr (Some f)))"

record BudgetStatus =
  gt_project_id :: string
  gt_cycle_id :: "string option"
  gt_limit_count :: int
  gt_quota_limit_count :: int
  gt_ledger_entry_count :: int
  gt_active_lease_count :: int
  gt_unknown_outcome_lease_count :: int
  gt_latest_forecast_id :: "string option"
  gt_anomaly_count :: int
  gt_blocking_anomaly_count :: int

definition budget_status :: "string \<Rightarrow> string option \<Rightarrow> int \<Rightarrow> BudgetStore \<Rightarrow> BudgetStatus result" where
  "budget_status project_id cycle_id now s =
     res_bind (list_limits cycle_id s) (\<lambda>limits.
     res_bind (list_active_spend_leases now (Some project_id) s) (\<lambda>leases.
     res_bind (list_ledger (Some project_id) None s) (\<lambda>ledger.
     res_bind (latest_forecast project_id s) (\<lambda>latest.
     res_bind (list_quota_limits s) (\<lambda>quotas.
     res_bind (list_anomalies project_id s) (\<lambda>anomalies.
       Inr \<lparr>gt_project_id = project_id, gt_cycle_id = cycle_id, gt_limit_count = int (length limits),
            gt_quota_limit_count = int (length quotas), gt_ledger_entry_count = int (length ledger),
            gt_active_lease_count = int (length leases),
            gt_unknown_outcome_lease_count = int (length (filter (\<lambda>l. sl_state l = L_UNKNOWN_OUTCOME) leases)),
            gt_latest_forecast_id = map_option bf_forecast_id latest, gt_anomaly_count = int (length anomalies),
            gt_blocking_anomaly_count = int (length (filter an_block_new_paid_work anomalies))\<rparr>))))))"

section \<open>The governor\<close>

definition admit ::
  "(int \<Rightarrow> string) \<Rightarrow> BudgetPolicy \<Rightarrow> BudgetAdmissionRequest \<Rightarrow> string \<Rightarrow> int \<Rightarrow> int \<Rightarrow> int \<Rightarrow> BudgetStore
     \<Rightarrow> (BudgetStore \<times> BudgetAdmissionDecision) result" where
  "admit isoformat policy request cycle_id forecast_p90 pace_ratio_milli now s =
     res_bind (snapshots_for_request request cycle_id policy forecast_p90 pace_ratio_milli now s) (\<lambda>snapshots.
     res_bind (list_quota_limits s) (\<lambda>quotas.
     res_bind (map_res (\<lambda>(quota_id, units). res_bind (quota_used_or_reserved quota_id now s) (\<lambda>n. Inr (quota_id, n)))
                 (ar_quota_requirements request)) (\<lambda>quota_used.
     res_bind (evaluate_budget isoformat policy request snapshots (dict_of (map (\<lambda>q. (ql_quota_id q, q)) quotas))
                 (dict_of quota_used) now) (\<lambda>decision.
       Inr (save_decision decision s, decision)))))"

record NormalizedUsage =
  nu_input_units :: int
  nu_output_units :: int
  nu_cached_input_units :: int
  nu_request_count :: int

definition usage_dimensions :: "NormalizedUsage option \<Rightarrow> (string, int) dict" where
  "usage_dimensions usage =
     (case usage of
        None \<Rightarrow> []
      | Some u \<Rightarrow> [(''input_units'', nu_input_units u), (''output_units'', nu_output_units u),
                    (''cached_input_units'', nu_cached_input_units u), (''request_count'', nu_request_count u)])"

definition make_usage_entry ::
  "string \<Rightarrow> string \<Rightarrow> string option \<Rightarrow> string list \<Rightarrow> CostClass \<Rightarrow> CostEvidenceState \<Rightarrow> int \<Rightarrow> string option \<Rightarrow> string option
     \<Rightarrow> string option \<Rightarrow> string option \<Rightarrow> string option \<Rightarrow> NormalizedUsage option \<Rightarrow> (string, int) dict option \<Rightarrow> int \<Rightarrow> bool
     \<Rightarrow> bool \<Rightarrow> bool \<Rightarrow> string list \<Rightarrow> int option \<Rightarrow> int \<Rightarrow> BudgetLedgerEntry result" where
  "make_usage_entry idempotency_key project_id task_id scope_keys cost_class evidence_state cash provider_id model_id
       resource_id tool_id outcome_id usage quota_units shadow_cost verified_outcome merged_outcome retry_waste
       evidence_references observed_at_utc now =
     res_bind (budget_identifier ''ENTRY'' [idempotency_key]) (\<lambda>entry_id.
       make_BudgetLedgerEntry
         \<lparr>le_entry_id = entry_id, le_idempotency_key = idempotency_key, le_project_id = project_id, le_task_id = task_id,
          le_provider_id = provider_id, le_model_id = model_id, le_resource_id = resource_id, le_tool_id = tool_id,
          le_outcome_id = outcome_id, le_cost_class = cost_class, le_direction = DEBIT, le_cash = max 0 cash,
          le_shadow_cost = max 0 shadow_cost, le_quota_units = (case quota_units of None \<Rightarrow> [] | Some d \<Rightarrow> d),
          le_usage_dimensions = usage_dimensions usage, le_scope_keys = scope_keys, le_evidence_state = evidence_state,
          le_verified_outcome = verified_outcome, le_merged_outcome = merged_outcome, le_retry_waste = retry_waste,
          le_evidence_references = evidence_references,
          le_observed_at_utc = Aware (case observed_at_utc of None \<Rightarrow> now | Some t \<Rightarrow> t), le_recorded_at_utc = Aware now\<rparr>)"

definition reconcile_unknown ::
  "string \<Rightarrow> bool \<Rightarrow> BudgetLedgerEntry option \<Rightarrow> int \<Rightarrow> BudgetStore \<Rightarrow> (BudgetStore \<times> SpendLease) result" where
  "reconcile_unknown lease_id remote_effect_occurred entry now s =
     res_bind (known_lease lease_id s) (\<lambda>lease.
       if sl_state lease \<noteq> L_UNKNOWN_OUTCOME then Inl (ValueError ''only unknown-outcome leases require reconciliation'')
       else if remote_effect_occurred
       then (case entry of
               None \<Rightarrow> Inl (ValueError ''reconciliation requires observed cost evidence when remote effect occurred'')
             | Some e \<Rightarrow> settle_lease lease_id e now s)
       else if entry \<noteq> None then Inl (ValueError ''no-cost reconciliation must not include a spend entry'')
       else resolve_unknown_no_effect lease_id now s)"

definition detect_anomaly ::
  "BudgetPolicy \<Rightarrow> string \<Rightarrow> int \<Rightarrow> int \<Rightarrow> string option \<Rightarrow> string option \<Rightarrow> int \<Rightarrow> BudgetStore
     \<Rightarrow> (BudgetStore \<times> BudgetAnomaly) result" where
  "detect_anomaly policy project_id expected_p90 observed task_id provider_id now s =
     res_bind (detect_cost_anomaly project_id expected_p90 observed policy task_id provider_id now) (\<lambda>anomaly.
       Inr (save_anomaly anomaly s, anomaly))"

definition governor_limit_change ::
  "BudgetLimit \<Rightarrow> BudgetLimit \<Rightarrow> int \<Rightarrow> BudgetStore \<Rightarrow> BudgetChangeImpact result" where
  "governor_limit_change old_limit new_limit now s =
     res_bind (list_active_spend_leases now None s) (\<lambda>leases. analyze_limit_change old_limit new_limit leases now)"

definition lease_requires_reevaluation :: "BudgetPolicy \<Rightarrow> SpendLease \<Rightarrow> int \<Rightarrow> bool" where
  "lease_requires_reevaluation policy lease observed_consumed \<longleftrightarrow>
     \<not> sl_reserved lease \<le> 0
     \<and> max 0 observed_consumed * 1000 div sl_reserved lease \<ge> po_reevaluate_at_consumed_milli policy"

definition forecast ::
  "BudgetPolicy \<Rightarrow> string \<Rightarrow> string option \<Rightarrow> string option \<Rightarrow> int \<Rightarrow> int option \<Rightarrow> int \<Rightarrow> int \<Rightarrow> int \<Rightarrow> int option \<Rightarrow> int
     \<Rightarrow> BudgetStore \<Rightarrow> (BudgetStore \<times> BudgetForecast) result" where
  "forecast policy project_id task_class provider_id fallback_p50 fallback_p90 queued_task_count burn_rate_per_day
       pace_ratio_milli remaining_budget now s =
     res_bind (list_history (Some project_id) s) (\<lambda>history.
     res_bind (build_cost_forecast project_id history task_class provider_id fallback_p50 fallback_p90 queued_task_count
                 burn_rate_per_day pace_ratio_milli remaining_budget policy now) (\<lambda>f.
     res_bind (save_forecast f s) (\<lambda>s'. Inr (s', f))))"

definition governor_outcome_metrics :: "string \<Rightarrow> BudgetStore \<Rightarrow> CostOutcomeMetrics result" where
  "governor_outcome_metrics project_id s = res_bind (list_ledger (Some project_id) None s) outcome_metrics"

end
