(* ===== verification/BudgetSafety.thy ===== *)
theory BudgetSafety
  imports BudgetStore
begin

text \<open>
  Safety of the budget store.  The locale \<open>meter\<close> describes one metered resource: what the ledger has
  charged and what a lease holds back.  Its lemmas say how the operations of the store change the use of
  the resource; it is interpreted for the cash of a scope and for the units of a quota.  \<open>budget_step\<close> has a
  rule for every operation that writes; the invariant \<open>within_caps\<close> holds in every reachable state.
\<close>

section \<open>Well-formed stores\<close>

definition budget_wf :: "BudgetStore \<Rightarrow> bool" where
  "budget_wf s \<longleftrightarrow>
     (\<forall>l \<in> set (gs_limits s). valid_BudgetLimit l)
     \<and> (\<forall>q \<in> set (gs_quota_limits s). valid_QuotaLimit q) \<and> distinct (map ql_quota_id (gs_quota_limits s))
     \<and> (\<forall>e \<in> set (gs_ledger s). make_BudgetLedgerEntry e = Inr e)
     \<and> (\<forall>r \<in> set (gs_leases s). make_SpendLease (gr_payload r) = Inr (gr_payload r)
          \<and> sl_lease_id (gr_payload r) = gr_lease_id r \<and> sl_idempotency_key (gr_payload r) = gr_idempotency_key r)
     \<and> distinct (map gr_lease_id (gs_leases s))"

definition held_leases :: "int \<Rightarrow> BudgetStore \<Rightarrow> SpendLease list" where
  "held_leases now s = filter (holds_budget now) (map gr_payload (gs_leases s))"

lemma empty_wf: "budget_wf empty_budget_store"
  by (simp add: budget_wf_def empty_budget_store_def)

lemma filter_sort_key: "mset (filter P (sort_key k xs)) = mset (filter P xs)"
  by (simp add: mset_filter)

lemma map_res_id: "\<forall>x \<in> set xs. f x = Inr x \<Longrightarrow> map_res f xs = Inr xs"
  by (induction xs) auto

lemma list_ledger_wf:
  assumes "budget_wf s"
  obtains xs where "list_ledger None None s = Inr xs" "mset xs = mset (gs_ledger s)"
proof (rule that)
  show "list_ledger None None s =
      Inr (sort_key (\<lambda>e. (utc_isoformat (instant (le_observed_at_utc e)), le_entry_id e)) (gs_ledger s))"
    using assms by (simp add: list_ledger_def falsy_def budget_wf_def map_res_id)
qed simp

lemma all_leases_wf:
  assumes "budget_wf s"
  shows "all_leases s = Inr (map gr_payload (sort_key (\<lambda>r. (gr_created_at_utc r, gr_lease_id r)) (gs_leases s)))"
  using assms unfolding all_leases_def by (intro map_res_total) (auto simp: budget_wf_def)

lemma active_leases_wf:
  assumes "budget_wf s"
  obtains xs where "list_active_spend_leases now None s = Inr xs" "mset xs = mset (held_leases now s)"
proof (rule that)
  show "list_active_spend_leases now None s =
      Inr (filter (holds_budget now) (map gr_payload (sort_key (\<lambda>r. (gr_created_at_utc r, gr_lease_id r)) (gs_leases s))))"
    using all_leases_wf [OF assms] by (simp add: list_active_spend_leases_def falsy_def)
qed (simp add: held_leases_def mset_filter)

lemma known_lease_row:
  assumes "budget_wf s" "known_lease i s = Inr l"
  obtains r where "r \<in> set (gs_leases s)" "gr_lease_id r = i" "gr_payload r = l"
proof -
  from assms(2) obtain r where r: "find (\<lambda>r. gr_lease_id r = i) (gs_leases s) = Some r" "make_SpendLease (gr_payload r) = Inr l"
    by (auto simp: known_lease_def get_lease_def split: option.splits)
  then have "r \<in> set (gs_leases s)" "gr_lease_id r = i" by (auto simp: find_Some_iff)
  moreover from this have "gr_payload r = l" using r(2) assms(1) by (auto simp: budget_wf_def)
  ultimately show ?thesis by (rule that)
qed

lemma known_lease_valid:
  "budget_wf s \<Longrightarrow> known_lease i s = Inr l \<Longrightarrow> make_SpendLease l = Inr l \<and> sl_lease_id l = i"
  using known_lease_row [of s i l] by (metis budget_wf_def)

section \<open>Changing one lease\<close>

text \<open>What an update of a lease keeps of the store.\<close>

definition same_tables :: "BudgetStore \<Rightarrow> BudgetStore \<Rightarrow> bool" where
  "same_tables s s' \<longleftrightarrow>
     gs_limits s' = gs_limits s \<and> gs_quota_limits s' = gs_quota_limits s \<and> gs_ledger s' = gs_ledger s"

lemma update_split:
  assumes "budget_wf s" "known_lease i s = Inr l" "sl_lease_id l' = i" "update_spend_lease l' s = Inr s'"
  obtains as r bs where "gs_leases s = as @ r # bs" "gr_payload r = l" "gs_leases s' = as @ r\<lparr>gr_payload := l'\<rparr> # bs"
    "same_tables s s'"
proof -
  obtain r where r: "r \<in> set (gs_leases s)" "gr_lease_id r = i" "gr_payload r = l"
    using known_lease_row [OF assms(1,2)] by blast
  obtain as bs where split: "gs_leases s = as @ r # bs" using r(1) by (meson split_list)
  have "distinct (map gr_lease_id (as @ r # bs))" using assms(1) by (simp add: budget_wf_def split [symmetric])
  then have other: "\<forall>q \<in> set as \<union> set bs. gr_lease_id q \<noteq> i" using r(2) by (auto simp: image_iff)
  have s': "s' = s\<lparr>gs_leases := map (\<lambda>q. if gr_lease_id q = i then q\<lparr>gr_payload := l'\<rparr> else q) (gs_leases s)\<rparr>"
    using assms(3,4) by (auto simp: update_spend_lease_def)
  have "gs_leases s' = as @ r\<lparr>gr_payload := l'\<rparr> # bs"
    using other r(2) by (auto simp: s' split intro!: map_idI)
  moreover have "same_tables s s'" by (simp add: same_tables_def s')
  ultimately show ?thesis using that split r(3) by blast
qed

lemma replace_wf:
  assumes "budget_wf s" "gs_leases s = as @ r # bs" "gs_leases s' = as @ r\<lparr>gr_payload := l'\<rparr> # bs" "same_tables s s'"
    and "make_SpendLease l' = Inr l'" "sl_lease_id l' = gr_lease_id r" "sl_idempotency_key l' = gr_idempotency_key r"
  shows "budget_wf s'"
  using assms unfolding budget_wf_def same_tables_def by auto

text \<open>The state of a lease may change; identity, amounts and scopes stay.\<close>

definition same_terms :: "SpendLease \<Rightarrow> SpendLease \<Rightarrow> bool" where
  "same_terms l l' \<longleftrightarrow>
     sl_lease_id l' = sl_lease_id l \<and> sl_idempotency_key l' = sl_idempotency_key l \<and> sl_scope_keys l' = sl_scope_keys l
     \<and> sl_reserved l' = sl_reserved l \<and> sl_quota_reservations l' = sl_quota_reservations l
     \<and> sl_expires_at_utc l' = sl_expires_at_utc l"

text \<open>Every operation on one lease replaces one row by a valid one with the same terms.\<close>

definition replaces :: "BudgetStore \<Rightarrow> BudgetStore \<Rightarrow> SpendLease \<Rightarrow> SpendLease \<Rightarrow> bool" where
  "replaces s s' l l' \<longleftrightarrow>
     (\<exists>as r bs. gs_leases s = as @ r # bs \<and> gr_payload r = l \<and> gs_leases s' = as @ r\<lparr>gr_payload := l'\<rparr> # bs)
     \<and> same_terms l l' \<and> make_SpendLease l' = Inr l'"

lemma replaces_wf:
  assumes "budget_wf s" "replaces s s' l l'" "same_tables s s'"
  shows "budget_wf s'"
proof -
  obtain as r bs where *: "gs_leases s = as @ r # bs" "gr_payload r = l" "gs_leases s' = as @ r\<lparr>gr_payload := l'\<rparr> # bs"
    "same_terms l l'" "make_SpendLease l' = Inr l'" using assms(2) by (auto simp: replaces_def)
  have "r \<in> set (gs_leases s)" using *(1) by simp
  then have "sl_lease_id l = gr_lease_id r" "sl_idempotency_key l = gr_idempotency_key r"
    using assms(1) *(2) by (auto simp: budget_wf_def)
  then show ?thesis using replace_wf [OF assms(1) *(1,3) assms(3) *(5)] *(4) by (simp add: same_terms_def)
qed

lemma update_replaces:
  assumes "budget_wf s" "known_lease i s = Inr l" "update_spend_lease l' s = Inr s'" "same_terms l l'" "make_SpendLease l' = Inr l'"
  shows "replaces s s' l l'" "same_tables s s'"
proof -
  have i: "sl_lease_id l' = i" using known_lease_valid [OF assms(1,2)] assms(4) by (simp add: same_terms_def)
  obtain as r bs where "gs_leases s = as @ r # bs" "gr_payload r = l" "gs_leases s' = as @ r\<lparr>gr_payload := l'\<rparr> # bs"
    "same_tables s s'" by (rule update_split [OF assms(1,2) i assms(3)])
  then show "replaces s s' l l'" "same_tables s s'" using assms(4,5) unfolding replaces_def by blast+
qed

lemma make_SpendLease_fixed:
  "make_SpendLease l = Inr l \<longleftrightarrow>
     valid_SpendLease l \<and> normal_scopes (sl_scope_keys l) = sl_scope_keys l \<and> sorted_items (sl_quota_reservations l) = sl_quota_reservations l"
  by (cases l) (auto simp: make_SpendLease_def)

lemma make_SpendLease_state:
  assumes "make_SpendLease l = Inr l" "0 \<le> n" "st = L_UNKNOWN_OUTCOME \<longrightarrow> flag"
  shows "make_SpendLease (l\<lparr>sl_consumed := n, sl_state := st, sl_reconciliation_required := flag, sl_updated_at_utc := Aware t\<rparr>) =
    Inr (l\<lparr>sl_consumed := n, sl_state := st, sl_reconciliation_required := flag, sl_updated_at_utc := Aware t\<rparr>)"
  using assms by (auto simp: make_SpendLease_fixed valid_SpendLease_def)

lemma lease_consumed: "make_SpendLease l = Inr l \<Longrightarrow> 0 \<le> sl_consumed l"
  by (simp add: make_SpendLease_fixed valid_SpendLease_def)

text \<open>The operations that change the state of one lease.\<close>

lemma mark_unknown_outcome_replaces:
  assumes "budget_wf s" "mark_unknown_outcome i now s = Inr (s', l')"
  obtains l where "known_lease i s = Inr l" "sl_state l = L_RESERVED" "sl_state l' = L_UNKNOWN_OUTCOME"
    "replaces s s' l l'" "same_tables s s'"
proof -
  from assms(2) obtain l where l: "known_lease i s = Inr l" "sl_state l = L_RESERVED"
    "l' = l\<lparr>sl_state := L_UNKNOWN_OUTCOME, sl_reconciliation_required := True, sl_updated_at_utc := Aware now\<rparr>"
    "update_spend_lease l' s = Inr s'"
    by (auto simp: mark_unknown_outcome_def Let_def split: if_splits)
  have "make_SpendLease l' = Inr l'"
    using make_SpendLease_state [of l "sl_consumed l" L_UNKNOWN_OUTCOME True now] known_lease_valid [OF assms(1) l(1)] lease_consumed l(3)
    by auto
  moreover have "same_terms l l'" by (simp add: same_terms_def l(3))
  ultimately show ?thesis using that l update_replaces [OF assms(1) l(1,4)] by simp
qed

lemma resolve_unknown_replaces:
  assumes "budget_wf s" "resolve_unknown_no_effect i now s = Inr (s', l')"
  obtains l where "known_lease i s = Inr l" "sl_state l = L_UNKNOWN_OUTCOME" "sl_state l' = L_RELEASED"
    "replaces s s' l l'" "same_tables s s'"
proof -
  from assms(2) obtain l where l: "known_lease i s = Inr l" "sl_state l = L_UNKNOWN_OUTCOME"
    "l' = l\<lparr>sl_state := L_RELEASED, sl_reconciliation_required := False, sl_updated_at_utc := Aware now\<rparr>"
    "update_spend_lease l' s = Inr s'"
    by (auto simp: resolve_unknown_no_effect_def Let_def split: if_splits)
  have "make_SpendLease l' = Inr l'"
    using make_SpendLease_state [of l "sl_consumed l" L_RELEASED False now] known_lease_valid [OF assms(1) l(1)] lease_consumed l(3)
    by auto
  moreover have "same_terms l l'" by (simp add: same_terms_def l(3))
  ultimately show ?thesis using that l update_replaces [OF assms(1) l(1,4)] by simp
qed

lemma release_replaces:
  assumes "budget_wf s" "release_spend_lease i cancelled now s = Inr (s', l')"
  obtains "s' = s" "known_lease i s = Inr l'" "sl_state l' \<notin> {L_RESERVED, L_UNKNOWN_OUTCOME}"
  | l where "known_lease i s = Inr l" "sl_state l = L_RESERVED" "sl_state l' = (if cancelled then L_CANCELLED else L_RELEASED)"
    "replaces s s' l l'" "same_tables s s'"
proof -
  from assms(2) obtain l where l: "known_lease i s = Inr l" "sl_state l \<noteq> L_UNKNOWN_OUTCOME"
    by (auto simp: release_spend_lease_def split: if_splits)
  show ?thesis
  proof (cases "sl_state l = L_RESERVED")
    case False
    then show ?thesis using assms(2) l that(1) by (auto simp: release_spend_lease_def)
  next
    case True
    then have l': "l' = l\<lparr>sl_state := (if cancelled then L_CANCELLED else L_RELEASED), sl_updated_at_utc := Aware now\<rparr>"
      "update_spend_lease l' s = Inr s'"
      using assms(2) l by (auto simp: release_spend_lease_def Let_def)
    have "make_SpendLease l' = Inr l'"
      using make_SpendLease_state [of l "sl_consumed l" "if cancelled then L_CANCELLED else L_RELEASED" "sl_reconciliation_required l" now]
        known_lease_valid [OF assms(1) l(1)] lease_consumed l'(1) by auto
    moreover have "same_terms l l'" by (simp add: same_terms_def l'(1))
    ultimately show ?thesis using that(2) l True l'(1) update_replaces [OF assms(1) l(1) l'(2)] by simp
  qed
qed

lemma insert_ledger_cases:
  assumes "insert_ledger e s = Inr (s', e')"
  shows "s' = s \<or> s' = s\<lparr>gs_ledger := gs_ledger s @ [e]\<rparr>"
  using assms by (auto simp: insert_ledger_def split: option.splits if_splits)

lemma settle_replaces:
  assumes "budget_wf s" "make_BudgetLedgerEntry e = Inr e" "settle_lease i e now s = Inr (s', l')"
  obtains l where "known_lease i s = Inr l" "sl_state l \<in> {L_RESERVED, L_UNKNOWN_OUTCOME}"
    "sl_state l' = (if sl_maximum l < le_cash e then L_OVERSPENT else L_SETTLED)" "replaces s s' l l'"
    "gs_limits s' = gs_limits s" "gs_quota_limits s' = gs_quota_limits s"
    "gs_ledger s' = gs_ledger s \<or> gs_ledger s' = gs_ledger s @ [e]" "budget_wf s'"
proof -
  from assms(3) obtain s1 e1 where ins: "settle_read i e now s = Inr l'" "insert_ledger e s = Inr (s1, e1)" "update_spend_lease l' s1 = Inr s'"
    by (auto simp: settle_lease_def settle_write_def)
  from ins(1) obtain l where l: "known_lease i s = Inr l" "sl_state l \<in> {L_RESERVED, L_UNKNOWN_OUTCOME}"
    "l' = l\<lparr>sl_consumed := le_cash e, sl_state := (if sl_maximum l < le_cash e then L_OVERSPENT else L_SETTLED),
       sl_reconciliation_required := False, sl_updated_at_utc := Aware now\<rparr>"
    by (auto simp: settle_read_def split: if_splits)
  have s1: "gs_leases s1 = gs_leases s" "gs_limits s1 = gs_limits s" "gs_quota_limits s1 = gs_quota_limits s"
    "gs_ledger s1 = gs_ledger s \<or> gs_ledger s1 = gs_ledger s @ [e]"
    using insert_ledger_cases [OF ins(2)] by auto
  have wf1: "budget_wf s1" using assms(1,2) s1 by (auto simp: budget_wf_def)
  have known: "known_lease i s1 = Inr l" using l(1) s1(1) by (simp add: known_lease_def get_lease_def)
  have "0 \<le> le_cash e" using assms(2) by (auto simp: make_BudgetLedgerEntry_def valid_BudgetLedgerEntry_def split: if_splits)
  then have ok: "make_SpendLease l' = Inr l'" using make_SpendLease_state known_lease_valid [OF assms(1) l(1)] l(3) by simp
  have terms: "same_terms l l'" by (simp add: same_terms_def l(3))
  note rep = update_replaces [OF wf1 known ins(3) terms ok]
  have "replaces s s' l l'" using rep(1) s1(1) by (simp add: replaces_def)
  moreover have "sl_state l' = (if sl_maximum l < le_cash e then L_OVERSPENT else L_SETTLED)" by (simp add: l(3))
  moreover have "gs_limits s' = gs_limits s" "gs_quota_limits s' = gs_quota_limits s"
    "gs_ledger s' = gs_ledger s \<or> gs_ledger s' = gs_ledger s @ [e]" using rep(2) s1 by (auto simp: same_tables_def)
  ultimately show ?thesis using that l(1,2) replaces_wf [OF wf1 rep] by blast
qed

lemma reserve_effect:
  assumes "budget_wf s" "make_BudgetAdmissionRequest request = Inr request"
    "reserve policy request decision c key now s = Inr (s', l)"
  obtains (same) "s' = s"
  | (new) limits active ledger quotas row where "gs_leases s' = gs_leases s @ [row]" "gr_payload row = l" "same_tables s s'"
    "budget_wf s'" "sl_state l = L_RESERVED" "now < instant (sl_expires_at_utc l)"
    "sl_scope_keys l = ar_scope_keys request" "sl_quota_reservations l = ar_quota_requirements request"
    "sl_reserved l = (if ar_paid_incremental request then ar_estimated_p90 request else 0)"
    "applicable_limits c (ar_scope_keys request) s = Inr limits" "list_active_spend_leases now None s = Inr active"
    "list_ledger None None s = Inr ledger" "list_quota_limits s = Inr quotas"
    "\<forall>limit \<in> set limits. \<not> exceeds_limit decision (sl_reserved l) ledger active limit"
    "\<forall>item \<in> set (ar_quota_requirements request).
       quota_check decision (dict_of (map (\<lambda>q. (ql_quota_id q, q)) (filter ql_enabled quotas))) ledger active item = Inr ()"
proof -
  let ?requested = "if ar_paid_incremental request then ar_estimated_p90 request else 0"
  from assms(3) obtain lid expires candidate where body: "reserve_body request decision c candidate ?requested now s = Inr (s', l)"
    and cand: "make_SpendLease
               \<lparr>sl_lease_id = lid, sl_idempotency_key = key, sl_project_id = ar_project_id request,
                sl_task_id = ar_task_id request, sl_provider_id = ar_provider_id request,
                sl_scope_keys = ar_scope_keys request, sl_maximum = ba_authorized decision, sl_reserved = ?requested,
                sl_consumed = 0, sl_quota_reservations = ar_quota_requirements request, sl_state = L_RESERVED,
                sl_reserve_reason = (if ba_reserve_authorized decision then ar_reserve_reason request else None),
                sl_reservation_evidence = [ba_decision_id decision], sl_created_at_utc = Aware now,
                sl_expires_at_utc = Aware expires, sl_updated_at_utc = Aware now,
                sl_reconciliation_required = False\<rparr> = Inr candidate"
    unfolding reserve_def Let_def by (auto split: if_splits)
  show ?thesis
  proof (cases "find (\<lambda>r. gr_idempotency_key r = sl_idempotency_key candidate) (gs_leases s)")
    case (Some row)
    then show ?thesis using body that(1) by (auto simp: reserve_body_def split: if_splits)
  next
    case None
    from body None obtain limits active ledger quotas where b:
      "applicable_limits c (ar_scope_keys request) s = Inr limits" "list_active_spend_leases now None s = Inr active"
      "list_ledger None None s = Inr ledger" "list_quota_limits s = Inr quotas"
      "find (exceeds_limit decision ?requested ledger active) limits = None"
      "\<exists>us. map_res (quota_check decision (dict_of (map (\<lambda>q. (ql_quota_id q, q)) (filter ql_enabled quotas))) ledger active)
         (ar_quota_requirements request) = Inr us"
      "insert_spend_lease candidate s = Inr s'" "l = candidate"
      unfolding reserve_body_def Let_def by (auto split: if_splits option.splits)
    have req: "normal_scopes (ar_scope_keys request) = ar_scope_keys request"
      "sorted_items (ar_quota_requirements request) = ar_quota_requirements request"
      using assms(2) by (cases request; auto simp: make_BudgetAdmissionRequest_def split: if_splits)+
    have l: "sl_state l = L_RESERVED" "now < instant (sl_expires_at_utc l)" "sl_scope_keys l = ar_scope_keys request"
      "sl_quota_reservations l = ar_quota_requirements request" "sl_reserved l = ?requested" "make_SpendLease l = Inr l"
      using cand req make_SpendLease_idem [OF cand] by (auto simp: b(8) make_SpendLease_def valid_SpendLease_def split: if_splits)
    define row where "row = \<lparr>gr_lease_id = sl_lease_id l, gr_idempotency_key = sl_idempotency_key l,
        gr_created_at_utc = utc_isoformat (instant (sl_created_at_utc l)), gr_payload = l\<rparr>"
    have ins: "gs_leases s' = gs_leases s @ [row]" "same_tables s s'" "\<forall>r \<in> set (gs_leases s). gr_lease_id r \<noteq> sl_lease_id l"
      using b(7) by (auto simp: insert_spend_lease_def b(8) row_def same_tables_def list_ex_iff split: if_splits)
    have "budget_wf s'" using assms(1) ins l(6) unfolding budget_wf_def same_tables_def by (auto simp: row_def)
    moreover have "\<forall>limit \<in> set limits. \<not> exceeds_limit decision (sl_reserved l) ledger active limit"
      using b(5) l(5) by (simp add: find_None_iff)
    moreover have "quota_check decision (dict_of (map (\<lambda>q. (ql_quota_id q, q)) (filter ql_enabled quotas))) ledger active item = Inr ()"
      if "item \<in> set (ar_quota_requirements request)" for item
      using b(6) that map_res_element [of item "ar_quota_requirements request"]
      by (cases "quota_check decision (dict_of (map (\<lambda>q. (ql_quota_id q, q)) (filter ql_enabled quotas))) ledger active item") fastforce+
    ultimately show ?thesis using that(2) [of row limits active ledger quotas] ins l b(1-4) by (simp add: row_def)
  qed
qed

lemma update_wf:
  assumes "budget_wf t" "update_spend_lease up t = Inr t'" "make_SpendLease up = Inr up"
    "\<forall>r \<in> set (gs_leases t). gr_lease_id r = sl_lease_id up \<longrightarrow> gr_idempotency_key r = sl_idempotency_key up"
  shows "budget_wf t'" "same_tables t t'" "map gr_lease_id (gs_leases t') = map gr_lease_id (gs_leases t)"
    "map gr_idempotency_key (gs_leases t') = map gr_idempotency_key (gs_leases t)"
    "gs_leases t' = map (\<lambda>r. if gr_lease_id r = sl_lease_id up then r\<lparr>gr_payload := up\<rparr> else r) (gs_leases t)"
proof -
  show rows: "gs_leases t' = map (\<lambda>r. if gr_lease_id r = sl_lease_id up then r\<lparr>gr_payload := up\<rparr> else r) (gs_leases t)"
    and tables: "same_tables t t'" using assms(2) by (auto simp: update_spend_lease_def same_tables_def)
  show ids: "map gr_lease_id (gs_leases t') = map gr_lease_id (gs_leases t)"
    and "map gr_idempotency_key (gs_leases t') = map gr_idempotency_key (gs_leases t)" by (simp_all add: rows)
  have "make_SpendLease (gr_payload r) = Inr (gr_payload r) \<and> sl_lease_id (gr_payload r) = gr_lease_id r
      \<and> sl_idempotency_key (gr_payload r) = gr_idempotency_key r" if "r \<in> set (gs_leases t')" for r
  proof -
    from that obtain q where q: "q \<in> set (gs_leases t)" "r = (if gr_lease_id q = sl_lease_id up then q\<lparr>gr_payload := up\<rparr> else q)"
      by (auto simp: rows)
    then show ?thesis using assms(1,3,4) by (auto simp: budget_wf_def)
  qed
  then show "budget_wf t'" using assms(1) tables ids by (simp add: budget_wf_def same_tables_def)
qed

text \<open>Expired leases are marked; no other lease changes.\<close>

definition expired_row :: "int \<Rightarrow> SpendLeaseRow \<Rightarrow> SpendLeaseRow \<Rightarrow> bool" where
  "expired_row now r r' \<longleftrightarrow>
     gr_payload r' = gr_payload r \<or> (\<not> holds_budget now (gr_payload r') \<and> sl_state (gr_payload r') = L_EXPIRED)"

lemma expire_one:
  assumes "budget_wf t" "update_spend_lease up t = Inr t'" "\<not> holds_budget now up" "sl_state up = L_EXPIRED" "make_SpendLease up = Inr up"
    "\<forall>r \<in> set (gs_leases t). gr_lease_id r = sl_lease_id up \<longrightarrow> gr_idempotency_key r = sl_idempotency_key up"
    and "list_all2 (expired_row now) rows (gs_leases t)"
  shows "list_all2 (expired_row now) rows (gs_leases t')"
proof -
  have step: "expired_row now r (if gr_lease_id q = sl_lease_id up then q\<lparr>gr_payload := up\<rparr> else q)" if "expired_row now r q" for r q
    using that assms(3,4) by (simp add: expired_row_def)
  show ?thesis unfolding update_wf(5) [OF assms(1,2,5,6)] list_all2_map2
    by (rule list_all2_mono [OF assms(7)]) (rule step)
qed

lemma same_key:
  assumes "map gr_lease_id xs = map gr_lease_id ys" "map gr_idempotency_key xs = map gr_idempotency_key ys"
    "distinct (map gr_lease_id ys)" "r \<in> set xs" "q \<in> set ys" "gr_lease_id r = gr_lease_id q"
  shows "gr_idempotency_key r = gr_idempotency_key q"
proof -
  obtain i j where ij: "i < length xs" "r = xs ! i" "j < length ys" "q = ys ! j" using assms(4,5) by (metis in_set_conv_nth)
  have len: "length xs = length ys" using assms(1) map_eq_imp_length_eq by blast
  have "gr_lease_id (xs ! i) = gr_lease_id (ys ! i)" "gr_idempotency_key (xs ! i) = gr_idempotency_key (ys ! i)"
    using assms(1,2) ij(1) len by (metis nth_map)+
  moreover from this have "i = j" using assms(3,6) ij len nth_eq_iff_index_eq [of "map gr_lease_id ys" i j] by simp
  ultimately show ?thesis using ij by simp
qed

lemma expire_rows:
  assumes "budget_wf s" "expire_stale_leases now s = Inr (s', ls)"
  shows "budget_wf s'" "same_tables s s'" "list_all2 (expired_row now) (gs_leases s) (gs_leases s')"
proof -
  let ?I = "\<lambda>(t, ex :: SpendLease list). budget_wf t \<and> same_tables s t \<and> map gr_lease_id (gs_leases t) = map gr_lease_id (gs_leases s)
    \<and> map gr_idempotency_key (gs_leases t) = map gr_idempotency_key (gs_leases s) \<and> list_all2 (expired_row now) (gs_leases s) (gs_leases t)"
  let ?ls = "map gr_payload (sort_key (\<lambda>r. (gr_created_at_utc r, gr_lease_id r)) (gs_leases s))"
  let ?f = "\<lambda>(s, expired) lease.
         if sl_state lease = L_RESERVED \<and> instant (sl_expires_at_utc lease) \<le> now
         then let updated = lease\<lparr>sl_state := L_EXPIRED, sl_updated_at_utc := Aware now\<rparr>
              in res_bind (update_spend_lease updated s) (\<lambda>s'. Inr (s', expired @ [updated]))
         else Inr (s, expired)"
  have run: "fold_res ?f (s, []) ?ls = Inr (s', ls)"
    using assms(2) by (simp add: expire_stale_leases_def all_leases_wf [OF assms(1)])
  have "?I (s', ls)"
  proof (rule fold_res_invariant [OF run])
    show "?I (s, [])" using assms(1) by (simp add: same_tables_def expired_row_def list_all2_refl)
  next
    fix st lease st' assume I: "?I st" and mem: "lease \<in> set ?ls" and step: "?f st lease = Inr st'"
    obtain t ex where st: "st = (t, ex)" by (cases st)
    from mem obtain r0 where r0: "r0 \<in> set (gs_leases s)" "gr_payload r0 = lease" by auto
    then have lease: "make_SpendLease lease = Inr lease" "sl_lease_id lease = gr_lease_id r0" "sl_idempotency_key lease = gr_idempotency_key r0"
      using assms(1) by (auto simp: budget_wf_def)
    show "?I st'"
    proof (cases "sl_state lease = L_RESERVED \<and> instant (sl_expires_at_utc lease) \<le> now")
      case True
      define up where "up = lease\<lparr>sl_state := L_EXPIRED, sl_updated_at_utc := Aware now\<rparr>"
      have valid: "make_SpendLease up = Inr up"
        using make_SpendLease_state [OF lease(1) lease_consumed [OF lease(1)], of L_EXPIRED "sl_reconciliation_required lease" now]
        by (simp add: up_def)
      have up: "\<not> holds_budget now up" "sl_state up = L_EXPIRED" "sl_lease_id up = gr_lease_id r0" "sl_idempotency_key up = gr_idempotency_key r0"
        using lease by (simp_all add: up_def holds_budget_def)
      obtain t' where t': "update_spend_lease up t = Inr t'" "st' = (t', ex @ [up])"
        using step True by (auto simp: st up_def [symmetric] Let_def)
      have t: "budget_wf t" "same_tables s t" "map gr_lease_id (gs_leases t) = map gr_lease_id (gs_leases s)"
        "map gr_idempotency_key (gs_leases t) = map gr_idempotency_key (gs_leases s)"
        "list_all2 (expired_row now) (gs_leases s) (gs_leases t)" using I by (simp_all add: st)
      have key: "\<forall>r \<in> set (gs_leases t). gr_lease_id r = sl_lease_id up \<longrightarrow> gr_idempotency_key r = sl_idempotency_key up"
        using same_key [OF t(3,4) _ _ r0(1)] assms(1) up(3,4) by (simp add: budget_wf_def)
      note u = update_wf [OF t(1) t'(1) valid key]
      have "same_tables s t'" using t(2) u(2) by (simp add: same_tables_def)
      then show ?thesis using u(1,3,4) t(3,4) expire_one [OF t(1) t'(1) up(1,2) valid key t(5)] by (simp add: t'(2))
    next
      case False
      then have "st' = st" using step by (simp only: st prod.case if_False) simp
      then show ?thesis using I by simp
    qed
  qed
  then show "budget_wf s'" "same_tables s s'" "list_all2 (expired_row now) (gs_leases s) (gs_leases s')" by simp_all
qed

section \<open>Meters\<close>

text \<open>
  One metered resource: \<open>charge\<close> is what a ledger has used of it, \<open>hold\<close> what a lease keeps back.
\<close>

definition in_use :: "(BudgetLedgerEntry list \<Rightarrow> int) \<Rightarrow> (SpendLease \<Rightarrow> int) \<Rightarrow> int \<Rightarrow> BudgetStore \<Rightarrow> int" where
  "in_use charge hold now s = charge (gs_ledger s) + sum_list (map hold (held_leases now s))"

locale meter =
  fixes charge :: "BudgetLedgerEntry list \<Rightarrow> int" and hold :: "SpendLease \<Rightarrow> int"
  assumes charge_perm: "mset xs = mset ys \<Longrightarrow> charge xs = charge ys"
    and hold_nonneg: "make_SpendLease l = Inr l \<Longrightarrow> 0 \<le> hold l"
    and hold_terms: "same_terms l l' \<Longrightarrow> hold l' = hold l"
begin

lemma read_use:
  assumes "budget_wf s" "list_ledger None None s = Inr ledger" "list_active_spend_leases now None s = Inr active"
  shows "charge ledger + sum_list (map hold active) = in_use charge hold now s"
proof -
  obtain xs where xs: "list_ledger None None s = Inr xs" "mset xs = mset (gs_ledger s)" by (rule list_ledger_wf [OF assms(1)])
  obtain ys where ys: "list_active_spend_leases now None s = Inr ys" "mset ys = mset (held_leases now s)"
    by (rule active_leases_wf [OF assms(1)])
  have "mset (map hold active) = mset (map hold (held_leases now s))" using ys assms(3) by simp
  then have "sum_list (map hold active) = sum_list (map hold (held_leases now s))" by (metis sum_mset_sum_list)
  then show ?thesis using charge_perm [of ledger "gs_ledger s"] xs assms(2) by (simp add: in_use_def)
qed

lemma in_use_append:
  assumes "gs_leases s' = gs_leases s @ [row]" "gs_ledger s' = gs_ledger s" "holds_budget now (gr_payload row)"
  shows "in_use charge hold now s' = in_use charge hold now s + hold (gr_payload row)"
  using assms by (simp add: in_use_def held_leases_def)

lemma in_use_replace:
  assumes "budget_wf s" "replaces s s' l l'"
  shows "in_use charge hold now s' = in_use charge hold now s + charge (gs_ledger s') - charge (gs_ledger s)
    - (if holds_budget now l then hold l else 0) + (if holds_budget now l' then hold l else 0)"
proof -
  obtain as r bs where *: "gs_leases s = as @ r # bs" "gr_payload r = l" "gs_leases s' = as @ r\<lparr>gr_payload := l'\<rparr> # bs"
    "same_terms l l'" using assms(2) by (auto simp: replaces_def)
  show ?thesis using hold_terms [OF *(4)] *(2) by (simp add: in_use_def held_leases_def *(1,3))
qed

lemma in_use_tick:
  assumes "budget_wf s" "now \<le> now'"
  shows "in_use charge hold now' s \<le> in_use charge hold now s"
proof -
  have "sum_list (map hold (filter (holds_budget now') xs)) \<le> sum_list (map hold (filter (holds_budget now) xs))"
    if "\<forall>l \<in> set xs. make_SpendLease l = Inr l" for xs
    using that assms(2) hold_nonneg by (induction xs) (fastforce simp: holds_budget_def)+
  then show ?thesis using assms(1) by (simp add: in_use_def held_leases_def budget_wf_def)
qed

lemma in_use_expire:
  assumes "budget_wf s" "expire_stale_leases now s = Inr (s', ls)"
  shows "in_use charge hold now s' \<le> in_use charge hold now s"
proof -
  have "sum_list (map hold (filter (holds_budget now) (map gr_payload ys))) \<le> sum_list (map hold (filter (holds_budget now) (map gr_payload xs)))"
    if "list_all2 (expired_row now) xs ys" "\<forall>r \<in> set xs. make_SpendLease (gr_payload r) = Inr (gr_payload r)" for xs ys
    using that by (induction rule: list_all2_induct) (use hold_nonneg in \<open>fastforce simp: expired_row_def\<close>)+
  from this [OF expire_rows(3) [OF assms]] show ?thesis
    using assms(1) expire_rows(2) [OF assms] by (simp add: in_use_def held_leases_def same_tables_def budget_wf_def)
qed

end

text \<open>The cash of a scope and the units of a quota are metered.\<close>

definition net_spent :: "string \<Rightarrow> BudgetLedgerEntry list \<Rightarrow> int" where
  "net_spent k ledger = max 0 (cash_total DEBIT k ledger - cash_total CREDIT k ledger)"

definition hold_cash :: "string \<Rightarrow> SpendLease \<Rightarrow> int" where
  "hold_cash k l = (if k \<in> set (sl_scope_keys l) then sl_reserved l else 0)"

definition hold_quota :: "string \<Rightarrow> SpendLease \<Rightarrow> int" where
  "hold_quota q l = get_default (sl_quota_reservations l) q 0"

abbreviation cash_in_use :: "string \<Rightarrow> int \<Rightarrow> BudgetStore \<Rightarrow> int" where
  "cash_in_use k \<equiv> in_use (net_spent k) (hold_cash k)"

abbreviation quota_in_use :: "string \<Rightarrow> int \<Rightarrow> BudgetStore \<Rightarrow> int" where
  "quota_in_use q \<equiv> in_use (quota_total q) (hold_quota q)"

lemma committed_total_hold: "committed_total k ls = sum_list (map (hold_cash k) ls)"
  by (induction ls) (simp_all add: committed_total_def hold_cash_def)

lemma quota_reserved_hold: "quota_reserved q ls = sum_list (map (hold_quota q) ls)"
  by (induction ls) (simp_all add: quota_reserved_def hold_quota_def)

lemma sum_list_perm: "mset xs = mset ys \<Longrightarrow> sum_list (map f (filter P xs)) = sum_list (map f (filter P ys))" for f :: "'a \<Rightarrow> int"
proof -
  assume "mset xs = mset ys"
  then have "mset (map f (filter P xs)) = mset (map f (filter P ys))" by simp
  then show ?thesis by (metis sum_mset_sum_list)
qed

lemma cash_total_perm: "mset xs = mset ys \<Longrightarrow> cash_total d k xs = cash_total d k ys"
  unfolding cash_total_def by (rule sum_list_perm)

lemma quota_total_perm: "mset xs = mset ys \<Longrightarrow> quota_total q xs = quota_total q ys"
  using sum_list_perm [of xs ys _ "\<lambda>_. True"] by (simp add: quota_total_def)

lemma get_default_nonneg: "dimensions_ok d \<Longrightarrow> 0 \<le> get_default d q 0"
  by (induction d) (auto simp: dimensions_ok_def get_default_def)

lemma net_spent_perm: "mset xs = mset ys \<Longrightarrow> net_spent k xs = net_spent k ys"
  using cash_total_perm [of xs ys DEBIT k] cash_total_perm [of xs ys CREDIT k] by (simp add: net_spent_def)

lemma lease_amounts:
  assumes "make_SpendLease l = Inr l"
  shows "0 \<le> hold_cash k l" "0 \<le> hold_quota q l"
  using assms by (auto simp: hold_cash_def hold_quota_def make_SpendLease_fixed valid_SpendLease_def intro: get_default_nonneg)

interpretation cash: meter "net_spent k" "hold_cash k" for k
  by unfold_locales (fact net_spent_perm, fact lease_amounts, simp add: hold_cash_def same_terms_def)

interpretation quota: meter "quota_total q" "hold_quota q" for q
  by unfold_locales (fact quota_total_perm, fact lease_amounts, simp add: hold_quota_def same_terms_def)

end
