(* ===== verification/BudgetCaps.thy ===== *)
theory BudgetCaps
  imports BudgetSafety
begin

text \<open>
  The steps of the budget store and the invariant that spending and reservations stay within the caps.
\<close>

section \<open>Steps\<close>

text \<open>
  A settlement is covered if it charges no more than its lease holds.
\<close>

definition covered :: "BudgetLedgerEntry \<Rightarrow> SpendLease \<Rightarrow> bool" where
  "covered e l \<longleftrightarrow>
     (le_direction e = DEBIT \<longrightarrow> le_cash e \<le> sl_reserved l \<and> set (le_scope_keys e) \<subseteq> set (sl_scope_keys l))
     \<and> (\<forall>q. get_default (le_quota_units e) q 0 \<le> get_default (sl_quota_reservations l) q 0)"

text \<open>
  The operations of the store at a time, for the cycle whose limits are used.  Limits and quotas are set
  with room for what is in use; a lease is settled or reported lost before it expires, and a settlement is
  covered; other ledger entries are credits.
\<close>

inductive budget_step :: "string \<Rightarrow> int \<times> BudgetStore \<Rightarrow> int \<times> BudgetStore \<Rightarrow> bool" for c where
  tick: "now \<le> now' \<Longrightarrow> budget_step c (now, s) (now', s)"
| limit: "put_limit l s = Inr s' \<Longrightarrow> valid_BudgetLimit l \<Longrightarrow> cash_in_use (bl_scope_key l) now s \<le> bl_hard_cap l
    \<Longrightarrow> budget_step c (now, s) (now, s')"
| quota_limit: "put_quota_limit q s = Inr s' \<Longrightarrow> valid_QuotaLimit q \<Longrightarrow> quota_in_use (ql_quota_id q) now s \<le> ql_capacity_units q
    \<Longrightarrow> budget_step c (now, s) (now, s')"
| decide: "admit isoformat policy request c forecast_p90 pace now s = Inr (s', d) \<Longrightarrow> budget_step c (now, s) (now, s')"
| reserve: "reserve policy request d c key now s = Inr (s', l) \<Longrightarrow> make_BudgetAdmissionRequest request = Inr request
    \<Longrightarrow> budget_step c (now, s) (now, s')"
| settle: "settle_lease i e now s = Inr (s', l') \<Longrightarrow> make_BudgetLedgerEntry e = Inr e \<Longrightarrow> known_lease i s = Inr l
    \<Longrightarrow> holds_budget now l \<Longrightarrow> covered e l \<Longrightarrow> budget_step c (now, s) (now, s')"
| unknown: "mark_unknown_outcome i now s = Inr (s', l') \<Longrightarrow> known_lease i s = Inr l \<Longrightarrow> holds_budget now l
    \<Longrightarrow> budget_step c (now, s) (now, s')"
| resolve: "resolve_unknown_no_effect i now s = Inr (s', l) \<Longrightarrow> budget_step c (now, s) (now, s')"
| release: "release_spend_lease i cancelled now s = Inr (s', l) \<Longrightarrow> budget_step c (now, s) (now, s')"
| expire: "expire_stale_leases now s = Inr (s', ls) \<Longrightarrow> budget_step c (now, s) (now, s')"
| credit: "record_ledger e s = Inr (s', e') \<Longrightarrow> make_BudgetLedgerEntry e = Inr e \<Longrightarrow> le_direction e = CREDIT
    \<Longrightarrow> le_quota_units e = [] \<Longrightarrow> budget_step c (now, s) (now, s')"
| observe: "save_history h s = Inr s' \<Longrightarrow> budget_step c (now, s) (now, s')"
| anomaly: "detect_anomaly policy project expected observed task provider now s = Inr (s', a) \<Longrightarrow> budget_step c (now, s) (now, s')"
| predict: "forecast policy project task_class provider p50 p90 queued burn pace remaining now s = Inr (s', f)
    \<Longrightarrow> budget_step c (now, s) (now, s')"

definition within_caps :: "string \<Rightarrow> int \<times> BudgetStore \<Rightarrow> bool" where
  "within_caps c = (\<lambda>(now, s). budget_wf s
     \<and> (\<forall>l \<in> set (gs_limits s). bl_enabled l \<and> bl_cycle_id l = c \<longrightarrow> cash_in_use (bl_scope_key l) now s \<le> bl_hard_cap l)
     \<and> (\<forall>q \<in> set (gs_quota_limits s). ql_enabled q \<longrightarrow> quota_in_use (ql_quota_id q) now s \<le> ql_capacity_units q))"

lemma within_capsI:
  assumes "budget_wf s'" "gs_limits s' = gs_limits s" "gs_quota_limits s' = gs_quota_limits s" "within_caps c (now, s)"
    and "\<And>k. cash_in_use k now' s' \<le> cash_in_use k now s" "\<And>q. quota_in_use q now' s' \<le> quota_in_use q now s"
  shows "within_caps c (now', s')"
  using assms unfolding within_caps_def by (fastforce intro: order_trans)

lemma within_caps_same:
  assumes "within_caps c (now, s)" "gs_limits s' = gs_limits s" "gs_quota_limits s' = gs_quota_limits s" "gs_ledger s' = gs_ledger s"
    "gs_leases s' = gs_leases s"
  shows "within_caps c (now, s')"
  using assms by (simp add: within_caps_def budget_wf_def in_use_def held_leases_def)

text \<open>Replacing a lease without a charge.\<close>

lemma within_caps_replace:
  assumes "within_caps c (now, s)" "replaces s s' l l'" "same_tables s s'" "holds_budget now l' \<longrightarrow> holds_budget now l"
  shows "within_caps c (now, s')"
proof -
  have wf: "budget_wf s" using assms(1) by (simp add: within_caps_def)
  obtain as r bs where "gs_leases s = as @ r # bs" "gr_payload r = l" using assms(2) by (auto simp: replaces_def)
  then have "make_SpendLease l = Inr l" using wf by (auto simp: budget_wf_def)
  note pos = lease_amounts [OF this]
  show ?thesis
  proof (rule within_capsI [OF replaces_wf [OF wf assms(2,3)] _ _ assms(1)])
    show "cash_in_use k now s' \<le> cash_in_use k now s" for k
      using cash.in_use_replace [OF wf assms(2), of k now] assms(3,4) pos(1) [of k] by (simp add: same_tables_def)
    show "quota_in_use q now s' \<le> quota_in_use q now s" for q
      using quota.in_use_replace [OF wf assms(2), of q now] assms(3,4) pos(2) [of q] by (simp add: same_tables_def)
  qed (use assms(3) in \<open>simp_all add: same_tables_def\<close>)
qed

section \<open>Settlement\<close>

lemma net_spent_snoc:
  assumes "0 \<le> le_cash e"
  shows "net_spent k (xs @ [e]) \<le> net_spent k xs + (if le_direction e = DEBIT \<and> k \<in> set (le_scope_keys e) then le_cash e else 0)"
  using assms by (cases "le_direction e") (auto simp: net_spent_def cash_total_def max_def)

lemma quota_total_snoc: "quota_total q (xs @ [e]) = quota_total q xs + get_default (le_quota_units e) q 0"
  by (simp add: quota_total_def)

lemma entry_fields:
  assumes "make_BudgetLedgerEntry e = Inr e"
  shows "0 \<le> le_cash e" "dimensions_ok (le_quota_units e)"
  using assms by (auto simp: make_BudgetLedgerEntry_def valid_BudgetLedgerEntry_def split: if_splits)

lemma covered_charge:
  assumes "make_BudgetLedgerEntry e = Inr e" "make_SpendLease l = Inr l" "covered e l" "ledger = xs \<or> ledger = xs @ [e]"
  shows "net_spent k ledger \<le> net_spent k xs + hold_cash k l" "quota_total q ledger \<le> quota_total q xs + hold_quota q l"
proof -
  note pos = lease_amounts [OF assms(2)]
  have "(if le_direction e = DEBIT \<and> k \<in> set (le_scope_keys e) then le_cash e else 0) \<le> hold_cash k l"
    using assms(3) pos(1) [of k] by (auto simp: covered_def hold_cash_def)
  then show "net_spent k ledger \<le> net_spent k xs + hold_cash k l"
    using assms(4) net_spent_snoc [OF entry_fields(1) [OF assms(1)], of k xs] pos(1) [of k] by auto
  have "get_default (le_quota_units e) q 0 \<le> hold_quota q l" using assms(3) by (simp add: covered_def hold_quota_def)
  then show "quota_total q ledger \<le> quota_total q xs + hold_quota q l"
    using assms(4) quota_total_snoc [of q xs e] pos(2) [of q] by auto
qed

lemma settle_within_caps:
  assumes "within_caps c (now, s)" "settle_lease i e now s = Inr (s', l')" "make_BudgetLedgerEntry e = Inr e"
    "known_lease i s = Inr l" "holds_budget now l" "covered e l"
  shows "within_caps c (now, s')"
proof -
  have wf: "budget_wf s" using assms(1) by (simp add: within_caps_def)
  obtain l0 where l0: "known_lease i s = Inr l0" "sl_state l0 \<in> {L_RESERVED, L_UNKNOWN_OUTCOME}"
    "sl_state l' = (if sl_maximum l0 < le_cash e then L_OVERSPENT else L_SETTLED)" "replaces s s' l0 l'"
    "gs_limits s' = gs_limits s" "gs_quota_limits s' = gs_quota_limits s"
    "gs_ledger s' = gs_ledger s \<or> gs_ledger s' = gs_ledger s @ [e]" "budget_wf s'"
    by (rule settle_replaces [OF wf assms(3,2)])
  have l: "l0 = l" using l0(1) assms(4) by simp
  have out: "\<not> holds_budget now l'" using l0(3) by (auto simp: holds_budget_def split: if_splits)
  have valid: "make_SpendLease l = Inr l" using known_lease_valid [OF wf assms(4)] by simp
  note charge = covered_charge [OF assms(3) valid assms(6) l0(7)]
  show ?thesis
  proof (rule within_capsI [OF l0(8,5,6) assms(1)])
    show "cash_in_use k now s' \<le> cash_in_use k now s" for k
      using cash.in_use_replace [OF wf l0(4), of k now] assms(5) out charge(1) [of k] by (simp add: l)
    show "quota_in_use q now s' \<le> quota_in_use q now s" for q
      using quota.in_use_replace [OF wf l0(4), of q now] assms(5) out charge(2) [of q] by (simp add: l)
  qed
qed

section \<open>Reservation\<close>

lemma dict_of_quota:
  assumes "distinct (map ql_quota_id qs)" "q \<in> set qs"
  shows "map_of (dict_of (map (\<lambda>q. (ql_quota_id q, q)) qs)) (ql_quota_id q) = Some q"
proof -
  have d: "distinct (map fst (map (\<lambda>q. (ql_quota_id q, q)) qs))" using assms(1) by (simp add: comp_def)
  show ?thesis unfolding dict_of_distinct [OF d] using assms by (intro map_of_is_SomeI) (auto simp: comp_def)
qed

lemma limits_wf:
  assumes "budget_wf s"
  shows "list_limits (Some c) s = Inr (sort_key bl_scope_key (filter (\<lambda>l. bl_cycle_id l = c) (gs_limits s)))"
    "list_quota_limits s = Inr (sort_key ql_quota_id (gs_quota_limits s))"
  using assms by (auto simp: list_limits_def list_quota_limits_def budget_wf_def make_BudgetLimit_def make_QuotaLimit_def intro!: map_res_id)

lemma exceeds_limit_iff:
  assumes "budget_wf s" "list_ledger None None s = Inr ledger" "list_active_spend_leases now None s = Inr active"
  shows "exceeds_limit d n ledger active l \<longleftrightarrow> cap_of d l < cash_in_use (bl_scope_key l) now s + n"
  using cash.read_use [OF assms, of "bl_scope_key l"]
  by (simp add: exceeds_limit_def net_spent_def committed_total_hold Let_def)

lemma quota_check_iff:
  assumes "budget_wf s" "list_ledger None None s = Inr ledger" "list_active_spend_leases now None s = Inr active"
    "map_of quotas qid = Some q"
  shows "quota_check d quotas ledger active (qid, n) = Inr () \<longleftrightarrow>
     quota_in_use qid now s + n \<le> ql_capacity_units q - (if ba_reserve_authorized d then 0 else ql_protected_units q)"
  using quota.read_use [OF assms(1-3), of qid] assms(4)
  by (auto simp: quota_check_def quota_reserved_hold Let_def)

lemma cap_of_le: "valid_BudgetLimit l \<Longrightarrow> cap_of d l \<le> bl_hard_cap l"
  by (simp add: cap_of_def bl_normal_cap_def valid_BudgetLimit_def)

lemma reserve_within_caps:
  assumes "within_caps c (now, s)" "reserve policy request d c key now s = Inr (s', l)" "make_BudgetAdmissionRequest request = Inr request"
  shows "within_caps c (now, s')"
proof -
  have wf: "budget_wf s" using assms(1) by (simp add: within_caps_def)
  from wf assms(3,2) show ?thesis
  proof (cases rule: reserve_effect)
    case same
    then show ?thesis using assms(1) by simp
  next
    case (new limits active ledger quotas row)
    have held: "holds_budget now (gr_payload row)" using new(2,5,6) by (simp add: holds_budget_def)
    have tables: "gs_limits s' = gs_limits s" "gs_quota_limits s' = gs_quota_limits s" "gs_ledger s' = gs_ledger s"
      using new(3) by (simp_all add: same_tables_def)
    have cash_use: "cash_in_use k now s' = cash_in_use k now s + hold_cash k l" for k
      using cash.in_use_append [OF new(1) tables(3) held] new(2) by simp
    have quota_use: "quota_in_use q now s' = quota_in_use q now s + hold_quota q l" for q
      using quota.in_use_append [OF new(1) tables(3) held] new(2) by simp
    have "cash_in_use (bl_scope_key m) now s' \<le> bl_hard_cap m"
      if m: "m \<in> set (gs_limits s)" "bl_enabled m" "bl_cycle_id m = c" for m
    proof (cases "bl_scope_key m \<in> set (ar_scope_keys request)")
      case True
      then have "m \<in> set limits" using new(10) m limits_wf(1) [OF wf, of c] by (auto simp: applicable_limits_def)
      then have "\<not> exceeds_limit d (sl_reserved l) ledger active m" using new(14) by blast
      then have "cash_in_use (bl_scope_key m) now s + sl_reserved l \<le> cap_of d m"
        using exceeds_limit_iff [OF wf new(12,11)] by simp
      moreover have "valid_BudgetLimit m" using wf m(1) by (simp add: budget_wf_def)
      ultimately show ?thesis using cash_use [of "bl_scope_key m"] cap_of_le [of m d] True new(7) by (simp add: hold_cash_def)
    next
      case False
      then show ?thesis using cash_use [of "bl_scope_key m"] assms(1) m new(7) by (simp add: hold_cash_def within_caps_def)
    qed
    moreover have "quota_in_use (ql_quota_id q) now s' \<le> ql_capacity_units q"
      if q: "q \<in> set (gs_quota_limits s)" "ql_enabled q" for q
    proof (cases "map_of (ar_quota_requirements request) (ql_quota_id q)")
      case None
      then show ?thesis using quota_use [of "ql_quota_id q"] assms(1) q new(8) by (simp add: hold_quota_def get_default_def within_caps_def)
    next
      case (Some n)
      let ?d = "dict_of (map (\<lambda>q. (ql_quota_id q, q)) (filter ql_enabled quotas))"
      have qs: "quotas = sort_key ql_quota_id (gs_quota_limits s)" using new(13) limits_wf(2) [OF wf] by simp
      have "distinct (map ql_quota_id (filter ql_enabled quotas))" "q \<in> set (filter ql_enabled quotas)"
        using wf q qs by (auto simp: budget_wf_def distinct_map_sort_key intro!: distinct_map_filter)
      then have entry: "map_of ?d (ql_quota_id q) = Some q" by (rule dict_of_quota)
      have "(ql_quota_id q, n) \<in> set (ar_quota_requirements request)" using Some by (rule map_of_SomeD)
      then have "quota_check d ?d ledger active (ql_quota_id q, n) = Inr ()" using new(15) by blast
      then have "quota_in_use (ql_quota_id q) now s + n \<le> ql_capacity_units q - (if ba_reserve_authorized d then 0 else ql_protected_units q)"
        using quota_check_iff [OF wf new(12,11) entry] by blast
      moreover have "0 \<le> ql_protected_units q" using wf q(1) by (simp add: budget_wf_def valid_QuotaLimit_def)
      ultimately show ?thesis using quota_use [of "ql_quota_id q"] Some new(8) by (simp add: hold_quota_def get_default_def split: if_splits)
    qed
    ultimately show ?thesis using new(4) tables by (simp add: within_caps_def)
  qed
qed

section \<open>The caps hold in every reachable state\<close>

lemma put_limit_effect:
  assumes "put_limit l s = Inr s'"
  shows "set (gs_limits s') \<subseteq> insert l (set (gs_limits s))" "gs_quota_limits s' = gs_quota_limits s"
    "gs_ledger s' = gs_ledger s" "gs_leases s' = gs_leases s"
  using assms by (auto simp: put_limit_def Let_def split: if_splits)

lemma put_quota_limit_effect:
  assumes "put_quota_limit q s = Inr s'" "valid_QuotaLimit q" "budget_wf s"
  shows "set (gs_quota_limits s') \<subseteq> insert q (set (gs_quota_limits s))" "distinct (map ql_quota_id (gs_quota_limits s'))"
    "gs_limits s' = gs_limits s" "gs_ledger s' = gs_ledger s" "gs_leases s' = gs_leases s"
proof -
  let ?same = "\<lambda>p. ql_scope_key p = ql_scope_key q \<and> ql_provider_id p = ql_provider_id q \<and> ql_quota_name p = ql_quota_name q"
  let ?qs = "gs_quota_limits s"
  have cases: "(list_ex ?same ?qs \<and> s' = s\<lparr>gs_quota_limits := map (\<lambda>p. if ?same p then q else p) ?qs\<rparr>)
      \<or> (\<not> list_ex ?same ?qs \<and> s' = s\<lparr>gs_quota_limits := ?qs @ [q]\<rparr>)" "\<not> list_ex (\<lambda>p. \<not> ?same p \<and> ql_quota_id p = ql_quota_id q) ?qs"
    using assms(1) by (auto simp: put_quota_limit_def Let_def split: if_splits)
  then show "set (gs_quota_limits s') \<subseteq> insert q (set ?qs)" "gs_limits s' = gs_limits s" "gs_ledger s' = gs_ledger s" "gs_leases s' = gs_leases s"
    by (auto split: if_splits)
  have "ql_quota_id p = ql_quota_id q" if "p \<in> set ?qs" "?same p" for p
    using that assms(2,3) by (auto simp: budget_wf_def valid_QuotaLimit_def)
  then have "map ql_quota_id (map (\<lambda>p. if ?same p then q else p) ?qs) = map ql_quota_id ?qs" by simp
  moreover have "distinct (map ql_quota_id ?qs)" using assms(3) by (simp add: budget_wf_def)
  moreover have "ql_quota_id q \<notin> ql_quota_id ` set ?qs" if "\<not> list_ex ?same ?qs"
    using that cases(2) unfolding list_ex_iff by force
  ultimately show "distinct (map ql_quota_id (gs_quota_limits s'))"
    using cases(1) by (elim disjE conjE) (simp_all del: map_map)
qed

lemma limit_within_caps:
  assumes "within_caps c (now, s)" "put_limit l s = Inr s'" "valid_BudgetLimit l" "cash_in_use (bl_scope_key l) now s \<le> bl_hard_cap l"
  shows "within_caps c (now, s')"
proof -
  note e = put_limit_effect [OF assms(2)]
  have "cash_in_use k now s' = cash_in_use k now s" "quota_in_use q now s' = quota_in_use q now s" for k q
    using e by (simp_all add: in_use_def held_leases_def)
  then show ?thesis using assms(1,3,4) e by (auto simp: within_caps_def budget_wf_def)
qed

lemma quota_within_caps:
  assumes "within_caps c (now, s)" "put_quota_limit q s = Inr s'" "valid_QuotaLimit q" "quota_in_use (ql_quota_id q) now s \<le> ql_capacity_units q"
  shows "within_caps c (now, s')"
proof -
  have wf: "budget_wf s" using assms(1) by (simp add: within_caps_def)
  note e = put_quota_limit_effect [OF assms(2,3) wf]
  have "cash_in_use k now s' = cash_in_use k now s" "quota_in_use p now s' = quota_in_use p now s" for k p
    using e by (simp_all add: in_use_def held_leases_def)
  then show ?thesis using assms(1,3,4) e by (auto simp: within_caps_def budget_wf_def)
qed

lemma credit_within_caps:
  assumes "within_caps c (now, s)" "record_ledger e s = Inr (s', e')" "make_BudgetLedgerEntry e = Inr e" "le_direction e = CREDIT" "le_quota_units e = []"
  shows "within_caps c (now, s')"
proof -
  have wf: "budget_wf s" using assms(1) by (simp add: within_caps_def)
  consider "s' = s" | "s' = s\<lparr>gs_ledger := gs_ledger s @ [e]\<rparr>" using insert_ledger_cases assms(2) unfolding record_ledger_def by blast
  then show ?thesis
  proof cases
    case 2
    then have wf': "budget_wf s'" using wf assms(3) by (simp add: budget_wf_def)
    show ?thesis
    proof (rule within_capsI [OF wf' _ _ assms(1)])
      show "cash_in_use k now s' \<le> cash_in_use k now s" for k
        using net_spent_snoc [OF entry_fields(1) [OF assms(3)], of k "gs_ledger s"] assms(4) 2 by (simp add: in_use_def held_leases_def)
      show "quota_in_use q now s' \<le> quota_in_use q now s" for q
        using assms(5) 2 by (simp add: in_use_def held_leases_def quota_total_snoc)
    qed (simp_all add: 2)
  qed (use assms(1) in simp)
qed

lemma tick_within_caps:
  assumes "within_caps c (now, s)" "now \<le> now'"
  shows "within_caps c (now', s)"
proof -
  have wf: "budget_wf s" using assms(1) by (simp add: within_caps_def)
  show ?thesis using within_capsI [OF wf refl refl assms(1)] cash.in_use_tick [OF wf assms(2)] quota.in_use_tick [OF wf assms(2)] by blast
qed

lemma expire_within_caps:
  assumes "within_caps c (now, s)" "expire_stale_leases now s = Inr (s', ls)"
  shows "within_caps c (now, s')"
proof -
  have wf: "budget_wf s" using assms(1) by (simp add: within_caps_def)
  note e = expire_rows [OF wf assms(2)]
  show ?thesis
    using within_capsI [OF e(1) _ _ assms(1)] e(2) cash.in_use_expire [OF wf assms(2)] quota.in_use_expire [OF wf assms(2)]
    by (simp add: same_tables_def)
qed

lemma budget_step_caps: "budget_step c st st' \<Longrightarrow> within_caps c st \<Longrightarrow> within_caps c st'"
proof (induction rule: budget_step.induct)
  case (unknown i now s s' l' l)
  then have wf: "budget_wf s" by (simp add: within_caps_def)
  obtain l0 where "known_lease i s = Inr l0" "replaces s s' l0 l'" "same_tables s s'"
    by (rule mark_unknown_outcome_replaces [OF wf unknown(1)])
  then show ?case using within_caps_replace [OF unknown(4)] unknown(2,3) by auto
next
  case (resolve i now s s' l)
  then have wf: "budget_wf s" by (simp add: within_caps_def)
  obtain l0 where "sl_state l = L_RELEASED" "replaces s s' l0 l" "same_tables s s'"
    by (rule resolve_unknown_replaces [OF wf resolve(1)])
  then show ?case using within_caps_replace [OF resolve(2)] by (simp add: holds_budget_def)
next
  case (release i cancelled now s s' l)
  then have wf: "budget_wf s" by (simp add: within_caps_def)
  show ?case
  proof (rule release_replaces [OF wf release(1)])
    fix l0 assume "sl_state l = (if cancelled then L_CANCELLED else L_RELEASED)" "replaces s s' l0 l" "same_tables s s'"
    then show ?case using within_caps_replace [OF release(2)] by (simp add: holds_budget_def split: if_splits)
  qed (use release(2) in simp)
next
  case (decide isoformat policy request forecast_p90 pace now s s' d)
  then have "s' = save_decision d s" by (auto simp: admit_def)
  then show ?case using within_caps_same [OF decide(2)] by (simp add: save_decision_def)
next
  case (observe h s s' now)
  then have "gs_limits s' = gs_limits s \<and> gs_quota_limits s' = gs_quota_limits s \<and> gs_ledger s' = gs_ledger s \<and> gs_leases s' = gs_leases s"
    by (auto simp: save_history_def split: option.splits if_splits)
  then show ?case using within_caps_same [OF observe(2)] by simp
next
  case (anomaly policy project expected observed task provider now s s' a)
  then have "s' = save_anomaly a s" by (auto simp: detect_anomaly_def)
  then show ?case using within_caps_same [OF anomaly(2)] by (simp add: save_anomaly_def)
next
  case (predict policy project task_class provider p50 p90 queued burn pace remaining now s s' f)
  then have "save_forecast f s = Inr s'" by (auto simp: forecast_def)
  then show ?case using within_caps_same [OF predict(2)] by (auto simp: save_forecast_def)
qed (auto intro: tick_within_caps limit_within_caps quota_within_caps reserve_within_caps settle_within_caps expire_within_caps credit_within_caps)

abbreviation reachable_budget :: "string \<Rightarrow> int \<Rightarrow> BudgetStore \<Rightarrow> bool" where
  "reachable_budget c now s \<equiv> \<exists>t. (budget_step c)\<^sup>*\<^sup>* (t, empty_budget_store) (now, s)"

lemma reachable_caps:
  assumes "reachable_budget c now s"
  shows "within_caps c (now, s)"
proof -
  from assms obtain t where "(budget_step c)\<^sup>*\<^sup>* (t, empty_budget_store) (now, s)" by blast
  moreover have "within_caps c (t, empty_budget_store)" using empty_wf by (simp add: within_caps_def empty_budget_store_def)
  ultimately show ?thesis by (induction rule: rtranclp_induct) (auto intro: budget_step_caps)
qed

lemma reachable_wf: "reachable_budget c now s \<Longrightarrow> budget_wf s"
  using reachable_caps by (fastforce simp: within_caps_def)

end
