(* ===== verification/BudgetAdmission.thy ===== *)
theory BudgetAdmission
  imports BudgetEvaluator
begin

text \<open>
  What the functions of the budget policy decide: the admission of a request and the pressure of a limit.
\<close>

section \<open>The admission decision\<close>

text \<open>Whether a request may use the protected reserve.\<close>

definition may_use_reserve :: "BudgetPolicy \<Rightarrow> BudgetAdmissionRequest \<Rightarrow> bool" where
  "may_use_reserve policy r \<longleftrightarrow>
     (\<exists>reason. ar_reserve_reason r = Some reason \<and> reason \<in> set (po_reserve_reasons policy)
        \<and> (ar_critical_path r \<or> ar_required_verification r \<or> ar_priority r = ''P0'' \<or> ar_priority r = ''P1''
           \<or> reason = DEADLINE_PROTECTION \<and> ar_deadline_at_utc r \<noteq> None))"

definition reason_known :: "BudgetPolicy \<Rightarrow> BudgetAdmissionRequest \<Rightarrow> bool" where
  "reason_known policy r \<longleftrightarrow> (\<forall>reason. ar_reserve_reason r = Some reason \<longrightarrow> reason \<in> set (po_reserve_reasons policy))"

definition remaining_for :: "bool \<Rightarrow> BudgetSnapshot \<Rightarrow> int" where
  "remaining_for reserve n = (if reserve then bn_remaining_total n else bn_remaining_normal n)"

text \<open>The money and quota conditions of an admission.\<close>

definition money_suffices :: "BudgetPolicy \<Rightarrow> BudgetAdmissionRequest \<Rightarrow> BudgetSnapshot list \<Rightarrow> bool" where
  "money_suffices policy r ns \<longleftrightarrow>
     ns \<noteq> [] \<and> (\<forall>n \<in> set ns. bn_pressure_mode n \<noteq> HARD_STOP \<and> ar_estimated_p90 r \<le> remaining_for (may_use_reserve policy r) n)
     \<and> ((\<exists>n \<in> set ns. bn_pressure_mode n = RED) \<longrightarrow> may_use_reserve policy r \<or> ar_required_verification r)"

definition quota_suffices ::
  "bool \<Rightarrow> (string, QuotaLimit) dict \<Rightarrow> (string, int) dict \<Rightarrow> string \<times> int \<Rightarrow> bool" where
  "quota_suffices reserve limits used = (\<lambda>(i, n). \<exists>q. map_of limits i = Some q \<and> ql_enabled q
     \<and> n \<le> max 0 (ql_capacity_units q - (if reserve then 0 else ql_protected_units q) - max 0 (get_default used i 0)))"

lemma judge_reserve_iff:
  "fst (judge_reserve policy r) \<longleftrightarrow> may_use_reserve policy r"
  "''reserve_reason_not_authorized'' \<in> set (snd (judge_reserve policy r)) \<longleftrightarrow> \<not> reason_known policy r"
  by (auto simp: judge_reserve_def may_use_reserve_def reason_known_def Let_def split: option.splits)

lemma worst_pressure_le: "n \<in> set ns \<Longrightarrow> pressure_order (bn_pressure_mode n) \<le> pressure_order (worst_pressure ns)"
  and worst_pressure_in: "ns \<noteq> [] \<Longrightarrow> worst_pressure ns \<in> bn_pressure_mode ` set ns"
proof -
  show "worst_pressure ns \<in> bn_pressure_mode ` set ns" if "ns \<noteq> []"
    using that max_by_in [of pressure_order "hd (map bn_pressure_mode ns)" "tl (map bn_pressure_mode ns)"]
    by (cases ns) (auto simp: worst_pressure_def Let_def)
  assume "n \<in> set ns"
  then show "pressure_order (bn_pressure_mode n) \<le> pressure_order (worst_pressure ns)"
    by (cases ns) (auto simp: worst_pressure_def Let_def max_by_key intro!: Max_ge)
qed

lemma pressure_order_4: "4 \<le> pressure_order m \<longleftrightarrow> m = HARD_STOP" "pressure_order m = pressure_order m' \<longleftrightarrow> m = m'"
  "pressure_order m \<le> 4" "3 \<le> pressure_order m \<longleftrightarrow> m = RED \<or> m = HARD_STOP"
  by (cases m; cases m'; simp)+

lemma worst_HARD_STOP: "ns \<noteq> [] \<Longrightarrow> worst_pressure ns = HARD_STOP \<longleftrightarrow> (\<exists>n \<in> set ns. bn_pressure_mode n = HARD_STOP)"
  using worst_pressure_in [of ns] worst_pressure_le [of _ ns] pressure_order_4(1) [of "worst_pressure ns"] by force

lemma worst_RED:
  assumes "ns \<noteq> []" "worst_pressure ns \<noteq> HARD_STOP"
  shows "worst_pressure ns = RED \<longleftrightarrow> (\<exists>n \<in> set ns. bn_pressure_mode n = RED)"
proof
  show "worst_pressure ns = RED \<Longrightarrow> \<exists>n \<in> set ns. bn_pressure_mode n = RED" using worst_pressure_in [OF assms(1)] by (auto dest: sym)
  assume "\<exists>n \<in> set ns. bn_pressure_mode n = RED"
  then show "worst_pressure ns = RED" using worst_pressure_le [of _ ns] pressure_order_4(4) [of "worst_pressure ns"] assms(2) by force
qed

lemma min_list_le: "x \<le> min_list (x # xs) \<longleftrightarrow> (\<forall>y \<in> set xs. x \<le> y)" for x :: int
proof -
  have "min_list (x # xs) = Min (set (x # xs))" by (rule min_list_Min) simp
  then show ?thesis by auto
qed

lemma judge_money_iff:
  assumes "judge_money r ns (worst_pressure ns) (may_use_reserve policy r) = (paid, money, reasons)" "ar_paid_incremental r"
  shows "paid \<and> ar_estimated_p90 r \<le> money \<longleftrightarrow> money_suffices policy r ns" "ns \<noteq> [] \<Longrightarrow> money \<le> ar_estimated_p90 r"
proof -
  let ?available = "map (remaining_for (may_use_reserve policy r)) ns"
  have available: "map (\<lambda>n. if may_use_reserve policy r then bn_remaining_total n else bn_remaining_normal n) ns = ?available"
    by (simp add: remaining_for_def)
  have "min_list (ar_estimated_p90 r # ?available) \<le> ar_estimated_p90 r"
    using min_list_Min [of "ar_estimated_p90 r # ?available"] by simp
  then show "ns \<noteq> [] \<Longrightarrow> money \<le> ar_estimated_p90 r"
    using assms by (auto simp: judge_money_def available Let_def split: if_splits)
  show "paid \<and> ar_estimated_p90 r \<le> money \<longleftrightarrow> money_suffices policy r ns"
  proof (cases "ns = [] \<or> worst_pressure ns = HARD_STOP")
    case True
    then have "\<not> paid" "\<not> money_suffices policy r ns"
      using assms worst_HARD_STOP [of ns] by (auto simp: judge_money_def money_suffices_def Let_def split: if_splits)
    then show ?thesis by simp
  next
    case False
    then have "money = min_list (ar_estimated_p90 r # ?available)"
      "paid \<longleftrightarrow> \<not> (worst_pressure ns = RED \<and> \<not> (may_use_reserve policy r \<or> ar_required_verification r))"
      using assms by (auto simp: judge_money_def available Let_def split: if_splits)
    then show ?thesis using False worst_RED [of ns] worst_HARD_STOP [of ns] min_list_le [of "ar_estimated_p90 r" ?available]
      by (auto simp: money_suffices_def)
  qed
qed

lemma quota_fold:
  assumes "fold (quota_step limits used reserve) items (shadow, ok, reasons) = (shadow', ok', reasons')"
  shows "ok' \<longleftrightarrow> ok \<and> (\<forall>item \<in> set items. quota_suffices reserve limits used item)"
    "''reserve_reason_not_authorized'' \<in> set reasons' \<longleftrightarrow> ''reserve_reason_not_authorized'' \<in> set reasons"
    "\<lbrakk>0 \<le> shadow; \<forall>q \<in> snd ` set limits. valid_QuotaLimit q\<rbrakk> \<Longrightarrow> 0 \<le> shadow'"
proof -
  have shadow_cost: "0 \<le> quota_shadow_cost q n" if "valid_QuotaLimit q" for q n
    using that by (simp add: quota_shadow_cost_def Let_def valid_QuotaLimit_def mult.assoc pos_imp_zdiv_nonneg_iff)
  have "(ok' \<longleftrightarrow> ok \<and> (\<forall>item \<in> set items. quota_suffices reserve limits used item))
     \<and> (''reserve_reason_not_authorized'' \<in> set reasons' \<longleftrightarrow> ''reserve_reason_not_authorized'' \<in> set reasons)
     \<and> (0 \<le> shadow \<longrightarrow> (\<forall>q \<in> snd ` set limits. valid_QuotaLimit q) \<longrightarrow> 0 \<le> shadow')"
    using assms
  proof (induction items arbitrary: shadow ok reasons)
    case (Cons item items)
    obtain i n where item: "item = (i, n)" by (cases item)
    obtain sh1 ok1 r1 where step: "quota_step limits used reserve item (shadow, ok, reasons) = (sh1, ok1, r1)" by (metis prod_cases3)
    have "ok1 \<longleftrightarrow> ok \<and> quota_suffices reserve limits used item"
      "''reserve_reason_not_authorized'' \<in> set r1 \<longleftrightarrow> ''reserve_reason_not_authorized'' \<in> set reasons"
      "0 \<le> shadow \<longrightarrow> (\<forall>q \<in> snd ` set limits. valid_QuotaLimit q) \<longrightarrow> 0 \<le> sh1"
      using step shadow_cost map_of_SomeD [of limits i]
      by (force simp: quota_step_def quota_suffices_def item Let_def split: option.splits if_splits)+
    then show ?case using Cons.IH [of sh1 ok1 r1] Cons.prems step by auto
  qed simp
  then show "ok' \<longleftrightarrow> ok \<and> (\<forall>item \<in> set items. quota_suffices reserve limits used item)"
    "''reserve_reason_not_authorized'' \<in> set reasons' \<longleftrightarrow> ''reserve_reason_not_authorized'' \<in> set reasons"
    "\<lbrakk>0 \<le> shadow; \<forall>q \<in> snd ` set limits. valid_QuotaLimit q\<rbrakk> \<Longrightarrow> 0 \<le> shadow'" by blast+
qed

lemma judge_money_reasons:
  "judge_money r ns p b = (paid, money, reasons) \<Longrightarrow> ''reserve_reason_not_authorized'' \<notin> set reasons"
  by (auto simp: judge_money_def Let_def split: if_splits)

lemma evaluate_fields:
  assumes "evaluate_budget isoformat policy r ns limits used now = Inr d"
  shows "ba_admitted d \<longleftrightarrow> reason_known policy r \<and> (ar_paid_incremental r \<longrightarrow> money_suffices policy r ns)
       \<and> (\<forall>item \<in> set (ar_quota_requirements r). quota_suffices (may_use_reserve policy r) limits used item)"
    "ba_authorized d = (if ba_admitted d \<and> ar_paid_incremental r then ar_estimated_p90 r else 0)"
    "ba_reserve_authorized d \<longleftrightarrow> ba_admitted d \<and> may_use_reserve policy r"
    "ba_pressure_mode d = worst_pressure ns"
proof -
  obtain ra rr where jr: "judge_reserve policy r = (ra, rr)" by (cases "judge_reserve policy r")
  have ra: "ra = may_use_reserve policy r" "''reserve_reason_not_authorized'' \<in> set rr \<longleftrightarrow> \<not> reason_known policy r"
    using judge_reserve_iff [of policy r] jr by auto
  obtain paid money mr where jm: "judge_money r ns (worst_pressure ns) ra = (paid, money, mr)" by (metis prod_cases3)
  obtain sh ok qr where qf: "fold (quota_step limits used ra) (ar_quota_requirements r) (0, True, []) = (sh, ok, qr)" by (metis prod_cases3)
  define admitted where "admitted \<longleftrightarrow> (\<not> ar_paid_incremental r \<or> paid \<and> ar_estimated_p90 r \<le> money) \<and> ok
        \<and> ''reserve_reason_not_authorized'' \<notin> set (rr @ mr @ qr)"
  have "\<exists>x. budget_identifier ''ADMISSION'' [ar_task_id r, budget_fingerprint (dump_request isoformat r)] = Inr x \<and>
      make_BudgetAdmissionDecision
        \<lparr>ba_decision_id = x, ba_task_id = ar_task_id r, ba_admitted = admitted, ba_pressure_mode = worst_pressure ns,
         ba_authorized = (if admitted \<and> ar_paid_incremental r then money else 0), ba_reserve_authorized = (ra \<and> admitted),
         ba_allowed_paid_incremental = (paid \<and> admitted), ba_quota_shadow_cost = sh,
         ba_reasons = sorted_set ((rr @ mr @ qr) @ (if \<not> admitted \<and> ar_local_or_subscription_alternative r
                                   then [''retry_with_local_or_subscription_alternative''] else [])),
         ba_preferred_execution_modes = preferred_execution_modes (worst_pressure ns), ba_generated_at_utc = Aware now\<rparr> = Inr d"
    using assms unfolding evaluate_budget_def jr jm qf prod.case Let_def admitted_def [symmetric] res_bind_eq_Inr .
  then have d: "ba_admitted d \<longleftrightarrow> admitted" "ba_authorized d = (if admitted \<and> ar_paid_incremental r then money else 0)"
    "ba_reserve_authorized d \<longleftrightarrow> ra \<and> admitted" "ba_pressure_mode d = worst_pressure ns"
    by (auto simp: make_BudgetAdmissionDecision_def split: if_splits)
  note q = quota_fold [OF qf]
  have money: "ar_paid_incremental r \<Longrightarrow> paid \<and> ar_estimated_p90 r \<le> money \<longleftrightarrow> money_suffices policy r ns"
    "ar_paid_incremental r \<Longrightarrow> ns \<noteq> [] \<Longrightarrow> money \<le> ar_estimated_p90 r"
    using judge_money_iff [OF jm [unfolded ra(1)]] by blast+
  show admitted: "ba_admitted d \<longleftrightarrow> reason_known policy r \<and> (ar_paid_incremental r \<longrightarrow> money_suffices policy r ns)
       \<and> (\<forall>item \<in> set (ar_quota_requirements r). quota_suffices (may_use_reserve policy r) limits used item)"
    using d(1) q(1,2) ra judge_money_reasons [OF jm] money(1) by (auto simp: admitted_def)
  have "money = ar_estimated_p90 r" if "ba_admitted d" "ar_paid_incremental r"
    using that admitted d(1) money by (auto simp: money_suffices_def admitted_def)
  then show "ba_authorized d = (if ba_admitted d \<and> ar_paid_incremental r then ar_estimated_p90 r else 0)" using d(1,2) by simp
  show "ba_reserve_authorized d \<longleftrightarrow> ba_admitted d \<and> may_use_reserve policy r" using d(1,3) ra(1) by blast
  show "ba_pressure_mode d = worst_pressure ns" by (rule d(4))
qed

lemma evaluate_total:
  assumes "0 \<le> ar_estimated_p90 r" "py_strip (ar_task_id r) \<noteq> []" "\<forall>q \<in> snd ` set limits. valid_QuotaLimit q"
  shows "\<exists>d. evaluate_budget isoformat policy r ns limits used now = Inr d"
proof -
  obtain ra rr where jr: "judge_reserve policy r = (ra, rr)" by (cases "judge_reserve policy r")
  obtain paid money mr where jm: "judge_money r ns (worst_pressure ns) ra = (paid, money, mr)" by (metis prod_cases3)
  obtain sh ok qr where qf: "fold (quota_step limits used ra) (ar_quota_requirements r) (0, True, []) = (sh, ok, qr)" by (metis prod_cases3)
  have "0 \<le> sh" using quota_fold(3) [OF qf] assms(3) by simp
  moreover have "py_strip (budget_fingerprint (dump_request isoformat r)) \<noteq> []"
    unfolding budget_fingerprint_def by (rule sha256_hex_not_blank)
  ultimately show ?thesis
    using assms(1,2) by (auto simp: evaluate_budget_def jr jm qf Let_def budget_identifier_def make_BudgetAdmissionDecision_def valid_BudgetAdmissionDecision_def)
qed

text \<open>
  C000. A request always gets a decision, and it is admitted exactly when its reserve reason is authorized by the
  policy, a paid request finds at least one limit, no limit is hard-stopped, each has the p90 estimate left
  (its protected part only for a request that may use the reserve), a red limit is met by such a request or by
  required verification, and each quota is enabled and has the units left.  An admitted paid request is authorized
  for exactly its p90 estimate, any other for nothing.
\<close>

theorem admission_decision_exact:
  assumes "valid_BudgetAdmissionRequest r" "py_strip (ar_task_id r) \<noteq> []" "\<forall>q \<in> snd ` set limits. valid_QuotaLimit q"
  shows "\<exists>d. evaluate_budget isoformat policy r ns limits used now = Inr d
     \<and> (ba_admitted d \<longleftrightarrow>
         (\<forall>reason. ar_reserve_reason r = Some reason \<longrightarrow> reason \<in> set (po_reserve_reasons policy))
         \<and> (ar_paid_incremental r \<longrightarrow> ns \<noteq> []
             \<and> (\<forall>n \<in> set ns. bn_pressure_mode n \<noteq> HARD_STOP
                  \<and> ar_estimated_p90 r \<le> (if may_use_reserve policy r then bn_remaining_total n else bn_remaining_normal n)
                  \<and> (bn_pressure_mode n = RED \<longrightarrow> may_use_reserve policy r \<or> ar_required_verification r)))
         \<and> (\<forall>(i, n) \<in> set (ar_quota_requirements r). \<exists>q. map_of limits i = Some q \<and> ql_enabled q
             \<and> n \<le> max 0 (ql_capacity_units q - (if may_use_reserve policy r then 0 else ql_protected_units q)
                             - max 0 (get_default used i 0))))
     \<and> ba_authorized d = (if ba_admitted d \<and> ar_paid_incremental r then ar_estimated_p90 r else 0)
     \<and> (ba_reserve_authorized d \<longleftrightarrow> ba_admitted d \<and> may_use_reserve policy r)"
proof -
  have "0 \<le> ar_estimated_p90 r" using assms(1) by (simp add: valid_BudgetAdmissionRequest_def)
  from evaluate_total [OF this assms(2,3)]
  obtain d where d: "evaluate_budget isoformat policy r ns limits used now = Inr d" by blast
  show ?thesis
    using d evaluate_fields(1-3) [OF d]
    by (intro exI [of _ d]) (auto simp: reason_known_def money_suffices_def remaining_for_def quota_suffices_def)
qed

definition example_request :: "bool \<Rightarrow> int \<Rightarrow> BudgetAdmissionRequest" where
  "example_request paid cost =
     \<lparr>ar_project_id = ''P'', ar_task_id = ''T'', ar_task_class = ''build'', ar_provider_id = None,
      ar_scope_keys = [''PROJECT:P''], ar_estimated_p50 = 0, ar_estimated_p90 = cost, ar_quota_requirements = [],
      ar_priority = ''P2'', ar_risk = ''LOW'', ar_critical_path = False, ar_required_verification = False,
      ar_paid_incremental = paid, ar_local_or_subscription_alternative = False, ar_reserve_reason = None,
      ar_deadline_at_utc = None\<rparr>"

lemma example_request_valid: "0 \<le> cost \<Longrightarrow> make_BudgetAdmissionRequest (example_request paid cost) = Inr (example_request paid cost)"
proof -
  have "normal_scopes [''PROJECT:P''] = [''PROJECT:P'']" "dimensions_ok []" "sorted_items [] = []" by code_simp+
  then show "0 \<le> cost \<Longrightarrow> make_BudgetAdmissionRequest (example_request paid cost) = Inr (example_request paid cost)"
    by (simp add: make_BudgetAdmissionRequest_def valid_BudgetAdmissionRequest_def example_request_def length_between_def)
qed

definition example_snapshot :: "int \<Rightarrow> BudgetSnapshot" where
  "example_snapshot spent =
     \<lparr>bn_scope_key = ''PROJECT:P'', bn_hard_cap = 100, bn_soft_cap = 90, bn_protected_reserve = 10, bn_spent = spent,
      bn_credited = 0, bn_committed = 0, bn_remaining_normal = 90 - spent, bn_remaining_total = 100 - spent,
      bn_forecast_p90 = 0, bn_pace_ratio_milli = 0, bn_pressure_mode = GREEN, bn_observed_at_utc = Aware 0\<rparr>"

theorem admission_decision_exact_witness:
  "(\<exists>d. evaluate_budget (\<lambda>_. []) default_budget_policy (example_request True 50) [example_snapshot 40] [] [] 0 = Inr d
      \<and> ba_admitted d \<and> ba_authorized d = 50)
   \<and> (\<exists>d. evaluate_budget (\<lambda>_. []) default_budget_policy (example_request True 51) [example_snapshot 40] [] [] 0 = Inr d
      \<and> \<not> ba_admitted d \<and> ba_authorized d = 0)"
proof -
  have "valid_BudgetAdmissionRequest (example_request True 50)" "valid_BudgetAdmissionRequest (example_request True 51)"
    using example_request_valid [of 50 True] example_request_valid [of 51 True] by (auto simp: make_BudgetAdmissionRequest_def split: if_splits)
  moreover have "py_strip (ar_task_id (example_request True cost)) \<noteq> []" for cost
    by (simp add: example_request_def py_strip_def strip_by_Nil is_space_def)
  moreover have "ar_reserve_reason (example_request True cost) = None" "ar_quota_requirements (example_request True cost) = []"
    "ar_estimated_p90 (example_request True cost) = cost" "ar_paid_incremental (example_request True cost)" for cost
    by (simp_all add: example_request_def)
  moreover have "\<not> may_use_reserve default_budget_policy (example_request True cost)" for cost
    by (simp add: may_use_reserve_def example_request_def)
  ultimately show ?thesis
    using admission_decision_exact [of "example_request True 50" "[]" "\<lambda>_. []" default_budget_policy "[example_snapshot 40]" "[]" 0]
      admission_decision_exact [of "example_request True 51" "[]" "\<lambda>_. []" default_budget_policy "[example_snapshot 40]" "[]" 0]
    by (auto simp: example_snapshot_def)
qed

section \<open>Pressure\<close>

definition threshold_mode :: "int \<Rightarrow> int \<Rightarrow> int \<Rightarrow> int \<Rightarrow> PressureMode" where
  "threshold_mode yellow orange red x =
     (if x \<ge> red then RED else if x \<ge> orange then ORANGE else if x \<ge> yellow then YELLOW else GREEN)"

lemma threshold_mode_mono:
  "yellow \<le> orange \<Longrightarrow> orange \<le> red \<Longrightarrow> x \<le> y \<Longrightarrow> pressure_order (threshold_mode yellow orange red x) \<le> pressure_order (threshold_mode yellow orange red y)"
  by (auto simp: threshold_mode_def)

lemma paid_lane_ceiling_mono:
  assumes "pressure_order m \<le> pressure_order m'"
  shows "0 \<le> paid_lane_ceiling lanes m' \<and> paid_lane_ceiling lanes m' \<le> paid_lane_ceiling lanes m \<and> paid_lane_ceiling lanes m \<le> max 0 lanes"
  using assms by (cases m; cases m') (auto simp: Let_def)

text \<open>
  C000. More spending, fewer credits, more commitments, a higher forecast or a faster pace never lower the
  pressure of a limit, and never raise the number of paid lanes.  The limit is hard-stopped exactly when what is
  spent and committed reaches the cap, where a zero cap is reached by the first cost.
\<close>

theorem pressure_monotone:
  assumes "valid_BudgetPolicy policy"
    and "spent \<le> spent'" "credited' \<le> credited" "committed \<le> committed'" "forecast_p90 \<le> forecast_p90'" "pace \<le> pace'"
    and "mode = determine_pressure policy hard_cap protected_reserve soft_cap spent credited committed forecast_p90 pace"
    and "mode' = determine_pressure policy hard_cap protected_reserve soft_cap spent' credited' committed' forecast_p90' pace'"
  shows "pressure_order mode \<le> pressure_order mode'
     \<and> 0 \<le> paid_lane_ceiling lanes mode' \<and> paid_lane_ceiling lanes mode' \<le> paid_lane_ceiling lanes mode
     \<and> paid_lane_ceiling lanes mode \<le> max 0 lanes
     \<and> (mode = HARD_STOP \<longleftrightarrow> (let used = max 0 (spent - credited) + committed in if hard_cap = 0 then 0 < used else hard_cap \<le> used))"
proof -
  define normal where "normal = max 0 (hard_cap - protected_reserve)"
  define soft where "soft = (case soft_cap of None \<Rightarrow> normal | Some n \<Rightarrow> min normal (max 0 n))"
  define denominator where "denominator = max 1 (if soft > 0 then soft else if normal > 0 then normal else hard_cap)"
  define by_ratio where "by_ratio x = threshold_mode (po_yellow_projected_ratio_milli policy)
    (po_orange_projected_ratio_milli policy) (po_red_projected_ratio_milli policy) (x * 1000 div denominator)" for x
  define by_pace where "by_pace = threshold_mode (po_yellow_pace_ratio_milli policy) (po_orange_pace_ratio_milli policy) (po_red_pace_ratio_milli policy)"
  define used where "used a b c = max 0 (a - b) + c" for a b c :: int
  have pressure: "determine_pressure policy hard_cap protected_reserve soft_cap a b c f p =
      (if hard_cap = 0 then (if 0 < used a b c then HARD_STOP else GREEN) else if hard_cap \<le> used a b c then HARD_STOP
       else max_by pressure_order (by_ratio (used a b c + f)) [by_pace p])" for a b c f p
  proof -
    have "po_red_projected_ratio_milli policy < 1000" using assms(1) by (simp add: valid_BudgetPolicy_def)
    then have ratio: "(if x \<ge> 1000 then RED else if x \<ge> po_red_projected_ratio_milli policy then RED
        else if x \<ge> po_orange_projected_ratio_milli policy then ORANGE
        else if x \<ge> po_yellow_projected_ratio_milli policy then YELLOW else GREEN) =
        threshold_mode (po_yellow_projected_ratio_milli policy) (po_orange_projected_ratio_milli policy) (po_red_projected_ratio_milli policy) x" for x
      by (simp add: threshold_mode_def)
    show ?thesis
      unfolding determine_pressure_def Let_def ratio used_def by_ratio_def by_pace_def denominator_def soft_def normal_def
      by (simp add: threshold_mode_def)
  qed
  have order: "pressure_order (max_by pressure_order x [y]) = max (pressure_order x) (pressure_order y)" for x y by (simp add: max_by_key)
  have stop: "max_by pressure_order (by_ratio x) [by_pace y] \<noteq> HARD_STOP" for x y
    using max_by_in [of pressure_order "by_ratio x" "[by_pace y]"] by (auto simp: by_ratio_def by_pace_def threshold_mode_def split: if_splits)
  have less: "used spent credited committed \<le> used spent' credited' committed'" using assms(2-4) by (simp add: used_def)
  have "pressure_order (by_ratio (used spent credited committed + forecast_p90)) \<le> pressure_order (by_ratio (used spent' credited' committed' + forecast_p90'))"
    unfolding by_ratio_def using assms(1,5) less
    by (intro threshold_mode_mono zdiv_mono1) (simp_all add: valid_BudgetPolicy_def denominator_def)
  moreover have "pressure_order (by_pace pace) \<le> pressure_order (by_pace pace')"
    unfolding by_pace_def using assms(1,6) by (intro threshold_mode_mono) (simp_all add: valid_BudgetPolicy_def)
  ultimately have mono: "pressure_order mode \<le> pressure_order mode'"
    using less pressure_order_4(3) [of mode] unfolding assms(7,8) pressure by (auto simp: order)
  moreover have "mode = HARD_STOP \<longleftrightarrow> (if hard_cap = 0 then 0 < used spent credited committed else hard_cap \<le> used spent credited committed)"
    unfolding assms(7) pressure using stop by simp
  ultimately show ?thesis using paid_lane_ceiling_mono [OF mono, of lanes] by (simp add: used_def)
qed

theorem pressure_monotone_witness:
  "determine_pressure default_budget_policy 1000 100 None 700 0 50 0 1000 = YELLOW
   \<and> determine_pressure default_budget_policy 1000 100 None 900 0 100 0 1000 = HARD_STOP
   \<and> paid_lane_ceiling 8 HARD_STOP \<le> paid_lane_ceiling 8 YELLOW"
proof -
  have "determine_pressure default_budget_policy 1000 100 None 700 0 50 0 1000 = YELLOW"
    "determine_pressure default_budget_policy 1000 100 None 900 0 100 0 1000 = HARD_STOP"
    "valid_BudgetPolicy default_budget_policy" by code_simp+
  then show ?thesis
    using pressure_monotone [of default_budget_policy 700 900 0 0 50 100 0 0 1000 1000 YELLOW 1000 100 None HARD_STOP 8] by simp
qed

end
