(* ===== verification/BudgetEnvelopes.thy ===== *)
theory BudgetEnvelopes
  imports BudgetEvaluator
begin

text \<open>
  The soft envelopes divide the global limit among the providers without loss, and the percentiles of a
  forecast are percentiles of the history.
\<close>

section \<open>Soft envelopes\<close>

definition envelope_room :: "(string, int) dict \<Rightarrow> string \<Rightarrow> int" where
  "envelope_room caps p = max 0 (get_default caps p 0)"

text \<open>
  The state between two rounds: the allotments are within the caps, the limit is allotted or remains, and
  a provider that is no longer active has its whole cap.
\<close>

definition envelopes_ok ::
  "(string, int) dict \<Rightarrow> string set \<Rightarrow> int \<Rightarrow> int \<Rightarrow> (string, int) dict \<Rightarrow> bool" where
  "envelopes_ok caps P limit remaining allotted \<longleftrightarrow>
     0 \<le> remaining \<and> (\<forall>p \<in> P. 0 \<le> get_default allotted p 0 \<and> get_default allotted p 0 \<le> envelope_room caps p)
     \<and> (\<Sum>p \<in> P. get_default allotted p 0) + remaining = limit"

lemma sum_update:
  fixes v :: int
  assumes "finite P" "p \<in> P"
  shows "(\<Sum>q \<in> P. get_default (AList.update p v d) q 0) = (\<Sum>q \<in> P. get_default d q 0) + v - get_default d p 0"
proof -
  have "(\<Sum>q \<in> P. get_default (AList.update p v d) q 0) = v + (\<Sum>q \<in> P - {p}. get_default d q 0)"
    using assms by (simp add: sum.remove [of P p])
  then show ?thesis using assms by (simp add: sum.remove [of P p])
qed

lemma pay_shares_ok:
  assumes "finite P" "distinct (map fst shares)" "fst ` set shares \<subseteq> P"
    "\<forall>(p, n) \<in> set shares. 1 \<le> n \<and> get_default allotted p 0 + n \<le> envelope_room caps p"
    "envelopes_ok caps P limit remaining allotted" "pay_shares shares (remaining, allotted) = (remaining', allotted')"
  shows "envelopes_ok caps P limit remaining' allotted'" "shares \<noteq> [] \<Longrightarrow> 0 < remaining \<Longrightarrow> remaining' < remaining"
    "get_default allotted q 0 \<le> get_default allotted' q 0"
proof -
  have "envelopes_ok caps P limit remaining' allotted' \<and> remaining' \<le> remaining \<and> (shares \<noteq> [] \<longrightarrow> 0 < remaining \<longrightarrow> remaining' < remaining)
      \<and> get_default allotted q 0 \<le> get_default allotted' q 0"
    using assms(2-6)
  proof (induction shares arbitrary: remaining allotted)
    case (Cons share shares)
    obtain p n where share: "share = (p, n)" by (cases share)
    show ?case
    proof (cases "remaining \<le> 0")
      case False
      let ?m = "min n remaining"
      let ?al = "AList.update p (get_default allotted p 0 + ?m) allotted"
      have p: "p \<in> P" "1 \<le> n" "get_default allotted p 0 + n \<le> envelope_room caps p" "p \<notin> fst ` set shares"
        using Cons.prems(1-3) by (auto simp: share)
      have "(\<Sum>q \<in> P. get_default ?al q 0) = (\<Sum>q \<in> P. get_default allotted q 0) + ?m" unfolding sum_update [OF assms(1) p(1)] by simp
      then have "envelopes_ok caps P limit (remaining - ?m) ?al"
        using Cons.prems(4) p(2,3) False unfolding envelopes_ok_def by (auto simp del: get_default_update) (auto simp: min_def)
      moreover have "\<forall>(q, k) \<in> set shares. 1 \<le> k \<and> get_default ?al q 0 + k \<le> envelope_room caps q"
        using Cons.prems(3) p(4) by (force simp: share)
      ultimately show ?thesis using Cons.IH [where remaining = "remaining - ?m" and allotted = ?al] Cons.prems(1,2,5) False p(2) by (auto simp: share Let_def split: if_splits)
    qed (use Cons.prems in \<open>auto simp: share\<close>)
  qed simp
  then show "envelopes_ok caps P limit remaining' allotted'" "shares \<noteq> [] \<Longrightarrow> 0 < remaining \<Longrightarrow> remaining' < remaining"
    "get_default allotted q 0 \<le> get_default allotted' q 0" by blast+
qed

lemma envelope_shares_ok:
  assumes "distinct active"
  shows "distinct (map fst (envelope_shares caps demand remaining allotted active))"
    "fst ` set (envelope_shares caps demand remaining allotted active) = {p \<in> set active. get_default allotted p 0 < get_default caps p 0}"
    "\<forall>(p, n) \<in> set (envelope_shares caps demand remaining allotted active). 1 \<le> n \<and> get_default allotted p 0 + n \<le> envelope_room caps p"
  using assms by (auto simp: envelope_shares_def envelope_share_def envelope_room_def Let_def comp_def image_iff)

lemma rebalance_loop_ok:
  assumes "finite P" "distinct active" "set active \<subseteq> P" "envelopes_ok caps P limit remaining allotted"
    "\<forall>p \<in> P - set active. get_default allotted p 0 = envelope_room caps p"
    "result = rebalance_loop caps demand remaining allotted active"
  shows "(\<forall>p \<in> P. 0 \<le> get_default result p 0 \<and> get_default result p 0 \<le> envelope_room caps p)
    \<and> (\<Sum>p \<in> P. get_default result p 0) = min limit (\<Sum>p \<in> P. envelope_room caps p)"
  using assms(2-6)
proof (induction caps demand remaining allotted active rule: rebalance_loop.induct)
  case (1 caps demand remaining allotted active)
  have full: "(\<Sum>p \<in> P. get_default al p 0) = min limit (\<Sum>p \<in> P. envelope_room caps p)"
    if "envelopes_ok caps P limit rem al" "rem = 0 \<or> (\<forall>p \<in> P. get_default al p 0 = envelope_room caps p)" for rem al
  proof -
    have "(\<Sum>p \<in> P. get_default al p 0) \<le> (\<Sum>p \<in> P. envelope_room caps p)" using that(1) by (intro sum_mono) (simp add: envelopes_ok_def)
    moreover have "(\<Sum>p \<in> P. get_default al p 0) = (\<Sum>p \<in> P. envelope_room caps p)" if "\<forall>p \<in> P. get_default al p 0 = envelope_room caps p"
      using that by (intro sum.cong) auto
    ultimately show ?thesis using that by (auto simp: envelopes_ok_def)
  qed
  let ?shares = "envelope_shares caps demand remaining allotted active"
  obtain remaining' allotted' where pay: "pay_shares ?shares (remaining, allotted) = (remaining', allotted')" by fastforce
  let ?active = "filter (\<lambda>p. get_default allotted' p 0 < max 0 (get_default caps p 0)) active"
  note sh = envelope_shares_ok [OF 1(2), of caps demand remaining allotted]
  show ?case
  proof (cases "remaining > 0 \<and> active \<noteq> []")
    case False
    then have "result = allotted" unfolding 1(6) by (subst rebalance_loop.simps) auto
    then show ?thesis using full [OF 1(4)] 1(4,5) False by (auto simp: envelopes_ok_def)
  next
    case True
    have "fst ` set ?shares \<subseteq> P" using sh(2) 1(3) by auto
    note paid = pay_shares_ok [OF assms(1) sh(1) this sh(3) 1(4) pay]
    show ?thesis
    proof (cases "remaining' = remaining")
      case same: True
      then have none: "?shares = []" using paid(2) True by auto
      then have "result = allotted" using pay True unfolding 1(6) by (subst rebalance_loop.simps) auto
      moreover have "get_default allotted p 0 = envelope_room caps p" if "p \<in> P" for p
      proof (cases "p \<in> set active")
        case True
        then have "\<not> get_default allotted p 0 < get_default caps p 0" using sh(2) none by auto
        then show ?thesis using 1(4) that by (auto simp: envelopes_ok_def envelope_room_def)
      qed (use 1(5) that in auto)
      ultimately show ?thesis using full [OF 1(4)] 1(4) by (auto simp: envelopes_ok_def)
    next
      case False
      have "get_default allotted' p 0 = envelope_room caps p" if "p \<in> P - set ?active" for p
      proof (cases "p \<in> set active")
        case True
        then show ?thesis using paid(1) that by (auto simp: envelopes_ok_def envelope_room_def)
      next
        case inactive: False
        then have "get_default allotted p 0 = envelope_room caps p" using 1(5) that by auto
        then show ?thesis using paid(1) paid(3) [of p] that by (force simp: envelopes_ok_def)
      qed
      moreover have "result = rebalance_loop caps demand remaining' allotted' ?active"
        using pay True False unfolding 1(6) by (subst rebalance_loop.simps) simp
      moreover have "distinct ?active" "set ?active \<subseteq> P" using 1(2,3) by auto
      moreover have "remaining - remaining' \<noteq> 0" using False by simp
      ultimately show ?thesis using 1(1) [OF True pay [symmetric] refl refl refl] paid(1) by blast
    qed
  qed
qed

text \<open>
  C000. Rebalancing the provider envelopes always ends, gives no provider a negative share or more than its
  hard cap, and divides the global limit without loss: the shares add up to the limit, or to all caps when
  these are smaller.
\<close>

theorem rebalance_exact:
  assumes "distinct (map fst provider_hard_caps)"
    and "result = rebalance_provider_soft_envelopes global_limit provider_hard_caps demand"
  shows "(\<forall>p \<in> fst ` set provider_hard_caps.
       0 \<le> get_default result p 0 \<and> get_default result p 0 \<le> max 0 (get_default provider_hard_caps p 0))
     \<and> (\<Sum>p \<in> fst ` set provider_hard_caps. get_default result p 0) =
         min (max 0 global_limit) (\<Sum>p \<in> fst ` set provider_hard_caps. max 0 (get_default provider_hard_caps p 0))"
proof -
  let ?providers = "sort (map fst provider_hard_caps)"
  have zero: "get_default (map (\<lambda>p. (p, 0)) ps) p 0 = (0 :: int)" for p and ps :: "string list"
    by (induction ps) (auto simp: get_default_def)
  then have "envelopes_ok provider_hard_caps (fst ` set provider_hard_caps) (max 0 global_limit) (max 0 global_limit) (map (\<lambda>p. (p, 0)) ?providers)"
    by (simp add: envelopes_ok_def envelope_room_def)
  then show ?thesis
    using rebalance_loop_ok [of "fst ` set provider_hard_caps" ?providers provider_hard_caps "max 0 global_limit"
        "max 0 global_limit" "map (\<lambda>p. (p, 0)) ?providers" result demand] assms
    by (simp add: rebalance_provider_soft_envelopes_def Let_def envelope_room_def)
qed

theorem rebalance_exact_witness:
  "(let caps = [(''b'', 30), (''a'', 90), (''c'', - 5)];
        result = rebalance_provider_soft_envelopes 100 caps [(''a'', 3), (''b'', 1)]
    in result = [(''a'', 75), (''b'', 25), (''c'', 0)]
       \<and> (\<Sum>p \<in> fst ` set caps. get_default result p 0) = min 100 (\<Sum>p \<in> fst ` set caps. max 0 (get_default caps p 0)))"
proof -
  let ?caps = "[(''b'', 30), (''a'', 90), (''c'', - 5)] :: (string, int) dict"
  have "rebalance_provider_soft_envelopes 100 ?caps [(''a'', 3), (''b'', 1)] = [(''a'', 75), (''b'', 25), (''c'', 0)]" by code_simp
  moreover have "distinct (map fst ?caps)" by simp
  ultimately show ?thesis using rebalance_exact [OF _ refl, of ?caps 100 "[(''a'', 3), (''b'', 1)]"] unfolding Let_def by simp
qed

section \<open>Percentiles\<close>

lemma rank_counts:
  fixes xs :: "int list"
  assumes "sorted xs" "i < length xs"
  shows "i < length (filter (\<lambda>x. x \<le> xs ! i) xs)" "length (filter (\<lambda>x. x < xs ! i) xs) \<le> i"
proof -
  have count: "length (filter P xs) = card {j. j < length xs \<and> P (xs ! j)}" for P by (rule length_filter_conv_card)
  have "{0..i} \<subseteq> {j. j < length xs \<and> xs ! j \<le> xs ! i}" using assms by (auto intro: sorted_nth_mono)
  from card_mono [OF _ this] show "i < length (filter (\<lambda>x. x \<le> xs ! i) xs)" unfolding count by simp
  have "{j. j < length xs \<and> xs ! j < xs ! i} \<subseteq> {0..<i}"
    using assms sorted_nth_mono [of xs i] by (auto simp: not_less [symmetric]) (meson leD linorder_not_less)
  from card_mono [OF _ this] show "length (filter (\<lambda>x. x < xs ! i) xs) \<le> i" unfolding count by simp
qed

definition rank_of :: "rat \<Rightarrow> nat \<Rightarrow> int" where
  "rank_of q n = max 1 \<lceil>fl (q * of_int (int n))\<rceil>"

lemma nearest_rank_counts:
  assumes "xs \<noteq> []" "rank_of q (length xs) \<le> int (length xs)"
  shows "nearest_rank xs q \<in> set xs"
    "rank_of q (length xs) \<le> int (length (filter (\<lambda>x. x \<le> nearest_rank xs q) xs))"
    "int (length (filter (\<lambda>x. x < nearest_rank xs q) xs)) < rank_of q (length xs)"
proof -
  define i where "i = nat (rank_of q (length xs) - 1)"
  have i: "i < length (sort xs)" "int i = rank_of q (length xs) - 1" using assms by (auto simp: i_def rank_of_def)
  have "nearest_rank xs q = sort xs ! nat (min (int (length xs) - 1) (rank_of q (length xs) - 1))"
    using assms(1) by (simp add: nearest_rank_def Let_def rank_of_def)
  then have v: "nearest_rank xs q = sort xs ! i" using min_absorb2 [of "rank_of q (length xs) - 1" "int (length xs) - 1"] assms(2) by (simp add: i_def)
  have perm: "length (filter P xs) = length (filter P (sort xs))" for P by (metis mset_filter mset_sort size_mset)
  show "nearest_rank xs q \<in> set xs" using nth_mem [OF i(1)] v by simp
  show "rank_of q (length xs) \<le> int (length (filter (\<lambda>x. x \<le> nearest_rank xs q) xs))"
    using rank_counts(1) [OF sorted_sort i(1)] i(2) perm v by simp
  show "int (length (filter (\<lambda>x. x < nearest_rank xs q) xs)) < rank_of q (length xs)"
    using rank_counts(2) [OF sorted_sort i(1)] i(2) perm v by simp
qed

lemma fl_near:
  assumes "0 \<le> x" "x \<le> 2 ^ 48"
  shows "\<bar>fl x - x\<bar> \<le> 1 / 32"
proof -
  have "\<bar>x\<bar> / 2 ^ 53 \<le> 2 ^ 48 / 2 ^ 53" using assms by (intro divide_right_mono) simp_all
  then show ?thesis using fl_error [of x] by simp
qed

lemma rank_near:
  assumes "0 < n" "0 < a" "a < b" "\<bar>fl (q * of_int (int n)) - of_int a * of_int (int n) / of_int b\<bar> < 1 / of_int b"
  shows "a * int n \<le> b * rank_of q n" "b * (rank_of q n - 1) \<le> a * int n"
proof -
  let ?f = "fl (q * of_int (int n))"
  have b: "0 < (of_int b :: rat)" using assms(2,3) by simp
  have "of_int b * (?f - of_int a * of_int (int n) / of_int b) = of_int b * ?f - of_int (a * int n)"
    using b by (simp add: right_diff_distrib)
  then have "\<bar>of_int b * ?f - of_int (a * int n)\<bar> = of_int b * \<bar>?f - of_int a * of_int (int n) / of_int b\<bar>"
    using b by (metis abs_mult abs_of_pos)
  also have "\<dots> < 1" using assms(4) b by (simp add: pos_less_divide_eq mult.commute)
  finally have "\<bar>of_int b * ?f - of_int (a * int n)\<bar> < 1" .
  then have near: "of_int (a * int n) - 1 < of_int b * ?f" "of_int b * ?f < of_int (a * int n) + 1" by linarith+
  let ?c = "\<lceil>?f\<rceil>"
  have c: "of_int ?c - 1 < ?f" "?f \<le> of_int ?c" by linarith+
  have "of_int (a * int n) - 1 < (of_int (b * ?c) :: rat)" using near(1) mult_left_mono [OF c(2), of "of_int b"] b unfolding of_int_mult by linarith
  then have lower: "a * int n \<le> b * ?c" by linarith
  have "(of_int (b * (?c - 1)) :: rat) < of_int (a * int n) + 1" using near(2) mult_strict_left_mono [OF c(1) b] by simp
  then have upper: "b * (?c - 1) \<le> a * int n" by linarith
  have "b * ?c \<le> b * rank_of q n" using assms(2,3) by (intro mult_left_mono) (auto simp: rank_of_def)
  then show "a * int n \<le> b * rank_of q n" using lower by linarith
  show "b * (rank_of q n - 1) \<le> a * int n" using upper assms(1,2) by (auto simp: rank_of_def max_def)
qed

lemma nearest_rank_percentile:
  assumes "xs \<noteq> []" "0 < a" "a < b" "\<bar>fl (q * of_int (int (length xs))) - of_int a * of_int (int (length xs)) / of_int b\<bar> < 1 / of_int b"
  shows "nearest_rank xs q \<in> set xs" "a * int (length xs) \<le> b * int (length (filter (\<lambda>x. x \<le> nearest_rank xs q) xs))"
    "b * int (length (filter (\<lambda>x. x < nearest_rank xs q) xs)) \<le> a * int (length xs)"
proof -
  have n: "0 < length xs" using assms(1) by simp
  note near = rank_near [OF n assms(2-4)]
  have "a * int (length xs) < b * int (length xs)" using n assms(3) by simp
  then have "b * (rank_of q (length xs) - 1) < b * int (length xs)" using near(2) by linarith
  then have "rank_of q (length xs) \<le> int (length xs)" using assms(2,3) by simp
  note counts = nearest_rank_counts [OF assms(1) this]
  show "nearest_rank xs q \<in> set xs" by (rule counts(1))
  have "b * rank_of q (length xs) \<le> b * int (length (filter (\<lambda>x. x \<le> nearest_rank xs q) xs))"
    using counts(2) assms(2,3) by (intro mult_left_mono) simp_all
  then show "a * int (length xs) \<le> b * int (length (filter (\<lambda>x. x \<le> nearest_rank xs q) xs))" using near(1) by linarith
  have "b * int (length (filter (\<lambda>x. x < nearest_rank xs q) xs)) \<le> b * (rank_of q (length xs) - 1)"
    using counts(3) assms(2,3) by (intro mult_left_mono) simp_all
  then show "b * int (length (filter (\<lambda>x. x < nearest_rank xs q) xs)) \<le> a * int (length xs)" using near(2) by linarith
qed

lemma half_near: "n < 2 ^ 48 \<Longrightarrow> \<bar>fl (1 / 2 * of_int (int n)) - of_int 1 * of_int (int n) / of_int 2\<bar> < 1 / of_int 2"
proof -
  assume "n < 2 ^ 48"
  then have n: "(of_nat n :: rat) < of_nat (2 ^ 48)" by (rule of_nat_less_iff [THEN iffD2])
  have "\<bar>fl (1 / 2 * of_int (int n)) - 1 / 2 * of_int (int n)\<bar> \<le> 1 / 32" by (rule fl_near) (use n in simp_all)
  then show ?thesis by simp
qed

lemma ninety_near: "n < 2 ^ 48 \<Longrightarrow> \<bar>fl (fl (9 / 10) * of_int (int n)) - of_int 9 * of_int (int n) / of_int 10\<bar> < 1 / of_int 10"
proof -
  assume "n < 2 ^ 48"
  then have n: "(of_nat n :: rat) < of_nat (2 ^ 48)" by (rule of_nat_less_iff [THEN iffD2])
  have nine: "\<bar>fl (9 / 10) - 9 / 10\<bar> \<le> 9 / 10 / 2 ^ 53" using fl_error [of "9 / 10"] by simp
  have "(9 / 10 / 2 ^ 53 :: rat) \<le> 1 / 10" by simp
  then have bounds: "0 \<le> fl (9 / 10)" "fl (9 / 10) \<le> 1" using nine by linarith+
  have "\<bar>fl (fl (9 / 10) * of_int (int n)) - fl (9 / 10) * of_int (int n)\<bar> \<le> 1 / 32"
    using bounds n mult_mono [OF bounds(2), of "of_nat n" "2 ^ 48"] by (intro fl_near) simp_all
  moreover have "\<bar>fl (9 / 10) * of_nat n - 9 / 10 * of_nat n\<bar> \<le> 9 / 10 / 2 ^ 53 * 2 ^ 48"
    unfolding left_diff_distrib [symmetric] abs_mult using nine n by (intro mult_mono) simp_all
  moreover have "(9 / 10 / 2 ^ 53 * 2 ^ 48 :: rat) = 9 / 320" "of_int 9 * of_int (int n) / of_int 10 = (9 / 10 * of_nat n :: rat)"
    "(1 / of_int 10 :: rat) = 1 / 10" "(of_int (int n) :: rat) = of_nat n" by simp_all
  moreover have "\<bar>x - z\<bar> < 1 / 10" if "\<bar>x - y\<bar> \<le> 1 / 32" "\<bar>y - z\<bar> \<le> 9 / 320" for x y z :: rat using that by linarith
  ultimately show ?thesis by metis
qed

lemma nearest_rank_mono:
  assumes "xs \<noteq> []" "rank_of q (length xs) \<le> rank_of q' (length xs)"
  shows "nearest_rank xs q \<le> nearest_rank xs q'"
proof -
  have "nearest_rank xs q = sort xs ! nat (min (int (length xs) - 1) (rank_of q (length xs) - 1))" for q
    using assms(1) by (simp add: nearest_rank_def Let_def rank_of_def)
  moreover have "nat (min (int (length xs) - 1) (rank_of q' (length xs) - 1)) < length xs"
    using assms(1) by (cases xs) (auto simp: nat_less_iff rank_of_def)
  ultimately show ?thesis using assms(2) by (auto intro!: sorted_nth_mono)
qed

lemma p50_le_p90:
  assumes "xs \<noteq> []" "length xs < 2 ^ 48"
  shows "nearest_rank xs (1 / 2) \<le> nearest_rank xs (fl (9 / 10))"
proof (rule nearest_rank_mono [OF assms(1)])
  have n: "0 < length xs" using assms(1) by simp
  have "2 * (rank_of (1 / 2) (length xs) - 1) \<le> 1 * int (length xs)" "9 * int (length xs) \<le> 10 * rank_of (fl (9 / 10)) (length xs)"
    using rank_near(2) [OF n _ _ half_near [OF assms(2)]] rank_near(1) [OF n _ _ ninety_near [OF assms(2)]] by simp_all
  moreover have "1 \<le> rank_of (fl (9 / 10)) (length xs)" by (simp add: rank_of_def)
  ultimately show "rank_of (1 / 2) (length xs) \<le> rank_of (fl (9 / 10)) (length xs)" using n by presburger
qed

definition matching_costs :: "string option \<Rightarrow> string option \<Rightarrow> CostHistoryObservation list \<Rightarrow> int list" where
  "matching_costs task_class provider_id history =
     map (\<lambda>h. ho_cash h + ho_shadow_cost h)
       (filter (\<lambda>h. (task_class = None \<or> Some (ho_task_class h) = task_class)
                    \<and> (provider_id = None \<or> ho_provider_id h = provider_id)) history)"

text \<open>
  C000. With a matching history a forecast succeeds and its percentiles are those of the costs observed: each
  is one of the costs, at least half of the costs are at most \<open>p50\<close> and at most half are below it, at least nine
  tenths are at most \<open>p90\<close> and at most nine tenths are below it, and \<open>p50\<close> is at most \<open>p90\<close>.  The bound on the
  length of the history keeps the floating-point rank exact.
\<close>

theorem forecast_percentiles:
  assumes "\<forall>h \<in> set history. valid_CostHistoryObservation h"
    and "costs = matching_costs task_class provider_id history" "costs \<noteq> []" "length costs < 2 ^ 48"
    and "case remaining_budget of None \<Rightarrow> True | Some n \<Rightarrow> 0 \<le> n"
    and "budget_identifier ''FORECAST'' [project_id, or_star task_class, or_star provider_id, utc_isoformat now] = Inr forecast_id"
  shows "\<exists>f. build_cost_forecast project_id history task_class provider_id fallback_p50 fallback_p90 queued burn pace
       remaining_budget policy now = Inr f
     \<and> bf_sample_count f = int (length costs) \<and> bf_p50 f \<le> bf_p90 f \<and> {bf_p50 f, bf_p90 f} \<subseteq> set costs
     \<and> length costs \<le> 2 * length (filter (\<lambda>x. x \<le> bf_p50 f) costs) \<and> 2 * length (filter (\<lambda>x. x < bf_p50 f) costs) \<le> length costs
     \<and> 9 * length costs \<le> 10 * length (filter (\<lambda>x. x \<le> bf_p90 f) costs)
     \<and> 10 * length (filter (\<lambda>x. x < bf_p90 f) costs) \<le> 9 * length costs"
proof -
  let ?p50 = "nearest_rank costs (1 / 2)" and ?p90 = "nearest_rank costs (fl (9 / 10))"
  have costs: "\<forall>c \<in> set costs. 0 \<le> c" using assms(1) by (auto simp: assms(2) matching_costs_def valid_CostHistoryObservation_def)
  note half = nearest_rank_percentile [OF assms(3) _ _ half_near [OF assms(4)]]
  note ninety = nearest_rank_percentile [OF assms(3) _ _ ninety_near [OF assms(4)]]
  have p: "0 \<le> ?p50" "?p50 \<le> ?p90" "?p50 * max 0 queued \<le> ?p90 * max 0 queued"
    using costs half(1) p50_le_p90 [OF assms(3,4)] by (auto intro: mult_right_mono)
  define f where "f = \<lparr>bf_forecast_id = forecast_id, bf_project_id = project_id, bf_task_class = task_class,
    bf_provider_id = provider_id, bf_p50 = ?p50, bf_p90 = ?p90, bf_queued_p50 = ?p50 * max 0 queued,
    bf_queued_p90 = ?p90 * max 0 queued, bf_burn_rate_per_day = max 0 burn, bf_pace_ratio_milli = max 0 pace,
    bf_runway_days_milli = (case remaining_budget of Some n \<Rightarrow> if burn > 0 then Some (n * 1000 div burn) else None | None \<Rightarrow> None),
    bf_sample_count = int (length costs),
    bf_confidence = (if int (length costs) \<ge> po_minimum_history_samples_high policy then HIGH
                     else if int (length costs) \<ge> po_minimum_history_samples_medium policy then MEDIUM else LOW),
    bf_source = ''HISTORICAL_OBSERVATIONS'', bf_generated_at_utc = Aware now\<rparr>"
  have "build_cost_forecast project_id history task_class provider_id fallback_p50 fallback_p90 queued burn pace
      remaining_budget policy now = make_BudgetForecast f"
    using assms(3,6) by (simp add: build_cost_forecast_def Let_def f_def assms(2) matching_costs_def)
  moreover have "valid_BudgetForecast f"
    using p assms(5,6) by (auto simp: f_def valid_BudgetForecast_def length_between_def pos_imp_zdiv_nonneg_iff split: option.splits)
  ultimately have "build_cost_forecast project_id history task_class provider_id fallback_p50 fallback_p90 queued burn pace
      remaining_budget policy now = Inr f" by (simp add: make_BudgetForecast_def)
  then show ?thesis using half ninety p(2) by (intro exI [of _ f]) (auto simp: f_def)
qed

definition example_observation :: "int \<Rightarrow> CostHistoryObservation" where
  "example_observation cost =
     \<lparr>ho_observation_id = ''HISTORY-'' @ digest20 [''P'', ''T'', ''*'', utc_isoformat cost], ho_project_id = ''P'',
      ho_task_id = ''T'', ho_task_class = ''build'', ho_provider_id = None, ho_cash = cost, ho_shadow_cost = 0,
      ho_succeeded = True, ho_verified = True, ho_merged = True, ho_retry_count = 0, ho_rework_count = 0,
      ho_observed_at_utc = Aware cost\<rparr>"

theorem forecast_percentiles_witness:
  "\<exists>f. build_cost_forecast ''P'' (map example_observation [50, 10, 90, 30]) (Some ''build'') None 0 None 2 5 1000 (Some 70)
       default_budget_policy 0 = Inr f \<and> bf_p50 f \<in> {30, 50} \<and> bf_p90 f = 90"
proof -
  let ?history = "map example_observation [50, 10, 90, 30]"
  have blank: "py_strip (utc_isoformat t) \<noteq> []" for t
    by (auto simp: utc_isoformat_def py_strip_def strip_by_Nil is_space_def)
  have names: "py_strip ''P'' \<noteq> []" "py_strip ''T'' \<noteq> []" "py_strip ''*'' \<noteq> []" "py_strip ''build'' \<noteq> []" by code_simp+
  have costs: "[50, 10, 90, 30] = matching_costs (Some ''build'') None ?history"
    by (simp add: matching_costs_def example_observation_def)
  have history: "\<forall>h \<in> set ?history. valid_CostHistoryObservation h"
    using blank names by (simp add: valid_CostHistoryObservation_def example_observation_def budget_identifier_def or_star_def)
  have ident: "budget_identifier ''FORECAST'' [''P'', or_star (Some ''build''), or_star None, utc_isoformat 0] =
      Inr (''FORECAST-'' @ digest20 [''P'', ''build'', ''*'', utc_isoformat 0])"
    using blank names by (simp add: budget_identifier_def or_star_def)
  have size: "[50, 10, 90, 30 :: int] \<noteq> []" "length [50, 10, 90, 30 :: int] < 2 ^ 48" "case Some 70 of None \<Rightarrow> True | Some n \<Rightarrow> (0 :: int) \<le> n" by simp_all
  obtain f where f: "build_cost_forecast ''P'' ?history (Some ''build'') None 0 None 2 5 1000 (Some 70)
       default_budget_policy 0 = Inr f" "{bf_p50 f, bf_p90 f} \<subseteq> set [50, 10, 90, 30]"
     "length [50, 10, 90, 30 :: int] \<le> 2 * length (filter (\<lambda>x. x \<le> bf_p50 f) [50, 10, 90, 30])"
     "2 * length (filter (\<lambda>x. x < bf_p50 f) [50, 10, 90, 30]) \<le> length [50, 10, 90, 30 :: int]"
     "9 * length [50, 10, 90, 30 :: int] \<le> 10 * length (filter (\<lambda>x. x \<le> bf_p90 f) [50, 10, 90, 30])"
    using forecast_percentiles [OF history costs size ident] by blast
  then show ?thesis by (intro exI [of _ f]) auto
qed

end
