(* ===== verification/BudgetReservation.thy ===== *)
theory BudgetReservation
  imports BudgetCaps BudgetAdmission BudgetEnvelopes
begin

text \<open>
  What the budget store reads, when a reservation fits, and why an admitted request can be reserved.
\<close>

section \<open>Reading the totals\<close>

lemma sum_list_nonneg_filter: "\<forall>x \<in> set xs. 0 \<le> f x \<Longrightarrow> 0 \<le> sum_list (map f (filter P xs))" for f :: "'a \<Rightarrow> int"
  by (induction xs) auto

lemma cash_total_nonneg: "\<forall>e \<in> set xs. make_BudgetLedgerEntry e = Inr e \<Longrightarrow> 0 \<le> cash_total d k xs"
  unfolding cash_total_def using entry_fields(1) by (intro sum_list_nonneg_filter) blast

lemma read_ledger:
  assumes "budget_wf s"
  obtains ledger where "list_ledger None None s = Inr ledger" "\<forall>d k. cash_total d k ledger = cash_total d k (gs_ledger s)"
    "\<forall>q. quota_total q ledger = quota_total q (gs_ledger s)"
  using list_ledger_wf [OF assms] cash_total_perm quota_total_perm by metis

lemma read_active:
  assumes "budget_wf s"
  obtains active where "list_active_spend_leases now None s = Inr active"
    "\<forall>k. committed_total k active = sum_list (map (hold_cash k) (held_leases now s))"
    "\<forall>q. quota_reserved q active = sum_list (map (hold_quota q) (held_leases now s))"
proof -
  obtain active where a: "list_active_spend_leases now None s = Inr active" "mset active = mset (held_leases now s)"
    by (rule active_leases_wf [OF assms])
  have "sum_list (map f active) = sum_list (map f (held_leases now s))" for f :: "SpendLease \<Rightarrow> int"
    using sum_list_perm [OF a(2), of f "\<lambda>_. True"] by simp
  then show ?thesis using that [OF a(1)] by (simp add: committed_total_hold quota_reserved_hold)
qed

lemma held_valid: "budget_wf s \<Longrightarrow> l \<in> set (held_leases now s) \<Longrightarrow> make_SpendLease l = Inr l"
  by (auto simp: held_leases_def budget_wf_def)

lemma snapshot_reads:
  assumes "budget_wf s" "valid_BudgetLimit l" "0 \<le> p90" "0 \<le> pace"
  obtains n where "snapshot l policy p90 pace now s = Inr n" "bn_hard_cap n = bl_hard_cap l"
    "max 0 (bn_spent n - bn_credited n) + bn_committed n = cash_in_use (bl_scope_key l) now s"
    "bn_remaining_total n = max 0 (bl_hard_cap l - cash_in_use (bl_scope_key l) now s)"
    "bn_remaining_normal n = max 0 (bl_normal_cap l - cash_in_use (bl_scope_key l) now s)"
proof -
  let ?k = "bl_scope_key l"
  obtain ledger where led: "list_ledger None None s = Inr ledger" "\<forall>d k. cash_total d k ledger = cash_total d k (gs_ledger s)"
    by (rule read_ledger [OF assms(1)])
  obtain active where act: "list_active_spend_leases now None s = Inr active"
    "\<forall>k. committed_total k active = sum_list (map (hold_cash k) (held_leases now s))" by (rule read_active [OF assms(1)])
  have use: "max 0 (cash_total DEBIT ?k (gs_ledger s) - cash_total CREDIT ?k (gs_ledger s)) + sum_list (map (hold_cash ?k) (held_leases now s))
      = cash_in_use ?k now s" by (simp add: in_use_def net_spent_def)
  have nonneg: "0 \<le> cash_total d ?k (gs_ledger s)" for d using cash_total_nonneg assms(1) by (simp add: budget_wf_def)
  have held: "0 \<le> sum_list (map (hold_cash ?k) (held_leases now s))"
    using held_valid [OF assms(1)] lease_amounts(1) by (intro sum_list_nonneg) auto
  have cap: "0 \<le> bl_hard_cap l" "0 \<le> bl_protected_reserve l" "bl_protected_reserve l \<le> bl_hard_cap l" using assms(2) by (auto simp: valid_BudgetLimit_def)
  have run: "snapshot l policy p90 pace now s = Inr
     \<lparr>bn_scope_key = ?k, bn_hard_cap = bl_hard_cap l,
      bn_soft_cap = min (max 0 (bl_hard_cap l - bl_protected_reserve l))
        (max 0 (case bl_soft_cap l of Some soft \<Rightarrow> soft | None \<Rightarrow> bl_hard_cap l - bl_protected_reserve l)),
      bn_protected_reserve = bl_protected_reserve l, bn_spent = cash_total DEBIT ?k (gs_ledger s),
      bn_credited = cash_total CREDIT ?k (gs_ledger s), bn_committed = sum_list (map (hold_cash ?k) (held_leases now s)),
      bn_remaining_normal = max 0 (max 0 (bl_hard_cap l - bl_protected_reserve l) - cash_in_use ?k now s),
      bn_remaining_total = max 0 (bl_hard_cap l - cash_in_use ?k now s), bn_forecast_p90 = p90, bn_pace_ratio_milli = pace,
      bn_pressure_mode = determine_pressure policy (bl_hard_cap l) (bl_protected_reserve l) (bl_soft_cap l)
        (cash_total DEBIT ?k (gs_ledger s)) (cash_total CREDIT ?k (gs_ledger s)) (sum_list (map (hold_cash ?k) (held_leases now s))) p90 pace,
      bn_observed_at_utc = Aware now\<rparr>"
    using led act nonneg held cap assms(3,4) unfolding use [symmetric]
    by (simp add: snapshot_def cash_totals_def committed_def build_snapshot_def Let_def make_BudgetSnapshot_def valid_BudgetSnapshot_def)
  show ?thesis by (rule that [OF run]) (use use cap in \<open>simp_all add: bl_normal_cap_def\<close>)
qed

lemma quota_reads:
  assumes "budget_wf s"
  shows "quota_used_or_reserved q now s = Inr (quota_in_use q now s)"
proof -
  obtain ledger where led: "list_ledger None None s = Inr ledger" "\<forall>q. quota_total q ledger = quota_total q (gs_ledger s)"
    by (rule read_ledger [OF assms])
  obtain active where act: "list_active_spend_leases now None s = Inr active"
    "\<forall>q. quota_reserved q active = sum_list (map (hold_quota q) (held_leases now s))" by (rule read_active [OF assms])
  show ?thesis using led act by (simp add: quota_used_or_reserved_def in_use_def)
qed

section \<open>When a reservation fits\<close>

definition applies :: "string \<Rightarrow> BudgetAdmissionRequest \<Rightarrow> BudgetLimit \<Rightarrow> bool" where
  "applies c request l \<longleftrightarrow> bl_enabled l \<and> bl_cycle_id l = c \<and> bl_scope_key l \<in> set (ar_scope_keys request)"

definition requested :: "BudgetAdmissionRequest \<Rightarrow> int" where
  "requested request = (if ar_paid_incremental request then ar_estimated_p90 request else 0)"

definition quota_fits :: "BudgetAdmissionDecision \<Rightarrow> int \<Rightarrow> BudgetStore \<Rightarrow> string \<times> int \<Rightarrow> bool" where
  "quota_fits d now s = (\<lambda>(i, n). \<exists>q \<in> set (gs_quota_limits s). ql_enabled q \<and> ql_quota_id q = i
     \<and> quota_in_use i now s + n \<le> ql_capacity_units q - (if ba_reserve_authorized d then 0 else ql_protected_units q))"

definition fits :: "string \<Rightarrow> BudgetAdmissionRequest \<Rightarrow> BudgetAdmissionDecision \<Rightarrow> int \<Rightarrow> BudgetStore \<Rightarrow> bool" where
  "fits c request d now s \<longleftrightarrow>
     (ar_paid_incremental request \<longrightarrow> (\<exists>l \<in> set (gs_limits s). applies c request l))
     \<and> (\<forall>l \<in> set (gs_limits s). applies c request l \<longrightarrow> cash_in_use (bl_scope_key l) now s + requested request \<le> cap_of d l)
     \<and> (\<forall>item \<in> set (ar_quota_requirements request). quota_fits d now s item)"

text \<open>A key under which no lease was reserved before.\<close>

definition fresh_key :: "string \<Rightarrow> BudgetStore \<Rightarrow> bool" where
  "fresh_key key s \<longleftrightarrow> py_strip key \<noteq> [] \<and> length key \<le> 300
     \<and> (\<forall>r \<in> set (gs_leases s). gr_idempotency_key r \<noteq> key \<and> gr_lease_id r \<noteq> ''LEASE-'' @ digest20 [key])"

lemma applicable_limits_wf:
  assumes "budget_wf s"
  obtains limits where "applicable_limits c (ar_scope_keys request) s = Inr limits"
    "set limits = {l \<in> set (gs_limits s). applies c request l}"
  using limits_wf(1) [OF assms] by (auto simp: applicable_limits_def applies_def)

lemma quota_check_fits:
  assumes "budget_wf s" "list_ledger None None s = Inr ledger" "list_active_spend_leases now None s = Inr active"
    "list_quota_limits s = Inr quotas"
  shows "quota_check d (dict_of (map (\<lambda>q. (ql_quota_id q, q)) (filter ql_enabled quotas))) ledger active item = Inr ()
     \<longleftrightarrow> quota_fits d now s item"
proof -
  let ?d = "dict_of (map (\<lambda>q. (ql_quota_id q, q)) (filter ql_enabled quotas))"
  obtain i n where item: "item = (i, n)" by (cases item)
  have qs: "quotas = sort_key ql_quota_id (gs_quota_limits s)" using assms(4) limits_wf(2) [OF assms(1)] by simp
  have dist: "distinct (map ql_quota_id (filter ql_enabled quotas))"
    using assms(1) qs by (auto simp: budget_wf_def distinct_map_sort_key intro!: distinct_map_filter)
  have "map_of ?d i = Some q \<longleftrightarrow> q \<in> set (gs_quota_limits s) \<and> ql_enabled q \<and> ql_quota_id q = i" for q
  proof -
    have "distinct (map fst (map (\<lambda>q. (ql_quota_id q, q)) (filter ql_enabled quotas)))" using dist by (simp add: comp_def)
    note d = dict_of_distinct [OF this] map_of_eq_Some_iff [OF this, of i q]
    show ?thesis unfolding d using qs by auto
  qed
  note lookup = this
  show ?thesis
  proof (cases "map_of ?d i")
    case None
    then have "\<not> quota_fits d now s item" using lookup by (auto simp: quota_fits_def item)
    then show ?thesis using None by (simp add: quota_check_def item)
  next
    case (Some q)
    have "q' = q" if "q' \<in> set (gs_quota_limits s)" "ql_enabled q'" "ql_quota_id q' = i" for q'
      using lookup [of q'] that Some by simp
    then show ?thesis using quota_check_iff [OF assms(1-3) Some] lookup [of q] Some by (auto simp: quota_fits_def item)
  qed
qed

lemma map_res_unit: "(\<exists>us. map_res f xs = Inr us) \<longleftrightarrow> (\<forall>x \<in> set xs. f x = Inr ())" for f :: "'a \<Rightarrow> unit result"
proof (induction xs)
  case (Cons x xs)
  then show ?case by (cases "f x") (auto simp: res_bind_def split: sum.splits)
qed simp

lemma reserve_body_fits:
  assumes "budget_wf s" "find (\<lambda>r. gr_idempotency_key r = sl_idempotency_key candidate) (gs_leases s) = None"
  shows "reserve_body request d c candidate (requested request) now s = Inr (s', l) \<longleftrightarrow>
     fits c request d now s \<and> insert_spend_lease candidate s = Inr s' \<and> l = candidate"
proof -
  obtain limits where lim: "applicable_limits c (ar_scope_keys request) s = Inr limits"
    "set limits = {l \<in> set (gs_limits s). applies c request l}" by (rule applicable_limits_wf [OF assms(1)])
  obtain ledger where led: "list_ledger None None s = Inr ledger" by (rule read_ledger [OF assms(1)])
  obtain active where act: "list_active_spend_leases now None s = Inr active" by (rule read_active [OF assms(1)])
  obtain quotas where quo: "list_quota_limits s = Inr quotas" using limits_wf(2) [OF assms(1)] by blast
  let ?check = "quota_check d (dict_of (map (\<lambda>q. (ql_quota_id q, q)) (filter ql_enabled quotas))) ledger active"
  have none: "limits = [] \<longleftrightarrow> \<not> (\<exists>l \<in> set (gs_limits s). applies c request l)" using lim(2) by (metis (mono_tags, lifting) Collect_empty_eq set_empty)
  have over: "find (exceeds_limit d (requested request) ledger active) limits = None \<longleftrightarrow>
      (\<forall>l \<in> set (gs_limits s). applies c request l \<longrightarrow> cash_in_use (bl_scope_key l) now s + requested request \<le> cap_of d l)"
    unfolding find_None_iff using lim(2) exceeds_limit_iff [OF assms(1) led act] by auto
  have quo_ok: "(\<exists>us. map_res ?check (ar_quota_requirements request) = Inr us) \<longleftrightarrow> (\<forall>item \<in> set (ar_quota_requirements request). quota_fits d now s item)"
    unfolding map_res_unit using quota_check_fits [OF assms(1) led act quo] by simp
  have body: "reserve_body request d c candidate (requested request) now s = Inr (s', l) \<longleftrightarrow>
      \<not> (ar_paid_incremental request \<and> limits = []) \<and> find (exceeds_limit d (requested request) ledger active) limits = None
      \<and> (\<exists>us. map_res ?check (ar_quota_requirements request) = Inr us) \<and> insert_spend_lease candidate s = Inr s' \<and> l = candidate"
    using lim(1) led act quo assms(2) by (auto simp: reserve_body_def Let_def split: option.splits)
  show ?thesis unfolding body over quo_ok none fits_def by blast
qed

text \<open>The lease a reservation creates.\<close>

definition new_lease ::
  "BudgetAdmissionRequest \<Rightarrow> BudgetAdmissionDecision \<Rightarrow> string \<Rightarrow> int \<Rightarrow> int \<Rightarrow> SpendLease" where
  "new_lease request d key now expires =
     \<lparr>sl_lease_id = ''LEASE-'' @ digest20 [key], sl_idempotency_key = key, sl_project_id = ar_project_id request,
      sl_task_id = ar_task_id request, sl_provider_id = ar_provider_id request, sl_scope_keys = ar_scope_keys request,
      sl_maximum = ba_authorized d, sl_reserved = requested request, sl_consumed = 0,
      sl_quota_reservations = ar_quota_requirements request, sl_state = L_RESERVED,
      sl_reserve_reason = (if ba_reserve_authorized d then ar_reserve_reason request else None),
      sl_reservation_evidence = [ba_decision_id d], sl_created_at_utc = Aware now, sl_expires_at_utc = Aware expires,
      sl_updated_at_utc = Aware now, sl_reconciliation_required = False\<rparr>"

definition lease_row :: "SpendLease \<Rightarrow> SpendLeaseRow" where
  "lease_row l = \<lparr>gr_lease_id = sl_lease_id l, gr_idempotency_key = sl_idempotency_key l,
     gr_created_at_utc = utc_isoformat (instant (sl_created_at_utc l)), gr_payload = l\<rparr>"

definition reservable :: "BudgetPolicy \<Rightarrow> BudgetAdmissionRequest \<Rightarrow> BudgetAdmissionDecision \<Rightarrow> string \<Rightarrow> int \<Rightarrow> bool" where
  "reservable policy request d key now \<longleftrightarrow>
     valid_BudgetPolicy policy \<and> make_BudgetAdmissionRequest request = Inr request \<and> ba_admitted d
     \<and> requested request \<le> ba_authorized d \<and> requested request < 2 ^ 63
     \<and> valid_instant (now + po_lease_ttl_seconds policy * microseconds)"

lemma new_lease_valid:
  assumes "reservable policy request d key now" "py_strip key \<noteq> []" "length key \<le> 300"
  shows "make_SpendLease (new_lease request d key now (now + po_lease_ttl_seconds policy * microseconds)) =
     Inr (new_lease request d key now (now + po_lease_ttl_seconds policy * microseconds))"
    "reserve policy request d c key now s =
     reserve_body request d c (new_lease request d key now (now + po_lease_ttl_seconds policy * microseconds)) (requested request) now s"
    "holds_budget now (new_lease request d key now (now + po_lease_ttl_seconds policy * microseconds))"
proof -
  let ?expires = "now + po_lease_ttl_seconds policy * microseconds"
  let ?l = "new_lease request d key now ?expires"
  have key: "length_between 1 300 key" "budget_identifier ''LEASE'' [key] = Inr (''LEASE-'' @ digest20 [key])"
    using assms(2,3) by (auto simp: length_between_def budget_identifier_def py_strip_def strip_by_def Suc_le_eq)
  have "valid_BudgetAdmissionRequest request" "normal_scopes (ar_scope_keys request) = ar_scope_keys request"
    "sorted_items (ar_quota_requirements request) = ar_quota_requirements request"
    using assms(1) by (cases request; auto simp: reservable_def make_BudgetAdmissionRequest_def split: if_splits)+
  moreover have "now < ?expires" using assms(1) by (auto simp: reservable_def valid_BudgetPolicy_def microseconds_def)
  moreover have "0 \<le> requested request" using calculation(1) by (simp add: valid_BudgetAdmissionRequest_def requested_def)
  moreover have "0 \<le> ba_authorized d" using calculation(5) assms(1) by (simp add: reservable_def)
  ultimately show lease: "make_SpendLease ?l = Inr ?l" "holds_budget now ?l"
    using key assms(1)
    by (simp_all add: make_SpendLease_fixed valid_SpendLease_def new_lease_def valid_BudgetAdmissionRequest_def
      reservable_def holds_budget_def)
  show "reserve policy request d c key now s = reserve_body request d c ?l (requested request) now s"
    using assms(1) key(2) lease(1) by (simp add: reserve_def Let_def add_seconds_def reservable_def new_lease_def requested_def)
qed

lemma reserve_fits:
  assumes "budget_wf s" "reservable policy request d key now" "fresh_key key s"
  shows "reserve policy request d c key now s = Inr (s', l) \<longleftrightarrow>
     fits c request d now s \<and> l = new_lease request d key now (now + po_lease_ttl_seconds policy * microseconds)
     \<and> s' = s\<lparr>gs_leases := gs_leases s @ [lease_row l]\<rparr>"
proof -
  let ?l = "new_lease request d key now (now + po_lease_ttl_seconds policy * microseconds)"
  have "0 \<le> requested request" using new_lease_valid(1) [OF assms(2)] assms(3) lease_amounts
    by (auto simp: fresh_key_def new_lease_def make_SpendLease_fixed valid_SpendLease_def)
  then have "insert_spend_lease ?l s = Inr s' \<longleftrightarrow> s' = s\<lparr>gs_leases := gs_leases s @ [lease_row ?l]\<rparr>"
    using assms(2,3)
    by (auto simp: insert_spend_lease_def sqlite_ints_def new_lease_def list_ex_iff fresh_key_def reservable_def lease_row_def)
  moreover have "find (\<lambda>r. gr_idempotency_key r = sl_idempotency_key ?l) (gs_leases s) = None"
    using assms(3) by (simp add: find_None_iff fresh_key_def new_lease_def)
  ultimately show ?thesis
    using new_lease_valid(2) [OF assms(2), of c s] reserve_body_fits [OF assms(1), of ?l] assms(3) by (auto simp: fresh_key_def)
qed

lemma find_snoc: "\<forall>y \<in> set xs. \<not> P y \<Longrightarrow> P x \<Longrightarrow> find P (xs @ [x]) = Some x"
  by (induction xs) auto

lemma reserve_replay:
  assumes "reservable policy request d key now" "fresh_key key s"
    "l = new_lease request d key now (now + po_lease_ttl_seconds policy * microseconds)"
    "s' = s\<lparr>gs_leases := gs_leases s @ [lease_row l]\<rparr>"
  shows "reserve policy request d c key now s' = Inr (s', l)"
proof -
  have "find (\<lambda>r. gr_idempotency_key r = key) (gs_leases s @ [lease_row l]) = Some (lease_row l)"
    using assms(2) by (intro find_snoc) (auto simp: fresh_key_def lease_row_def assms(3) new_lease_def)
  then show ?thesis using new_lease_valid(1,2) [OF assms(1)] assms(2-4)
    by (simp add: fresh_key_def reserve_body_def new_lease_def lease_row_def)
qed

section \<open>From admission to reservation\<close>

lemma map_of_quota:
  assumes "budget_wf s" "list_quota_limits s = Inr quotas" "map_of (dict_of (map (\<lambda>q. (ql_quota_id q, q)) quotas)) i = Some q"
  shows "q \<in> set (gs_quota_limits s)" "ql_quota_id q = i"
proof -
  have "map_of (rev (map (\<lambda>q. (ql_quota_id q, q)) quotas)) i = Some q" using assms(3) by (simp add: dict_of_map_of)
  from map_of_SomeD [OF this] show "q \<in> set (gs_quota_limits s)" "ql_quota_id q = i"
    using assms(2) limits_wf(2) [OF assms(1)] by auto
qed

lemma quota_used_reads:
  assumes "budget_wf s"
    "map_res (\<lambda>(i, n). res_bind (quota_used_or_reserved i now s) (\<lambda>m. Inr (i, m))) items = Inr used" "(i, n) \<in> set items"
  shows "get_default (dict_of used) i 0 = quota_in_use i now s"
proof -
  have "used = map (\<lambda>(i, n). (i, quota_in_use i now s)) items"
    using assms(2) by (induction items arbitrary: used) (auto simp: quota_reads [OF assms(1)] split: prod.splits)
  moreover have "map_of (rev (map (\<lambda>(i, n). (i, quota_in_use i now s)) items)) i = Some (quota_in_use i now s)"
  proof -
    have "map_of ps i = Some v" if "\<forall>(j, w) \<in> set ps. j = i \<longrightarrow> w = v" "i \<in> fst ` set ps" for ps and v :: int
      using that by (induction ps) auto
    from this [of "rev (map (\<lambda>(i, n). (i, quota_in_use i now s)) items)"] show ?thesis using assms(3) by force
  qed
  ultimately show ?thesis by (simp add: get_default_def dict_of_map_of)
qed

lemma snapshots_read:
  assumes "budget_wf s" "0 \<le> f" "0 \<le> pace" "snapshots_for_request request c policy f pace now s = Inr ns"
    "l \<in> set (gs_limits s)" "applies c request l"
  obtains n where "n \<in> set ns" "snapshot l policy f pace now s = Inr n"
proof -
  obtain limits where "applicable_limits c (ar_scope_keys request) s = Inr limits"
    "set limits = {l \<in> set (gs_limits s). applies c request l}" by (rule applicable_limits_wf [OF assms(1)])
  then have limits: "l \<in> set limits" "map_res (\<lambda>l. snapshot l policy f pace now s) limits = Inr ns"
    using assms(4-6) by (simp_all add: snapshots_for_request_def)
  have "\<exists>n \<in> set ns. g l = Inr n" if "map_res g ls = Inr ns" "l \<in> set ls" for g :: "BudgetLimit \<Rightarrow> BudgetSnapshot result" and ls
    using that by (induction ls arbitrary: ns) auto
  from this [OF limits(2,1)] that show ?thesis by blast
qed

lemma snapshots_nonempty:
  assumes "budget_wf s" "snapshots_for_request request c policy f pace now s = Inr ns" "ns \<noteq> []"
  shows "\<exists>l \<in> set (gs_limits s). applies c request l"
proof -
  obtain limits where "applicable_limits c (ar_scope_keys request) s = Inr limits"
    "set limits = {l \<in> set (gs_limits s). applies c request l}" by (rule applicable_limits_wf [OF assms(1)])
  moreover have "limits \<noteq> []" using calculation(1) assms(2,3) by (auto simp: snapshots_for_request_def)
  ultimately show ?thesis by (metis (mono_tags, lifting) Collect_empty_eq set_empty)
qed

lemma admitted_fits:
  assumes "budget_wf s" "0 \<le> f" "0 \<le> pace" "admit isoformat policy request c f pace now s = Inr (s', d)" "ba_admitted d"
    "ar_paid_incremental request" "0 < ar_estimated_p90 request" "\<forall>(i, n) \<in> set (ar_quota_requirements request). 0 < n"
  shows "fits c request d now s" "ba_authorized d = ar_estimated_p90 request" "s' = save_decision d s"
proof -
  from assms(4) obtain ns quotas used where reads: "snapshots_for_request request c policy f pace now s = Inr ns"
    "list_quota_limits s = Inr quotas"
    "map_res (\<lambda>(i, n). res_bind (quota_used_or_reserved i now s) (\<lambda>m. Inr (i, m))) (ar_quota_requirements request) = Inr used"
    and eval: "evaluate_budget isoformat policy request ns (dict_of (map (\<lambda>q. (ql_quota_id q, q)) quotas)) (dict_of used) now = Inr d"
    and s': "s' = save_decision d s"
    by (auto simp: admit_def)
  note fields = evaluate_fields [OF eval]
  have money: "money_suffices policy request ns" using fields(1) assms(5,6) by simp
  have reserve: "ba_reserve_authorized d \<longleftrightarrow> may_use_reserve policy request" using fields(3) assms(5) by simp
  have "cash_in_use (bl_scope_key l) now s + requested request \<le> cap_of d l"
    if l: "l \<in> set (gs_limits s)" "applies c request l" for l
  proof -
    obtain n where n: "n \<in> set ns" "snapshot l policy f pace now s = Inr n" by (rule snapshots_read [OF assms(1-3) reads(1) l])
    have "valid_BudgetLimit l" using assms(1) l(1) by (simp add: budget_wf_def)
    then obtain n' where n': "snapshot l policy f pace now s = Inr n'"
      "bn_remaining_total n' = max 0 (bl_hard_cap l - cash_in_use (bl_scope_key l) now s)"
      "bn_remaining_normal n' = max 0 (bl_normal_cap l - cash_in_use (bl_scope_key l) now s)"
      by (rule snapshot_reads [OF assms(1) _ assms(2,3)])
    have "n' = n" using n(2) n'(1) by simp
    then have "remaining_for (may_use_reserve policy request) n = max 0 (cap_of d l - cash_in_use (bl_scope_key l) now s)"
      using n'(2,3) by (simp add: remaining_for_def cap_of_def reserve)
    moreover have "ar_estimated_p90 request \<le> remaining_for (may_use_reserve policy request) n" using money n(1) by (simp add: money_suffices_def)
    ultimately show ?thesis using assms(6,7) by (simp add: requested_def)
  qed
  moreover have "quota_fits d now s item" if item: "item \<in> set (ar_quota_requirements request)" for item
  proof -
    obtain i n where i: "item = (i, n)" by (cases item)
    then have "0 < n" using assms(8) item by blast
    have "quota_suffices (may_use_reserve policy request) (dict_of (map (\<lambda>q. (ql_quota_id q, q)) quotas)) (dict_of used) (i, n)"
      using fields(1) assms(5) item i by blast
    then obtain q where q: "map_of (dict_of (map (\<lambda>q. (ql_quota_id q, q)) quotas)) i = Some q" "ql_enabled q"
      "n \<le> max 0 (ql_capacity_units q - (if may_use_reserve policy request then 0 else ql_protected_units q) - max 0 (quota_in_use i now s))"
      using quota_used_reads [OF assms(1) reads(3), of i n] item i by (auto simp: quota_suffices_def)
    note known = map_of_quota [OF assms(1) reads(2) q(1)]
    have "quota_in_use i now s + n \<le> ql_capacity_units q - (if ba_reserve_authorized d then 0 else ql_protected_units q)"
      using q(3) \<open>0 < n\<close> unfolding reserve by linarith
    then show ?thesis using known q(2) by (auto simp: quota_fits_def i)
  qed
  moreover have "\<exists>l \<in> set (gs_limits s). applies c request l"
    using snapshots_nonempty [OF assms(1) reads(1)] money by (simp add: money_suffices_def)
  ultimately show "fits c request d now s" by (simp add: fits_def)
  show "ba_authorized d = ar_estimated_p90 request" using fields(2) assms(5,6) by simp
  show "s' = save_decision d s" by (rule s')
qed

lemma save_decision_keeps:
  "gs_leases (save_decision d s) = gs_leases s" "gs_limits (save_decision d s) = gs_limits s"
  "gs_quota_limits (save_decision d s) = gs_quota_limits s" "gs_ledger (save_decision d s) = gs_ledger s"
  by (simp_all add: save_decision_def)

lemma save_decision_views:
  "budget_wf (save_decision d s) = budget_wf s" "in_use charge hold now (save_decision d s) = in_use charge hold now s"
  "fresh_key key (save_decision d s) = fresh_key key s" "fits c request d' now (save_decision d s) = fits c request d' now s"
  by (simp_all add: budget_wf_def in_use_def held_leases_def fresh_key_def fits_def quota_fits_def save_decision_keeps)

lemma in_use_new_lease:
  assumes "reservable policy request d key now" "fresh_key key s"
    "l = new_lease request d key now (now + po_lease_ttl_seconds policy * microseconds)"
    "s' = s\<lparr>gs_leases := gs_leases s @ [lease_row l]\<rparr>"
  shows "cash_in_use k now s' = cash_in_use k now s + (if k \<in> set (ar_scope_keys request) then requested request else 0)"
    "quota_in_use q now s' = quota_in_use q now s + get_default (ar_quota_requirements request) q 0"
proof -
  have row: "gs_leases s' = gs_leases s @ [lease_row l]" "gs_ledger s' = gs_ledger s" "holds_budget now (gr_payload (lease_row l))"
    using new_lease_valid(3) [OF assms(1)] assms(2-4) by (simp_all add: lease_row_def fresh_key_def)
  show "cash_in_use k now s' = cash_in_use k now s + (if k \<in> set (ar_scope_keys request) then requested request else 0)"
    "quota_in_use q now s' = quota_in_use q now s + get_default (ar_quota_requirements request) q 0"
    using cash.in_use_append [OF row, of k] quota.in_use_append [OF row, of q]
    by (simp_all add: lease_row_def hold_cash_def hold_quota_def assms(3) new_lease_def)
qed

end
